(* ===== verification/Prelude.thy ===== *)
theory Prelude
  imports Main "HOL-Library.AList"
begin

text \<open>
  Shared ground of the development: the JavaScript containers the modelled TypeScript code uses,
  as executable HOL functions, with the facts the component theories rely on.

  \<^item> \<open>[...new Set(xs)]\<close> is \<open>uniq\<close>: the elements in order of first insertion, each once.
  \<^item> \<open>new Map(entries)\<close> is \<open>js_map\<close>: a later entry for a key replaces an earlier one.
  \<^item> a \<open>Map\<close> that is iterated is an association list under \<open>AList.update\<close>, which keeps the
    insertion order and replaces in place, as \<open>Map.prototype.set\<close> does.
  \<^item> \<open>Array.prototype.sort\<close> with a comparator is \<open>js_sort\<close>, stable as ECMAScript requires.
  \<^item> \<open>Array.prototype.find\<close> is \<open>List.find\<close>.
  \<^item> a thrown exception is \<open>Inl\<close> of an error value, a normal return is \<open>Inr\<close>.
\<close>

named_theorems js_simps \<open>facts about the JavaScript containers\<close>

text \<open>Keys (rule keys, criterion keys, file names, ids) are JavaScript strings.\<close>

type_synonym key = string

section \<open>Sets with insertion order\<close>

definition uniq :: "'a list \<Rightarrow> 'a list" where
  "uniq xs = rev (remdups (rev xs))"

lemma uniq_Nil [simp, js_simps]: "uniq [] = []"
  by (simp add: uniq_def)

lemma set_uniq [simp, js_simps]: "set (uniq xs) = set xs"
  by (simp add: uniq_def)

lemma distinct_uniq [simp, js_simps]: "distinct (uniq xs)"
  by (simp add: uniq_def)

lemma uniq_distinct [js_simps]: "distinct xs \<Longrightarrow> uniq xs = xs"
  by (simp add: uniq_def distinct_remdups_id)

lemma uniq_eq_Nil_iff [simp]: "uniq xs = [] \<longleftrightarrow> xs = []"
  by (simp add: uniq_def)

text \<open>\<open>Set.prototype.add\<close> on such a list.\<close>

definition set_add :: "'a \<Rightarrow> 'a list \<Rightarrow> 'a list" where
  "set_add x xs = (if x \<in> set xs then xs else xs @ [x])"

lemma set_set_add [simp, js_simps]: "set (set_add x xs) = insert x (set xs)"
  by (auto simp: set_add_def)

lemma distinct_set_add [simp, js_simps]: "distinct (set_add x xs) = distinct xs"
  by (auto simp: set_add_def)

section \<open>Maps built from a list of entries\<close>

definition js_map :: "('k \<times> 'v) list \<Rightarrow> 'k \<Rightarrow> 'v option" where
  "js_map kvs = map_of (rev kvs)"

lemma js_map_Nil [simp]: "js_map [] k = None"
  by (simp add: js_map_def)

lemma dom_js_map [js_simps]: "dom (js_map kvs) = fst ` set kvs"
  by (simp add: js_map_def dom_map_of_conv_image_fst)

lemma js_map_SomeD: "js_map kvs k = Some v \<Longrightarrow> (k, v) \<in> set kvs"
  by (auto simp: js_map_def dest: map_of_SomeD)

lemma js_map_NoneD: "js_map kvs k = None \<Longrightarrow> k \<notin> fst ` set kvs"
  by (simp add: js_map_def map_of_eq_None_iff)

lemma js_map_None_iff: "js_map kvs k = None \<longleftrightarrow> k \<notin> fst ` set kvs"
  by (simp add: js_map_def map_of_eq_None_iff)

lemma js_map_distinct:
  assumes "distinct (map fst kvs)" and "(k, v) \<in> set kvs"
  shows "js_map kvs k = Some v"
proof -
  from assms(1) have "distinct (map fst (rev kvs))" by (simp flip: rev_map)
  with assms(2) show ?thesis by (simp add: js_map_def)
qed

lemma js_map_distinct_eq: "distinct (map fst kvs) \<Longrightarrow> js_map kvs = map_of kvs"
  by (rule ext) (metis js_map_distinct js_map_def map_of_SomeD map_of_eq_None_iff not_Some_eq set_rev)

text \<open>A table of records indexed by one of its fields: the shape of most maps of the code.\<close>

definition index_by :: "('a \<Rightarrow> 'k) \<Rightarrow> 'a list \<Rightarrow> 'k \<Rightarrow> 'a option" where
  "index_by f xs = js_map (map (\<lambda>x. (f x, x)) xs)"

lemma index_by_SomeD: "index_by f xs k = Some x \<Longrightarrow> x \<in> set xs \<and> f x = k"
  by (auto simp: index_by_def dest: js_map_SomeD)

lemma index_by_None_iff: "index_by f xs k = None \<longleftrightarrow> k \<notin> f ` set xs"
  by (auto simp: index_by_def js_map_None_iff image_iff)

lemma index_by_distinct: "distinct (map f xs) \<Longrightarrow> x \<in> set xs \<Longrightarrow> index_by f xs (f x) = Some x"
  unfolding index_by_def by (rule js_map_distinct) (auto simp: o_def)

lemma index_by_ex: "x \<in> set xs \<Longrightarrow> \<exists>y. index_by f xs (f x) = Some y"
  by (metis imageI index_by_None_iff not_Some_eq)

lemma index_by_snoc: "index_by f (xs @ [x]) k = (if f x = k then Some x else index_by f xs k)"
  by (simp add: index_by_def js_map_def)

lemma index_by_map:
  "(\<And>x. f' (g x) = f x) \<Longrightarrow> index_by f' (map g xs) k = map_option g (index_by f xs k)"
  by (induction xs rule: rev_induct) (auto simp: index_by_snoc, simp add: index_by_def)

lemma map_filter_Nil_iff: "List.map_filter f xs = [] \<longleftrightarrow> (\<forall>x \<in> set xs. f x = None)"
  by (induction xs) (auto simp: map_filter_simps split: option.splits)

lemma set_map_filter: "set (List.map_filter f xs) = {y. \<exists>x \<in> set xs. f x = Some y}"
  by (induction xs) (auto simp: map_filter_simps split: option.splits)

section \<open>Stable sorting by a comparator\<close>

fun js_insert :: "('a \<Rightarrow> 'a \<Rightarrow> bool) \<Rightarrow> 'a \<Rightarrow> 'a list \<Rightarrow> 'a list" where
  "js_insert le x [] = [x]"
| "js_insert le x (y # ys) = (if le x y then x # y # ys else y # js_insert le x ys)"

definition js_sort :: "('a \<Rightarrow> 'a \<Rightarrow> bool) \<Rightarrow> 'a list \<Rightarrow> 'a list" where
  "js_sort le xs = foldr (js_insert le) xs []"

lemma js_sort_simps [simp]:
  "js_sort le [] = []"
  "js_sort le (x # xs) = js_insert le x (js_sort le xs)"
  by (simp_all add: js_sort_def)

lemma set_js_insert [simp]: "set (js_insert le x xs) = insert x (set xs)"
  by (induction xs) auto

lemma set_js_sort [simp, js_simps]: "set (js_sort le xs) = set xs"
  by (induction xs) auto

lemma length_js_insert [simp]: "length (js_insert le x xs) = Suc (length xs)"
  by (induction xs) auto

lemma length_js_sort [simp, js_simps]: "length (js_sort le xs) = length xs"
  by (induction xs) auto

lemma distinct_js_insert [simp]: "distinct (js_insert le x xs) \<longleftrightarrow> x \<notin> set xs \<and> distinct xs"
  by (induction xs) auto

lemma distinct_js_sort [simp, js_simps]: "distinct (js_sort le xs) = distinct xs"
  by (induction xs) auto

text \<open>A comparator is usable by \<open>sort\<close> when it is a total preorder.\<close>

definition total_preorder :: "('a \<Rightarrow> 'a \<Rightarrow> bool) \<Rightarrow> bool" where
  "total_preorder le \<longleftrightarrow> (\<forall>x y. le x y \<or> le y x) \<and> (\<forall>x y z. le x y \<longrightarrow> le y z \<longrightarrow> le x z)"

lemma sorted_js_insert:
  assumes "total_preorder le" and "sorted_wrt le xs"
  shows "sorted_wrt le (js_insert le x xs)"
  using assms(2)
proof (induction xs)
  case Nil
  then show ?case by simp
next
  case (Cons y ys)
  with assms(1) show ?case
    unfolding total_preorder_def by (auto; blast)
qed

lemma sorted_js_sort: "total_preorder le \<Longrightarrow> sorted_wrt le (js_sort le xs)"
  by (induction xs) (simp_all add: sorted_js_insert)

text \<open>Two sorted lists with the same elements and an antisymmetric order are the same list.\<close>

lemma sorted_wrt_unique:
  "sorted_wrt le xs \<Longrightarrow> sorted_wrt le ys \<Longrightarrow> distinct xs \<Longrightarrow> distinct ys \<Longrightarrow> set xs = set ys \<Longrightarrow>
   antisymp_on (set xs) le \<Longrightarrow> xs = ys"
proof (induction xs arbitrary: ys)
  case Nil
  then show ?case by simp
next
  case (Cons x xs)
  then obtain y ys' where ys: "ys = y # ys'" by (cases ys) auto
  have eq: "insert x (set xs) = insert y (set ys')" using Cons.prems(5) ys by simp
  have "x = y"
  proof (rule ccontr)
    assume "x \<noteq> y"
    have "y \<in> insert x (set xs)" "x \<in> insert y (set ys')"
      using eq by (metis insertI1)+
    with \<open>x \<noteq> y\<close> have yx: "y \<in> set xs" "x \<in> set ys'" by simp_all
    with Cons.prems(1,2) ys have "le x y" "le y x" by simp_all
    with yx Cons.prems(6) \<open>x \<noteq> y\<close> show False by (simp add: antisymp_on_def)
  qed
  moreover have "set xs = set ys'"
    using eq Cons.prems(3,4) ys \<open>x = y\<close> by (simp add: insert_ident)
  moreover have "antisymp_on (set xs) le"
    using Cons.prems(6) by (simp add: antisymp_on_def)
  ultimately show ?case
    using Cons.IH[of ys'] Cons.prems(1-4) ys by simp
qed

text \<open>
  \<open>Array.prototype.sort\<close> without a comparator, and \<open><\<close> on strings: by code unit. The characters of a
  key are ASCII in every order the code relies on (ids, uuids, hexadecimal digests).
\<close>

fun str_le :: "string \<Rightarrow> string \<Rightarrow> bool" where
  "str_le [] _ = True"
| "str_le (c # cs) [] = False"
| "str_le (c # cs) (d # ds) = (if c = d then str_le cs ds else (of_char c :: nat) < of_char d)"

lemma str_le_refl [simp]: "str_le s s"
  by (induction s) auto

lemma of_char_eq_nat [simp]: "(of_char c :: nat) = of_char d \<longleftrightarrow> c = d"
  by (metis char_of_char)

lemma str_le_total: "str_le s t \<or> str_le t s"
proof (induction s t rule: str_le.induct)
  case (3 c cs d ds)
  have "c = d \<or> (of_char c :: nat) < of_char d \<or> (of_char d :: nat) < of_char c"
    using of_char_eq_nat linorder_neqE_nat by blast
  with 3 show ?case by auto
qed auto

lemma str_le_Nil_iff [simp]: "str_le s [] \<longleftrightarrow> s = []"
  by (cases s) simp_all

lemma str_le_trans: "str_le s t \<Longrightarrow> str_le t u \<Longrightarrow> str_le s u"
proof (induction s t arbitrary: u rule: str_le.induct)
  case (3 c cs d ds)
  then show ?case by (cases u) (auto split: if_splits)
qed auto

lemma str_le_antisym: "str_le s t \<Longrightarrow> str_le t s \<Longrightarrow> s = t"
  by (induction s t rule: str_le.induct) (simp_all split: if_splits)

lemma total_preorder_str_le [simp]: "total_preorder str_le"
  using str_le_total str_le_trans by (auto simp: total_preorder_def)

lemma antisymp_on_str_le [simp]: "antisymp_on A str_le"
  using str_le_antisym by (auto simp: antisymp_on_def)

lemma sort_uniq_cong: "set xs = set ys \<Longrightarrow> js_sort str_le (uniq xs) = js_sort str_le (uniq ys)"
  by (rule sorted_wrt_unique[where le = str_le]) (simp_all add: sorted_js_sort)

section \<open>Strings\<close>

text \<open>\<open>s.split(c)\<close> for a single character; never empty.\<close>

fun split_on :: "'a \<Rightarrow> 'a list \<Rightarrow> 'a list list" where
  "split_on c [] = [[]]"
| "split_on c (x # xs) =
     (if x = c then [] # split_on c xs
      else (case split_on c xs of [] \<Rightarrow> [[x]] | p # ps \<Rightarrow> (x # p) # ps))"

lemma split_on_nonempty [simp]: "split_on c xs \<noteq> []"
  by (cases xs) (auto split: list.split)

lemma split_on_no_sep: "p \<in> set (split_on c xs) \<Longrightarrow> c \<notin> set p"
  by (induction xs arbitrary: p) (auto split: list.splits if_splits)

text \<open>\<open>toLowerCase\<close> on an ASCII character.\<close>

definition lower_char :: "char \<Rightarrow> char" where
  "lower_char c = (let n = of_char c :: nat in if 65 \<le> n \<and> n \<le> 90 then char_of (n + 32) else c)"

text \<open>\<open>s.startsWith(p)\<close> and \<open>parts.join(sep)\<close>.\<close>

fun starts_with :: "'a list \<Rightarrow> 'a list \<Rightarrow> bool" where
  "starts_with [] s = True"
| "starts_with (p # ps) [] = False"
| "starts_with (p # ps) (c # cs) = (p = c \<and> starts_with ps cs)"

lemma starts_with_iff: "starts_with p s \<longleftrightarrow> (\<exists>t. s = p @ t)"
  by (induction p s rule: starts_with.induct) auto

fun join_with :: "'a list \<Rightarrow> 'a list list \<Rightarrow> 'a list" where
  "join_with sep [] = []"
| "join_with sep [p] = p"
| "join_with sep (p # q # ps) = p @ sep @ join_with sep (q # ps)"

lemma join_split_on: "join_with [c] (split_on c xs) = xs"
proof (induction xs)
  case (Cons x xs)
  then show ?case by (cases "split_on c xs"; cases "tl (split_on c xs)") auto
qed simp

section \<open>Insertion-ordered maps\<close>

lemma map_of_update [js_simps]: "map_of (AList.update k v al) = (map_of al)(k \<mapsto> v)"
  by (rule AList.update_conv')

lemma set_fst_update: "fst ` set (AList.update k v al) = insert k (fst ` set al)"
  by (simp add: dom_update)

text \<open>A map filled by a loop over records, each under one of its fields.\<close>

lemma fold_update_map_of:
  "map_of (fold (\<lambda>c. AList.update (f c) c) cs m) k =
     (case index_by f cs k of Some c \<Rightarrow> Some c | None \<Rightarrow> map_of m k)"
proof (induction cs rule: rev_induct)
  case Nil
  then show ?case by (simp add: index_by_def)
next
  case (snoc c cs)
  then show ?case by (simp add: index_by_snoc js_simps)
qed

lemma distinct_fold_update: "distinct (map fst m) \<Longrightarrow> distinct (map fst (fold (\<lambda>c. AList.update (f c) c) cs m))"
  by (induction cs arbitrary: m) (simp_all add: distinct_update)

lemma index_by_append:
  "index_by f (xs @ ys) k = (case index_by f ys k of Some y \<Rightarrow> Some y | None \<Rightarrow> index_by f xs k)"
  by (induction ys rule: rev_induct) (simp_all add: index_by_snoc flip: append_assoc, simp add: index_by_def)

section \<open>Maps that may throw\<close>

text \<open>\<open>xs.map(f)\<close> for an \<open>f\<close> that may throw: the first error wins.\<close>

fun traverse :: "('a \<Rightarrow> 'e + 'b) \<Rightarrow> 'a list \<Rightarrow> 'e + 'b list" where
  "traverse f [] = Inr []"
| "traverse f (x # xs) = (case f x of Inl e \<Rightarrow> Inl e | Inr y \<Rightarrow>
     (case traverse f xs of Inl e \<Rightarrow> Inl e | Inr ys \<Rightarrow> Inr (y # ys)))"

lemma traverse_Inr: "(\<And>x. x \<in> set xs \<Longrightarrow> f x = Inr (g x)) \<Longrightarrow> traverse f xs = Inr (map g xs)"
  by (induction xs) auto

lemma traverse_InrD: "traverse f xs = Inr ys \<Longrightarrow> list_all2 (\<lambda>x y. f x = Inr y) xs ys"
  by (induction xs arbitrary: ys) (auto split: sum.splits)

section \<open>Sums over lists\<close>

lemma sum_list_le_mono:
  fixes f g :: "'a \<Rightarrow> int"
  shows "(\<And>x. x \<in> set xs \<Longrightarrow> f x \<le> g x) \<Longrightarrow> (\<Sum>x\<leftarrow>xs. f x) \<le> (\<Sum>x\<leftarrow>xs. g x)"
  by (induction xs) (auto simp: add_mono)

lemma sum_list_map_zero:
  fixes f :: "'a \<Rightarrow> int"
  shows "(\<And>x. x \<in> set xs \<Longrightarrow> f x = 0) \<Longrightarrow> (\<Sum>x\<leftarrow>xs. f x) = 0"
  by (induction xs) auto

lemma sum_list_nonneg_map:
  fixes f :: "'a \<Rightarrow> int"
  shows "(\<And>x. x \<in> set xs \<Longrightarrow> 0 \<le> f x) \<Longrightarrow> 0 \<le> (\<Sum>x\<leftarrow>xs. f x)"
  by (induction xs) auto

lemma fold_plus_sum_list:
  fixes f :: "'a \<Rightarrow> int"
  shows "fold (\<lambda>x s. s + f x) xs a = a + (\<Sum>x\<leftarrow>xs. f x)"
  by (induction xs arbitrary: a) auto

end
