(* ===== verification/Deduction.thy ===== *)
theory Deduction
  imports Prelude
begin

text \<open>
  The arithmetic of deduction scoring (\<open>grading/scoring/deduction-score.ts\<close>), the reading and printing
  of scores (\<open>scoring/hundredths.ts\<close>) and the choice of the current score (\<open>scoring/current-score.ts\<close>).

  Scores are integers, in hundredths of a point. A rule without a price (\<open>null\<close>, here \<open>None\<close>) deducts
  nothing and is returned for the caller to report. The two \<open>throw\<close>s are the values of
  \<open>score_error\<close>. The closed form of the score, its bounds, its monotonicity and its independence of
  the order of the diagnosis are proved from one characterisation of the loop (\<open>deduct_loop_spec\<close>).
\<close>

section \<open>Deduction scoring\<close>

record scoring_criterion =
  sc_key :: key
  sc_max :: int

record scoring_rule =
  sr_ruleKey :: key
  sr_criterionKey :: key
  sr_deduction :: "int option"

record per_criterion =
  pc_key :: key
  pc_max :: int
  pc_deducted :: int
  pc_capped :: bool

record deduction_score =
  ds_score :: int
  ds_max :: int
  ds_perCriterion :: "per_criterion list"
  ds_unpriced :: "key list"

datatype score_error = UnknownRule key | UnknownCriterion key key

text \<open>
  The loop over \<open>new Set(diagnosedRuleKeys)\<close>: \<open>deducted\<close> is the map from criterion keys to the sum
  deducted so far (absent keys read as 0), \<open>unpriced\<close> the keys of rules without a price, in order.
\<close>

fun deduct_loop :: "(key \<Rightarrow> scoring_rule option) \<Rightarrow> (key \<Rightarrow> bool) \<Rightarrow> key list \<Rightarrow>
    (key \<Rightarrow> int) \<Rightarrow> key list \<Rightarrow> score_error + ((key \<Rightarrow> int) \<times> key list)" where
  "deduct_loop byRule hasCriterion [] deducted unpriced = Inr (deducted, unpriced)"
| "deduct_loop byRule hasCriterion (k # ks) deducted unpriced =
    (case byRule k of
       None \<Rightarrow> Inl (UnknownRule k)
     | Some rule \<Rightarrow>
         if \<not> hasCriterion (sr_criterionKey rule) then Inl (UnknownCriterion k (sr_criterionKey rule))
         else case sr_deduction rule of
             None \<Rightarrow> deduct_loop byRule hasCriterion ks deducted (unpriced @ [k])
           | Some d \<Rightarrow>
               deduct_loop byRule hasCriterion ks
                 (deducted(sr_criterionKey rule := deducted (sr_criterionKey rule) + d)) unpriced)"

definition per_criterion_of :: "(key \<Rightarrow> int) \<Rightarrow> scoring_criterion \<Rightarrow> per_criterion" where
  "per_criterion_of deducted c =
     (let raw = deducted (sc_key c) in
      \<lparr>pc_key = sc_key c, pc_max = sc_max c, pc_deducted = min raw (sc_max c), pc_capped = sc_max c < raw\<rparr>)"

definition computeDeductionScore ::
  "scoring_criterion list \<Rightarrow> scoring_rule list \<Rightarrow> key list \<Rightarrow> score_error + deduction_score" where
  "computeDeductionScore criteria rules diagnosed =
     (case deduct_loop (index_by sr_ruleKey rules) (\<lambda>k. k \<in> sc_key ` set criteria) (uniq diagnosed) (\<lambda>_. 0) [] of
        Inl e \<Rightarrow> Inl e
      | Inr (deducted, unpriced) \<Rightarrow>
          (let maxH = (\<Sum>c\<leftarrow>criteria. sc_max c);
               per = map (per_criterion_of deducted) criteria;
               total = (\<Sum>c\<leftarrow>per. pc_deducted c)
           in Inr \<lparr>ds_score = max 0 (maxH - total), ds_max = maxH,
                   ds_perCriterion = per, ds_unpriced = unpriced\<rparr>))"

subsection \<open>What the loop computes\<close>

text \<open>The deduction a diagnosed key charges to a criterion; 0 for an unpriced or unknown rule.\<close>

definition charge :: "(key \<Rightarrow> scoring_rule option) \<Rightarrow> key \<Rightarrow> key \<Rightarrow> int" where
  "charge byRule c k = (case byRule k of
      None \<Rightarrow> 0
    | Some r \<Rightarrow> if sr_criterionKey r = c then (case sr_deduction r of None \<Rightarrow> 0 | Some d \<Rightarrow> d) else 0)"

definition is_unpriced :: "(key \<Rightarrow> scoring_rule option) \<Rightarrow> key \<Rightarrow> bool" where
  "is_unpriced byRule k \<longleftrightarrow> (\<exists>r. byRule k = Some r \<and> sr_deduction r = None)"

definition key_ok :: "(key \<Rightarrow> scoring_rule option) \<Rightarrow> (key \<Rightarrow> bool) \<Rightarrow> key \<Rightarrow> bool" where
  "key_ok byRule has k \<longleftrightarrow> (\<exists>r. byRule k = Some r \<and> has (sr_criterionKey r))"

lemma is_unpriced_code [code]:
  "is_unpriced byRule k = (case byRule k of None \<Rightarrow> False | Some r \<Rightarrow> sr_deduction r = None)"
  by (auto simp: is_unpriced_def split: option.splits)

lemma key_ok_code [code]:
  "key_ok byRule has k = (case byRule k of None \<Rightarrow> False | Some r \<Rightarrow> has (sr_criterionKey r))"
  by (auto simp: key_ok_def split: option.splits)

lemma deduct_loop_spec:
  "list_all (key_ok byRule has) ks \<Longrightarrow>
   deduct_loop byRule has ks ded un =
     Inr (\<lambda>c. ded c + (\<Sum>k\<leftarrow>ks. charge byRule c k), un @ filter (is_unpriced byRule) ks)"
proof (induction ks arbitrary: ded un)
  case Nil
  then show ?case by simp
next
  case (Cons k ks)
  then obtain r where r: "byRule k = Some r" "has (sr_criterionKey r)" by (auto simp: key_ok_def)
  show ?case
  proof (cases "sr_deduction r")
    case None
    with Cons r show ?thesis by (auto simp: charge_def is_unpriced_def)
  next
    case (Some d)
    with Cons r show ?thesis by (auto simp: charge_def is_unpriced_def fun_eq_iff)
  qed
qed

lemma deduct_loop_error:
  "\<not> list_all (key_ok byRule has) ks \<Longrightarrow> \<exists>e. deduct_loop byRule has ks ded un = Inl e"
  by (induction ks arbitrary: ded un) (auto simp: key_ok_def split: option.splits)

text \<open>The well-formed calls: every diagnosed key names a rule of the table that points into the rubric.\<close>

definition diagnosis_ok :: "scoring_criterion list \<Rightarrow> scoring_rule list \<Rightarrow> key list \<Rightarrow> bool" where
  "diagnosis_ok criteria rules ks \<longleftrightarrow>
     list_all (key_ok (index_by sr_ruleKey rules) (\<lambda>k. k \<in> sc_key ` set criteria)) (uniq ks)"

lemma diagnosis_ok_set:
  "diagnosis_ok criteria rules ks \<longleftrightarrow>
     (\<forall>k \<in> set ks. key_ok (index_by sr_ruleKey rules) (\<lambda>k. k \<in> sc_key ` set criteria) k)"
  by (simp add: diagnosis_ok_def list_all_iff)

text \<open>The sum charged to one criterion by a diagnosis, each rule counted once.\<close>

definition charged :: "scoring_rule list \<Rightarrow> key list \<Rightarrow> key \<Rightarrow> int" where
  "charged rules ks c = (\<Sum>k\<in>set ks. charge (index_by sr_ruleKey rules) c k)"

lemma sum_uniq: "(\<Sum>k\<leftarrow>uniq ks. f k) = (\<Sum>k\<in>set ks. (f k :: int))"
  by (simp add: sum_list_distinct_conv_sum_set)

definition score_formula :: "scoring_criterion list \<Rightarrow> scoring_rule list \<Rightarrow> key list \<Rightarrow> int" where
  "score_formula criteria rules ks =
     max 0 ((\<Sum>c\<leftarrow>criteria. sc_max c) - (\<Sum>c\<leftarrow>criteria. min (charged rules ks (sc_key c)) (sc_max c)))"

lemma computeDeductionScore_Inr:
  assumes "diagnosis_ok criteria rules ks"
  shows "computeDeductionScore criteria rules ks = Inr
     \<lparr>ds_score = score_formula criteria rules ks,
      ds_max = (\<Sum>c\<leftarrow>criteria. sc_max c),
      ds_perCriterion = map (\<lambda>c. \<lparr>pc_key = sc_key c, pc_max = sc_max c,
         pc_deducted = min (charged rules ks (sc_key c)) (sc_max c),
         pc_capped = sc_max c < charged rules ks (sc_key c)\<rparr>) criteria,
      ds_unpriced = filter (is_unpriced (index_by sr_ruleKey rules)) (uniq ks)\<rparr>"
  using assms
  by (simp add: computeDeductionScore_def diagnosis_ok_def deduct_loop_spec sum_uniq charged_def
      score_formula_def per_criterion_of_def Let_def o_def)

lemma computeDeductionScore_Inl:
  assumes "\<not> diagnosis_ok criteria rules ks"
  shows "\<exists>e. computeDeductionScore criteria rules ks = Inl e"
proof -
  obtain e where "deduct_loop (index_by sr_ruleKey rules) (\<lambda>k. k \<in> sc_key ` set criteria) (uniq ks) (\<lambda>_. 0) [] = Inl e"
    using deduct_loop_error assms unfolding diagnosis_ok_def by blast
  then show ?thesis by (simp add: computeDeductionScore_def)
qed

lemma computeDeductionScore_cases:
  assumes "computeDeductionScore criteria rules ks = Inr d"
  shows "diagnosis_ok criteria rules ks"
  using assms computeDeductionScore_Inl by fastforce

lemma charged_nonneg:
  "\<forall>r \<in> set rules. \<forall>d. sr_deduction r = Some d \<longrightarrow> 0 \<le> d \<Longrightarrow> 0 \<le> charged rules ks c"
  unfolding charged_def
  by (intro sum_nonneg) (auto simp: charge_def split: option.splits dest: index_by_SomeD)

lemma charged_mono:
  "\<forall>r \<in> set rules. \<forall>d. sr_deduction r = Some d \<longrightarrow> 0 \<le> d \<Longrightarrow> set ks \<subseteq> set ks' \<Longrightarrow>
   charged rules ks c \<le> charged rules ks' c"
  unfolding charged_def
  by (intro sum_mono2) (auto simp: charge_def split: option.splits dest: index_by_SomeD)

text \<open>Every price is a non-negative number of hundredths, and every criterion has a non-negative ceiling.\<close>

definition prices_ok :: "scoring_rule list \<Rightarrow> bool" where
  "prices_ok rules \<longleftrightarrow> list_all (\<lambda>r. case sr_deduction r of None \<Rightarrow> True | Some d \<Rightarrow> 0 \<le> d) rules"

definition rubric_ok :: "scoring_criterion list \<Rightarrow> bool" where
  "rubric_ok criteria \<longleftrightarrow> list_all (\<lambda>c. 0 \<le> sc_max c) criteria"

lemma prices_okD: "prices_ok rules \<Longrightarrow> \<forall>r \<in> set rules. \<forall>d. sr_deduction r = Some d \<longrightarrow> 0 \<le> d"
  by (auto simp: prices_ok_def list_all_iff split: option.splits)

lemma rubric_okD: "rubric_ok criteria \<Longrightarrow> c \<in> set criteria \<Longrightarrow> 0 \<le> sc_max c"
  by (auto simp: rubric_ok_def list_all_iff)

lemma score_formula_bounds:
  assumes "prices_ok rules" "rubric_ok criteria"
  shows "0 \<le> score_formula criteria rules ks"
    and "score_formula criteria rules ks \<le> (\<Sum>c\<leftarrow>criteria. sc_max c)"
proof -
  show "0 \<le> score_formula criteria rules ks" by (simp add: score_formula_def)
  have "0 \<le> (\<Sum>c\<leftarrow>criteria. min (charged rules ks (sc_key c)) (sc_max c))"
    using assms by (intro sum_list_nonneg_map) (simp add: charged_nonneg prices_okD rubric_okD)
  moreover have "0 \<le> (\<Sum>c\<leftarrow>criteria. sc_max c)"
    using assms(2) by (intro sum_list_nonneg_map) (simp add: rubric_okD)
  ultimately show "score_formula criteria rules ks \<le> (\<Sum>c\<leftarrow>criteria. sc_max c)"
    by (simp add: score_formula_def)
qed

text \<open>The floor of the formula is never needed: no criterion loses more than its ceiling.\<close>

lemma score_formula_no_floor:
  "score_formula criteria rules ks =
     (\<Sum>c\<leftarrow>criteria. sc_max c) - (\<Sum>c\<leftarrow>criteria. min (charged rules ks (sc_key c)) (sc_max c))"
proof -
  have "(\<Sum>c\<leftarrow>criteria. min (charged rules ks (sc_key c)) (sc_max c)) \<le> (\<Sum>c\<leftarrow>criteria. sc_max c)"
    by (rule sum_list_le_mono) simp
  then show ?thesis by (simp add: score_formula_def)
qed

lemma score_formula_antimono:
  assumes "prices_ok rules" "set ks \<subseteq> set ks'"
  shows "score_formula criteria rules ks' \<le> score_formula criteria rules ks"
proof -
  have "(\<Sum>c\<leftarrow>criteria. min (charged rules ks (sc_key c)) (sc_max c))
      \<le> (\<Sum>c\<leftarrow>criteria. min (charged rules ks' (sc_key c)) (sc_max c))"
    using charged_mono[OF prices_okD[OF assms(1)] assms(2)]
    by (intro sum_list_le_mono) (simp add: min.coboundedI1)
  then show ?thesis by (simp add: score_formula_def)
qed

end
