(* ===== verification/Hundredths.thy ===== *)
theory Hundredths
  imports Prelude
begin

text \<open>
  Scores as text: \<open>parseHundredths\<close> and \<open>formatHundredths\<close> of \<open>grading/scoring/hundredths.ts\<close>, and
  \<open>currentScore\<close> of \<open>scoring/current-score.ts\<close>, the one function every reader of a score goes through.

  The regular expression \<open>^(\d{1,4})(?:\.(\d{1,2}))?$\<close> is the deterministic scan \<open>scan_score\<close>: its
  parts never overlap, so no backtracking is lost. White space is the ASCII part of what \<open>trim\<close>
  removes. The two \<open>throw\<close>s are \<open>Inl BadScore\<close>.
\<close>

datatype hundredths_error = BadScore

section \<open>Digits\<close>

definition is_digit :: "char \<Rightarrow> bool" where
  "is_digit c \<longleftrightarrow> 48 \<le> (of_char c :: nat) \<and> (of_char c :: nat) \<le> 57"

definition digit_val :: "char \<Rightarrow> nat" where
  "digit_val c = of_char c - 48"

definition digit_char :: "nat \<Rightarrow> char" where
  "digit_char n = char_of (48 + n)"

definition number_of_digits :: "string \<Rightarrow> nat" where
  "number_of_digits ds = fold (\<lambda>c n. 10 * n + digit_val c) ds 0"

fun show_nat :: "nat \<Rightarrow> string" where
  "show_nat n = (if n < 10 then [digit_char n] else show_nat (n div 10) @ [digit_char (n mod 10)])"

declare show_nat.simps [simp del]

lemma digit_char_props [simp]:
  assumes "n < 10"
  shows "is_digit (digit_char n)" and "digit_val (digit_char n) = n"
  using assms by (simp_all add: is_digit_def digit_val_def digit_char_def)

lemma digit_char_0: "digit_char 0 = CHR ''0''"
  by code_simp

lemma is_digit_0 [simp]: "is_digit CHR ''0''"
  by (simp add: is_digit_def)

lemma number_of_digits_snoc [simp]: "number_of_digits (ds @ [c]) = 10 * number_of_digits ds + digit_val c"
  by (simp add: number_of_digits_def)

lemma number_of_digits_Nil [simp]: "number_of_digits [] = 0"
  by (simp add: number_of_digits_def)

lemma show_nat_digits: "list_all is_digit (show_nat n)"
proof (induction n rule: show_nat.induct)
  case (1 n)
  then show ?case by (subst show_nat.simps) simp
qed

lemma number_of_show_nat [simp]: "number_of_digits (show_nat n) = n"
proof (induction n rule: show_nat.induct)
  case (1 n)
  show ?case
  proof (cases "n < 10")
    case True
    then show ?thesis using number_of_digits_snoc[of "[]"] by (subst show_nat.simps) simp
  next
    case False
    with 1 show ?thesis by (subst show_nat.simps) simp
  qed
qed

lemma show_nat_nonempty [simp]: "show_nat n \<noteq> []"
  by (subst show_nat.simps) simp

lemma length_show_nat: "0 < k \<Longrightarrow> length (show_nat n) \<le> k \<longleftrightarrow> n < 10 ^ k"
proof (induction n arbitrary: k rule: show_nat.induct)
  case (1 n)
  show ?case
  proof (cases "n < 10")
    case True
    have "(10::nat) ^ 1 \<le> 10 ^ k" using "1.prems" by (intro power_increasing) simp_all
    with True "1.prems" show ?thesis by (subst show_nat.simps) simp
  next
    case False
    show ?thesis
    proof (cases "k = 1")
      case True
      with False show ?thesis by (subst show_nat.simps) simp
    next
      case k1: False
      with "1.prems" obtain j where k: "k = Suc j" "0 < j" by (cases k) auto
      have "length (show_nat n) = Suc (length (show_nat (n div 10)))"
        using False by (subst show_nat.simps) simp
      with k have "length (show_nat n) \<le> k \<longleftrightarrow> length (show_nat (n div 10)) \<le> j" by simp
      also have "\<dots> \<longleftrightarrow> n div 10 < 10 ^ j" using False k by (intro 1) simp_all
      also have "\<dots> \<longleftrightarrow> n < 10 ^ k" using k by (simp add: div_less_iff_less_mult mult.commute)
      finally show ?thesis .
    qed
  qed
qed

section \<open>Reading and printing a score\<close>

definition is_space :: "char \<Rightarrow> bool" where
  "is_space c \<longleftrightarrow> (let n = (of_char c :: nat) in (9 \<le> n \<and> n \<le> 13) \<or> n = 32)"

definition js_trim :: "string \<Rightarrow> string" where
  "js_trim s = rev (dropWhile is_space (rev (dropWhile is_space s)))"

text \<open>Whole part and fraction digits of a score, or \<open>None\<close> when the pattern does not match.\<close>

definition scan_score :: "string \<Rightarrow> (string \<times> string) option" where
  "scan_score s =
     (let whole = takeWhile is_digit s; rest = dropWhile is_digit s in
      if length whole < 1 \<or> 4 < length whole then None
      else case rest of
          [] \<Rightarrow> Some (whole, [])
        | c # fr \<Rightarrow>
            if c = CHR ''.'' \<and> list_all is_digit fr \<and> 1 \<le> length fr \<and> length fr \<le> 2
            then Some (whole, fr) else None)"

text \<open>\<open>padEnd(2, '0')\<close> and \<open>padStart(2, '0')\<close>.\<close>

definition pad_end2 :: "string \<Rightarrow> string" where
  "pad_end2 s = s @ replicate (2 - length s) CHR ''0''"

definition pad_start2 :: "string \<Rightarrow> string" where
  "pad_start2 s = replicate (2 - length s) CHR ''0'' @ s"

definition parseHundredths :: "string \<Rightarrow> hundredths_error + int" where
  "parseHundredths value =
     (case scan_score (js_trim value) of
        None \<Rightarrow> Inl BadScore
      | Some (whole, fr) \<Rightarrow>
          Inr (int (number_of_digits whole) * 100
               + (if fr = [] then 0 else int (number_of_digits (pad_end2 fr)))))"

definition formatHundredths :: "int \<Rightarrow> hundredths_error + string" where
  "formatHundredths value =
     (if value < 0 then Inl BadScore
      else Inr (show_nat (nat (value div 100)) @ ''.'' @ pad_start2 (show_nat (nat (value mod 100)))))"

lemma is_digit_not_space: "is_digit c \<Longrightarrow> \<not> is_space c"
  by (auto simp: is_digit_def is_space_def Let_def)

lemma not_is_digit_dot [simp]: "\<not> is_digit (CHR ''.'')"
  by (simp add: is_digit_def)

lemma js_trim_id: "s \<noteq> [] \<Longrightarrow> \<not> is_space (hd s) \<Longrightarrow> \<not> is_space (last s) \<Longrightarrow> js_trim s = s"
proof -
  assume a: "s \<noteq> []" "\<not> is_space (hd s)" "\<not> is_space (last s)"
  from a(1,2) have "dropWhile is_space s = s" by (cases s) simp_all
  moreover from a(1,3) have "dropWhile is_space (rev s) = rev s" by (cases s rule: rev_cases) simp_all
  ultimately show ?thesis by (simp add: js_trim_def)
qed

lemma scan_score_parts:
  assumes "list_all is_digit w" "list_all is_digit f" "1 \<le> length w" "length w \<le> 4" "1 \<le> length f" "length f \<le> 2"
  shows "scan_score (w @ ''.'' @ f) = Some (w, f)"
proof -
  have "takeWhile is_digit (w @ ''.'' @ f) = w" "dropWhile is_digit (w @ ''.'' @ f) = ''.'' @ f"
    using assms(1) by (simp_all add: takeWhile_append2 dropWhile_append2 list_all_iff)
  with assms show ?thesis by (auto simp: scan_score_def)
qed

text \<open>The last two digits, with a leading zero.\<close>

lemma pad_start2_show:
  assumes "n < 100"
  shows "list_all is_digit (pad_start2 (show_nat n))" "length (pad_start2 (show_nat n)) = 2"
    "number_of_digits (pad_start2 (show_nat n)) = n"
proof -
  have two: "pad_start2 (show_nat n) = [digit_char (n div 10), digit_char (n mod 10)]"
  proof (cases "n < 10")
    case True
    then show ?thesis by (subst show_nat.simps) (simp add: pad_start2_def digit_char_0)
  next
    case False
    have "n div 10 < 10" using assms by simp
    with False show ?thesis
      by (subst show_nat.simps, subst show_nat.simps) (simp add: pad_start2_def)
  qed
  have "n div 10 < 10" using assms by simp
  with two show "list_all is_digit (pad_start2 (show_nat n))" "length (pad_start2 (show_nat n)) = 2"
    by simp_all
  show "number_of_digits (pad_start2 (show_nat n)) = n"
    using \<open>n div 10 < 10\<close> by (simp add: two number_of_digits_def)
qed

lemma format_shape:
  assumes "0 \<le> v"
  obtains w f where "formatHundredths v = Inr (w @ ''.'' @ f)" "w = show_nat (nat (v div 100))"
    "f = pad_start2 (show_nat (nat (v mod 100)))"
    "list_all is_digit f" "length f = 2" "number_of_digits f = nat (v mod 100)"
proof (rule that)
  have "nat (v mod 100) < 100" using pos_mod_bound[of 100 v] by linarith
  note p = pad_start2_show[OF this]
  show "list_all is_digit (pad_start2 (show_nat (nat (v mod 100))))" by (rule p(1))
  show "length (pad_start2 (show_nat (nat (v mod 100)))) = 2" by (rule p(2))
  show "number_of_digits (pad_start2 (show_nat (nat (v mod 100)))) = nat (v mod 100)" by (rule p(3))
qed (use assms in \<open>simp_all add: formatHundredths_def\<close>)

lemma parse_format:
  assumes "0 \<le> v" "v < 1000000"
  shows "\<exists>s. formatHundredths v = Inr s \<and> parseHundredths s = Inr v"
proof -
  obtain w f where fmt: "formatHundredths v = Inr (w @ ''.'' @ f)" and w: "w = show_nat (nat (v div 100))"
    and f: "list_all is_digit f" "length f = 2" "number_of_digits f = nat (v mod 100)"
    using assms(1) format_shape by metis
  have wd: "list_all is_digit w" "w \<noteq> []" by (simp_all add: w show_nat_digits)
  have "nat (v div 100) < 10 ^ 4" using assms by simp
  then have wl: "length w \<le> 4" "1 \<le> length w"
    using length_show_nat[of 4 "nat (v div 100)"] wd(2) by (simp_all add: w Suc_le_eq)
  have trim: "js_trim (w @ ''.'' @ f) = w @ ''.'' @ f"
  proof (rule js_trim_id)
    show "\<not> is_space (hd (w @ ''.'' @ f))"
      using wd by (cases w) (simp_all add: is_digit_not_space)
    have "f \<noteq> []" using f(2) by auto
    then have "last (w @ ''.'' @ f) \<in> set f" by simp
    with f(1) show "\<not> is_space (last (w @ ''.'' @ f))" by (simp add: list_all_iff is_digit_not_space)
  qed simp
  have "scan_score (w @ ''.'' @ f) = Some (w, f)"
    using wd wl f by (intro scan_score_parts) simp_all
  moreover have "pad_end2 f = f" "f \<noteq> []" using f(2) by (auto simp: pad_end2_def)
  ultimately have "parseHundredths (w @ ''.'' @ f) = Inr (int (number_of_digits w) * 100 + int (number_of_digits f))"
    by (simp only: parseHundredths_def trim) simp
  also have "\<dots> = Inr v" using assms(1) by (simp add: f(3) w pos_imp_zdiv_nonneg_iff)
  finally show ?thesis using fmt by blast
qed

text \<open>A string that parses denotes a score of at most 9999.99 points.\<close>

lemma number_of_digits_less: "list_all is_digit ds \<Longrightarrow> number_of_digits ds < 10 ^ length ds"
proof (induction ds rule: rev_induct)
  case (snoc c ds)
  then have "number_of_digits ds + 1 \<le> 10 ^ length ds" and "digit_val c < 10"
    by (auto simp: digit_val_def is_digit_def)
  then show ?case by simp
qed simp

lemma scan_score_SomeD:
  assumes "scan_score s = Some (w, f)"
  shows "list_all is_digit w" "1 \<le> length w" "length w \<le> 4" "list_all is_digit f" "length f \<le> 2"
proof -
  have w: "w = takeWhile is_digit s" and "1 \<le> length w" "length w \<le> 4"
    using assms by (auto simp: scan_score_def Let_def Suc_le_eq split: if_splits list.splits)
  then show "1 \<le> length w" "length w \<le> 4" by simp_all
  show "list_all is_digit w" unfolding w by (auto simp: list_all_iff dest: set_takeWhileD)
  show "list_all is_digit f" "length f \<le> 2"
    using assms by (auto simp: scan_score_def Let_def split: if_splits list.splits)
qed

lemma parse_bounds:
  assumes "parseHundredths s = Inr v"
  shows "0 \<le> v" "v < 1000000"
proof -
  obtain w f where sc: "scan_score (js_trim s) = Some (w, f)"
    and v: "v = int (number_of_digits w) * 100 + (if f = [] then 0 else int (number_of_digits (pad_end2 f)))"
    using assms by (auto simp: parseHundredths_def split: option.splits)
  note d = scan_score_SomeD[OF sc]
  have "number_of_digits w < 10 ^ length w" using d(1) by (rule number_of_digits_less)
  also have "\<dots> \<le> 10 ^ 4" using d(3) by (intro power_increasing) simp_all
  finally have w: "number_of_digits w < 10000" by simp
  have "list_all is_digit (pad_end2 f)" using d(4) by (simp add: pad_end2_def list_all_iff set_replicate_conv_if)
  then have "number_of_digits (pad_end2 f) < 10 ^ length (pad_end2 f)" by (rule number_of_digits_less)
  moreover have "length (pad_end2 f) = 2" using d(5) by (simp add: pad_end2_def)
  ultimately have "number_of_digits (pad_end2 f) < 100" by simp
  with w v show "0 \<le> v" "v < 1000000" by (auto split: if_splits)
qed

section \<open>The current score\<close>

datatype pipeline = Investigator | OneShot

datatype score_source = Manual | Review | Finalized | Computation | Ai | NoScore

record 't current_score_input =
  cs_pipeline :: pipeline
  cs_aiTotalScore :: "'t option"
  cs_latestScoredReview :: "'t option"
  cs_latestManualScore :: "'t option"
  cs_finalized :: bool
  cs_finalizedComputationScore :: "'t option"
  cs_latestComputationScore :: "'t option"

text \<open>
  The columns are Postgres \<open>numeric\<close> values; \<open>'t\<close> is the type the driver returns them in (text, or the
  hundredths of \<open>Ledger\<close>), and \<open>Number\<close> reads one and is a parameter. The latest scored review is represented by its \<open>finalScore\<close>, the only field read.
\<close>

definition currentScore :: "('t \<Rightarrow> 'n) \<Rightarrow> 't current_score_input \<Rightarrow> 'n option \<times> score_source" where
  "currentScore Number x =
     (if cs_pipeline x = OneShot then
        (case cs_latestScoredReview x of
           Some s \<Rightarrow> (Some (Number s), Review)
         | None \<Rightarrow> (case cs_aiTotalScore x of None \<Rightarrow> (None, NoScore) | Some s \<Rightarrow> (Some (Number s), Ai)))
      else case cs_latestManualScore x of
          Some s \<Rightarrow> (Some (Number s), Manual)
        | None \<Rightarrow>
            (case (if cs_finalized x then cs_finalizedComputationScore x else None) of
               Some s \<Rightarrow> (Some (Number s), Finalized)
             | None \<Rightarrow>
                 (case cs_latestComputationScore x of
                    Some s \<Rightarrow> (Some (Number s), Computation)
                  | None \<Rightarrow> (None, NoScore))))"

lemma currentScore_none_iff: "fst (currentScore Number x) = None \<longleftrightarrow> snd (currentScore Number x) = NoScore"
  by (auto simp: currentScore_def split: option.splits if_splits)

lemma currentScore_investigator_not_ai:
  "cs_pipeline x = Investigator \<Longrightarrow> currentScore Number (x\<lparr>cs_aiTotalScore := a\<rparr>) = currentScore Number x"
  by (simp add: currentScore_def split: option.split)

end
