(* ===== verification/JsNumber.thy ===== *)
theory JsNumber
  imports Complex_Main Prelude
begin

text \<open>
  JavaScript numbers that are not integers. A \<open>number\<close> is an IEEE-754 double, and \<open>+\<close>, \<open>*\<close>, \<open>/\<close>
  return the exact result rounded to the nearest double (ties to even). The model keeps the value of
  a double as an exact rational and writes every rounding out: \<open>fl x\<close> is the double nearest to \<open>x\<close>.

  Bounds: only the significand (53 bits) is modelled. Overflow and subnormal numbers are not, since
  the modelled code computes with values between \<open>10\<^sup>-\<^sup>9\<close> and \<open>10\<^sup>1\<^sup>2\<close>. Integers (hundredths of a
  point, milliseconds, counters) stay below \<open>2\<^sup>5\<^sup>3\<close> and are modelled by \<open>int\<close>.

  The locale \<open>rounding\<close> states what the client code relies on: rounding is monotone, leaves integers
  below \<open>2\<^sup>5\<^sup>3\<close> alone and has a relative error of at most \<open>2\<^sup>-\<^sup>5\<^sup>3\<close>. It is interpreted on \<open>fl\<close>.
\<close>

section \<open>Rounding to 53 bits\<close>

fun bits :: "int \<Rightarrow> nat" where
  "bits n = (if n \<le> 0 then 0 else Suc (bits (n div 2)))"

declare bits.simps [simp del]

lemma bits_bounds: "0 < n \<Longrightarrow> 2 ^ bits n \<le> 2 * n \<and> n < 2 ^ bits n"
proof (induction n rule: bits.induct)
  case (1 n)
  show ?case
  proof (cases "n = 1")
    case True
    then show ?thesis by (simp add: bits.simps)
  next
    case False
    with 1 have "2 ^ bits (n div 2) \<le> 2 * (n div 2) \<and> n div 2 < 2 ^ bits (n div 2)" by simp
    moreover have "bits n = Suc (bits (n div 2))" using 1 by (simp add: bits.simps[of n])
    then have "(2::int) ^ bits n = 2 * 2 ^ bits (n div 2)" by simp
    ultimately show ?thesis by linarith
  qed
qed

text \<open>\<open>pow2 e\<close> is \<open>2\<^sup>e\<close> for a possibly negative exponent.\<close>

definition pow2 :: "int \<Rightarrow> rat" where
  "pow2 e = (if 0 \<le> e then 2 ^ nat e else 1 / 2 ^ nat (- e))"

lemma pow2_powi: "pow2 e = 2 powi e"
proof (cases "0 \<le> e")
  case True
  then show ?thesis by (simp add: pow2_def power_int_def)
next
  case False
  then show ?thesis by (simp add: pow2_def power_int_def inverse_eq_divide power_one_over)
qed

lemma pow2_pos [simp]: "0 < pow2 e" and pow2_nonzero [simp]: "pow2 e \<noteq> 0"
  by (simp_all add: pow2_powi)

lemma pow2_add: "pow2 (a + b) = pow2 a * pow2 b"
  by (simp add: pow2_powi power_int_add)

lemma pow2_nat: "pow2 (int n) = 2 ^ n"
  by (simp add: pow2_def)

lemma pow2_mono: "a \<le> b \<Longrightarrow> pow2 a \<le> pow2 b"
  unfolding pow2_powi by (rule power_int_increasing) simp_all

lemma pow2_less: "a < b \<Longrightarrow> 2 * pow2 a \<le> pow2 b"
proof -
  assume "a < b"
  then have "pow2 (a + 1) \<le> pow2 b" by (intro pow2_mono) simp
  then show ?thesis by (simp add: pow2_add) (simp add: pow2_def)
qed

text \<open>The exponent of the last bit of the double nearest to a positive rational.\<close>

definition dexp :: "rat \<Rightarrow> int" where
  "dexp x = (case quotient_of x of (a, b) \<Rightarrow>
     let d = int (bits a) - int (bits b) in
     if x < pow2 d then d - 53 else d - 52)"

text \<open>Round half to even.\<close>

definition rne :: "rat \<Rightarrow> int" where
  "rne x = (let f = \<lfloor>x\<rfloor>; r = x - of_int f in
     if r < 1 / 2 then f else if 1 / 2 < r then f + 1 else if even f then f else f + 1)"

definition fl :: "rat \<Rightarrow> rat" where
  "fl x = (if x = 0 then 0
           else if x < 0 then - (of_int (rne (- x / pow2 (dexp (- x)))) * pow2 (dexp (- x)))
           else of_int (rne (x / pow2 (dexp x))) * pow2 (dexp x))"

lemma dexp_bounds:
  assumes "0 < x"
  shows "2 ^ 52 * pow2 (dexp x) \<le> x" and "x < 2 ^ 53 * pow2 (dexp x)"
proof -
  obtain a b where q: "quotient_of x = (a, b)" by fastforce
  then have x: "x = of_int a / of_int b" and b: "0 < b"
    by (simp_all add: quotient_of_div quotient_of_denom_pos)
  with assms have a: "0 < a" by (simp add: zero_less_divide_iff)
  have bnd: "\<And>n. 0 < n \<Longrightarrow> (2::rat) ^ bits n \<le> 2 * of_int n \<and> (of_int n :: rat) < 2 ^ bits n"
  proof -
    fix n :: int assume "0 < n"
    then have "2 ^ bits n \<le> 2 * n" "n < 2 ^ bits n" using bits_bounds by blast+
    then have "(of_int (2 ^ bits n) :: rat) \<le> of_int (2 * n)" "(of_int n :: rat) < of_int (2 ^ bits n)"
      by (simp_all only: of_int_le_iff of_int_less_iff)
    then show "(2::rat) ^ bits n \<le> 2 * of_int n \<and> (of_int n :: rat) < 2 ^ bits n" by simp
  qed
  define d where "d = int (bits a) - int (bits b)"
  have d: "pow2 d * 2 ^ bits b = 2 ^ bits a"
    unfolding d_def by (metis add.commute diff_add_cancel pow2_add pow2_nat)
  have ub: "x < 2 * pow2 d"
  proof -
    have "of_int a < (2::rat) ^ bits a" using bnd[OF a] by simp
    also have "\<dots> = pow2 d * 2 ^ bits b" using d by simp
    also have "\<dots> \<le> pow2 d * (2 * of_int b)" using bnd[OF b] by (intro mult_left_mono) (simp_all add: less_imp_le)
    finally show ?thesis using b by (simp add: x field_simps)
  qed
  have lb: "pow2 d < 2 * x"
  proof -
    have "pow2 d * of_int b < pow2 d * 2 ^ bits b" using bnd[OF b] by simp
    also have "\<dots> = 2 ^ bits a" by (rule d)
    also have "\<dots> \<le> 2 * of_int a" using bnd[OF a] by simp
    finally show ?thesis using b by (simp add: x field_simps)
  qed
  have e53: "pow2 (d - 53) * 2 ^ 53 = pow2 d" and e52: "pow2 (d - 52) * 2 ^ 52 = pow2 d"
    using pow2_add[of "d - 53" 53] pow2_add[of "d - 52" 52] by (simp_all add: pow2_def[of 53] pow2_def[of 52])
  have "dexp x = (if x < pow2 d then d - 53 else d - 52)"
    by (simp add: dexp_def q d_def)
  then show "2 ^ 52 * pow2 (dexp x) \<le> x" and "x < 2 ^ 53 * pow2 (dexp x)"
    using ub lb e53 e52 by (auto split: if_splits)
qed

lemma rne_mono: "x \<le> y \<Longrightarrow> rne x \<le> rne y"
proof -
  assume "x \<le> y"
  then have le: "\<lfloor>x\<rfloor> \<le> \<lfloor>y\<rfloor>" by (rule floor_mono)
  show ?thesis
  proof (cases "\<lfloor>x\<rfloor> = \<lfloor>y\<rfloor>")
    case True
    with \<open>x \<le> y\<close> show ?thesis by (auto simp: rne_def Let_def)
  next
    case False
    with le have "\<lfloor>x\<rfloor> + 1 \<le> \<lfloor>y\<rfloor>" by simp
    moreover have "rne x \<le> \<lfloor>x\<rfloor> + 1" "\<lfloor>y\<rfloor> \<le> rne y" by (auto simp: rne_def Let_def)
    ultimately show ?thesis by linarith
  qed
qed

lemma rne_of_int [simp]: "rne (of_int n) = n"
  by (simp add: rne_def Let_def)

lemma rne_error: "\<bar>of_int (rne x) - x\<bar> \<le> 1 / 2"
  unfolding rne_def Let_def by (auto simp: abs_if; linarith)

lemma fl_zero [simp]: "fl 0 = 0"
  by (simp add: fl_def)

lemma fl_minus: "fl (- x) = - fl x"
  by (simp add: fl_def)

lemma fl_pos_eq: "0 < x \<Longrightarrow> fl x = of_int (rne (x / pow2 (dexp x))) * pow2 (dexp x)"
  by (simp add: fl_def)

lemma fl_pos_bounds:
  assumes "0 < x"
  shows "2 ^ 52 * pow2 (dexp x) \<le> fl x" and "fl x \<le> 2 ^ 53 * pow2 (dexp x)"
proof -
  have "of_int (2 ^ 52) \<le> x / pow2 (dexp x)" "x / pow2 (dexp x) \<le> of_int (2 ^ 53)"
    using dexp_bounds[OF assms] by (simp_all add: field_simps)
  then have "2 ^ 52 \<le> rne (x / pow2 (dexp x))" "rne (x / pow2 (dexp x)) \<le> 2 ^ 53"
    using rne_mono rne_of_int by metis+
  then have "(of_int (2 ^ 52) :: rat) \<le> of_int (rne (x / pow2 (dexp x)))"
    "(of_int (rne (x / pow2 (dexp x))) :: rat) \<le> of_int (2 ^ 53)"
    by (simp_all only: of_int_le_iff)
  then show "2 ^ 52 * pow2 (dexp x) \<le> fl x" and "fl x \<le> 2 ^ 53 * pow2 (dexp x)"
    by (simp_all add: fl_pos_eq[OF assms] mult_right_mono)
qed

lemma fl_pos: "0 < x \<Longrightarrow> 0 < fl x"
  using fl_pos_bounds(1)[of x] by (rule less_le_trans[rotated]) simp_all

lemma dexp_mono: "0 < x \<Longrightarrow> x \<le> y \<Longrightarrow> dexp x \<le> dexp y"
proof (rule ccontr)
  assume x: "0 < x" and "x \<le> y" and "\<not> dexp x \<le> dexp y"
  then have "2 * pow2 (dexp y) \<le> pow2 (dexp x)" by (intro pow2_less) simp
  with dexp_bounds(1)[OF x] dexp_bounds(2)[of y] x \<open>x \<le> y\<close> show False by simp
qed

lemma fl_mono_pos:
  assumes "0 < x" and "x \<le> y"
  shows "fl x \<le> fl y"
proof (cases "dexp x = dexp y")
  case True
  have "rne (x / pow2 (dexp x)) \<le> rne (y / pow2 (dexp x))"
    using assms by (intro rne_mono divide_right_mono) (simp_all add: less_imp_le)
  with assms show ?thesis by (simp add: fl_pos_eq True mult_right_mono)
next
  case False
  with dexp_mono[OF assms] have "2 * pow2 (dexp x) \<le> pow2 (dexp y)" by (intro pow2_less) simp
  with fl_pos_bounds(2)[OF assms(1)] fl_pos_bounds(1)[of y] assms show ?thesis by simp
qed

lemma fl_mono: "x \<le> y \<Longrightarrow> fl x \<le> fl y"
proof -
  assume xy: "x \<le> y"
  consider "0 < x" | "x \<le> 0" "0 \<le> y" | "y < 0" by linarith
  then show ?thesis
  proof cases
    case 1
    with xy show ?thesis by (rule fl_mono_pos[rotated])
  next
    case 2
    have "0 \<le> fl y" using 2 fl_pos[of y] by (cases "y = 0") auto
    moreover have "fl x \<le> 0" using 2 fl_pos[of "- x"] by (cases "x = 0") (auto simp: fl_minus)
    ultimately show ?thesis by linarith
  next
    case 3
    with xy have "fl (- y) \<le> fl (- x)" by (intro fl_mono_pos) simp_all
    then show ?thesis by (simp add: fl_minus)
  qed
qed

lemma fl_int_pos:
  assumes "0 < n" and "n \<le> 2 ^ 53"
  shows "fl (of_int n) = of_int n"
proof -
  let ?e = "dexp (of_int n)"
  have lt: "2 ^ 52 * pow2 ?e \<le> (of_int n :: rat)" using dexp_bounds(1)[of "of_int n"] assms by simp
  show ?thesis
  proof (cases "?e \<le> 0")
    case True
    then have "pow2 ?e = 1 / 2 ^ nat (- ?e)" by (auto simp: pow2_def)
    then have q: "(of_int n :: rat) / pow2 ?e = of_int (n * 2 ^ nat (- ?e))" by simp
    have "fl (of_int n) = of_int (rne (of_int (n * 2 ^ nat (- ?e)))) * pow2 ?e"
      using assms by (simp add: fl_pos_eq q)
    also have "\<dots> = of_int n / pow2 ?e * pow2 ?e" by (simp only: rne_of_int q)
    finally show ?thesis by simp
  next
    case False
    then have "pow2 1 \<le> pow2 ?e" by (intro pow2_mono) simp
    then have two: "2 \<le> pow2 ?e" by (simp add: pow2_def)
    have "(of_int n :: rat) \<le> of_int (2 ^ 53)" using assms(2) by (simp only: of_int_le_iff)
    with lt two have "2 ^ 52 * pow2 ?e \<le> 2 ^ 52 * 2" by simp
    with two have e: "pow2 ?e = 2" by simp
    with lt \<open>(of_int n :: rat) \<le> of_int (2 ^ 53)\<close> have "(of_int n :: rat) = of_int (2 ^ 53)" by simp
    then have n: "n = 2 ^ 53" by (simp only: of_int_eq_iff)
    have q: "(of_int n :: rat) / pow2 ?e = of_int (2 ^ 52)" by (simp add: e) (simp add: n)
    have "fl (of_int n) = of_int (rne (of_int (2 ^ 52))) * pow2 ?e"
      using assms by (simp only: fl_pos_eq q of_int_0_less_iff)
    also have "\<dots> = of_int n / pow2 ?e * pow2 ?e" by (simp only: rne_of_int q)
    finally show ?thesis by simp
  qed
qed

lemma fl_int: "\<bar>n\<bar> \<le> 2 ^ 53 \<Longrightarrow> fl (of_int n) = of_int n"
  using fl_int_pos[of n] fl_int_pos[of "- n"] fl_minus[of "of_int n"]
  by (cases n "0 :: int" rule: linorder_cases) auto

lemma fl_rel_error:
  assumes "0 \<le> x"
  shows "\<bar>fl x - x\<bar> \<le> x / 2 ^ 53"
proof (cases "x = 0")
  case False
  with assms have x: "0 < x" by simp
  let ?p = "pow2 (dexp x)"
  have "fl x - x = (of_int (rne (x / ?p)) - x / ?p) * ?p"
    by (simp add: fl_pos_eq[OF x] algebra_simps)
  then have "\<bar>fl x - x\<bar> = \<bar>of_int (rne (x / ?p)) - x / ?p\<bar> * ?p"
    by (simp add: abs_mult abs_of_pos)
  also have "\<dots> \<le> (1 / 2) * ?p"
    by (intro mult_right_mono rne_error) (simp add: less_imp_le)
  also have "\<dots> \<le> x / 2 ^ 53"
    using dexp_bounds(1)[OF x] by simp
  finally show ?thesis .
qed simp

section \<open>The rounding interface\<close>

locale rounding =
  fixes rnd :: "rat \<Rightarrow> rat"
  assumes rnd_mono: "x \<le> y \<Longrightarrow> rnd x \<le> rnd y"
    and rnd_int: "\<bar>n\<bar> \<le> 2 ^ 53 \<Longrightarrow> rnd (of_int n) = of_int n"
    and rnd_error: "0 \<le> x \<Longrightarrow> \<bar>rnd x - x\<bar> \<le> x / 2 ^ 53"
begin

lemma rnd_0: "rnd 0 = 0"
  using rnd_int[of 0] by simp

lemma rnd_1: "rnd 1 = 1"
  using rnd_int[of 1] by simp

lemma rnd_nonneg: "0 \<le> x \<Longrightarrow> 0 \<le> rnd x"
  using rnd_mono[of 0 x] by (simp add: rnd_0)

lemma rnd_le_int: "x \<le> of_int n \<Longrightarrow> \<bar>n\<bar> \<le> 2 ^ 53 \<Longrightarrow> rnd x \<le> of_int n"
  using rnd_mono[of x "of_int n"] by (simp add: rnd_int)

lemma rnd_le_1: "x \<le> 1 \<Longrightarrow> rnd x \<le> 1"
  using rnd_le_int[of x 1] by simp

lemma rnd_lower: "0 \<le> x \<Longrightarrow> x * (1 - 1 / 2 ^ 53) \<le> rnd x"
  using rnd_error[of x] by (simp add: algebra_simps abs_if split: if_splits)

lemma rnd_upper: "0 \<le> x \<Longrightarrow> rnd x \<le> x * (1 + 1 / 2 ^ 53)"
  using rnd_error[of x] by (simp add: algebra_simps abs_if split: if_splits)

end

interpretation double: rounding fl
  by unfold_locales (fact fl_mono fl_int fl_rel_error)+

text \<open>The double literals of the modelled code.\<close>

text \<open>\<open>Math.round\<close>: ties go up.\<close>

definition js_round :: "rat \<Rightarrow> int" where
  "js_round x = \<lfloor>x + 1 / 2\<rfloor>"

definition lit :: "rat \<Rightarrow> rat" where
  "lit x = fl x"

lemma lit_bounds: "0 \<le> x \<Longrightarrow> x \<le> 1 \<Longrightarrow> 0 \<le> lit x \<and> lit x \<le> 1"
  by (simp add: lit_def double.rnd_nonneg double.rnd_le_1)

end
