(* ===== verification/Investigation_Types.thy ===== *)
theory Investigation_Types
  imports JsNumber
begin

text \<open>
  The data of an investigation: \<open>grading/investigator/types.ts\<close>, the parts of
  \<open>sandbox/contract.ts\<close> it stores, and \<open>grading/investigator/challenge.ts\<close>'s stored conclusions.

  Human-readable messages are values of \<open>reason\<close>: one constructor per message, with the data the
  message interpolates. JSON values (\<open>unknown\<close> in the code) are the type \<open>json\<close>; an object is its list
  of entries and a number is rational. Times are milliseconds.
\<close>

section \<open>Texts and JSON values\<close>

text \<open>A text as the list of its UTF-16 code units, where its length or its characters matter.\<close>

type_synonym utext = "nat list"

datatype json = JNull | JBool bool | JNum rat | JStr string | JArr "json list" | JObj "(string \<times> json) list"

type_synonym args = "(string \<times> json) list"

text \<open>\<open>typeof args.k === 'string' ? args.k : null\<close>\<close>

definition str_arg :: "args \<Rightarrow> string \<Rightarrow> string option" where
  "str_arg a k = (case map_of a k of Some (JStr s) \<Rightarrow> Some s | _ \<Rightarrow> None)"

section \<open>Sandbox results\<close>

datatype case_status = Pass | Fail | Ran | Timeout | RuntimeCrash | RecursionLimit | OutputLimit

record compile_info =
  ci_ok :: bool
  ci_log :: string
  ci_ms :: int

record host_fingerprint =
  hf_hostname :: string
  hf_runtime :: string
  hf_dockerVersion :: string
  hf_workerVersion :: string

record case_result =
  cr_name :: string
  cr_group :: "string option"
  cr_status :: case_status
  cr_diff :: "string option"
  cr_ms :: int

datatype structured =
    RunTestsResult "compile_info option" "case_result list" bool "host_fingerprint option"
  | RunResult "compile_info option" "case_status option" "string option" "host_fingerprint option"

definition compile_failed :: "compile_info option \<Rightarrow> bool" where
  "compile_failed c = (case c of None \<Rightarrow> False | Some i \<Rightarrow> \<not> ci_ok i)"

section \<open>Tool calls\<close>

datatype tool = Run | RunTests | ReadFile | ListFiles

datatype call_status = CallOk | CallError | BlockedDuplicate | Unavailable

record tool_call =
  tc_id :: string
  tc_tool :: tool
  tc_args :: args
  tc_status :: call_status
  tc_output :: string
  tc_structuredRef :: "string option"
  tc_startedAt :: int
  tc_wallMs :: int
  tc_injectionSuspected :: bool

type_synonym structured_results = "string \<Rightarrow> structured option"

text \<open>
  \<open>structured[t.structuredRef]\<close> behind the guard every reader of the code uses: a successful
  \<open>run_tests\<close> call with a (truthy) reference to a \<open>run_tests\<close> result.
\<close>

definition run_tests_of :: "structured_results \<Rightarrow> tool_call \<Rightarrow> (compile_info option \<times> case_result list) option" where
  "run_tests_of st t =
     (if tc_tool t \<noteq> RunTests \<or> tc_status t \<noteq> CallOk then None
      else case tc_structuredRef t of
          None \<Rightarrow> None
        | Some ref \<Rightarrow>
            if ref = [] then None
            else case st ref of
                Some (RunTestsResult compile cases _ _) \<Rightarrow> Some (compile, cases)
              | _ \<Rightarrow> None)"

lemma run_tests_of_SomeD:
  "run_tests_of st t = Some (c, cs) \<Longrightarrow> tc_tool t = RunTests \<and> tc_status t = CallOk \<and>
     (\<exists>ref ab h. tc_structuredRef t = Some ref \<and> st ref = Some (RunTestsResult c cs ab h))"
  by (auto simp: run_tests_of_def split: if_splits option.splits structured.splits)

section \<open>Verdicts\<close>

record evidence_claim =
  ec_file :: string
  ec_startLine :: "int option"
  ec_endLine :: "int option"
  ec_quote :: string
  ec_verified :: "bool option"

record verdict_error =
  ve_ruleKey :: key
  ve_toolCallIds :: "string list"
  ve_note :: "string option"
  ve_evidence :: "evidence_claim list"

record missing_rule =
  mr_description :: string
  mr_toolCallIds :: "string list"

record verdict =
  v_errors :: "verdict_error list"
  v_missingRules :: "missing_rule list"
  v_injectionDetected :: bool
  v_injectionExcerpt :: "string option"

section \<open>Budgets and results\<close>

record budget_limits =
  bl_maxToolCalls :: nat
  bl_maxWallMs :: int
  bl_maxTokens :: int
  bl_maxRounds :: nat

datatype stop_reason =
    StopVerdict | MaxToolCalls | MaxWall | MaxTokens | MaxRounds | Stalled | BlockedRepeatedly
  | ModelsExhausted | InvalidProgram | EmptySubmission

datatype checked_by = ByMachine | ByModel

record test_case =
  tk_name :: string
  tk_group :: string

record bundle_case = test_case +
  bk_input :: string
  bk_expected :: string

record budget_use =
  bu_toolCalls :: nat
  bu_wallMs :: int
  bu_tokens :: int
  bu_rounds :: nat
  bu_forcedFinal :: bool
  bu_stopReason :: stop_reason
  bu_limits :: budget_limits

record tier_rotation =
  rot_round :: nat
  rot_from :: string
  rot_reason :: string

record investigation =
  inv_toolCalls :: "tool_call list"
  inv_structured :: structured_results
  inv_budget :: budget_use
  inv_modelsUsed :: "string list"
  inv_rotations :: "tier_rotation list"

datatype reject_reason = UnknownRuleKey | FabricatedToolCall | NoValidToolCall

datatype investigation_flag =
  ReplayMismatch | ReplayUnverified | BudgetExhausted | InjectionSuspected | EvidenceRejected

datatype injection_source =
  SubmissionPattern | ToolOutput | ModelClaimWithQuote | ModelClaimWithoutQuote

datatype ungradable_class = SystemFault | SubmissionFault

datatype reason =
    NoConclusion
  | EmptyBundle
  | BundleNotCovered nat nat "string list"
  | BudgetWithoutFindings stop_reason
  | NoSuccessfulCall stop_reason "string option"
  | ExhaustedBeforeVerdict "string option"
  | StoppedBeforeVerdict stop_reason "string option"
  | NoFiles
  | NoCode
  | OversizedGroup string nat
  | RejectedFileName string
  | RejectedFile string string
  | RejectedCase string string
  | RejectedProgram string

record ungradable =
  ug_class :: ungradable_class
  ug_reason :: reason

datatype result_kind = KVerdict | KUngradable

record replay_check =
  rp_toolCallId :: string
  rp_matched :: "bool option"

record investigation_result =
  ir_kind :: result_kind
  ir_verdict :: "verdict option"
  ir_rejected :: "(key \<times> reject_reason) list"
  ir_ungradable :: "ungradable option"
  ir_flags :: "investigation_flag list"
  ir_injectionSources :: "injection_source list"
  ir_confidenceCap :: rat
  ir_replay :: "replay_check option"
  ir_investigation :: investigation
  ir_inputTokens :: int
  ir_outputTokens :: int

section \<open>Stored challenge conclusions\<close>

datatype challenge_status = Confirmed | Refuted | Unverified

record error_conclusion =
  eco_ruleKey :: key
  eco_status :: challenge_status
  eco_toolCallIds :: "string list"
  eco_reason :: "utext option"

record challenge_conclusion =
  chc_challenger :: string
  chc_perError :: "error_conclusion list"

record case_lens_note =
  cn_lens :: string
  cn_suspected :: bool
  cn_concluded :: bool
  cn_note :: utext

record stored_challenge =
  sch_perError :: "challenge_conclusion list"
  sch_caseNotes :: "case_lens_note list"

section \<open>Coverage of the test bundle\<close>

text \<open>
  \<open>uncoveredCases\<close> (\<open>investigator/coverage.ts\<close>), shared by \<open>investigate()\<close> and \<open>decide()\<close>: the cases of the
  bundle without a result in any successful \<open>run_tests\<close> call. Keys are (group, name) pairs, the value
  the code serialises with \<open>JSON.stringify\<close>. A call whose compilation failed covers every case it asked for.
\<close>

definition covered_by :: "'a test_case_scheme list \<Rightarrow> structured_results \<Rightarrow> tool_call \<Rightarrow> (string option \<times> string) list" where
  "covered_by cases st t =
     (case run_tests_of st t of
        None \<Rightarrow> []
      | Some (compile, results) \<Rightarrow>
          if compile_failed compile then
            (let group = str_arg (tc_args t) ''group'' in
             map (\<lambda>c. (Some (tk_group c), tk_name c))
               (filter (\<lambda>c. group = None \<or> Some (tk_group c) = group) cases))
          else map (\<lambda>c. (cr_group c, cr_name c)) results)"

definition uncoveredCases ::
  "'a test_case_scheme list \<Rightarrow> tool_call list \<Rightarrow> structured_results \<Rightarrow> 'a test_case_scheme list" where
  "uncoveredCases cases calls st =
     (let covered = concat (map (covered_by cases st) calls) in
      filter (\<lambda>c. (Some (tk_group c), tk_name c) \<notin> set covered) cases)"

text \<open>What it means for one case to have been measured.\<close>

definition measured :: "tool_call list \<Rightarrow> structured_results \<Rightarrow> 'a test_case_scheme \<Rightarrow> bool" where
  "measured calls st c \<longleftrightarrow>
     (\<exists>t \<in> set calls. \<exists>compile results. run_tests_of st t = Some (compile, results) \<and>
        (if compile_failed compile
         then str_arg (tc_args t) ''group'' \<in> {None, Some (tk_group c)}
         else \<exists>r \<in> set results. cr_group r = Some (tk_group c) \<and> cr_name r = tk_name c))"

lemma covered_by_iff:
  assumes "c \<in> set cases"
  shows "(Some (tk_group c), tk_name c) \<in> set (covered_by cases st t) \<longleftrightarrow>
     (\<exists>compile results. run_tests_of st t = Some (compile, results) \<and>
        (if compile_failed compile
         then \<exists>c' \<in> set cases. tk_group c' = tk_group c \<and> tk_name c' = tk_name c \<and>
                str_arg (tc_args t) ''group'' \<in> {None, Some (tk_group c)}
         else \<exists>r \<in> set results. cr_group r = Some (tk_group c) \<and> cr_name r = tk_name c))"
  using assms
  by (auto simp: covered_by_def Let_def image_iff split: option.splits) metis+

lemma uncoveredCases_iff:
  "c \<in> set (uncoveredCases cases calls st) \<longleftrightarrow> c \<in> set cases \<and> \<not> measured calls st c"
proof (cases "c \<in> set cases")
  case True
  have "(Some (tk_group c), tk_name c) \<in> set (concat (map (covered_by cases st) calls)) \<longleftrightarrow>
        (\<exists>t \<in> set calls. (Some (tk_group c), tk_name c) \<in> set (covered_by cases st t))" by auto
  also have "\<dots> \<longleftrightarrow> measured calls st c"
  proof -
    have "(\<exists>c' \<in> set cases. tk_group c' = tk_group c \<and> tk_name c' = tk_name c \<and> P) \<longleftrightarrow> P" for P
      using True by blast
    then show ?thesis unfolding measured_def covered_by_iff[OF True] by simp
  qed
  finally show ?thesis using True by (auto simp: uncoveredCases_def)
qed (simp add: uncoveredCases_def)

lemma uncoveredCases_Nil_iff: "uncoveredCases cases calls st = [] \<longleftrightarrow> (\<forall>c \<in> set cases. measured calls st c)"
  by (metis uncoveredCases_iff empty_iff empty_set ex_in_conv set_empty)

lemma measured_mono: "set calls \<subseteq> set calls' \<Longrightarrow> measured calls st c \<Longrightarrow> measured calls' st c"
  unfolding measured_def by blast

end
