(* ===== verification/Predicates.thy ===== *)
theory Predicates
  imports Investigation_Types
begin

text \<open>
  The rules a machine checks (\<open>grading/decision/predicates.ts\<close> and the rule types of
  \<open>decision/types.ts\<close>): a predicate of a rule is evaluated on the stored results of the tool calls.

  \<open>evaluatePredicate\<close> is the code's loop with its insertion-ordered map of case names; the lemmas say
  what its three answers mean in terms of the observations \<open>obs\<close> the stored calls contain.
\<close>

section \<open>Rules and outcomes\<close>

datatype rule_predicate =
    TestGroupFailed string
  | CallsFunction string
  | ComplexityExceedsRequired
  | NoRecursion "string option"

record error_rule =
  er_ruleKey :: key
  er_criterionKey :: key
  er_deduction :: "int option"
  er_predicate :: "rule_predicate option"

datatype measure_state = Present | Absent | Unmeasured

datatype measure_reason =
    NeedsRunScaled | NeedsAstQuery | GroupNotInBundle string | CompilesSometimes | DoesNotCompile
  | UnstableRuns | TimedOut | NotAllRun

record predicate_outcome =
  po_state :: measure_state
  po_toolCallIds :: "string list"
  po_reason :: "measure_reason option"

definition unmeasured_because :: "measure_reason \<Rightarrow> predicate_outcome" where
  "unmeasured_because r = \<lparr>po_state = Unmeasured, po_toolCallIds = [], po_reason = Some r\<rparr>"

fun is_failed :: "case_status \<Rightarrow> bool" where
  "is_failed Fail = True"
| "is_failed RuntimeCrash = True"
| "is_failed RecursionLimit = True"
| "is_failed OutputLimit = True"
| "is_failed _ = False"

fun isMachineChecked :: "rule_predicate option \<Rightarrow> bool" where
  "isMachineChecked (Some (TestGroupFailed _)) = True"
| "isMachineChecked _ = False"

section \<open>The loop over the stored calls\<close>

text \<open>\<open>seen\<close>: case name to the statuses seen and the calls that saw it fail.\<close>

type_synonym seen_cases = "(string \<times> (case_status list \<times> string list)) list"

record measuring =
  ms_compileFailed :: "string list"
  ms_compiledSomewhere :: bool
  ms_seen :: seen_cases

definition note_status :: "string \<Rightarrow> string \<Rightarrow> case_status \<Rightarrow> seen_cases \<Rightarrow> seen_cases" where
  "note_status callId name status seen =
     (let (statuses, failedIn) = (case map_of seen name of None \<Rightarrow> ([], []) | Some e \<Rightarrow> e) in
      AList.update name
        (set_add status statuses, if is_failed status then set_add callId failedIn else failedIn) seen)"

definition note_case :: "string \<Rightarrow> string \<Rightarrow> case_result \<Rightarrow> seen_cases \<Rightarrow> seen_cases" where
  "note_case g callId c seen =
     (if cr_group c \<noteq> Some g then seen else note_status callId (cr_name c) (cr_status c) seen)"

definition measure_call :: "string \<Rightarrow> structured_results \<Rightarrow> tool_call \<Rightarrow> measuring \<Rightarrow> measuring" where
  "measure_call g st t m =
     (case run_tests_of st t of
        None \<Rightarrow> m
      | Some (compile, results) \<Rightarrow>
          (let scope = str_arg (tc_args t) ''group'' in
           if compile_failed compile then
             (if scope = None \<or> scope = Some g then m\<lparr>ms_compileFailed := ms_compileFailed m @ [tc_id t]\<rparr> else m)
           else m\<lparr>ms_compiledSomewhere := True, ms_seen := fold (note_case g (tc_id t)) results (ms_seen m)\<rparr>))"

definition measure_calls :: "string \<Rightarrow> structured_results \<Rightarrow> tool_call list \<Rightarrow> measuring" where
  "measure_calls g st calls =
     fold (measure_call g st) calls \<lparr>ms_compileFailed = [], ms_compiledSomewhere = False, ms_seen = []\<rparr>"

text \<open>The code after the loop: the first branch that applies decides.\<close>

definition conclude :: "string list \<Rightarrow> tool_call list \<Rightarrow> measuring \<Rightarrow> predicate_outcome" where
  "conclude expected calls m =
     (let entries = map snd (ms_seen m);
          solid = filter (\<lambda>e. snd e \<noteq> [] \<and> Pass \<notin> set (fst e)) entries
      in if solid \<noteq> [] then
           \<lparr>po_state = Present, po_toolCallIds = js_sort str_le (uniq (concat (map snd solid))), po_reason = None\<rparr>
         else if ms_compileFailed m \<noteq> [] \<and> ms_compiledSomewhere m then unmeasured_because CompilesSometimes
         else if ms_compileFailed m \<noteq> [] then
           \<lparr>po_state = Present, po_toolCallIds = ms_compileFailed m, po_reason = Some DoesNotCompile\<rparr>
         else if list_ex (\<lambda>e. snd e \<noteq> [] \<and> Pass \<in> set (fst e)) entries then unmeasured_because UnstableRuns
         else if list_ex (\<lambda>e. Timeout \<in> set (fst e)) entries then unmeasured_because TimedOut
         else if list_all (\<lambda>n. case map_of (ms_seen m) n of None \<Rightarrow> False | Some e \<Rightarrow> Pass \<in> set (fst e)) expected then
           \<lparr>po_state = Absent,
            po_toolCallIds = map tc_id (filter (\<lambda>t. tc_tool t = RunTests \<and> tc_status t = CallOk) calls),
            po_reason = None\<rparr>
         else unmeasured_because NotAllRun)"

fun evaluatePredicate ::
  "rule_predicate \<Rightarrow> 'a test_case_scheme list \<Rightarrow> tool_call list \<Rightarrow> structured_results \<Rightarrow> predicate_outcome" where
  "evaluatePredicate (TestGroupFailed g) cases calls st =
     (let expected = map tk_name (filter (\<lambda>c. tk_group c = g) cases) in
      if expected = [] then unmeasured_because (GroupNotInBundle g)
      else conclude expected calls (measure_calls g st calls))"
| "evaluatePredicate ComplexityExceedsRequired cases calls st = unmeasured_because NeedsRunScaled"
| "evaluatePredicate (CallsFunction _) cases calls st = unmeasured_because NeedsAstQuery"
| "evaluatePredicate (NoRecursion _) cases calls st = unmeasured_because NeedsAstQuery"

section \<open>What the calls observed\<close>

text \<open>The observations of a group: call, case and status, for every call that compiled.\<close>

definition obs_of :: "string \<Rightarrow> structured_results \<Rightarrow> tool_call \<Rightarrow> (string \<times> string \<times> case_status) list" where
  "obs_of g st t =
     (case run_tests_of st t of
        None \<Rightarrow> []
      | Some (compile, results) \<Rightarrow>
          if compile_failed compile then []
          else map (\<lambda>c. (tc_id t, cr_name c, cr_status c)) (filter (\<lambda>c. cr_group c = Some g) results))"

definition obs :: "string \<Rightarrow> structured_results \<Rightarrow> tool_call list \<Rightarrow> (string \<times> string \<times> case_status) list" where
  "obs g st calls = concat (map (obs_of g st) calls)"

definition compile_failed_for :: "string \<Rightarrow> structured_results \<Rightarrow> tool_call \<Rightarrow> bool" where
  "compile_failed_for g st t \<longleftrightarrow>
     (case run_tests_of st t of
        None \<Rightarrow> False
      | Some (compile, _) \<Rightarrow> compile_failed compile \<and> str_arg (tc_args t) ''group'' \<in> {None, Some g})"

definition compiled :: "structured_results \<Rightarrow> tool_call \<Rightarrow> bool" where
  "compiled st t \<longleftrightarrow> (case run_tests_of st t of None \<Rightarrow> False | Some (compile, _) \<Rightarrow> \<not> compile_failed compile)"

lemma fold_note_case:
  "fold (note_case g i) rs seen =
   fold (\<lambda>(j, n, s). note_status j n s) (map (\<lambda>c. (i, cr_name c, cr_status c)) (filter (\<lambda>c. cr_group c = Some g) rs)) seen"
  by (induction rs arbitrary: seen) (auto simp: note_case_def)

lemma measure_call_eq:
  "measure_call g st t m =
     \<lparr>ms_compileFailed = ms_compileFailed m @ (if compile_failed_for g st t then [tc_id t] else []),
      ms_compiledSomewhere = (ms_compiledSomewhere m \<or> compiled st t),
      ms_seen = fold (\<lambda>(j, n, s). note_status j n s) (obs_of g st t) (ms_seen m)\<rparr>"
  by (auto simp: measure_call_def compile_failed_for_def compiled_def obs_of_def fold_note_case Let_def
      split: option.split)

lemma fold_measure_call:
  "fold (measure_call g st) calls m =
     \<lparr>ms_compileFailed = ms_compileFailed m @ map tc_id (filter (compile_failed_for g st) calls),
      ms_compiledSomewhere = (ms_compiledSomewhere m \<or> list_ex (compiled st) calls),
      ms_seen = fold (\<lambda>(j, n, s). note_status j n s) (obs g st calls) (ms_seen m)\<rparr>"
  by (induction calls arbitrary: m) (simp_all add: measure_call_eq obs_def)

text \<open>The map after a list of observations.\<close>

definition entry_ok :: "(string \<times> string \<times> case_status) set \<Rightarrow> seen_cases \<Rightarrow> bool" where
  "entry_ok O1 seen \<longleftrightarrow> distinct (map fst seen) \<and>
     (\<forall>n. case map_of seen n of
            None \<Rightarrow> (\<forall>i s. (i, n, s) \<notin> O1)
          | Some (ss, fs) \<Rightarrow> set ss = {s. \<exists>i. (i, n, s) \<in> O1} \<and> ss \<noteq> [] \<and>
                            set fs = {i. \<exists>s. (i, n, s) \<in> O1 \<and> is_failed s})"

lemma entry_ok_step:
  assumes "entry_ok O1 seen"
  shows "entry_ok (insert (i, n, s) O1) (note_status i n s seen)"
proof -
  have "distinct (map fst (note_status i n s seen))"
    using assms by (auto simp: note_status_def entry_ok_def distinct_update split: prod.splits)
  moreover have "case map_of (note_status i n s seen) m of
            None \<Rightarrow> (\<forall>j u. (j, m, u) \<notin> insert (i, n, s) O1)
          | Some (ss, fs) \<Rightarrow> set ss = {u. \<exists>j. (j, m, u) \<in> insert (i, n, s) O1} \<and> ss \<noteq> [] \<and>
                            set fs = {j. \<exists>u. (j, m, u) \<in> insert (i, n, s) O1 \<and> is_failed u}" for m
  proof -
    have m: "case map_of seen m of
            None \<Rightarrow> (\<forall>i s. (i, m, s) \<notin> O1)
          | Some (ss, fs) \<Rightarrow> set ss = {s. \<exists>i. (i, m, s) \<in> O1} \<and> ss \<noteq> [] \<and>
                            set fs = {i. \<exists>s. (i, m, s) \<in> O1 \<and> is_failed s}"
      using assms unfolding entry_ok_def by blast
    show ?thesis
    proof (cases "m = n")
      case True
      with m show ?thesis
        by (cases "map_of seen n") (auto simp: note_status_def js_simps set_add_def split: if_splits)
    next
      case False
      with m show ?thesis
        by (auto simp: note_status_def js_simps split: option.splits prod.splits)
    qed
  qed
  ultimately show ?thesis unfolding entry_ok_def by blast
qed

lemma entry_ok_fold:
  "entry_ok O1 seen \<Longrightarrow> entry_ok (set os \<union> O1) (fold (\<lambda>(j, n, s). note_status j n s) os seen)"
proof (induction os arbitrary: O1 seen)
  case (Cons x os)
  obtain i n s where "x = (i, n, s)" by (cases x) auto
  with Cons.IH[OF entry_ok_step[OF Cons.prems, of i n s]] show ?case by simp
qed simp

lemma measure_calls_eq:
  "measure_calls g st calls =
     \<lparr>ms_compileFailed = map tc_id (filter (compile_failed_for g st) calls),
      ms_compiledSomewhere = list_ex (compiled st) calls,
      ms_seen = fold (\<lambda>(j, n, s). note_status j n s) (obs g st calls) []\<rparr>"
  by (simp add: measure_calls_def fold_measure_call)

lemma entry_ok_measure: "entry_ok (set (obs g st calls)) (ms_seen (measure_calls g st calls))"
proof -
  have "entry_ok {} []" by (simp add: entry_ok_def)
  from entry_ok_fold[OF this, of "obs g st calls"] show ?thesis by (simp add: measure_calls_eq)
qed

lemma entry_ok_SomeD:
  "entry_ok O1 seen \<Longrightarrow> (n, ss, fs) \<in> set seen \<Longrightarrow>
     set ss = {s. \<exists>i. (i, n, s) \<in> O1} \<and> set fs = {i. \<exists>s. (i, n, s) \<in> O1 \<and> is_failed s}"
  unfolding entry_ok_def
proof (elim conjE)
  assume d: "distinct (map fst seen)" and m: "(n, ss, fs) \<in> set seen"
    and o: "\<forall>n. case map_of seen n of
            None \<Rightarrow> (\<forall>i s. (i, n, s) \<notin> O1)
          | Some (ss, fs) \<Rightarrow> set ss = {s. \<exists>i. (i, n, s) \<in> O1} \<and> ss \<noteq> [] \<and>
                            set fs = {i. \<exists>s. (i, n, s) \<in> O1 \<and> is_failed s}"
  from d m have "map_of seen n = Some (ss, fs)" by (rule map_of_is_SomeI)
  with o[rule_format, of n] show ?thesis by simp
qed

lemma entry_ok_ex:
  "entry_ok O1 seen \<Longrightarrow> (i, n, s) \<in> O1 \<Longrightarrow> \<exists>ss fs. (n, ss, fs) \<in> set seen"
  unfolding entry_ok_def by (drule conjunct2, drule spec[of _ n]) (auto dest: map_of_SomeD split: option.splits)


section \<open>What the three answers mean\<close>

definition failed_never_passed :: "(string \<times> string \<times> case_status) set \<Rightarrow> string \<Rightarrow> bool" where
  "failed_never_passed O1 n \<longleftrightarrow> (\<exists>i s. (i, n, s) \<in> O1 \<and> is_failed s) \<and> (\<forall>i. (i, n, Pass) \<notin> O1)"

definition group_present :: "string \<Rightarrow> tool_call list \<Rightarrow> structured_results \<Rightarrow> bool" where
  "group_present g calls st \<longleftrightarrow>
     (\<exists>n. failed_never_passed (set (obs g st calls)) n) \<or>
     (\<exists>t \<in> set calls. compile_failed_for g st t) \<and> (\<forall>t \<in> set calls. \<not> compiled st t)"

definition group_absent :: "string \<Rightarrow> 'a test_case_scheme list \<Rightarrow> tool_call list \<Rightarrow> structured_results \<Rightarrow> bool" where
  "group_absent g cases calls st \<longleftrightarrow>
     (\<forall>c \<in> set cases. tk_group c = g \<longrightarrow> (\<exists>i. (i, tk_name c, Pass) \<in> set (obs g st calls))) \<and>
     (\<forall>(i, n, s) \<in> set (obs g st calls). \<not> is_failed s \<and> s \<noteq> Timeout) \<and>
     (\<forall>t \<in> set calls. \<not> compile_failed_for g st t)"

definition solid_entry :: "case_status list \<times> string list \<Rightarrow> bool" where
  "solid_entry e \<longleftrightarrow> snd e \<noteq> [] \<and> Pass \<notin> set (fst e)"

lemma entry_set_iff:
  assumes "entry_ok O1 seen"
  shows "(\<exists>e \<in> snd ` set seen. P (set (fst e)) (set (snd e))) \<longleftrightarrow>
         (\<exists>n. (\<exists>i s. (i, n, s) \<in> O1) \<and> P {s. \<exists>i. (i, n, s) \<in> O1} {i. \<exists>s. (i, n, s) \<in> O1 \<and> is_failed s})"
proof
  assume "\<exists>e \<in> snd ` set seen. P (set (fst e)) (set (snd e))"
  then obtain n ss fs where m: "(n, ss, fs) \<in> set seen" and P: "P (set ss) (set fs)" by force
  from m assms have "map_of seen n = Some (ss, fs)" by (auto simp: entry_ok_def intro: map_of_is_SomeI)
  with assms have "ss \<noteq> []" unfolding entry_ok_def by (metis (mono_tags, lifting) case_prod_conv option.simps(5))
  then have "set ss \<noteq> {}" by simp
  with entry_ok_SomeD[OF assms m] have "\<exists>i s. (i, n, s) \<in> O1" by auto
  moreover from entry_ok_SomeD[OF assms m] P
  have "P {s. \<exists>i. (i, n, s) \<in> O1} {i. \<exists>s. (i, n, s) \<in> O1 \<and> is_failed s}" by simp
  ultimately show "\<exists>n. (\<exists>i s. (i, n, s) \<in> O1) \<and> P {s. \<exists>i. (i, n, s) \<in> O1} {i. \<exists>s. (i, n, s) \<in> O1 \<and> is_failed s}"
    by blast
next
  assume "\<exists>n. (\<exists>i s. (i, n, s) \<in> O1) \<and> P {s. \<exists>i. (i, n, s) \<in> O1} {i. \<exists>s. (i, n, s) \<in> O1 \<and> is_failed s}"
  then obtain n i s where o: "(i, n, s) \<in> O1"
    and P: "P {s. \<exists>i. (i, n, s) \<in> O1} {i. \<exists>s. (i, n, s) \<in> O1 \<and> is_failed s}" by blast
  from entry_ok_ex[OF assms o] obtain ss fs where m: "(n, ss, fs) \<in> set seen" by blast
  with entry_ok_SomeD[OF assms m] P show "\<exists>e \<in> snd ` set seen. P (set (fst e)) (set (snd e))"
    by (intro bexI[of _ "(ss, fs)"]) (auto simp: image_iff intro!: bexI[OF _ m])
qed

lemma solid_iff:
  assumes "entry_ok O1 seen"
  shows "(\<exists>e \<in> snd ` set seen. solid_entry e) \<longleftrightarrow> (\<exists>n. failed_never_passed O1 n)"
proof -
  have "(\<exists>e \<in> snd ` set seen. solid_entry e) \<longleftrightarrow>
        (\<exists>e \<in> snd ` set seen. (\<lambda>S F. F \<noteq> {} \<and> Pass \<notin> S) (set (fst e)) (set (snd e)))"
    by (simp add: solid_entry_def)
  also have "\<dots> \<longleftrightarrow> (\<exists>n. failed_never_passed O1 n)"
    unfolding entry_set_iff[OF assms, where P = "\<lambda>S F. F \<noteq> {} \<and> Pass \<notin> S"] failed_never_passed_def by blast
  finally show ?thesis .
qed

lemma unstable_iff:
  assumes "entry_ok O1 seen"
  shows "list_ex (\<lambda>e. snd e \<noteq> [] \<and> Pass \<in> set (fst e)) (map snd seen) \<longleftrightarrow>
         (\<exists>n. (\<exists>i s. (i, n, s) \<in> O1 \<and> is_failed s) \<and> (\<exists>i. (i, n, Pass) \<in> O1))"
proof -
  have "list_ex (\<lambda>e. snd e \<noteq> [] \<and> Pass \<in> set (fst e)) (map snd seen) \<longleftrightarrow>
        (\<exists>e \<in> snd ` set seen. (\<lambda>S F. F \<noteq> {} \<and> Pass \<in> S) (set (fst e)) (set (snd e)))"
    by (auto simp: list_ex_iff)
  also have "\<dots> \<longleftrightarrow> (\<exists>n. (\<exists>i s. (i, n, s) \<in> O1 \<and> is_failed s) \<and> (\<exists>i. (i, n, Pass) \<in> O1))"
    unfolding entry_set_iff[OF assms, where P = "\<lambda>S F. F \<noteq> {} \<and> Pass \<in> S"] by blast
  finally show ?thesis .
qed

lemma timeout_iff:
  assumes "entry_ok O1 seen"
  shows "list_ex (\<lambda>e. Timeout \<in> set (fst e)) (map snd seen) \<longleftrightarrow> (\<exists>i n. (i, n, Timeout) \<in> O1)"
proof -
  have "list_ex (\<lambda>e. Timeout \<in> set (fst e)) (map snd seen) \<longleftrightarrow>
        (\<exists>e \<in> snd ` set seen. (\<lambda>S F. Timeout \<in> S) (set (fst e)) (set (snd e)))"
    by (auto simp: list_ex_iff)
  also have "\<dots> \<longleftrightarrow> (\<exists>i n. (i, n, Timeout) \<in> O1)"
    unfolding entry_set_iff[OF assms, where P = "\<lambda>S F. Timeout \<in> S"] by blast
  finally show ?thesis .
qed

lemma passed_iff:
  assumes "entry_ok O1 seen"
  shows "(case map_of seen n of None \<Rightarrow> False | Some e \<Rightarrow> Pass \<in> set (fst e)) \<longleftrightarrow> (\<exists>i. (i, n, Pass) \<in> O1)"
proof (cases "map_of seen n")
  case None
  with assms show ?thesis unfolding entry_ok_def by (auto dest!: spec[of _ n])
next
  case (Some e)
  then have "(n, fst e, snd e) \<in> set seen" by (simp add: map_of_SomeD)
  from entry_ok_SomeD[OF assms this] Some show ?thesis by simp
qed

lemma solid_filter:
  "filter (\<lambda>e. snd e \<noteq> [] \<and> Pass \<notin> set (fst e)) (map snd seen) \<noteq> [] \<longleftrightarrow> (\<exists>e \<in> snd ` set seen. solid_entry e)"
  by (auto simp: filter_empty_conv solid_entry_def)

lemma conclude_Present_iff:
  "po_state (conclude expected calls (measure_calls g st calls)) = Present \<longleftrightarrow> group_present g calls st"
proof -
  let ?m = "measure_calls g st calls"
  have s: "filter (\<lambda>e. snd e \<noteq> [] \<and> Pass \<notin> set (fst e)) (map snd (ms_seen ?m)) \<noteq> [] \<longleftrightarrow>
           (\<exists>n. failed_never_passed (set (obs g st calls)) n)"
    unfolding solid_filter solid_iff[OF entry_ok_measure] ..
  have cf: "ms_compileFailed ?m \<noteq> [] \<longleftrightarrow> (\<exists>t \<in> set calls. compile_failed_for g st t)"
    by (auto simp: measure_calls_eq filter_empty_conv)
  have cs: "ms_compiledSomewhere ?m \<longleftrightarrow> (\<exists>t \<in> set calls. compiled st t)"
    by (simp add: measure_calls_eq list_ex_iff)
  show ?thesis
    using s cf cs unfolding group_present_def conclude_def Let_def
    by (simp add: unmeasured_because_def)
qed

lemma conclude_Absent_iff:
  "po_state (conclude (map tk_name (filter (\<lambda>c. tk_group c = g) cases)) calls (measure_calls g st calls)) = Absent
     \<longleftrightarrow> group_absent g cases calls st"
proof -
  let ?m = "measure_calls g st calls" and ?O = "set (obs g st calls)"
  have s: "filter (\<lambda>e. snd e \<noteq> [] \<and> Pass \<notin> set (fst e)) (map snd (ms_seen ?m)) \<noteq> [] \<longleftrightarrow>
           (\<exists>n. failed_never_passed ?O n)"
    unfolding solid_filter solid_iff[OF entry_ok_measure] ..
  have cf: "ms_compileFailed ?m \<noteq> [] \<longleftrightarrow> (\<exists>t \<in> set calls. compile_failed_for g st t)"
    by (auto simp: measure_calls_eq filter_empty_conv)
  have p: "list_all (\<lambda>n. case map_of (ms_seen ?m) n of None \<Rightarrow> False | Some e \<Rightarrow> Pass \<in> set (fst e))
             (map tk_name (filter (\<lambda>c. tk_group c = g) cases)) \<longleftrightarrow>
           (\<forall>c \<in> set cases. tk_group c = g \<longrightarrow> (\<exists>i. (i, tk_name c, Pass) \<in> ?O))"
    unfolding passed_iff[OF entry_ok_measure] by (auto simp: list_all_iff)
  have "po_state (conclude (map tk_name (filter (\<lambda>c. tk_group c = g) cases)) calls ?m) = Absent \<longleftrightarrow>
     (\<nexists>n. failed_never_passed ?O n) \<and> \<not> (\<exists>t \<in> set calls. compile_failed_for g st t) \<and>
     \<not> (\<exists>n. (\<exists>i s. (i, n, s) \<in> ?O \<and> is_failed s) \<and> (\<exists>i. (i, n, Pass) \<in> ?O)) \<and>
     \<not> (\<exists>i n. (i, n, Timeout) \<in> ?O) \<and>
     (\<forall>c \<in> set cases. tk_group c = g \<longrightarrow> (\<exists>i. (i, tk_name c, Pass) \<in> ?O))"
    unfolding conclude_def Let_def s cf p unstable_iff[OF entry_ok_measure] timeout_iff[OF entry_ok_measure]
    by (simp add: unmeasured_because_def)
  also have "\<dots> \<longleftrightarrow> group_absent g cases calls st"
    unfolding group_absent_def failed_never_passed_def by fast
  finally show ?thesis .
qed

text \<open>The two answers exclude each other, and both need a case of the group in the bundle.\<close>

lemma evaluate_Present_iff:
  "po_state (evaluatePredicate p cases calls st) = Present \<longleftrightarrow>
     (\<exists>g. p = TestGroupFailed g \<and> g \<in> tk_group ` set cases \<and> group_present g calls st)"
proof (cases p)
  case (TestGroupFailed g)
  then show ?thesis
    by (auto simp: Let_def conclude_Present_iff unmeasured_because_def filter_empty_conv)
qed (simp_all add: unmeasured_because_def)

lemma evaluate_Absent_iff:
  "po_state (evaluatePredicate p cases calls st) = Absent \<longleftrightarrow>
     (\<exists>g. p = TestGroupFailed g \<and> g \<in> tk_group ` set cases \<and> group_absent g cases calls st)"
proof (cases p)
  case (TestGroupFailed g)
  then show ?thesis
    by (auto simp: Let_def conclude_Absent_iff unmeasured_because_def filter_empty_conv)
qed (simp_all add: unmeasured_because_def)

text \<open>The calls a \<open>present\<close> answer names are calls of the dossier that show the failure.\<close>

lemma obs_of_callD: "(i, n, s) \<in> set (obs_of g st t) \<Longrightarrow> tc_id t = i \<and> compiled st t"
  by (cases "run_tests_of st t") (auto simp: obs_of_def compiled_def split: if_splits)

lemma obs_callD:
  "(i, n, s) \<in> set (obs g st calls) \<Longrightarrow> \<exists>t \<in> set calls. tc_id t = i \<and> compiled st t"
  by (auto simp: obs_def dest: obs_of_callD)

lemma compile_failed_for_call:
  "compile_failed_for g st t \<Longrightarrow> tc_tool t = RunTests \<and> tc_status t = CallOk"
  by (auto simp: compile_failed_for_def split: option.splits dest: run_tests_of_SomeD)

lemma compiled_call: "compiled st t \<Longrightarrow> tc_tool t = RunTests \<and> tc_status t = CallOk"
  by (auto simp: compiled_def split: option.splits dest: run_tests_of_SomeD)

lemma evaluate_Present_calls:
  assumes "po_state (evaluatePredicate p cases calls st) = Present"
  shows "po_toolCallIds (evaluatePredicate p cases calls st) \<noteq> [] \<and>
    (\<forall>i \<in> set (po_toolCallIds (evaluatePredicate p cases calls st)).
       \<exists>t \<in> set calls. tc_id t = i \<and> tc_tool t = RunTests \<and> tc_status t = CallOk)"
proof -
  obtain g where p: "p = TestGroupFailed g" and g: "g \<in> tk_group ` set cases"
    using assms by (auto simp: evaluate_Present_iff)
  let ?m = "measure_calls g st calls"
  let ?solid = "filter (\<lambda>e. snd e \<noteq> [] \<and> Pass \<notin> set (fst e)) (map snd (ms_seen ?m))"
  have ev: "evaluatePredicate p cases calls st = conclude (map tk_name (filter (\<lambda>c. tk_group c = g) cases)) calls ?m"
    using p g by (auto simp: Let_def filter_empty_conv)
  show ?thesis
  proof (cases "?solid = []")
    case True
    with assms ev have "po_toolCallIds (evaluatePredicate p cases calls st) = ms_compileFailed ?m"
        and "ms_compileFailed ?m \<noteq> []"
      by (auto simp: conclude_def Let_def unmeasured_because_def split: if_splits)
    then show ?thesis by (auto simp: measure_calls_eq dest: compile_failed_for_call)
  next
    case False
    then have ids: "po_toolCallIds (evaluatePredicate p cases calls st) = js_sort str_le (uniq (concat (map snd ?solid)))"
      unfolding ev by (simp add: conclude_def Let_def)
    have calls: "\<exists>t \<in> set calls. tc_id t = i \<and> tc_tool t = RunTests \<and> tc_status t = CallOk"
      if i: "i \<in> set (js_sort str_le (uniq (concat (map snd ?solid))))" for i
    proof -
      from i obtain n ss fs where "(n, ss, fs) \<in> set (ms_seen ?m)" "i \<in> set fs" by auto
      with entry_ok_SomeD[OF entry_ok_measure] have "\<exists>s. (i, n, s) \<in> set (obs g st calls)" by fastforce
      then show ?thesis by (auto dest!: obs_callD compiled_call)
    qed
    from False obtain e where e: "e \<in> set ?solid" by (cases ?solid) auto
    then obtain i where "i \<in> set (snd e)" by (cases "snd e") auto
    with e have "i \<in> set (js_sort str_le (uniq (concat (map snd ?solid))))" by (simp only: js_simps set_concat set_map) blast
    then have "js_sort str_le (uniq (concat (map snd ?solid))) \<noteq> []" by (metis empty_iff empty_set)
    then show ?thesis unfolding ids by (intro conjI ballI calls)
  qed
qed

end
