(* ===== verification/Confidence.thy ===== *)
theory Confidence
  imports Predicates
begin

text \<open>
  Diagnosed errors and the confidence of a case: \<open>grading/decision/confidence.ts\<close> and the types it reads.

  Confidence is the mean of the source ceilings weighted by the deductions. The code computes it in
  doubles; \<open>caseConfidence\<close> rounds where the code does, and \<open>exact_confidence\<close> is the mathematical mean.
  The two differ by less than \<open>10\<^sup>-\<^sup>9\<close> (\<open>AUTO_THETA_EPSILON\<close>) for up to a million errors, which is what
  the tolerance of the comparison with the threshold is for.
\<close>

section \<open>Diagnosed errors\<close>

datatype verdict_source = Deterministic | LlmWithTools | LlmOnly

record diagnosed_error =
  de_ruleKey :: key
  de_criterionKey :: key
  de_deduction :: "int option"
  de_source :: verdict_source
  de_toolCallIds :: "string list"

section \<open>Ceilings\<close>

fun SOURCE_CAP :: "verdict_source \<Rightarrow> rat" where
  "SOURCE_CAP Deterministic = 1"
| "SOURCE_CAP LlmWithTools = lit (8 / 10)"
| "SOURCE_CAP LlmOnly = lit (5 / 10)"

definition capOf :: "verdict_source \<Rightarrow> rat \<Rightarrow> rat" where
  "capOf source modelCeiling =
     (if source = LlmOnly then min (SOURCE_CAP LlmOnly) modelCeiling else SOURCE_CAP source)"

record confidence_term =
  ct_ruleKey :: key
  ct_source :: verdict_source
  ct_cap :: rat
  ct_deduction :: int

definition is_priced :: "diagnosed_error \<Rightarrow> bool" where
  "is_priced e \<longleftrightarrow> (case de_deduction e of None \<Rightarrow> False | Some d \<Rightarrow> 0 < d)"

text \<open>\<open>e.deductionHundredths!\<close>, read only behind \<open>is_priced\<close>.\<close>

definition price_of :: "diagnosed_error \<Rightarrow> int" where
  "price_of e = (case de_deduction e of None \<Rightarrow> 0 | Some d \<Rightarrow> d)"

definition confidenceTerms :: "diagnosed_error list \<Rightarrow> rat \<Rightarrow> confidence_term list" where
  "confidenceTerms errors modelCeiling =
     map (\<lambda>e. \<lparr>ct_ruleKey = de_ruleKey e, ct_source = de_source e,
               ct_cap = capOf (de_source e) modelCeiling, ct_deduction = price_of e\<rparr>)
         (filter is_priced errors)"

definition caseConfidence :: "diagnosed_error list \<Rightarrow> rat \<Rightarrow> bool \<Rightarrow> rat" where
  "caseConfidence errors modelCeiling coverageComplete =
     (let priced = filter is_priced errors;
          weight = fold (\<lambda>e s. s + price_of e) priced 0
      in if weight = 0 then (if coverageComplete then 1 else 0)
         else fl (fold (\<lambda>e s. fl (s + fl (capOf (de_source e) modelCeiling * of_int (price_of e)))) priced 0
                  / of_int weight))"

section \<open>The exact mean\<close>

definition term_weight :: "confidence_term list \<Rightarrow> int" where
  "term_weight ts = (\<Sum>t\<leftarrow>ts. ct_deduction t)"

definition exact_sum :: "confidence_term list \<Rightarrow> rat" where
  "exact_sum ts = (\<Sum>t\<leftarrow>ts. ct_cap t * of_int (ct_deduction t))"

definition exact_confidence :: "confidence_term list \<Rightarrow> rat" where
  "exact_confidence ts = exact_sum ts / of_int (term_weight ts)"

text \<open>The sum as the code accumulates it, over the terms.\<close>

definition rounded_sum :: "confidence_term list \<Rightarrow> rat \<Rightarrow> rat" where
  "rounded_sum ts = fold (\<lambda>t s. fl (s + fl (ct_cap t * of_int (ct_deduction t)))) ts"

lemma caseConfidence_terms:
  "caseConfidence errors mc cov =
     (let ts = confidenceTerms errors mc in
      if term_weight ts = 0 then (if cov then 1 else 0)
      else fl (rounded_sum ts 0 / of_int (term_weight ts)))"
  by (simp add: caseConfidence_def confidenceTerms_def term_weight_def rounded_sum_def Let_def
      fold_plus_sum_list fold_map o_def)

definition terms_ok :: "confidence_term list \<Rightarrow> bool" where
  "terms_ok ts \<longleftrightarrow> list_all (\<lambda>t. 0 \<le> ct_cap t \<and> ct_cap t \<le> 1 \<and> 0 < ct_deduction t) ts"

lemma terms_ok_simps [simp]:
  "terms_ok []"
  "terms_ok (t # ts) \<longleftrightarrow> 0 \<le> ct_cap t \<and> ct_cap t \<le> 1 \<and> 0 < ct_deduction t \<and> terms_ok ts"
  by (simp_all add: terms_ok_def)

lemma term_weight_simps [simp]:
  "term_weight [] = 0" "term_weight (t # ts) = ct_deduction t + term_weight ts"
  by (simp_all add: term_weight_def)

lemma exact_sum_simps [simp]:
  "exact_sum [] = 0" "exact_sum (t # ts) = ct_cap t * of_int (ct_deduction t) + exact_sum ts"
  by (simp_all add: exact_sum_def)

lemma rounded_sum_simps [simp]:
  "rounded_sum [] s = s"
  "rounded_sum (t # ts) s = rounded_sum ts (fl (s + fl (ct_cap t * of_int (ct_deduction t))))"
  by (simp_all add: rounded_sum_def)

lemma term_weight_nonneg: "terms_ok ts \<Longrightarrow> 0 \<le> term_weight ts"
  by (induction ts) auto

lemma term_weight_pos: "terms_ok ts \<Longrightarrow> ts \<noteq> [] \<Longrightarrow> 0 < term_weight ts"
  by (cases ts) (auto dest: term_weight_nonneg)

lemma SOURCE_CAP_bounds: "0 \<le> SOURCE_CAP s \<and> SOURCE_CAP s \<le> 1"
proof (cases s)
  case LlmWithTools
  have "(0 :: rat) \<le> 8 / 10" "(8 / 10 :: rat) \<le> 1" by simp_all
  with LlmWithTools show ?thesis by (simp only: SOURCE_CAP.simps lit_bounds)
next
  case LlmOnly
  have "(0 :: rat) \<le> 5 / 10" "(5 / 10 :: rat) \<le> 1" by simp_all
  with LlmOnly show ?thesis by (simp only: SOURCE_CAP.simps lit_bounds)
qed simp

lemma capOf_bounds: "0 \<le> mc \<Longrightarrow> 0 \<le> capOf s mc \<and> capOf s mc \<le> 1"
  using SOURCE_CAP_bounds[of s] SOURCE_CAP_bounds[of LlmOnly] by (simp add: capOf_def min_def del: SOURCE_CAP.simps)

lemma terms_ok_confidenceTerms: "0 \<le> mc \<Longrightarrow> terms_ok (confidenceTerms errors mc)"
  by (auto simp: terms_ok_def confidenceTerms_def list_all_iff capOf_bounds is_priced_def price_of_def
      split: option.splits)

section \<open>Confidence lies between 0 and 1\<close>

lemma rounded_sum_nonneg: "terms_ok ts \<Longrightarrow> 0 \<le> s \<Longrightarrow> 0 \<le> rounded_sum ts s"
  by (induction ts arbitrary: s) (simp_all add: double.rnd_nonneg)

lemma rounded_sum_le:
  "terms_ok ts \<Longrightarrow> s \<le> of_int n \<Longrightarrow> 0 \<le> n \<Longrightarrow> n + term_weight ts \<le> 2 ^ 53 \<Longrightarrow>
   rounded_sum ts s \<le> of_int (n + term_weight ts)"
proof (induction ts arbitrary: s n)
  case (Cons t ts)
  let ?d = "ct_deduction t"
  have d: "0 < ?d" and w: "0 \<le> term_weight ts" using Cons.prems by (auto dest: term_weight_nonneg)
  have "ct_cap t * of_int ?d \<le> 1 * of_int ?d" using Cons.prems d by (intro mult_right_mono) auto
  then have "fl (ct_cap t * of_int ?d) \<le> of_int ?d"
    using d w Cons.prems by (intro double.rnd_le_int) auto
  then have "s + fl (ct_cap t * of_int ?d) \<le> of_int (n + ?d)" using Cons.prems by simp
  then have "fl (s + fl (ct_cap t * of_int ?d)) \<le> of_int (n + ?d)"
    using d w Cons.prems by (intro double.rnd_le_int) auto
  from Cons.IH[OF _ this] Cons.prems d show ?case by (simp add: algebra_simps)
qed simp

lemma caseConfidence_bounds:
  assumes "0 \<le> mc" and "term_weight (confidenceTerms errors mc) \<le> 2 ^ 53"
  shows "0 \<le> caseConfidence errors mc cov \<and> caseConfidence errors mc cov \<le> 1"
proof -
  let ?ts = "confidenceTerms errors mc"
  have ok: "terms_ok ?ts" using assms(1) by (rule terms_ok_confidenceTerms)
  have n: "0 \<le> rounded_sum ?ts 0" using ok by (intro rounded_sum_nonneg) auto
  have u: "rounded_sum ?ts 0 \<le> of_int (term_weight ?ts)" using rounded_sum_le[OF ok, of 0 0] assms by simp
  have w: "0 \<le> term_weight ?ts" using ok by (rule term_weight_nonneg)
  have "0 \<le> rounded_sum ?ts 0 / of_int (term_weight ?ts)" using n w by simp
  moreover have "rounded_sum ?ts 0 / of_int (term_weight ?ts) \<le> 1"
    using u w by (cases "term_weight ?ts = 0") (auto simp: divide_le_eq_1)
  ultimately show ?thesis
    by (simp add: caseConfidence_terms Let_def double.rnd_nonneg double.rnd_le_1)
qed

text \<open>Errors found by code alone leave the confidence at exactly 1.\<close>

lemma rounded_sum_exact:
  "list_all (\<lambda>t. ct_cap t = 1 \<and> 0 < ct_deduction t) ts \<Longrightarrow> 0 \<le> n \<Longrightarrow> n + term_weight ts \<le> 2 ^ 53 \<Longrightarrow>
   rounded_sum ts (of_int n) = of_int (n + term_weight ts)"
proof (induction ts arbitrary: n)
  case (Cons t ts)
  have "0 \<le> term_weight ts" using Cons.prems by (intro term_weight_nonneg) (auto simp: terms_ok_def list_all_iff)
  with Cons.prems have "fl (of_int (ct_deduction t)) = of_int (ct_deduction t)"
    and "fl (of_int (n + ct_deduction t)) = of_int (n + ct_deduction t)"
    using fl_int[of "ct_deduction t"] fl_int[of "n + ct_deduction t"] by simp_all
  then have "rounded_sum (t # ts) (of_int n) = rounded_sum ts (of_int (n + ct_deduction t))"
    using Cons.prems by simp
  also have "\<dots> = of_int (n + ct_deduction t + term_weight ts)"
    using Cons.prems by (intro Cons.IH) auto
  finally show ?case by (simp add: algebra_simps)
qed simp

lemma caseConfidence_all_certain:
  assumes "list_all (\<lambda>t. ct_cap t = 1) (confidenceTerms errors mc)" and "confidenceTerms errors mc \<noteq> []"
    and "term_weight (confidenceTerms errors mc) \<le> 2 ^ 53"
  shows "caseConfidence errors mc cov = 1"
proof -
  let ?ts = "confidenceTerms errors mc"
  have c: "list_all (\<lambda>t. ct_cap t = 1 \<and> 0 < ct_deduction t) ?ts"
    using assms(1) by (auto simp: list_all_iff confidenceTerms_def is_priced_def price_of_def split: option.splits)
  then have "terms_ok ?ts" by (auto simp: terms_ok_def list_all_iff)
  with assms(2) have w: "0 < term_weight ?ts" by (simp add: term_weight_pos)
  from rounded_sum_exact[OF c, of 0] assms(3) have "rounded_sum ?ts 0 = of_int (term_weight ?ts)" by simp
  with w show ?thesis by (simp add: caseConfidence_terms Let_def double.rnd_1)
qed


section \<open>The rounding error is below the tolerance\<close>

lemma exact_sum_nonneg: "terms_ok ts \<Longrightarrow> 0 \<le> exact_sum ts"
  by (induction ts) auto

lemma exact_sum_le: "terms_ok ts \<Longrightarrow> exact_sum ts \<le> of_int (term_weight ts)"
  by (induction ts) (auto intro!: add_mono mult_left_le_one_le)

lemma rounded_sum_lower:
  fixes q :: rat
  assumes q: "q = 1 - 1 / 2 ^ 53"
  shows "terms_ok ts \<Longrightarrow> 0 \<le> s \<Longrightarrow> s * q ^ length ts + exact_sum ts * q ^ Suc (length ts) \<le> rounded_sum ts s"
proof (induction ts arbitrary: s)
  case (Cons t ts)
  have q01: "0 \<le> q" "q \<le> 1" by (simp_all add: q)
  let ?x = "ct_cap t * of_int (ct_deduction t)" and ?n = "length ts"
  have x: "0 \<le> ?x" and e: "0 \<le> exact_sum ts" using Cons.prems by (auto intro: exact_sum_nonneg)
  have fx: "?x * q \<le> fl ?x" "0 \<le> fl ?x" unfolding q by (rule double.rnd_lower[OF x], rule double.rnd_nonneg[OF x])
  have "(s + ?x * q) * q \<le> (s + fl ?x) * q" using fx q01 by (intro mult_right_mono) simp_all
  also have "\<dots> \<le> fl (s + fl ?x)" unfolding q using fx Cons.prems by (intro double.rnd_lower) simp
  finally have s': "(s + ?x * q) * q * q ^ ?n \<le> fl (s + fl ?x) * q ^ ?n"
    using q01 by (intro mult_right_mono) simp_all
  have "exact_sum ts * q ^ Suc (Suc ?n) \<le> exact_sum ts * q ^ Suc ?n"
    using e q01 by (intro mult_left_mono power_decreasing) simp_all
  then have "s * q ^ Suc ?n + (?x + exact_sum ts) * q ^ Suc (Suc ?n)
      \<le> (s + ?x * q) * q * q ^ ?n + exact_sum ts * q ^ Suc ?n"
    by (simp add: algebra_simps)
  also have "\<dots> \<le> fl (s + fl ?x) * q ^ ?n + exact_sum ts * q ^ Suc ?n" using s' by simp
  also have "\<dots> \<le> rounded_sum ts (fl (s + fl ?x))"
    using Cons.prems fx by (intro Cons.IH) (simp_all add: double.rnd_nonneg)
  finally show ?case by simp
qed simp

lemma rounded_sum_upper:
  fixes q :: rat
  assumes q: "q = 1 + 1 / 2 ^ 53"
  shows "terms_ok ts \<Longrightarrow> 0 \<le> s \<Longrightarrow> rounded_sum ts s \<le> s * q ^ length ts + exact_sum ts * q ^ Suc (length ts)"
proof (induction ts arbitrary: s)
  case (Cons t ts)
  have q1: "1 \<le> q" by (simp add: q)
  let ?x = "ct_cap t * of_int (ct_deduction t)" and ?n = "length ts"
  have x: "0 \<le> ?x" and e: "0 \<le> exact_sum ts" using Cons.prems by (auto intro: exact_sum_nonneg)
  have fx: "fl ?x \<le> ?x * q" "0 \<le> fl ?x" unfolding q by (rule double.rnd_upper[OF x], rule double.rnd_nonneg[OF x])
  have "fl (s + fl ?x) \<le> (s + fl ?x) * q" unfolding q using fx Cons.prems by (intro double.rnd_upper) simp
  also have "\<dots> \<le> (s + ?x * q) * q" using fx q1 by (intro mult_right_mono) simp_all
  finally have s': "fl (s + fl ?x) * q ^ ?n \<le> (s + ?x * q) * q * q ^ ?n"
    using q1 by (intro mult_right_mono) simp_all
  have "rounded_sum ts (fl (s + fl ?x)) \<le> fl (s + fl ?x) * q ^ ?n + exact_sum ts * q ^ Suc ?n"
    using Cons.prems fx by (intro Cons.IH) (simp_all add: double.rnd_nonneg)
  also have "\<dots> \<le> (s + ?x * q) * q * q ^ ?n + exact_sum ts * q ^ Suc ?n" using s' by simp
  also have "\<dots> \<le> s * q ^ Suc ?n + (?x + exact_sum ts) * q ^ Suc (Suc ?n)"
  proof -
    have "exact_sum ts * q ^ Suc ?n \<le> exact_sum ts * q ^ Suc (Suc ?n)"
      using e q1 by (intro mult_left_mono power_increasing) simp_all
    then show ?thesis by (simp add: algebra_simps)
  qed
  finally show ?case by simp
qed simp

text \<open>Both bounds together: the computed confidence is within a relative error of \<open>(n + 2) / 2\<^sup>5\<^sup>3\<close> of the mean.\<close>

lemma power_upper:
  fixes u :: rat
  assumes u: "0 \<le> u" and n: "of_nat n * u \<le> 1 / 2"
  shows "(1 + u) ^ n \<le> 1 + 2 * of_nat n * u"
  using n
proof (induction n)
  case (Suc n)
  have n: "of_nat n * u \<le> 1 / 2" using Suc.prems u by (simp add: algebra_simps)
  have "(1 + u) ^ Suc n \<le> (1 + u) * (1 + 2 * of_nat n * u)"
    using Suc.IH[OF n] u by (simp add: mult_left_mono)
  also have "\<dots> = 1 + 2 * of_nat n * u + u * (1 + 2 * (of_nat n * u))" by (simp add: algebra_simps)
  also have "\<dots> \<le> 1 + 2 * of_nat n * u + u * 2" using n u by (intro add_left_mono mult_left_mono) simp_all
  finally show ?case by (simp add: algebra_simps)
qed simp

lemma caseConfidence_error:
  assumes mc: "0 \<le> mc" and ne: "confidenceTerms errors mc \<noteq> []"
    and len: "length (confidenceTerms errors mc) \<le> 10 ^ 6"
  shows "\<bar>caseConfidence errors mc cov - exact_confidence (confidenceTerms errors mc)\<bar> \<le> 1 / 10 ^ 9 - 1 / 10 ^ 10"
proof -
  define ts where "ts = confidenceTerms errors mc"
  define n where "n = length ts + 2"
  define u :: rat where "u = 1 / 2 ^ 53"
  define x where "x = exact_confidence ts"
  have ok: "terms_ok ts" unfolding ts_def using mc by (rule terms_ok_confidenceTerms)
  have w: "0 < term_weight ts" using ok ne by (simp add: term_weight_pos ts_def)
  have len': "of_nat (length ts) \<le> (10 ^ 6 :: rat)" using len unfolding ts_def by (metis of_nat_le_iff of_nat_numeral of_nat_power)
  have nu: "of_nat n * u \<le> (10 ^ 6 + 2) / 2 ^ 53" using len' by (simp add: n_def u_def divide_right_mono)
  have es: "0 \<le> exact_sum ts" "exact_sum ts \<le> of_int (term_weight ts)"
    using ok by (auto intro: exact_sum_nonneg exact_sum_le)
  have x: "0 \<le> x" "x \<le> 1" using es w by (simp_all add: x_def exact_confidence_def divide_le_eq_1)
  have cc: "caseConfidence errors mc cov = fl (rounded_sum ts 0 / of_int (term_weight ts))"
    using w by (simp add: caseConfidence_terms Let_def ts_def)
  let ?y = "rounded_sum ts 0 / of_int (term_weight ts)"
  have y0: "0 \<le> ?y" using w rounded_sum_nonneg[OF ok, of 0] by simp
  have lo: "x * (1 - u) ^ (length ts + 1) \<le> ?y"
    using rounded_sum_lower[OF refl ok, of 0] w by (simp add: x_def exact_confidence_def u_def field_simps)
  have up: "?y \<le> x * (1 + u) ^ (length ts + 1)"
    using rounded_sum_upper[OF refl ok, of 0] w by (simp add: x_def exact_confidence_def u_def field_simps)
  have "x * (1 - u) ^ n \<le> ?y * (1 - u)"
    using mult_right_mono[OF lo, of "1 - u"] by (simp add: n_def u_def mult.commute mult.left_commute)
  also have "\<dots> \<le> fl ?y" unfolding u_def by (rule double.rnd_lower[OF y0])
  finally have lo': "x * (1 - u) ^ n \<le> fl ?y" .
  have "fl ?y \<le> ?y * (1 + u)" unfolding u_def by (rule double.rnd_upper[OF y0])
  also have "\<dots> \<le> x * (1 + u) ^ n"
    using mult_right_mono[OF up, of "1 + u"] by (simp add: n_def u_def mult.commute mult.left_commute)
  finally have up': "fl ?y \<le> x * (1 + u) ^ n" .
  have xa: "x * (of_nat n * u) \<le> of_nat n * u"
    using x by (intro mult_left_le_one_le) (simp_all add: u_def)
  have "1 - of_nat n * u \<le> (1 - u) ^ n"
    using Bernoulli_inequality[of "- u" n] by (simp add: u_def)
  then have "x * (1 - of_nat n * u) \<le> fl ?y"
    using lo' mult_left_mono[OF _ x(1)] by fastforce
  with xa have 1: "x - of_nat n * u \<le> fl ?y" by (simp add: algebra_simps)
  have "(1 + u) ^ n \<le> 1 + 2 * of_nat n * u" using nu by (intro power_upper) (simp_all add: u_def)
  then have "fl ?y \<le> x * (1 + 2 * of_nat n * u)"
    using up' mult_left_mono[OF _ x(1)] by fastforce
  with xa have 2: "fl ?y \<le> x + 2 * of_nat n * u" by (simp add: algebra_simps)
  have "0 \<le> of_nat n * u" by (simp add: u_def)
  with 1 2 have "\<bar>fl ?y - x\<bar> \<le> 2 * (of_nat n * u)" unfolding abs_le_iff by linarith
  also have "\<dots> \<le> 2 * ((10 ^ 6 + 2) / 2 ^ 53)" using nu by (rule mult_left_mono) simp
  also have "\<dots> \<le> 1 / 10 ^ 9 - 1 / 10 ^ 10" by simp
  finally show ?thesis unfolding cc x_def ts_def .
qed

lemma caseConfidence_le:
  assumes "0 \<le> mc" and "confidenceTerms errors mc \<noteq> []" and "length (confidenceTerms errors mc) \<le> 10 ^ 6"
  shows "caseConfidence errors mc cov \<le> exact_confidence (confidenceTerms errors mc) + 1 / 10 ^ 9"
proof -
  have "caseConfidence errors mc cov - exact_confidence (confidenceTerms errors mc) \<le> 1 / 10 ^ 9 - 1 / 10 ^ 10"
    by (rule order_trans[OF abs_ge_self caseConfidence_error[OF assms]])
  also have "\<dots> \<le> 1 / 10 ^ 9" by simp
  finally show ?thesis by (simp only: diff_le_eq add.commute)
qed

text \<open>The mean is at most the largest ceiling.\<close>

lemma exact_confidence_le:
  assumes "terms_ok ts" and "ts \<noteq> []" and "list_all (\<lambda>t. ct_cap t \<le> m) ts"
  shows "exact_confidence ts \<le> m"
proof -
  have "exact_sum ts \<le> m * of_int (term_weight ts)"
    using assms(1,3) by (induction ts) (auto simp: distrib_left intro!: add_mono mult_right_mono)
  with term_weight_pos[OF assms(1,2)] show ?thesis by (simp add: exact_confidence_def divide_le_eq)
qed

lemma cap_le_tools: "s \<noteq> Deterministic \<Longrightarrow> capOf s mc \<le> SOURCE_CAP LlmWithTools"
proof -
  have "SOURCE_CAP LlmOnly \<le> SOURCE_CAP LlmWithTools" by code_simp
  moreover assume "s \<noteq> Deterministic"
  ultimately show ?thesis by (cases s) (auto simp: capOf_def simp del: SOURCE_CAP.simps)
qed

end
