(* ===== verification/Threshold.thy ===== *)
theory Threshold
  imports Hundredths Confidence
begin

text \<open>
  The settings of the automatic decision (\<open>grading/decision/threshold.ts\<close>), read from the environment.

  \<open>Number(text)\<close> is \<open>js_number\<close>: \<open>None\<close> stands for \<open>NaN\<close> and for the infinities, which
  \<open>Number.isFinite\<close> rejects alike. The environment is a partial function from names to texts. A warning
  is reported as \<open>True\<close>; its text, which only repeats the value read, is not modelled.
\<close>

section \<open>Number of a text\<close>

definition hex_val :: "char \<Rightarrow> nat option" where
  "hex_val c = (let n = (of_char c :: nat) in
     if 48 \<le> n \<and> n \<le> 57 then Some (n - 48)
     else if 97 \<le> n \<and> n \<le> 102 then Some (n - 87)
     else if 65 \<le> n \<and> n \<le> 70 then Some (n - 55) else None)"

fun radix_value :: "nat \<Rightarrow> nat \<Rightarrow> string \<Rightarrow> nat option" where
  "radix_value b acc [] = Some acc"
| "radix_value b acc (c # cs) =
     (case hex_val c of None \<Rightarrow> None | Some d \<Rightarrow> if d < b then radix_value b (acc * b + d) cs else None)"

definition radix_literal :: "string \<Rightarrow> (nat \<times> string) option" where
  "radix_literal s = (case s of
      z # x # ds \<Rightarrow>
        if z \<noteq> CHR ''0'' then None
        else if x \<in> {CHR ''x'', CHR ''X''} then Some (16, ds)
        else if x \<in> {CHR ''o'', CHR ''O''} then Some (8, ds)
        else if x \<in> {CHR ''b'', CHR ''B''} then Some (2, ds) else None
    | _ \<Rightarrow> None)"

definition scan_sign :: "string \<Rightarrow> bool \<times> string" where
  "scan_sign s = (case s of
      c # cs \<Rightarrow> if c = CHR ''-'' then (True, cs) else if c = CHR ''+'' then (False, cs) else (False, s)
    | [] \<Rightarrow> (False, []))"

text \<open>The exponent part of a decimal literal: \<open>None\<close> when it is malformed.\<close>

definition scan_exponent :: "string \<Rightarrow> int option" where
  "scan_exponent s = (case s of
      [] \<Rightarrow> Some 0
    | c # cs \<Rightarrow>
        if c \<noteq> CHR ''e'' \<and> c \<noteq> CHR ''E'' then None
        else (let (neg, ds) = scan_sign cs in
              if ds = [] \<or> \<not> list_all is_digit ds then None
              else Some (if neg then - int (number_of_digits ds) else int (number_of_digits ds))))"

definition decimal_value :: "string \<Rightarrow> rat option" where
  "decimal_value s =
     (let whole = takeWhile is_digit s; rest = dropWhile is_digit s;
          dot = (rest \<noteq> [] \<and> hd rest = CHR ''.'');
          frac = (if dot then takeWhile is_digit (tl rest) else []);
          rest' = (if dot then dropWhile is_digit (tl rest) else rest)
      in if whole = [] \<and> frac = [] then None
         else map_option (\<lambda>e. let k = e - int (length frac) in
                 of_nat (number_of_digits (whole @ frac)) * (if 0 \<le> k then 10 ^ nat k else 1 / 10 ^ nat (- k)))
               (scan_exponent rest'))"

definition js_number :: "string \<Rightarrow> rat option" where
  "js_number s =
     (let t = js_trim s in
      if t = [] then Some 0
      else case radix_literal t of
          Some (b, ds) \<Rightarrow> if ds = [] then None else map_option (\<lambda>n. fl (of_nat n)) (radix_value b 0 ds)
        | None \<Rightarrow> (let (neg, u) = scan_sign t in
                   map_option (\<lambda>x. if neg then - fl x else fl x) (decimal_value u)))"

section \<open>Settings\<close>

text \<open>\<open>AUTO_APPROVE_CONFIDENCE\<close> of \<open>grading/grading.types.ts\<close>.\<close>

definition AUTO_APPROVE_CONFIDENCE :: rat where
  "AUTO_APPROVE_CONFIDENCE = lit (85 / 100)"

definition AUTO_THETA_EPSILON :: rat where
  "AUTO_THETA_EPSILON = lit (1 / 10 ^ 9)"

type_synonym env = "string \<Rightarrow> string option"

definition readAutoThreshold :: "env \<Rightarrow> rat \<times> bool" where
  "readAutoThreshold env =
     (case env ''GRADING_AUTO_THRESHOLD'' of
        None \<Rightarrow> (AUTO_APPROVE_CONFIDENCE, False)
      | Some raw \<Rightarrow>
          (case (if js_trim raw = [] then None else js_number raw) of
             Some value \<Rightarrow> if 0 < value \<and> value \<le> 1 then (value, False) else (AUTO_APPROVE_CONFIDENCE, True)
           | None \<Rightarrow> (AUTO_APPROVE_CONFIDENCE, True)))"

definition readAutoBlockedRules :: "env \<Rightarrow> key list \<times> bool" where
  "readAutoBlockedRules env =
     (case env ''GRADING_AUTO_BLOCK_RULE_KEYS'' of
        None \<Rightarrow> ([], False)
      | Some raw \<Rightarrow>
          if js_trim raw = [] then ([], False)
          else (let keys = uniq (filter (\<lambda>k. k \<noteq> []) (map js_trim (split_on CHR '','' raw))) in
                if keys \<noteq> [] then (keys, False) else (keys, True)))"

definition readAutoNoError :: "env \<Rightarrow> bool \<times> bool" where
  "readAutoNoError env =
     (case env ''GRADING_AUTO_NO_ERROR'' of
        None \<Rightarrow> (True, False)
      | Some raw \<Rightarrow>
          (let value = js_trim raw in
           if value = ''true'' then (True, False)
           else if value = ''false'' then (False, False)
           else (True, True)))"

lemma AUTO_APPROVE_CONFIDENCE_bounds: "0 < AUTO_APPROVE_CONFIDENCE" "AUTO_APPROVE_CONFIDENCE \<le> 1"
  by code_simp+

lemma readAutoThreshold_bounds:
  "0 < fst (readAutoThreshold env) \<and> fst (readAutoThreshold env) \<le> 1"
  using AUTO_APPROVE_CONFIDENCE_bounds by (auto simp: readAutoThreshold_def split: option.splits if_splits)

lemma readAutoBlockedRules_keys:
  "distinct (fst (readAutoBlockedRules env)) \<and> [] \<notin> set (fst (readAutoBlockedRules env))"
  by (auto simp: readAutoBlockedRules_def Let_def split: option.splits)

lemma SOURCE_CAP_tools_below_default: "SOURCE_CAP LlmWithTools < AUTO_APPROVE_CONFIDENCE - 1 / 100"
  by code_simp

lemma EPSILON_bounds: "1 / 10 ^ 9 - 1 / 10 ^ 20 \<le> AUTO_THETA_EPSILON" "AUTO_THETA_EPSILON \<le> 1 / 10 ^ 9 + 1 / 10 ^ 20"
  by code_simp+

text \<open>
  A case whose exact confidence reaches the threshold is never below it in the comparison \<open>decide\<close>
  makes: the tolerance covers every rounding on the way.
\<close>

lemma threshold_tolerance:
  assumes "0 \<le> mc" and "confidenceTerms errors mc \<noteq> []" and "length (confidenceTerms errors mc) \<le> 10 ^ 6"
    and "0 < theta" "theta \<le> 1" and "theta \<le> exact_confidence (confidenceTerms errors mc)"
  shows "\<not> caseConfidence errors mc cov < fl (theta - AUTO_THETA_EPSILON)"
proof (cases "theta - AUTO_THETA_EPSILON \<le> 0")
  case True
  then have "fl (theta - AUTO_THETA_EPSILON) \<le> 0" using double.rnd_le_int[of "theta - AUTO_THETA_EPSILON" 0] by simp
  moreover have "theta - 1 / 10 ^ 9 + 1 / 10 ^ 10 \<le> caseConfidence errors mc cov"
    using caseConfidence_error[OF assms(1-3), of cov] assms(6) unfolding abs_le_iff by linarith
  moreover have "0 \<le> caseConfidence errors mc cov"
  proof -
    have ok: "terms_ok (confidenceTerms errors mc)" using assms(1) by (rule terms_ok_confidenceTerms)
    then show ?thesis
      by (simp add: caseConfidence_terms Let_def double.rnd_nonneg rounded_sum_nonneg term_weight_nonneg)
  qed
  ultimately show ?thesis by linarith
next
  case False
  have "fl (theta - AUTO_THETA_EPSILON) \<le> (theta - AUTO_THETA_EPSILON) * (1 + 1 / 2 ^ 53)"
    using False by (intro double.rnd_upper) simp
  also have "\<dots> = (theta - AUTO_THETA_EPSILON) + (theta - AUTO_THETA_EPSILON) / 2 ^ 53"
    by (simp only: distrib_left mult_1_right times_divide_eq_right)
  also have "\<dots> \<le> (theta - AUTO_THETA_EPSILON) + 1 / 2 ^ 53"
    using assms(5) EPSILON_bounds(1) False by (intro add_left_mono divide_right_mono) simp_all
  also have "\<dots> \<le> theta - 1 / 10 ^ 9 + 1 / 10 ^ 10"
    using EPSILON_bounds(1) by simp
  also have "\<dots> \<le> caseConfidence errors mc cov"
    using caseConfidence_error[OF assms(1-3), of cov] assms(6) unfolding abs_le_iff by linarith
  finally show ?thesis by simp
qed

end
