(* ===== verification/Diagnose.thy ===== *)
theory Diagnose
  imports Confidence
begin

text \<open>
  The diagnosis of a case: \<open>grading/decision/diagnose.ts\<close>. Rules a machine checks are decided from the
  stored results; for the others the (already filtered) proposals of the model are taken, with a source
  that says whether a program run backs them.
\<close>

record measurement =
  me_ruleKey :: key
  me_criterionKey :: key
  me_outcome :: predicate_outcome

record diagnosis =
  dg_errors :: "diagnosed_error list"
  dg_ignored :: "key list"
  dg_measurements :: "measurement list"

fun is_backing_tool :: "tool \<Rightarrow> bool" where
  "is_backing_tool Run = True"
| "is_backing_tool RunTests = True"
| "is_backing_tool _ = False"

text \<open>The first loop: every rule with a predicate is measured, and the present ones are errors.\<close>

fun measure_rules :: "(rule_predicate \<Rightarrow> predicate_outcome) \<Rightarrow> error_rule list \<Rightarrow> diagnosed_error list \<times> measurement list" where
  "measure_rules evaluate [] = ([], [])"
| "measure_rules evaluate (r # rs) =
     (let (errs, ms) = measure_rules evaluate rs in
      case er_predicate r of
        None \<Rightarrow> (errs, ms)
      | Some p \<Rightarrow>
          (let outcome = evaluate p;
               m = \<lparr>me_ruleKey = er_ruleKey r, me_criterionKey = er_criterionKey r, me_outcome = outcome\<rparr>
           in if isMachineChecked (Some p) \<and> po_state outcome = Present
              then (\<lparr>de_ruleKey = er_ruleKey r, de_criterionKey = er_criterionKey r,
                     de_deduction = er_deduction r, de_source = Deterministic,
                     de_toolCallIds = po_toolCallIds outcome\<rparr> # errs, m # ms)
              else (errs, m # ms)))"

text \<open>The second loop, over the proposals of the model.\<close>

fun judge_proposals ::
  "(key \<Rightarrow> error_rule option) \<Rightarrow> (string \<Rightarrow> tool option) \<Rightarrow> key list \<Rightarrow> verdict_error list \<Rightarrow>
   diagnosed_error list \<times> key list" where
  "judge_proposals byKey toolOf seen [] = ([], [])"
| "judge_proposals byKey toolOf seen (e # es) =
     (case byKey (ve_ruleKey e) of
        None \<Rightarrow> judge_proposals byKey toolOf seen es
      | Some rule \<Rightarrow>
          if isMachineChecked (er_predicate rule) then
            (let (errs, ign) = judge_proposals byKey toolOf seen es in (errs, ve_ruleKey e # ign))
          else if ve_ruleKey e \<in> set seen then judge_proposals byKey toolOf seen es
          else
            (let (errs, ign) = judge_proposals byKey toolOf (set_add (ve_ruleKey e) seen) es;
                 backed = list_ex (\<lambda>i. case toolOf i of None \<Rightarrow> False | Some t \<Rightarrow> is_backing_tool t) (ve_toolCallIds e)
             in (\<lparr>de_ruleKey = ve_ruleKey e, de_criterionKey = er_criterionKey rule,
                  de_deduction = er_deduction rule,
                  de_source = (if backed then LlmWithTools else LlmOnly),
                  de_toolCallIds = ve_toolCallIds e\<rparr> # errs, ign)))"

definition diagnose ::
  "error_rule list \<Rightarrow> 'a test_case_scheme list \<Rightarrow> investigation_result \<Rightarrow> diagnosis" where
  "diagnose rules cases result =
     (let calls = inv_toolCalls (ir_investigation result); st = inv_structured (ir_investigation result) in
      if ir_kind result \<noteq> KVerdict then \<lparr>dg_errors = [], dg_ignored = [], dg_measurements = []\<rparr>
      else
        (let (machine, ms) = measure_rules (\<lambda>p. evaluatePredicate p cases calls st) rules;
             proposals = (case ir_verdict result of None \<Rightarrow> [] | Some v \<Rightarrow> v_errors v);
             (model, ign) = judge_proposals (index_by er_ruleKey rules) (js_map (map (\<lambda>t. (tc_id t, tc_tool t)) calls))
                              (uniq (map de_ruleKey machine)) proposals
         in \<lparr>dg_errors = machine @ model, dg_ignored = ign, dg_measurements = ms\<rparr>))"

section \<open>What the two loops produce\<close>

definition machine_error :: "(rule_predicate \<Rightarrow> predicate_outcome) \<Rightarrow> error_rule \<Rightarrow> diagnosed_error option" where
  "machine_error evaluate r =
     (case er_predicate r of
        None \<Rightarrow> None
      | Some p \<Rightarrow>
          if isMachineChecked (Some p) \<and> po_state (evaluate p) = Present
          then Some \<lparr>de_ruleKey = er_ruleKey r, de_criterionKey = er_criterionKey r, de_deduction = er_deduction r,
                     de_source = Deterministic, de_toolCallIds = po_toolCallIds (evaluate p)\<rparr>
          else None)"

lemma measure_rules_errors: "fst (measure_rules evaluate rs) = List.map_filter (machine_error evaluate) rs"
  by (induction rs) (auto simp: machine_error_def map_filter_simps Let_def split: option.splits prod.splits)

lemma measure_rules_measurements:
  "snd (measure_rules evaluate rs) =
     List.map_filter (\<lambda>r. map_option (\<lambda>p. \<lparr>me_ruleKey = er_ruleKey r, me_criterionKey = er_criterionKey r,
        me_outcome = evaluate p\<rparr>) (er_predicate r)) rs"
  by (induction rs) (auto simp: map_filter_simps Let_def split: option.splits prod.splits)

lemma machine_errorD:
  "machine_error evaluate r = Some e \<Longrightarrow>
     de_source e = Deterministic \<and> de_ruleKey e = er_ruleKey r \<and> de_criterionKey e = er_criterionKey r \<and>
     de_deduction e = er_deduction r \<and>
     (\<exists>p. er_predicate r = Some p \<and> isMachineChecked (Some p) \<and> po_state (evaluate p) = Present)"
  by (auto simp: machine_error_def split: option.splits if_splits)

lemma judge_proposals_sound:
  "e \<in> set (fst (judge_proposals byKey toolOf seen es)) \<Longrightarrow>
     \<exists>rule p. byKey (de_ruleKey e) = Some rule \<and> \<not> isMachineChecked (er_predicate rule) \<and>
       de_ruleKey e \<notin> set seen \<and> de_source e \<noteq> Deterministic \<and> de_criterionKey e = er_criterionKey rule \<and>
       de_deduction e = er_deduction rule \<and> p \<in> set es \<and> ve_ruleKey p = de_ruleKey e \<and>
       de_toolCallIds e = ve_toolCallIds p \<and>
       (de_source e = LlmWithTools \<longrightarrow> (\<exists>i \<in> set (ve_toolCallIds p). toolOf i \<in> {Some Run, Some RunTests}))"
proof (induction es arbitrary: seen)
  case (Cons x es)
  show ?case
  proof (cases "byKey (ve_ruleKey x)")
    case None
    with Cons show ?thesis by fastforce
  next
    case (Some rule)
    consider "isMachineChecked (er_predicate rule)" | "\<not> isMachineChecked (er_predicate rule)" "ve_ruleKey x \<in> set seen"
      | "\<not> isMachineChecked (er_predicate rule)" "ve_ruleKey x \<notin> set seen" by blast
    then show ?thesis
    proof cases
      case 1
      with Some Cons.prems have "e \<in> set (fst (judge_proposals byKey toolOf seen es))" by (auto simp: split_beta)
      from Cons.IH[OF this] show ?thesis by fastforce
    next
      case 2
      with Some Cons.prems have "e \<in> set (fst (judge_proposals byKey toolOf seen es))" by auto
      from Cons.IH[OF this] show ?thesis by fastforce
    next
      case 3
      have bt: "is_backing_tool t \<Longrightarrow> t = Run \<or> t = RunTests" for t by (cases t) auto
      from 3 Some Cons.prems consider
          "de_ruleKey e = ve_ruleKey x" "de_criterionKey e = er_criterionKey rule" "de_deduction e = er_deduction rule"
          "de_toolCallIds e = ve_toolCallIds x"
          "de_source e = (if list_ex (\<lambda>i. case toolOf i of None \<Rightarrow> False | Some t \<Rightarrow> is_backing_tool t) (ve_toolCallIds x)
                          then LlmWithTools else LlmOnly)"
        | "e \<in> set (fst (judge_proposals byKey toolOf (set_add (ve_ruleKey x) seen) es))"
        by (auto simp: split_beta Let_def)
      then show ?thesis
      proof cases
        case 1
        with 3 Some show ?thesis
          by (intro exI[of _ rule] exI[of _ x]) (auto simp: list_ex_iff split: if_splits option.splits dest: bt)
      next
        case 2
        from Cons.IH[OF this] show ?thesis by fastforce
      qed
    qed
  qed
qed simp

lemma judge_proposals_distinct: "distinct (map de_ruleKey (fst (judge_proposals byKey toolOf seen es)))"
proof (induction es arbitrary: seen)
  case (Cons x es)
  have "ve_ruleKey x \<notin> de_ruleKey ` set (fst (judge_proposals byKey toolOf (set_add (ve_ruleKey x) seen) es))"
    using judge_proposals_sound[of _ byKey toolOf "set_add (ve_ruleKey x) seen" es] by fastforce
  with Cons show ?case by (simp add: split_beta Let_def split: option.split)
qed simp

lemma judge_proposals_ignored:
  "set (snd (judge_proposals byKey toolOf seen es)) =
     {ve_ruleKey e |e. e \<in> set es \<and> (\<exists>r. byKey (ve_ruleKey e) = Some r \<and> isMachineChecked (er_predicate r))}"
  by (induction es arbitrary: seen) (auto simp: split_beta Let_def split: option.splits)

text \<open>The measurement of a predicate on a dossier, and the two parts of the diagnosis.\<close>

definition measured_on :: "'a test_case_scheme list \<Rightarrow> investigation_result \<Rightarrow> rule_predicate \<Rightarrow> predicate_outcome" where
  "measured_on cases result p =
     evaluatePredicate p cases (inv_toolCalls (ir_investigation result)) (inv_structured (ir_investigation result))"

definition machine_errors where
  "machine_errors rules cases result = List.map_filter (machine_error (measured_on cases result)) rules"

definition proposals :: "investigation_result \<Rightarrow> verdict_error list" where
  "proposals result = (case ir_verdict result of None \<Rightarrow> [] | Some v \<Rightarrow> v_errors v)"

definition model_errors where
  "model_errors rules cases result = fst (judge_proposals (index_by er_ruleKey rules)
     (js_map (map (\<lambda>t. (tc_id t, tc_tool t)) (inv_toolCalls (ir_investigation result))))
     (uniq (map de_ruleKey (machine_errors rules cases result))) (proposals result))"

lemma diagnose_errors_eq:
  "ir_kind result = KVerdict \<Longrightarrow>
   dg_errors (diagnose rules cases result) = machine_errors rules cases result @ model_errors rules cases result"
  by (simp add: diagnose_def Let_def split_beta measure_rules_errors machine_errors_def model_errors_def
      measured_on_def[abs_def] proposals_def)

lemma diagnose_kind: "e \<in> set (dg_errors (diagnose rules cases result)) \<Longrightarrow> ir_kind result = KVerdict"
  by (auto simp: diagnose_def Let_def split: if_splits)

lemma machine_errorsD:
  "e \<in> set (machine_errors rules cases result) \<Longrightarrow>
     \<exists>r \<in> set rules. de_source e = Deterministic \<and> de_ruleKey e = er_ruleKey r \<and>
       de_criterionKey e = er_criterionKey r \<and> de_deduction e = er_deduction r \<and>
       (\<exists>p. er_predicate r = Some p \<and> isMachineChecked (Some p) \<and> po_state (measured_on cases result p) = Present)"
  unfolding machine_errors_def set_map_filter by (auto dest!: machine_errorD)

lemma machine_errors_iff:
  "(\<exists>e \<in> set (machine_errors rules cases result). de_ruleKey e = k) \<longleftrightarrow>
     (\<exists>r \<in> set rules. er_ruleKey r = k \<and>
        (\<exists>p. er_predicate r = Some p \<and> isMachineChecked (Some p) \<and> po_state (measured_on cases result p) = Present))"
proof
  assume "\<exists>r \<in> set rules. er_ruleKey r = k \<and>
        (\<exists>p. er_predicate r = Some p \<and> isMachineChecked (Some p) \<and> po_state (measured_on cases result p) = Present)"
  then obtain r e where "r \<in> set rules" "er_ruleKey r = k" "machine_error (measured_on cases result) r = Some e"
    by (auto simp: machine_error_def)
  then show "\<exists>e \<in> set (machine_errors rules cases result). de_ruleKey e = k"
    unfolding machine_errors_def set_map_filter by (auto dest: machine_errorD intro!: bexI[of _ e])
qed (auto dest!: machine_errorsD)

lemma model_errorsD:
  assumes "e \<in> set (model_errors rules cases result)"
  shows "\<exists>r p. index_by er_ruleKey rules (de_ruleKey e) = Some r \<and> \<not> isMachineChecked (er_predicate r) \<and>
       de_source e \<noteq> Deterministic \<and> de_criterionKey e = er_criterionKey r \<and> de_deduction e = er_deduction r \<and>
       de_ruleKey e \<notin> de_ruleKey ` set (machine_errors rules cases result) \<and>
       p \<in> set (proposals result) \<and> ve_ruleKey p = de_ruleKey e \<and> de_toolCallIds e = ve_toolCallIds p"
  using judge_proposals_sound[OF assms[unfolded model_errors_def]] by auto

lemma distinct_model_errors: "distinct (map de_ruleKey (model_errors rules cases result))"
  unfolding model_errors_def by (rule judge_proposals_distinct)

lemma distinct_map_partial:
  "distinct (map f xs) \<Longrightarrow> (\<And>x y. x \<in> set xs \<Longrightarrow> h x = Some y \<Longrightarrow> g y = f x) \<Longrightarrow> distinct (map g (List.map_filter h xs))"
proof (induction xs)
  case (Cons x xs)
  then have IH: "distinct (map g (List.map_filter h xs))" by simp
  show ?case
  proof (cases "h x")
    case (Some y)
    have "g y \<notin> g ` set (List.map_filter h xs)"
    proof
      assume "g y \<in> g ` set (List.map_filter h xs)"
      then obtain x' y' where "x' \<in> set xs" "h x' = Some y'" "g y = g y'" by (auto simp: set_map_filter)
      with Cons.prems Some have "f x \<in> f ` set xs" by (metis image_eqI list.set_intros)
      with Cons.prems(1) show False by simp
    qed
    with IH Some show ?thesis by (simp add: map_filter_simps)
  qed (use IH in \<open>simp add: map_filter_simps\<close>)
qed (simp add: map_filter_simps)

lemma distinct_machine_errors:
  "distinct (map er_ruleKey rules) \<Longrightarrow> distinct (map de_ruleKey (machine_errors rules cases result))"
  unfolding machine_errors_def by (erule distinct_map_partial) (auto dest: machine_errorD)

lemma diagnose_measurements_eq:
  "ir_kind result = KVerdict \<Longrightarrow>
   dg_measurements (diagnose rules cases result) =
     List.map_filter (\<lambda>r. map_option (\<lambda>p. \<lparr>me_ruleKey = er_ruleKey r, me_criterionKey = er_criterionKey r,
        me_outcome = evaluatePredicate p cases (inv_toolCalls (ir_investigation result))
          (inv_structured (ir_investigation result))\<rparr>) (er_predicate r)) rules"
  by (simp add: diagnose_def Let_def split_beta measure_rules_measurements)

text \<open>Every error carries its rule's criterion and price; the two sources never meet on one rule.\<close>

lemma diagnose_error_rule:
  assumes d: "distinct (map er_ruleKey rules)" and e: "e \<in> set (dg_errors (diagnose rules cases result))"
  shows "\<exists>r \<in> set rules. de_ruleKey e = er_ruleKey r \<and> de_criterionKey e = er_criterionKey r \<and>
           de_deduction e = er_deduction r \<and> (de_source e = Deterministic \<longleftrightarrow> isMachineChecked (er_predicate r))"
proof -
  note k = diagnose_kind[OF e]
  from e consider "e \<in> set (machine_errors rules cases result)" | "e \<in> set (model_errors rules cases result)"
    unfolding diagnose_errors_eq[OF k] by auto
  then show ?thesis
  proof cases
    case 1
    from machine_errorsD[OF this] show ?thesis by auto
  next
    case 2
    from model_errorsD[OF this] show ?thesis by (auto dest!: index_by_SomeD)
  qed
qed

lemma diagnose_distinct:
  assumes "distinct (map er_ruleKey rules)"
  shows "distinct (map de_ruleKey (dg_errors (diagnose rules cases result)))"
proof (cases "ir_kind result = KVerdict")
  case True
  have "de_ruleKey ` set (machine_errors rules cases result) \<inter> de_ruleKey ` set (model_errors rules cases result) = {}"
  proof -
    have "de_ruleKey e \<notin> de_ruleKey ` set (machine_errors rules cases result)"
      if "e \<in> set (model_errors rules cases result)" for e
      using model_errorsD[OF that] by blast
    then show ?thesis unfolding disjoint_iff image_iff by metis
  qed
  then show ?thesis
    unfolding diagnose_errors_eq[OF True]
    using distinct_machine_errors[OF assms] distinct_model_errors by auto
qed (simp add: diagnose_def Let_def)

text \<open>The verdict of a machine-checked rule is the measurement, whatever the model proposed.\<close>

lemma diagnose_machine_rule:
  assumes d: "distinct (map er_ruleKey rules)" and r: "r \<in> set rules" and p: "er_predicate r = Some p"
    and m: "isMachineChecked (Some p)" and k: "ir_kind result = KVerdict"
  shows "er_ruleKey r \<in> de_ruleKey ` set (dg_errors (diagnose rules cases result)) \<longleftrightarrow>
     po_state (measured_on cases result p) = Present"
proof -
  have ix: "index_by er_ruleKey rules (er_ruleKey r) = Some r" using d r by (rule index_by_distinct)
  have "er_ruleKey r \<notin> de_ruleKey ` set (model_errors rules cases result)"
  proof
    assume "er_ruleKey r \<in> de_ruleKey ` set (model_errors rules cases result)"
    then obtain e where "e \<in> set (model_errors rules cases result)" "de_ruleKey e = er_ruleKey r" by auto
    with model_errorsD[of e rules cases result] ix p m show False by auto
  qed
  then have "er_ruleKey r \<in> de_ruleKey ` set (dg_errors (diagnose rules cases result)) \<longleftrightarrow>
      (\<exists>e \<in> set (machine_errors rules cases result). de_ruleKey e = er_ruleKey r)"
    unfolding diagnose_errors_eq[OF k] set_append image_Un Un_iff image_iff by (metis (no_types))
  also have "\<dots> \<longleftrightarrow> (\<exists>r' \<in> set rules. er_ruleKey r' = er_ruleKey r \<and> (\<exists>p. er_predicate r' = Some p \<and>
      isMachineChecked (Some p) \<and> po_state (measured_on cases result p) = Present))"
    by (rule machine_errors_iff)
  also have "\<dots> \<longleftrightarrow> po_state (measured_on cases result p) = Present"
    using d r p m by (metis index_by_distinct ix option.inject)
  finally show ?thesis .
qed

end
