(* ===== verification/Decide.thy ===== *)
theory Decide
  imports Deduction Threshold Diagnose
begin

text \<open>
  The decision on a case: \<open>grading/decision/decide.ts\<close>, with its input and output of
  \<open>decision/types.ts\<close>. \<open>decide\<close> follows the code: the floors first (an ungradable investigation, an empty
  bundle, a bundle not covered, a spent budget without findings), then the flags, the confidence and
  the comparison with the threshold. A \<open>throw\<close> of the scoring is an \<open>Inl\<close>.

  Details of flags, human-readable in the code, are the data they interpolate.
\<close>

section \<open>Input and output\<close>

datatype ruler_trust = RulerTeacher | RulerVerified | RulerUnverified

record decision_input =
  di_pipeline :: pipeline
  di_result :: investigation_result
  di_cases :: "test_case list"
  di_rubric :: "scoring_criterion list"
  di_rules :: "error_rule list"
  di_rulesSeen :: "(key \<times> checked_by) list"
  di_waived :: "key list"
  di_modelCeiling :: rat
  di_theta :: rat
  di_challenge :: "stored_challenge option"
  di_rulerTrust :: "ruler_trust option"
  di_autoBlocked :: "key list option"
  di_autoNoError :: "bool option"

datatype gap_reason = GapMeasure "measure_reason option" | GapRuleAfter | GapToldNot | GapNoRead

datatype case_flag =
    CriterionUntouched key "(key \<times> gap_reason) list"
  | CriterionWithoutRules key
  | NothingPassed
  | InvestigationFlagged investigation_flag "injection_source list"
  | LowConfidence rat rat
  | NotCodePipeline
  | ChallengeSuspected "(string \<times> utext) list"
  | ChallengeIncomplete "(string \<times> utext) list"
  | RulerNotVerified
  | TypeAutoDisabled key
  | NoErrorAutoDisabled

datatype error_flag_code = FlagUnpriced | FlagRefuted | FlagUnverified

type_synonym error_flag = "key \<times> error_flag_code"

datatype decision_outcome = Auto | Flagged | Ungradable

record decision =
  dc_outcome :: decision_outcome
  dc_ungradable :: "ungradable option"
  dc_score :: "int option"
  dc_max :: int
  dc_errors :: "diagnosed_error list"
  dc_confidence :: "rat option"
  dc_caseFlags :: "case_flag list"
  dc_errorFlags :: "error_flag list"
  dc_diagnosis :: "diagnosis option"

section \<open>The parts of the decision\<close>

fun is_budget_stop :: "stop_reason \<Rightarrow> bool" where
  "is_budget_stop MaxToolCalls = True"
| "is_budget_stop MaxRounds = True"
| "is_budget_stop MaxWall = True"
| "is_budget_stop MaxTokens = True"
| "is_budget_stop _ = False"

definition CONTRADICTION_CAP :: rat where
  "CONTRADICTION_CAP = lit (5 / 10)"

definition UNVERIFIED_CONFIDENCE_CAP :: rat where
  "UNVERIFIED_CONFIDENCE_CAP = lit (5 / 10)"

definition mergedStatusOf :: "key \<Rightarrow> challenge_conclusion list \<Rightarrow> challenge_status option" where
  "mergedStatusOf k perError =
     (let statuses = concat (map (\<lambda>c. map eco_status (filter (\<lambda>e. eco_ruleKey e = k) (chc_perError c))) perError) in
      if statuses = [] then None
      else if Refuted \<in> set statuses then Some Refuted
      else if Confirmed \<in> set statuses then Some Confirmed
      else Some Unverified)"

text \<open>The rule keys of the errors a challenge gives one status; machine findings are exempt.\<close>

definition challenged_keys :: "challenge_status \<Rightarrow> stored_challenge option \<Rightarrow> diagnosed_error list \<Rightarrow> key list" where
  "challenged_keys s challenge errors =
     (case challenge of
        None \<Rightarrow> []
      | Some ch \<Rightarrow> uniq (map de_ruleKey (filter (\<lambda>e. de_source e \<noteq> Deterministic \<and>
                       mergedStatusOf (de_ruleKey e) (sch_perError ch) = Some s) errors)))"

definition to_scoring_rule :: "error_rule \<Rightarrow> scoring_rule" where
  "to_scoring_rule r = \<lparr>sr_ruleKey = er_ruleKey r, sr_criterionKey = er_criterionKey r, sr_deduction = er_deduction r\<rparr>"

definition read_submission :: "tool_call list \<Rightarrow> bool" where
  "read_submission calls = list_ex (\<lambda>t. tc_tool t = ReadFile \<and> tc_status t = CallOk \<and>
      (case str_arg (tc_args t) ''path'' of None \<Rightarrow> False | Some p \<Rightarrow> starts_with ''bai-nop/'' p)) calls"

definition rule_gap ::
  "measurement list \<Rightarrow> (key \<Rightarrow> checked_by option) \<Rightarrow> bool \<Rightarrow> error_rule \<Rightarrow> (key \<times> gap_reason) option" where
  "rule_gap measurements seen readSubmission r =
     (case er_predicate r of
        Some _ \<Rightarrow>
          (case List.find (\<lambda>m. me_ruleKey m = er_ruleKey r) measurements of
             None \<Rightarrow> Some (er_ruleKey r, GapMeasure None)
           | Some m \<Rightarrow>
               if po_state (me_outcome m) = Unmeasured then Some (er_ruleKey r, GapMeasure (po_reason (me_outcome m)))
               else None)
      | None \<Rightarrow>
          (case seen (er_ruleKey r) of
             None \<Rightarrow> Some (er_ruleKey r, GapRuleAfter)
           | Some ByMachine \<Rightarrow> Some (er_ruleKey r, GapToldNot)
           | Some ByModel \<Rightarrow> if readSubmission then None else Some (er_ruleKey r, GapNoRead)))"

definition criterion_flag ::
  "error_rule list \<Rightarrow> key list \<Rightarrow> (error_rule \<Rightarrow> (key \<times> gap_reason) option) \<Rightarrow> scoring_criterion \<Rightarrow> case_flag option" where
  "criterion_flag rules waived gap c =
     (if sc_max c \<le> 0 then None
      else (let own = filter (\<lambda>r. er_criterionKey r = sc_key c) rules in
            if own = [] then (if sc_key c \<in> set waived then None else Some (CriterionWithoutRules (sc_key c)))
            else (let gaps = List.map_filter gap own in
                  if gaps \<noteq> [] then Some (CriterionUntouched (sc_key c) gaps) else None)))"

definition nothing_passed :: "tool_call list \<Rightarrow> structured_results \<Rightarrow> bool" where
  "nothing_passed calls st =
     (let runs = List.map_filter (run_tests_of st) calls;
          ran = list_ex (\<lambda>(compile, results). compile_failed compile \<or> results \<noteq> []) runs;
          anyPass = list_ex (\<lambda>(compile, results). list_ex (\<lambda>c. cr_status c = Pass) results) runs
      in ran \<and> \<not> anyPass)"

definition challenge_flags :: "stored_challenge option \<Rightarrow> case_flag list" where
  "challenge_flags challenge =
     (let notes = (case challenge of None \<Rightarrow> [] | Some ch \<Rightarrow> sch_caseNotes ch);
          entry = (\<lambda>n. (cn_lens n, cn_note n));
          suspected = filter cn_suspected notes;
          incomplete = filter (\<lambda>n. \<not> cn_concluded n) notes
      in (if suspected \<noteq> [] then [ChallengeSuspected (map entry suspected)] else []) @
         (if incomplete \<noteq> [] then [ChallengeIncomplete (map entry incomplete)] else []))"

definition gate_flags :: "diagnosed_error list \<Rightarrow> key list option \<Rightarrow> bool option \<Rightarrow> case_flag list" where
  "gate_flags errors autoBlocked autoNoError =
     (if errors = [] \<and> autoNoError = Some False then [NoErrorAutoDisabled] else []) @
     (case autoBlocked of
        None \<Rightarrow> []
      | Some blocked \<Rightarrow>
          if blocked = [] then []
          else map TypeAutoDisabled (filter (\<lambda>k. k \<in> set blocked) (uniq (map de_ruleKey errors))))"

text \<open>The confidence, lowered in turn by the cap of the investigation, a contradiction and unverified errors.\<close>

definition capped_confidence :: "rat \<Rightarrow> rat \<Rightarrow> bool \<Rightarrow> key list \<Rightarrow> rat" where
  "capped_confidence base cap nothingPassed unverified =
     (let c0 = min base cap;
          c1 = (if nothingPassed then min c0 CONTRADICTION_CAP else c0)
      in if unverified \<noteq> [] then min c1 UNVERIFIED_CONFIDENCE_CAP else c1)"

section \<open>The decision\<close>

definition ungradable_decision :: "int \<Rightarrow> ungradable \<Rightarrow> diagnosis option \<Rightarrow> decision" where
  "ungradable_decision maxH u diag =
     \<lparr>dc_outcome = Ungradable, dc_ungradable = Some u, dc_score = None, dc_max = maxH, dc_errors = [],
      dc_confidence = None, dc_caseFlags = [], dc_errorFlags = [], dc_diagnosis = diag\<rparr>"

text \<open>The floor: what makes a case ungradable before it is diagnosed.\<close>

definition floor_of :: "decision_input \<Rightarrow> ungradable option" where
  "floor_of i =
     (let result = di_result i; inv = ir_investigation result in
      if ir_kind result = KUngradable then
        Some (case ir_ungradable result of Some u \<Rightarrow> u | None \<Rightarrow> \<lparr>ug_class = SystemFault, ug_reason = NoConclusion\<rparr>)
      else if di_pipeline i = Investigator then
        (if di_cases i = [] then Some \<lparr>ug_class = SystemFault, ug_reason = EmptyBundle\<rparr>
         else (let missing = uncoveredCases (di_cases i) (inv_toolCalls inv) (inv_structured inv) in
               if missing \<noteq> [] then
                 Some \<lparr>ug_class = SystemFault,
                       ug_reason = BundleNotCovered (length missing) (length (di_cases i)) (uniq (map tk_group missing))\<rparr>
               else None))
      else None)"

definition decide_scored :: "decision_input \<Rightarrow> diagnosis \<Rightarrow> score_error + decision" where
  "decide_scored i diag =
     (let result = di_result i; calls = inv_toolCalls (ir_investigation result);
          st = inv_structured (ir_investigation result); errors = dg_errors diag;
          refuted = challenged_keys Refuted (di_challenge i) errors;
          unverified = challenged_keys Unverified (di_challenge i) errors
      in case computeDeductionScore (di_rubric i) (map to_scoring_rule (di_rules i))
                (map de_ruleKey (filter (\<lambda>e. de_ruleKey e \<notin> set refuted) errors)) of
           Inl e \<Rightarrow> Inl e
         | Inr score \<Rightarrow>
             (let criterionFlags = List.map_filter
                    (criterion_flag (di_rules i) (di_waived i)
                       (rule_gap (dg_measurements diag) (js_map (di_rulesSeen i)) (read_submission calls))) (di_rubric i);
                  coverageComplete = (criterionFlags = []);
                  nothingPassed = nothing_passed calls st;
                  flags = criterionFlags @
                    (if nothingPassed then [NothingPassed] else []) @
                    map (\<lambda>f. InvestigationFlagged f (if f = InjectionSuspected then ir_injectionSources result else []))
                        (ir_flags result) @
                    (if di_pipeline i \<noteq> Investigator then [NotCodePipeline] else []) @
                    challenge_flags (di_challenge i) @
                    (if di_rulerTrust i = Some RulerUnverified then [RulerNotVerified] else []) @
                    gate_flags errors (di_autoBlocked i) (di_autoNoError i);
                  errorFlags = map (\<lambda>k. (k, FlagUnpriced)) (ds_unpriced score) @
                    map (\<lambda>k. (k, FlagRefuted)) refuted @ map (\<lambda>k. (k, FlagUnverified)) unverified;
                  confidence = capped_confidence (caseConfidence errors (di_modelCeiling i) coverageComplete)
                    (ir_confidenceCap result) nothingPassed unverified;
                  caseFlags = flags @
                    (if flags = [] \<and> errorFlags = [] \<and> confidence < fl (di_theta i - AUTO_THETA_EPSILON)
                     then [LowConfidence confidence (di_theta i)] else [])
              in Inr \<lparr>dc_outcome = (if caseFlags = [] \<and> errorFlags = [] then Auto else Flagged),
                      dc_ungradable = None, dc_score = Some (ds_score score),
                      dc_max = (\<Sum>c\<leftarrow>di_rubric i. sc_max c), dc_errors = errors,
                      dc_confidence = Some confidence, dc_caseFlags = caseFlags, dc_errorFlags = errorFlags,
                      dc_diagnosis = Some diag\<rparr>))"

definition decide :: "decision_input \<Rightarrow> score_error + decision" where
  "decide i =
     (let maxH = (\<Sum>c\<leftarrow>di_rubric i. sc_max c) in
      case floor_of i of
        Some u \<Rightarrow> Inr (ungradable_decision maxH u None)
      | None \<Rightarrow>
          (let diag = diagnose (di_rules i) (di_cases i) (di_result i);
               stop = bu_stopReason (inv_budget (ir_investigation (di_result i)))
           in if is_budget_stop stop \<and> dg_errors diag = [] then
                Inr (ungradable_decision maxH \<lparr>ug_class = SystemFault, ug_reason = BudgetWithoutFindings stop\<rparr> (Some diag))
              else decide_scored i diag))"

section \<open>Well-formed inputs\<close>

text \<open>Rule keys are unique in a table, and every rule points into the rubric.\<close>

definition table_ok :: "scoring_criterion list \<Rightarrow> error_rule list \<Rightarrow> bool" where
  "table_ok rubric rules \<longleftrightarrow>
     distinct (map er_ruleKey rules) \<and> list_all (\<lambda>r. er_criterionKey r \<in> sc_key ` set rubric) rules"

lemma table_okD:
  "table_ok rubric rules \<Longrightarrow> distinct (map er_ruleKey rules)"
  "table_ok rubric rules \<Longrightarrow> r \<in> set rules \<Longrightarrow> er_criterionKey r \<in> sc_key ` set rubric"
  by (auto simp: table_ok_def list_all_iff)

abbreviation input_ok :: "decision_input \<Rightarrow> bool" where
  "input_ok i \<equiv> table_ok (di_rubric i) (di_rules i)"

abbreviation diag_of :: "decision_input \<Rightarrow> diagnosis" where
  "diag_of i \<equiv> diagnose (di_rules i) (di_cases i) (di_result i)"

abbreviation errors_of :: "decision_input \<Rightarrow> diagnosed_error list" where
  "errors_of i \<equiv> dg_errors (diag_of i)"

abbreviation refuted_of :: "decision_input \<Rightarrow> key list" where
  "refuted_of i \<equiv> challenged_keys Refuted (di_challenge i) (errors_of i)"

abbreviation unverified_of :: "decision_input \<Rightarrow> key list" where
  "unverified_of i \<equiv> challenged_keys Unverified (di_challenge i) (errors_of i)"

definition counted_keys :: "decision_input \<Rightarrow> key list" where
  "counted_keys i = map de_ruleKey (filter (\<lambda>e. de_ruleKey e \<notin> set (refuted_of i)) (errors_of i))"

lemma scoring_index:
  "index_by sr_ruleKey (map to_scoring_rule rules) k = map_option to_scoring_rule (index_by er_ruleKey rules k)"
  by (rule index_by_map) (simp add: to_scoring_rule_def)

lemma diagnose_scorable:
  assumes "table_ok rubric rules" and "set ks \<subseteq> de_ruleKey ` set (dg_errors (diagnose rules cases result))"
  shows "diagnosis_ok rubric (map to_scoring_rule rules) ks"
proof -
  have "key_ok (index_by sr_ruleKey (map to_scoring_rule rules)) (\<lambda>k. k \<in> sc_key ` set rubric) k" if "k \<in> set ks" for k
  proof -
    from that assms(2) obtain e where "e \<in> set (dg_errors (diagnose rules cases result))" "k = de_ruleKey e" by auto
    with diagnose_error_rule[OF table_okD(1)[OF assms(1)]] obtain r where r: "r \<in> set rules" "k = er_ruleKey r" by metis
    then have "index_by er_ruleKey rules k = Some r" using index_by_distinct[OF table_okD(1)[OF assms(1)]] by auto
    with r table_okD(2)[OF assms(1) r(1)] show ?thesis by (simp add: key_ok_def scoring_index to_scoring_rule_def)
  qed
  then show ?thesis by (simp add: diagnosis_ok_set)
qed

lemma counted_keys_subset: "set (counted_keys i) \<subseteq> de_ruleKey ` set (errors_of i)"
  by (auto simp: counted_keys_def)

lemma decide_total: "input_ok i \<Longrightarrow> \<exists>d. decide i = Inr d"
  using diagnose_scorable[of "di_rubric i" "di_rules i" "counted_keys i", OF _ counted_keys_subset]
  by (auto simp: decide_def decide_scored_def Let_def counted_keys_def computeDeductionScore_Inr split: option.split)

section \<open>The parts of the flag list\<close>

definition criterion_flags :: "decision_input \<Rightarrow> case_flag list" where
  "criterion_flags i = List.map_filter
     (criterion_flag (di_rules i) (di_waived i)
        (rule_gap (dg_measurements (diag_of i)) (js_map (di_rulesSeen i))
           (read_submission (inv_toolCalls (ir_investigation (di_result i)))))) (di_rubric i)"

definition nothing_passed_in :: "decision_input \<Rightarrow> bool" where
  "nothing_passed_in i = nothing_passed (inv_toolCalls (ir_investigation (di_result i)))
     (inv_structured (ir_investigation (di_result i)))"

text \<open>All case flags except \<open>low_confidence\<close>, which is set only when there is no other.\<close>

definition condition_flags :: "decision_input \<Rightarrow> case_flag list" where
  "condition_flags i = criterion_flags i @
     (if nothing_passed_in i then [NothingPassed] else []) @
     map (\<lambda>f. InvestigationFlagged f (if f = InjectionSuspected then ir_injectionSources (di_result i) else []))
       (ir_flags (di_result i)) @
     (if di_pipeline i \<noteq> Investigator then [NotCodePipeline] else []) @
     challenge_flags (di_challenge i) @
     (if di_rulerTrust i = Some RulerUnverified then [RulerNotVerified] else []) @
     gate_flags (errors_of i) (di_autoBlocked i) (di_autoNoError i)"

definition error_flags :: "decision_input \<Rightarrow> error_flag list" where
  "error_flags i =
     map (\<lambda>k. (k, FlagUnpriced))
       (filter (is_unpriced (index_by sr_ruleKey (map to_scoring_rule (di_rules i)))) (uniq (counted_keys i))) @
     map (\<lambda>k. (k, FlagRefuted)) (refuted_of i) @ map (\<lambda>k. (k, FlagUnverified)) (unverified_of i)"

definition confidence_of :: "decision_input \<Rightarrow> rat" where
  "confidence_of i =
     capped_confidence (caseConfidence (errors_of i) (di_modelCeiling i) (criterion_flags i = []))
       (ir_confidenceCap (di_result i)) (nothing_passed_in i) (unverified_of i)"

definition low_confidence :: "decision_input \<Rightarrow> bool" where
  "low_confidence i \<longleftrightarrow> confidence_of i < fl (di_theta i - AUTO_THETA_EPSILON)"

definition auto_flags_clear :: "decision_input \<Rightarrow> bool" where
  "auto_flags_clear i \<longleftrightarrow> condition_flags i = [] \<and> error_flags i = [] \<and> \<not> low_confidence i"

lemma decide_scored_eq:
  assumes "input_ok i"
  shows "decide_scored i (diag_of i) = Inr
    \<lparr>dc_outcome = (if auto_flags_clear i then Auto else Flagged),
     dc_ungradable = None,
     dc_score = Some (score_formula (di_rubric i) (map to_scoring_rule (di_rules i)) (counted_keys i)),
     dc_max = (\<Sum>c\<leftarrow>di_rubric i. sc_max c), dc_errors = errors_of i,
     dc_confidence = Some (confidence_of i),
     dc_caseFlags = condition_flags i @
       (if condition_flags i = [] \<and> error_flags i = [] \<and> low_confidence i
        then [LowConfidence (confidence_of i) (di_theta i)] else []),
     dc_errorFlags = error_flags i, dc_diagnosis = Some (diag_of i)\<rparr>"
  unfolding decide_scored_def Let_def counted_keys_def[symmetric] criterion_flags_def[symmetric]
    nothing_passed_in_def[symmetric] confidence_of_def[symmetric] low_confidence_def[symmetric]
    computeDeductionScore_Inr[OF diagnose_scorable[OF assms counted_keys_subset]] sum.case deduction_score.select_convs
    error_flags_def[symmetric] condition_flags_def[symmetric]
  by (simp add: auto_flags_clear_def)

end
