(* ===== verification/Decision_Spec.thy ===== *)
theory Decision_Spec
  imports Decide
begin

text \<open>
  What \<open>decide\<close> promises, stated without its flags: \<open>auto_spec\<close> is the formula of the code's comment
  (a case is decided automatically exactly when it is code, passes the floors, shows no contradiction,
  every counted error has a price and survived the challenge, and the confidence reaches the threshold).
  The theorems of this theory show that \<open>decide\<close> computes it, and what follows for scores.
\<close>

section \<open>The abstract formula\<close>

definition merged_ok :: "stored_challenge option \<Rightarrow> diagnosed_error \<Rightarrow> bool" where
  "merged_ok challenge e \<longleftrightarrow>
     (case challenge of None \<Rightarrow> True
      | Some ch \<Rightarrow> de_source e = Deterministic \<or> mergedStatusOf (de_ruleKey e) (sch_perError ch) \<in> {None, Some Confirmed})"

definition rule_considered :: "decision_input \<Rightarrow> error_rule \<Rightarrow> bool" where
  "rule_considered i r \<longleftrightarrow>
     (case er_predicate r of
        Some p \<Rightarrow> po_state (measured_on (di_cases i) (di_result i) p) \<noteq> Unmeasured
      | None \<Rightarrow> js_map (di_rulesSeen i) (er_ruleKey r) = Some ByModel \<and>
                read_submission (inv_toolCalls (ir_investigation (di_result i))))"

definition criterion_touched :: "decision_input \<Rightarrow> scoring_criterion \<Rightarrow> bool" where
  "criterion_touched i c \<longleftrightarrow> 0 < sc_max c \<longrightarrow>
     (\<forall>r \<in> set (di_rules i). er_criterionKey r = sc_key c \<longrightarrow> rule_considered i r) \<and>
     ((\<forall>r \<in> set (di_rules i). er_criterionKey r \<noteq> sc_key c) \<longrightarrow> sc_key c \<in> set (di_waived i))"

definition floors_passed :: "decision_input \<Rightarrow> bool" where
  "floors_passed i \<longleftrightarrow>
     ir_kind (di_result i) = KVerdict \<and>
     (di_pipeline i = Investigator \<longrightarrow> di_cases i \<noteq> [] \<and>
        (\<forall>c \<in> set (di_cases i). measured (inv_toolCalls (ir_investigation (di_result i)))
            (inv_structured (ir_investigation (di_result i))) c)) \<and>
     \<not> (is_budget_stop (bu_stopReason (inv_budget (ir_investigation (di_result i)))) \<and> errors_of i = [])"

definition gates_open :: "decision_input \<Rightarrow> bool" where
  "gates_open i \<longleftrightarrow>
     (errors_of i = [] \<longrightarrow> di_autoNoError i \<noteq> Some False) \<and>
     (\<forall>blocked. di_autoBlocked i = Some blocked \<longrightarrow> (\<forall>e \<in> set (errors_of i). de_ruleKey e \<notin> set blocked))"

definition notes_clear :: "stored_challenge option \<Rightarrow> bool" where
  "notes_clear challenge \<longleftrightarrow>
     (\<forall>ch. challenge = Some ch \<longrightarrow> (\<forall>n \<in> set (sch_caseNotes ch). \<not> cn_suspected n \<and> cn_concluded n))"

definition evidence_confidence :: "decision_input \<Rightarrow> rat" where
  "evidence_confidence i =
     min (caseConfidence (errors_of i) (di_modelCeiling i) True) (ir_confidenceCap (di_result i))"

definition auto_spec :: "decision_input \<Rightarrow> bool" where
  "auto_spec i \<longleftrightarrow>
     di_pipeline i = Investigator \<and> floors_passed i \<and>
     (\<forall>c \<in> set (di_rubric i). criterion_touched i c) \<and>
     \<not> nothing_passed_in i \<and> ir_flags (di_result i) = [] \<and> notes_clear (di_challenge i) \<and>
     di_rulerTrust i \<noteq> Some RulerUnverified \<and> gates_open i \<and>
     (\<forall>e \<in> set (errors_of i). de_deduction e \<noteq> None \<and> merged_ok (di_challenge i) e) \<and>
     fl (di_theta i - AUTO_THETA_EPSILON) \<le> evidence_confidence i"

section \<open>Each flag against its condition\<close>

lemma floor_of_None_iff:
  "floor_of i = None \<longleftrightarrow> ir_kind (di_result i) = KVerdict \<and>
     (di_pipeline i = Investigator \<longrightarrow> di_cases i \<noteq> [] \<and>
        (\<forall>c \<in> set (di_cases i). measured (inv_toolCalls (ir_investigation (di_result i)))
            (inv_structured (ir_investigation (di_result i))) c))"
  by (cases "ir_kind (di_result i)") (auto simp: floor_of_def Let_def simp flip: uncoveredCases_Nil_iff)

lemma find_measurement:
  assumes d: "distinct (map er_ruleKey rules)" and r: "r \<in> set rules" and p: "er_predicate r = Some p"
    and k: "ir_kind result = KVerdict"
  shows "List.find (\<lambda>m. me_ruleKey m = er_ruleKey r) (dg_measurements (diagnose rules cases result)) =
     Some \<lparr>me_ruleKey = er_ruleKey r, me_criterionKey = er_criterionKey r, me_outcome = measured_on cases result p\<rparr>"
  unfolding diagnose_measurements_eq[OF k] measured_on_def[symmetric]
  using d r
proof (induction rules)
  case (Cons x xs)
  show ?case
  proof (cases "x = r")
    case True
    with p show ?thesis by (simp add: map_filter_simps)
  next
    case False
    with Cons.prems have "r \<in> set xs" "er_ruleKey x \<noteq> er_ruleKey r" by auto
    with Cons show ?thesis by (cases "er_predicate x") (simp_all add: map_filter_simps)
  qed
qed simp

lemma rule_gap_None_iff:
  assumes "distinct (map er_ruleKey (di_rules i))" and "r \<in> set (di_rules i)" and "ir_kind (di_result i) = KVerdict"
  shows "rule_gap (dg_measurements (diag_of i)) (js_map (di_rulesSeen i))
           (read_submission (inv_toolCalls (ir_investigation (di_result i)))) r = None \<longleftrightarrow> rule_considered i r"
proof (cases "er_predicate r")
  case None
  then show ?thesis
    by (auto simp: rule_gap_def rule_considered_def split: option.splits checked_by.splits)
next
  case (Some p)
  with find_measurement[OF assms(1,2) Some assms(3), of "di_cases i"] show ?thesis
    by (simp add: rule_gap_def rule_considered_def)
qed

lemma criterion_flags_Nil_iff:
  assumes "distinct (map er_ruleKey (di_rules i))" and "ir_kind (di_result i) = KVerdict"
  shows "criterion_flags i = [] \<longleftrightarrow> (\<forall>c \<in> set (di_rubric i). criterion_touched i c)"
proof -
  let ?gap = "rule_gap (dg_measurements (diag_of i)) (js_map (di_rulesSeen i))
           (read_submission (inv_toolCalls (ir_investigation (di_result i))))"
  have "criterion_flag (di_rules i) (di_waived i) ?gap c = None \<longleftrightarrow> criterion_touched i c" for c
  proof -
    let ?own = "filter (\<lambda>r. er_criterionKey r = sc_key c) (di_rules i)"
    have "List.map_filter ?gap ?own = [] \<longleftrightarrow>
        (\<forall>r \<in> set (di_rules i). er_criterionKey r = sc_key c \<longrightarrow> rule_considered i r)"
      using rule_gap_None_iff[OF assms(1) _ assms(2)] by (auto simp: map_filter_Nil_iff)
    moreover have "?own = [] \<longleftrightarrow> (\<forall>r \<in> set (di_rules i). er_criterionKey r \<noteq> sc_key c)"
      by (auto simp: filter_empty_conv)
    ultimately show ?thesis
      unfolding criterion_flag_def criterion_touched_def Let_def by auto
  qed
  then show ?thesis by (simp add: criterion_flags_def map_filter_Nil_iff)
qed

lemma challenge_flags_Nil_iff: "challenge_flags ch = [] \<longleftrightarrow> notes_clear ch"
  by (auto simp: challenge_flags_def notes_clear_def Let_def filter_empty_conv split: option.splits)

lemma gate_flags_Nil_iff: "gate_flags (errors_of i) (di_autoBlocked i) (di_autoNoError i) = [] \<longleftrightarrow> gates_open i"
  by (auto simp: gate_flags_def gates_open_def filter_empty_conv split: option.splits)

lemma challenged_keys_Nil_iff:
  "challenged_keys s ch errors = [] \<longleftrightarrow>
     (\<forall>c. ch = Some c \<longrightarrow> (\<forall>e \<in> set errors. de_source e = Deterministic \<or>
        mergedStatusOf (de_ruleKey e) (sch_perError c) \<noteq> Some s))"
  by (auto simp: challenged_keys_def filter_empty_conv split: option.splits)

lemma open_status:
  "s \<in> {None, Some Confirmed} \<longleftrightarrow> s \<noteq> Some Refuted \<and> s \<noteq> Some Unverified"
proof (cases s)
  case (Some x)
  then show ?thesis by (cases x) simp_all
qed simp

lemma error_flags_Nil_iff:
  assumes "table_ok (di_rubric i) (di_rules i)"
  shows "error_flags i = [] \<longleftrightarrow> (\<forall>e \<in> set (errors_of i). de_deduction e \<noteq> None \<and> merged_ok (di_challenge i) e)"
proof -
  note d = table_okD(1)[OF assms]
  have unp: "is_unpriced (index_by sr_ruleKey (map to_scoring_rule (di_rules i))) (de_ruleKey e) \<longleftrightarrow> de_deduction e = None"
    if "e \<in> set (errors_of i)" for e
  proof -
    from diagnose_error_rule[OF d that] obtain r where "r \<in> set (di_rules i)" "de_ruleKey e = er_ruleKey r"
      "de_deduction e = er_deduction r" by blast
    with index_by_distinct[OF d this(1)] show ?thesis by (simp add: is_unpriced_def scoring_index to_scoring_rule_def)
  qed
  have m: "refuted_of i = [] \<and> unverified_of i = [] \<longleftrightarrow> (\<forall>e \<in> set (errors_of i). merged_ok (di_challenge i) e)"
  proof (cases "di_challenge i")
    case (Some ch)
    have "merged_ok (Some ch) e \<longleftrightarrow>
        (de_source e = Deterministic \<or> mergedStatusOf (de_ruleKey e) (sch_perError ch) \<noteq> Some Refuted) \<and>
        (de_source e = Deterministic \<or> mergedStatusOf (de_ruleKey e) (sch_perError ch) \<noteq> Some Unverified)" for e
      unfolding merged_ok_def option.case open_status by blast
    then show ?thesis unfolding challenged_keys_Nil_iff Some option.inject by blast
  qed (simp add: challenged_keys_def merged_ok_def)
  show ?thesis
  proof (cases "refuted_of i = []")
    case True
    then have "set (counted_keys i) = de_ruleKey ` set (errors_of i)" by (simp add: counted_keys_def)
    then have "filter (is_unpriced (index_by sr_ruleKey (map to_scoring_rule (di_rules i)))) (uniq (counted_keys i)) = []
        \<longleftrightarrow> (\<forall>e \<in> set (errors_of i). de_deduction e \<noteq> None)"
      using unp by (auto simp: filter_empty_conv js_simps)
    with True m show ?thesis by (simp add: error_flags_def) blast
  next
    case False
    with m show ?thesis by (auto simp: error_flags_def)
  qed
qed

lemma confidence_of_clear:
  assumes "criterion_flags i = []" "\<not> nothing_passed_in i" "unverified_of i = []"
  shows "confidence_of i = evidence_confidence i"
  using assms by (simp add: confidence_of_def capped_confidence_def evidence_confidence_def)

lemma decide_cases:
  assumes "input_ok i"
  shows "decide i = Inr d \<longleftrightarrow>
     (if floors_passed i then Inr d = decide_scored i (diag_of i)
      else \<exists>u g. d = ungradable_decision (\<Sum>c\<leftarrow>di_rubric i. sc_max c) u g \<and> decide i = Inr d)"
proof (cases "floor_of i")
  case None
  then show ?thesis
    unfolding floors_passed_def using floor_of_None_iff[of i]
    by (auto simp: decide_def Let_def)
next
  case (Some u)
  then have "\<not> floors_passed i" using floor_of_None_iff[of i] by (auto simp: floors_passed_def)
  with Some show ?thesis by (auto simp: decide_def Let_def)
qed

lemma decide_below_floor:
  assumes "input_ok i" and "\<not> floors_passed i"
  shows "\<exists>u g. decide i = Inr (ungradable_decision (\<Sum>c\<leftarrow>di_rubric i. sc_max c) u g)"
proof -
  obtain d where d: "decide i = Inr d" using decide_total[OF assms(1)] by blast
  with decide_cases[OF assms(1), of d] assms(2) show ?thesis by auto
qed

lemma decide_above_floor:
  assumes "input_ok i" and "floors_passed i" and "decide i = Inr d"
  shows "dc_score d = Some (score_formula (di_rubric i) (map to_scoring_rule (di_rules i)) (counted_keys i))"
    and "dc_max d = (\<Sum>c\<leftarrow>di_rubric i. sc_max c)" and "dc_errors d = errors_of i"
  using assms decide_cases[OF assms(1), of d] by (simp_all add: decide_scored_eq)

lemma auto_flags_clear_iff:
  assumes ok: "input_ok i" and f: "floors_passed i"
  shows "auto_flags_clear i \<longleftrightarrow> auto_spec i"
proof -
  have k: "ir_kind (di_result i) = KVerdict" using f by (simp add: floors_passed_def)
  note cf = criterion_flags_Nil_iff[OF table_okD(1)[OF ok] k]
  have cond: "condition_flags i = [] \<longleftrightarrow>
      (\<forall>c \<in> set (di_rubric i). criterion_touched i c) \<and> \<not> nothing_passed_in i \<and> ir_flags (di_result i) = [] \<and>
      di_pipeline i = Investigator \<and> notes_clear (di_challenge i) \<and> di_rulerTrust i \<noteq> Some RulerUnverified \<and> gates_open i"
    unfolding condition_flags_def append_is_Nil_conv cf challenge_flags_Nil_iff gate_flags_Nil_iff by simp
  have "low_confidence i \<longleftrightarrow> \<not> fl (di_theta i - AUTO_THETA_EPSILON) \<le> evidence_confidence i"
    if "condition_flags i = []" "error_flags i = []"
    using that confidence_of_clear[of i] by (auto simp: low_confidence_def condition_flags_def error_flags_def split: if_splits)
  then show ?thesis
    unfolding auto_flags_clear_def auto_spec_def error_flags_Nil_iff[OF ok, symmetric]
    using cond f by blast
qed

section \<open>A sample case\<close>

text \<open>
  A case for the witnesses: two groups of one test each, \<open>g1\<close> fails and \<open>g2\<close> passes, a machine rule
  \<open>R1\<close> on \<open>g1\<close> and a rule \<open>R2\<close> the model judges, both on the one criterion of ten points.
\<close>

definition sample_calls :: "tool_call list" where
  "sample_calls =
     [\<lparr>tc_id = ''tc-1'', tc_tool = RunTests, tc_args = [], tc_status = CallOk, tc_output = ''out'',
       tc_structuredRef = Some ''s-1'', tc_startedAt = 0, tc_wallMs = 5, tc_injectionSuspected = False\<rparr>,
      \<lparr>tc_id = ''tc-2'', tc_tool = ReadFile, tc_args = [(''path'', JStr ''bai-nop/a.py'')], tc_status = CallOk,
       tc_output = ''src'', tc_structuredRef = None, tc_startedAt = 6, tc_wallMs = 1, tc_injectionSuspected = False\<rparr>]"

definition sample_structured :: structured_results where
  "sample_structured ref =
     (if ref = ''s-1'' then Some (RunTestsResult None
        [\<lparr>cr_name = ''t1'', cr_group = Some ''g1'', cr_status = Fail, cr_diff = None, cr_ms = 1\<rparr>,
         \<lparr>cr_name = ''t2'', cr_group = Some ''g2'', cr_status = Pass, cr_diff = None, cr_ms = 1\<rparr>] False None)
      else None)"

definition sample_limits :: budget_limits where
  "sample_limits = \<lparr>bl_maxToolCalls = 12, bl_maxWallMs = 600000, bl_maxTokens = 100000, bl_maxRounds = 14\<rparr>"

definition sample_result :: "verdict_error list \<Rightarrow> investigation_result" where
  "sample_result es =
     \<lparr>ir_kind = KVerdict,
      ir_verdict = Some \<lparr>v_errors = es, v_missingRules = [], v_injectionDetected = False, v_injectionExcerpt = None\<rparr>,
      ir_rejected = [], ir_ungradable = None, ir_flags = [], ir_injectionSources = [], ir_confidenceCap = 1,
      ir_replay = None,
      ir_investigation = \<lparr>inv_toolCalls = sample_calls, inv_structured = sample_structured,
        inv_budget = \<lparr>bu_toolCalls = 2, bu_wallMs = 100, bu_tokens = 2000, bu_rounds = 3, bu_forcedFinal = False,
                      bu_stopReason = StopVerdict, bu_limits = sample_limits\<rparr>,
        inv_modelsUsed = [''m''], inv_rotations = []\<rparr>,
      ir_inputTokens = 1500, ir_outputTokens = 500\<rparr>"

definition sample_rules :: "error_rule list" where
  "sample_rules =
     [\<lparr>er_ruleKey = ''R1'', er_criterionKey = ''c'', er_deduction = Some 200, er_predicate = Some (TestGroupFailed ''g1'')\<rparr>,
      \<lparr>er_ruleKey = ''R2'', er_criterionKey = ''c'', er_deduction = Some 50, er_predicate = None\<rparr>]"

definition sample_claim :: verdict_error where
  "sample_claim = \<lparr>ve_ruleKey = ''R2'', ve_toolCallIds = [''tc-1''], ve_note = None, ve_evidence = []\<rparr>"

definition sample_challenge :: "challenge_status \<Rightarrow> stored_challenge" where
  "sample_challenge s =
     \<lparr>sch_perError = [\<lparr>chc_challenger = ''correctness'',
        chc_perError = [\<lparr>eco_ruleKey = ''R2'', eco_status = s, eco_toolCallIds = [], eco_reason = None\<rparr>,
                        \<lparr>eco_ruleKey = ''R1'', eco_status = s, eco_toolCallIds = [], eco_reason = None\<rparr>]\<rparr>],
      sch_caseNotes = []\<rparr>"

definition sample_input :: "verdict_error list \<Rightarrow> stored_challenge option \<Rightarrow> decision_input" where
  "sample_input es ch =
     \<lparr>di_pipeline = Investigator, di_result = sample_result es,
      di_cases = [\<lparr>tk_name = ''t1'', tk_group = ''g1''\<rparr>, \<lparr>tk_name = ''t2'', tk_group = ''g2''\<rparr>],
      di_rubric = [\<lparr>sc_key = ''c'', sc_max = 1000\<rparr>], di_rules = sample_rules,
      di_rulesSeen = [(''R1'', ByMachine), (''R2'', ByModel)], di_waived = [], di_modelCeiling = 1,
      di_theta = AUTO_APPROVE_CONFIDENCE, di_challenge = ch, di_rulerTrust = None, di_autoBlocked = None,
      di_autoNoError = None\<rparr>"

lemma sample_input_ok: "input_ok (sample_input es ch)"
  by (simp add: sample_input_def sample_rules_def table_ok_def)

lemma sample_floors: "floors_passed (sample_input [] None)" "floors_passed (sample_input [sample_claim] None)"
    "floors_passed (sample_input [sample_claim] (Some (sample_challenge Refuted)))"
  unfolding floors_passed_def uncoveredCases_Nil_iff[symmetric] by code_simp+

section \<open>The properties of the decision\<close>

lemma auto_iff_spec:
  assumes "input_ok i"
  shows "(\<exists>d. decide i = Inr d \<and> dc_outcome d = Auto) \<longleftrightarrow> auto_spec i"
proof (cases "floors_passed i")
  case True
  with assms show ?thesis
    using decide_cases[OF assms] auto_flags_clear_iff[OF assms] by (auto simp: decide_scored_eq)
next
  case False
  then have "\<not> auto_spec i" by (simp add: auto_spec_def)
  with decide_below_floor[OF assms False] show ?thesis by (auto simp: ungradable_decision_def)
qed

text \<open>
  C2. A case is decided automatically exactly when the formula of \<open>auto_spec\<close> holds.
\<close>

theorem decide_auto_iff:
  assumes "input_ok i"
  shows "(\<exists>d. decide i = Inr d \<and> dc_outcome d = Auto) \<longleftrightarrow> auto_spec i"
  using assms by (rule auto_iff_spec)

lemma sample_auto: "auto_spec (sample_input [] None)"
proof -
  have "di_pipeline (sample_input [] None) = Investigator"
    "\<forall>c \<in> set (di_rubric (sample_input [] None)). criterion_touched (sample_input [] None) c"
    "\<not> nothing_passed_in (sample_input [] None)" "ir_flags (di_result (sample_input [] None)) = []"
    "gate_flags (errors_of (sample_input [] None)) (di_autoBlocked (sample_input [] None)) (di_autoNoError (sample_input [] None)) = []"
    "\<forall>e \<in> set (errors_of (sample_input [] None)). de_deduction e \<noteq> None \<and> merged_ok (di_challenge (sample_input [] None)) e"
    "evidence_confidence (sample_input [] None) = 1"
    by code_simp+
  moreover have "fl (di_theta (sample_input [] None) - AUTO_THETA_EPSILON) \<le> 1"
    using AUTO_APPROVE_CONFIDENCE_bounds EPSILON_bounds(1) by (intro double.rnd_le_1) (simp add: sample_input_def)
  moreover have "notes_clear (di_challenge (sample_input [] None))" "di_rulerTrust (sample_input [] None) \<noteq> Some RulerUnverified"
    by (simp_all add: notes_clear_def sample_input_def)
  ultimately show ?thesis using sample_floors(1) by (simp add: auto_spec_def gate_flags_Nil_iff)
qed

lemma decide_auto_iff_witness: "\<exists>d. decide (sample_input [] None) = Inr d \<and> dc_outcome d = Auto"
  using decide_auto_iff[OF sample_input_ok] sample_auto by blast

text \<open>
  C9. A case below a floor (the investigation ungradable, the bundle empty or not covered, a spent budget
  without findings) is ungradable and has no score; a case above the floors always has one.
\<close>

theorem decide_floor:
  assumes "input_ok i" and "decide i = Inr d"
  shows "(dc_outcome d = Ungradable \<longleftrightarrow> \<not> floors_passed i) \<and> (dc_score d = None \<longleftrightarrow> \<not> floors_passed i) \<and>
         (dc_ungradable d = None \<longleftrightarrow> floors_passed i)"
  using assms decide_cases[OF assms(1), of d]
  by (auto simp: decide_scored_eq ungradable_decision_def split: if_splits)

lemma decide_floor_witness:
  "\<exists>d. decide (sample_input [] None) = Inr d \<and> dc_outcome d \<noteq> Ungradable \<and> dc_score d \<noteq> None"
  using decide_floor[OF sample_input_ok] decide_total[OF sample_input_ok] sample_floors(1) by metis

text \<open>
  C3. \<open>decide\<close> returns a decision for every table whose rules have unique keys and point into the rubric, above and
  below the floors. It has a score exactly above them: the deduction formula over the errors that were not refuted,
  never negative, and at most the sum of the ceilings when no price and no ceiling is negative.
\<close>

theorem decide_score:
  assumes "input_ok i"
  shows "\<exists>d. decide i = Inr d \<and> dc_max d = (\<Sum>c\<leftarrow>di_rubric i. sc_max c) \<and>
     (case dc_score d of
        None \<Rightarrow> \<not> floors_passed i
      | Some s \<Rightarrow> floors_passed i \<and> 0 \<le> s \<and>
          s = dc_max d - (\<Sum>c\<leftarrow>di_rubric i. min (charged (map to_scoring_rule (di_rules i)) (counted_keys i) (sc_key c)) (sc_max c)) \<and>
          (prices_ok (map to_scoring_rule (di_rules i)) \<and> rubric_ok (di_rubric i) \<longrightarrow> s \<le> dc_max d))"
proof -
  obtain d where d: "decide i = Inr d" using decide_total[OF assms] by blast
  show ?thesis
  proof (cases "floors_passed i")
    case True
    note a = decide_above_floor[OF assms True d]
    have "0 \<le> score_formula (di_rubric i) (map to_scoring_rule (di_rules i)) (counted_keys i)"
      by (simp add: score_formula_def)
    with d True a score_formula_bounds(2)[of "map to_scoring_rule (di_rules i)" "di_rubric i" "counted_keys i"]
    show ?thesis by (intro exI[of _ d]) (simp add: score_formula_no_floor[symmetric])
  next
    case False
    then obtain u g where "d = ungradable_decision (\<Sum>c\<leftarrow>di_rubric i. sc_max c) u g"
      using d decide_below_floor[OF assms] by auto
    with d False show ?thesis by (simp add: ungradable_decision_def)
  qed
qed

lemma decide_score_witness:
  "\<exists>d s. decide (sample_input [] None) = Inr d \<and> dc_score d = Some s \<and> 0 \<le> s \<and> s \<le> dc_max d"
proof -
  have "prices_ok (map to_scoring_rule (di_rules (sample_input [] None)))" "rubric_ok (di_rubric (sample_input [] None))"
    by code_simp+
  with decide_score[OF sample_input_ok, of "[]" None] sample_floors(1) show ?thesis by (fastforce split: option.splits)
qed

text \<open>
  C8. The challenge never lowers a score, and it never touches an error the machine found: such an error is
  neither refuted nor unverified, whatever conclusions are stored under its key.
\<close>

theorem decide_challenge:
  assumes "input_ok i" and "prices_ok (map to_scoring_rule (di_rules i))"
    and "decide i = Inr d" and "decide (i\<lparr>di_challenge := None\<rparr>) = Inr d0" and "dc_score d0 = Some s0"
  shows "(\<exists>s. dc_score d = Some s \<and> s0 \<le> s) \<and>
     (\<forall>e \<in> set (dc_errors d). de_source e = Deterministic \<longrightarrow>
        (de_ruleKey e, FlagRefuted) \<notin> set (dc_errorFlags d) \<and> (de_ruleKey e, FlagUnverified) \<notin> set (dc_errorFlags d))"
proof -
  let ?i0 = "i\<lparr>di_challenge := None\<rparr>"
  have ok0: "input_ok ?i0" using assms(1) by simp
  have fl: "floors_passed ?i0 \<longleftrightarrow> floors_passed i" by (simp add: floors_passed_def)
  have f0: "floors_passed ?i0"
    using assms(4,5) decide_cases[OF ok0, of d0] by (auto simp: ungradable_decision_def split: if_splits)
  then have "Inr d0 = decide_scored ?i0 (diag_of ?i0)" "Inr d = decide_scored i (diag_of i)"
    using assms(3,4) decide_cases[OF ok0, of d0] decide_cases[OF assms(1), of d] fl by simp_all
  note eqs = this[unfolded decide_scored_eq[OF assms(1)] decide_scored_eq[OF ok0]]
  have s0: "s0 = score_formula (di_rubric i) (map to_scoring_rule (di_rules i)) (counted_keys ?i0)"
    using eqs(1) assms(5) by auto
  have "set (counted_keys i) \<subseteq> set (counted_keys ?i0)" by (auto simp: counted_keys_def challenged_keys_def)
  from score_formula_antimono[OF assms(2) this, of "di_rubric i"] eqs(2) s0
  have 1: "\<exists>s. dc_score d = Some s \<and> s0 \<le> s" by auto
  have "(de_ruleKey e, FlagRefuted) \<notin> set (dc_errorFlags d) \<and> (de_ruleKey e, FlagUnverified) \<notin> set (dc_errorFlags d)"
    if e: "e \<in> set (errors_of i)" "de_source e = Deterministic" for e
  proof -
    have "de_ruleKey e \<notin> set (challenged_keys s (di_challenge i) (errors_of i))" for s
    proof
      assume "de_ruleKey e \<in> set (challenged_keys s (di_challenge i) (errors_of i))"
      then obtain e' where "e' \<in> set (errors_of i)" "de_ruleKey e' = de_ruleKey e" "de_source e' \<noteq> Deterministic"
        by (auto simp: challenged_keys_def split: option.splits)
      with e diagnose_distinct[OF table_okD(1)[OF assms(1)], of "di_cases i" "di_result i"] show False
        by (metis distinct_map inj_on_def)
    qed
    then show ?thesis using eqs(2) by (auto simp: error_flags_def)
  qed
  with 1 eqs(2) show ?thesis by auto
qed

lemma decide_challenge_witness:
  "\<exists>d s. decide (sample_input [sample_claim] (Some (sample_challenge Refuted))) = Inr d \<and> dc_score d = Some s \<and> 750 \<le> s"
proof -
  let ?i = "sample_input [sample_claim] (Some (sample_challenge Refuted))"
  obtain d where d: "decide ?i = Inr d" using decide_total[OF sample_input_ok] by blast
  have p: "prices_ok (map to_scoring_rule (di_rules ?i))" by code_simp
  have i0: "?i\<lparr>di_challenge := None\<rparr> = sample_input [sample_claim] None" by (simp add: sample_input_def)
  obtain d0 where d0: "decide (sample_input [sample_claim] None) = Inr d0" using decide_total[OF sample_input_ok] by blast
  have "score_formula (di_rubric (sample_input [sample_claim] None)) (map to_scoring_rule (di_rules (sample_input [sample_claim] None)))
      (counted_keys (sample_input [sample_claim] None)) = 750" by code_simp
  with decide_above_floor[OF sample_input_ok sample_floors(2) d0] have s0: "dc_score d0 = Some 750" by simp
  from decide_challenge[OF sample_input_ok p d, unfolded i0, OF d0 s0] d show ?thesis by blast
qed

text \<open>
  The switches that stop automatic decisions only add flags: with any blocked rules and any setting for cases
  without errors, the score and the confidence are those without the switches, and a case decided
  automatically with them is decided automatically without.
\<close>

theorem decide_switches:
  assumes "input_ok i" and "decide i = Inr d"
    and "decide (i\<lparr>di_autoBlocked := None, di_autoNoError := None\<rparr>) = Inr d0"
  shows "dc_score d = dc_score d0 \<and> dc_confidence d = dc_confidence d0 \<and> (dc_outcome d = Auto \<longrightarrow> dc_outcome d0 = Auto)"
proof -
  let ?j = "i\<lparr>di_autoBlocked := None, di_autoNoError := None\<rparr>"
  have okj: "input_ok ?j" using assms(1) by simp
  have fl: "floors_passed ?j \<longleftrightarrow> floors_passed i" by (simp add: floors_passed_def)
  show ?thesis
  proof (cases "floors_passed i")
    case True
    have eqs: "Inr d = decide_scored i (diag_of i)" "Inr d0 = decide_scored ?j (diag_of ?j)"
      using True fl assms decide_cases[OF assms(1), of d] decide_cases[OF okj, of d0] by simp_all
    have ck: "counted_keys ?j = counted_keys i" by (simp add: counted_keys_def)
    have cf: "criterion_flags ?j = criterion_flags i" by (simp add: criterion_flags_def)
    have co: "confidence_of ?j = confidence_of i" by (simp add: confidence_of_def cf nothing_passed_in_def)
    have "condition_flags i = [] \<Longrightarrow> condition_flags ?j = []"
      by (simp add: condition_flags_def cf nothing_passed_in_def gate_flags_def split: if_splits)
    moreover have "error_flags ?j = error_flags i" by (simp add: error_flags_def ck)
    ultimately have "auto_flags_clear i \<Longrightarrow> auto_flags_clear ?j"
      by (simp add: auto_flags_clear_def low_confidence_def co)
    with eqs[unfolded decide_scored_eq[OF assms(1)] decide_scored_eq[OF okj]] ck co show ?thesis by auto
  next
    case False
    with fl decide_below_floor[OF assms(1)] decide_below_floor[OF okj] assms(2,3) show ?thesis
      by (auto simp: ungradable_decision_def)
  qed
qed

lemma decide_switches_witness:
  "\<exists>d. decide ((sample_input [] None)\<lparr>di_autoBlocked := Some [''R1'']\<rparr>) = Inr d \<and> dc_score d = Some 800"
proof -
  let ?i = "(sample_input [] None)\<lparr>di_autoBlocked := Some [''R1'']\<rparr>"
  have ok: "input_ok ?i" using sample_input_ok by simp
  have j: "?i\<lparr>di_autoBlocked := None, di_autoNoError := None\<rparr> = sample_input [] None" by (simp add: sample_input_def)
  obtain d where d: "decide ?i = Inr d" using decide_total[OF ok] by blast
  obtain d0 where d0: "decide (sample_input [] None) = Inr d0" using decide_total[OF sample_input_ok] by blast
  have "score_formula (di_rubric (sample_input [] None)) (map to_scoring_rule (di_rules (sample_input [] None)))
      (counted_keys (sample_input [] None)) = 800" by code_simp
  with decide_above_floor[OF sample_input_ok sample_floors(1) d0] have "dc_score d0 = Some 800" by simp
  with decide_switches[OF ok d, unfolded j, OF d0] d show ?thesis by simp
qed

text \<open>
  The ceiling of \<open>llm_with_tools\<close> in \<open>confidence.ts\<close> is 0.8, where \<open>decide.spec.ts\<close>, \<open>confidence.spec.ts\<close> and the
  comment of \<open>threshold.ts\<close> expect 0.85. What follows from the code: a case whose priced errors were all proposed by
  the model is never decided automatically at the default threshold 0.85, even when every proposal is backed by a run.
\<close>

theorem decide_model_only_never_auto:
  assumes "input_ok i" and "decide i = Inr d" and "di_theta i = AUTO_APPROVE_CONFIDENCE" and "0 \<le> di_modelCeiling i"
    and "list_all (\<lambda>e. is_priced e \<longrightarrow> de_source e \<noteq> Deterministic) (errors_of i)" and "list_ex is_priced (errors_of i)"
    and "length (errors_of i) \<le> 10 ^ 6"
  shows "dc_outcome d \<noteq> Auto"
proof
  assume "dc_outcome d = Auto"
  with assms(1,2) have spec: "auto_spec i" using auto_iff_spec by blast
  let ?ts = "confidenceTerms (errors_of i) (di_modelCeiling i)"
  have ne: "?ts \<noteq> []" using assms(6) by (auto simp: confidenceTerms_def filter_empty_conv list_ex_iff)
  have "length ?ts \<le> length (errors_of i)" by (simp add: confidenceTerms_def)
  with assms(7) have len: "length ?ts \<le> 10 ^ 6" by linarith
  have "list_all (\<lambda>t. ct_cap t \<le> SOURCE_CAP LlmWithTools) ?ts"
    using assms(5) cap_le_tools by (auto simp: confidenceTerms_def list_all_iff)
  then have "exact_confidence ?ts \<le> SOURCE_CAP LlmWithTools"
    using terms_ok_confidenceTerms[OF assms(4)] ne by (intro exact_confidence_le)
  moreover note caseConfidence_le[OF assms(4) ne len, of True]
  ultimately have "caseConfidence (errors_of i) (di_modelCeiling i) True \<le> SOURCE_CAP LlmWithTools + 1 / 10 ^ 9"
    by linarith
  moreover have "SOURCE_CAP LlmWithTools + 1 / 10 ^ 9 < fl (AUTO_APPROVE_CONFIDENCE - AUTO_THETA_EPSILON)" by code_simp
  moreover have "fl (AUTO_APPROVE_CONFIDENCE - AUTO_THETA_EPSILON) \<le> caseConfidence (errors_of i) (di_modelCeiling i) True"
    using spec assms(3) by (simp add: auto_spec_def evidence_confidence_def)
  ultimately show False by linarith
qed

definition model_only_input :: decision_input where
  "model_only_input = (sample_input [sample_claim] None)\<lparr>di_rules := [\<lparr>er_ruleKey = ''R2'', er_criterionKey = ''c'',
     er_deduction = Some 50, er_predicate = None\<rparr>]\<rparr>"

lemma decide_model_only_never_auto_witness:
  "\<exists>d. decide model_only_input = Inr d \<and> dc_outcome d \<noteq> Auto \<and> errors_of model_only_input \<noteq> []"
proof -
  have ok: "input_ok model_only_input" by (simp add: model_only_input_def sample_input_def table_ok_def)
  obtain d where d: "decide model_only_input = Inr d" using decide_total[OF ok] by blast
  have th: "di_theta model_only_input = AUTO_APPROVE_CONFIDENCE" "0 \<le> di_modelCeiling model_only_input"
    by (simp_all add: model_only_input_def sample_input_def)
  have a: "list_all (\<lambda>e. is_priced e \<longrightarrow> de_source e \<noteq> Deterministic) (errors_of model_only_input)"
    "list_ex is_priced (errors_of model_only_input)"
    by code_simp+
  have "length (errors_of model_only_input) = 1" by code_simp
  then have l: "length (errors_of model_only_input) \<le> 10 ^ 6" by simp
  with a(2) d decide_model_only_never_auto[OF ok d th a l] show ?thesis by auto
qed

end
