(* ===== verification/ScoreCore.thy ===== *)
theory ScoreCore
  imports Decision_Spec
begin

text \<open>
  One computation of a score from a stored dossier: \<open>grading/scoring/score-core.ts\<close>, with
  \<open>StoredInvestigation\<close> of \<open>scoring/stored-investigation.ts\<close> and the summary of
  \<open>scoring/result-triage.ts\<close>. A \<open>Map\<close> of the input is a partial function; \<open>byKey.get(k)!\<close> on a missing
  key is the error \<open>UndefinedRule\<close>, which \<open>computeScore_total\<close> shows unreachable.
\<close>

record rule_snapshot =
  rs_ruleId :: key
  rs_revisionId :: key
  rs_ruleKey :: key
  rs_criterionKey :: key
  rs_predicate :: "rule_predicate option"
  rs_deduction :: "int option"

record stored_investigation =
  si_result :: investigation_result
  si_rulesSeen :: "(key \<times> checked_by) list"
  si_ruleTable :: "(key \<times> checked_by) list"
  si_modelCeiling :: rat
  si_challenge :: "stored_challenge option"

datatype rule_exception = Exclude | Include

record score_core_input =
  sci_stored :: stored_investigation
  sci_cases :: "test_case list"
  sci_rubric :: "scoring_criterion list"
  sci_rules :: "rule_snapshot list"
  sci_waived :: "key list"
  sci_exceptions :: "key \<Rightarrow> rule_exception option"
  sci_theta :: rat
  sci_rulerTrust :: "ruler_trust option"
  sci_autoBlocked :: "key list option"
  sci_autoNoError :: "bool option"

datatype counted = Counted | Excluded | Unpriced | RefutedError

record breakdown_error =
  be_ruleId :: key
  be_revisionId :: key
  be_ruleKey :: key
  be_criterionKey :: key
  be_source :: verdict_source
  be_toolCallIds :: "string list"
  be_deduction :: "int option"
  be_counted :: counted

record score_breakdown =
  sb_errors :: "breakdown_error list"
  sb_perCriterion :: "per_criterion list"
  sb_caseFlags :: "case_flag list"
  sb_errorFlags :: "error_flag list"
  sb_confidence :: "rat option"
  sb_mismatched :: "(key \<times> key \<times> key) list"
  sb_notConsidered :: "(key \<times> key) list"
  sb_ungradable :: "ungradable option"

record score_core_output =
  sco_outcome :: decision_outcome
  sco_ungradable :: "ungradable option"
  sco_score :: "int option"
  sco_breakdown :: score_breakdown

datatype core_error = Scoring score_error | UndefinedRule key

section \<open>computeScore\<close>

definition toErrorRule :: "rule_snapshot \<Rightarrow> error_rule" where
  "toErrorRule r = \<lparr>er_ruleKey = rs_ruleKey r, er_criterionKey = rs_criterionKey r, er_deduction = rs_deduction r,
                    er_predicate = rs_predicate r\<rparr>"

definition snapshot_scoring :: "rule_snapshot \<Rightarrow> scoring_rule" where
  "snapshot_scoring r = \<lparr>sr_ruleKey = rs_ruleKey r, sr_criterionKey = rs_criterionKey r, sr_deduction = rs_deduction r\<rparr>"

definition matching_rules :: "score_core_input \<Rightarrow> rule_snapshot list" where
  "matching_rules x = filter (\<lambda>r. rs_criterionKey r \<in> sc_key ` set (sci_rubric x)) (sci_rules x)"

definition considered :: "score_core_input \<Rightarrow> rule_snapshot \<Rightarrow> bool" where
  "considered x r \<longleftrightarrow> isMachineChecked (rs_predicate r) \<or> (rs_ruleKey r, ByModel) \<in> set (si_ruleTable (sci_stored x))"

definition used_rules :: "score_core_input \<Rightarrow> rule_snapshot list" where
  "used_rules x = filter (considered x) (matching_rules x)"

definition decision_input_of :: "score_core_input \<Rightarrow> decision_input" where
  "decision_input_of x =
     \<lparr>di_pipeline = Investigator, di_result = si_result (sci_stored x), di_cases = sci_cases x,
      di_rubric = sci_rubric x, di_rules = map toErrorRule (used_rules x), di_rulesSeen = si_rulesSeen (sci_stored x),
      di_waived = sci_waived x, di_modelCeiling = si_modelCeiling (sci_stored x), di_theta = sci_theta x,
      di_challenge = si_challenge (sci_stored x), di_rulerTrust = sci_rulerTrust x,
      di_autoBlocked = sci_autoBlocked x, di_autoNoError = sci_autoNoError x\<rparr>"

definition excepted_keys :: "score_core_input \<Rightarrow> rule_exception \<Rightarrow> key list" where
  "excepted_keys x d = uniq (map rs_ruleKey (filter (\<lambda>r. sci_exceptions x (rs_ruleId r) = Some d) (used_rules x)))"

definition counted_of :: "key list \<Rightarrow> key list \<Rightarrow> key \<Rightarrow> int option \<Rightarrow> counted" where
  "counted_of refuted excluded k price =
     (if k \<in> set refuted then RefutedError
      else if k \<in> set excluded then Excluded
      else if price = None then Unpriced
      else Counted)"

definition breakdown_error_of ::
  "(key \<Rightarrow> rule_snapshot option) \<Rightarrow> key list \<Rightarrow> key list \<Rightarrow> diagnosed_error \<Rightarrow> core_error + breakdown_error" where
  "breakdown_error_of byKey refuted excluded e =
     (case byKey (de_ruleKey e) of
        None \<Rightarrow> Inl (UndefinedRule (de_ruleKey e))
      | Some r \<Rightarrow> Inr \<lparr>be_ruleId = rs_ruleId r, be_revisionId = rs_revisionId r, be_ruleKey = rs_ruleKey r,
           be_criterionKey = rs_criterionKey r, be_source = de_source e, be_toolCallIds = de_toolCallIds e,
           be_deduction = rs_deduction r, be_counted = counted_of refuted excluded (rs_ruleKey r) (rs_deduction r)\<rparr>)"

definition charged_error_keys :: "breakdown_error list \<Rightarrow> key list" where
  "charged_error_keys errors =
     map be_ruleKey (filter (\<lambda>e. be_counted e \<noteq> Excluded \<and> be_counted e \<noteq> RefutedError) errors)"

definition computeScore :: "score_core_input \<Rightarrow> core_error + score_core_output" where
  "computeScore x =
     (let mismatched = filter (\<lambda>r. rs_criterionKey r \<notin> sc_key ` set (sci_rubric x)) (sci_rules x);
          notConsidered = filter (\<lambda>r. \<not> considered x r) (matching_rules x);
          used = used_rules x;
          byKey = index_by rs_ruleKey used
      in case decide (decision_input_of x) of
           Inl e \<Rightarrow> Inl (Scoring e)
         | Inr decision \<Rightarrow>
             (let excluded = excepted_keys x Exclude; included = excepted_keys x Include;
                  decidedRefuted = map fst (filter (\<lambda>f. snd f = FlagRefuted) (dc_errorFlags decision));
                  refuted = uniq (filter (\<lambda>k. k \<notin> set excluded \<and> k \<notin> set included) decidedRefuted);
                  revived = map (\<lambda>k. (k, FlagUnpriced)) (filter (\<lambda>k. k \<in> set included \<and>
                      (case byKey k of None \<Rightarrow> False | Some r \<Rightarrow> rs_deduction r = None)) decidedRefuted);
                  common = \<lparr>sb_errors = [], sb_perCriterion = [], sb_caseFlags = dc_caseFlags decision,
                     sb_errorFlags = filter (\<lambda>f. fst f \<notin> set excluded \<and>
                         \<not> (snd f = FlagRefuted \<and> fst f \<in> set included)) (dc_errorFlags decision) @ revived,
                     sb_confidence = dc_confidence decision,
                     sb_mismatched = map (\<lambda>r. (rs_ruleId r, rs_ruleKey r, rs_criterionKey r)) mismatched,
                     sb_notConsidered = map (\<lambda>r. (rs_ruleId r, rs_ruleKey r)) notConsidered,
                     sb_ungradable = (if dc_outcome decision = Ungradable then dc_ungradable decision else None)\<rparr>
              in if dc_outcome decision = Ungradable then
                   Inr \<lparr>sco_outcome = Ungradable, sco_ungradable = dc_ungradable decision, sco_score = None,
                        sco_breakdown = common\<rparr>
                 else
                   (case traverse (breakdown_error_of byKey refuted excluded) (dc_errors decision) of
                      Inl e \<Rightarrow> Inl e
                    | Inr errors \<Rightarrow>
                        (case computeDeductionScore (sci_rubric x) (map snapshot_scoring used) (charged_error_keys errors) of
                           Inl e \<Rightarrow> Inl (Scoring e)
                         | Inr score \<Rightarrow>
                             Inr \<lparr>sco_outcome = dc_outcome decision, sco_ungradable = None,
                                  sco_score = Some (ds_score score),
                                  sco_breakdown = common\<lparr>sb_errors := errors,
                                    sb_perCriterion := ds_perCriterion score\<rparr>\<rparr>))))"

section \<open>repriceBreakdown\<close>

record reprice_result =
  rr_score :: int
  rr_breakdown :: score_breakdown
  rr_newlyUnpriced :: "(key \<times> key) list"

definition reprice_error :: "(key \<Rightarrow> int option) \<Rightarrow> breakdown_error \<Rightarrow> breakdown_error" where
  "reprice_error prices e =
     (if be_counted e = Excluded \<or> be_counted e = RefutedError then e
      else e\<lparr>be_deduction := prices (be_ruleId e),
             be_counted := (if prices (be_ruleId e) = None then Unpriced else Counted)\<rparr>)"

definition error_scoring :: "breakdown_error \<Rightarrow> scoring_rule" where
  "error_scoring e = \<lparr>sr_ruleKey = be_ruleKey e, sr_criterionKey = be_criterionKey e, sr_deduction = be_deduction e\<rparr>"

definition repriceBreakdown ::
  "score_breakdown \<Rightarrow> scoring_criterion list \<Rightarrow> (key \<Rightarrow> int option) \<Rightarrow> score_error + reprice_result" where
  "repriceBreakdown before rubric prices =
     (let errors = map (reprice_error prices) (sb_errors before);
          newlyUnpriced = map (\<lambda>(e, b). (be_ruleId e, be_ruleKey e))
            (filter (\<lambda>(e, b). be_counted e = Unpriced \<and> be_counted b \<noteq> Unpriced) (zip errors (sb_errors before)))
      in case computeDeductionScore rubric (map error_scoring errors) (charged_error_keys errors) of
           Inl e \<Rightarrow> Inl e
         | Inr score \<Rightarrow> Inr
             \<lparr>rr_score = ds_score score,
              rr_breakdown = before\<lparr>sb_errors := errors, sb_perCriterion := ds_perCriterion score,
                sb_errorFlags := map (\<lambda>e. (be_ruleKey e, FlagUnpriced)) (filter (\<lambda>e. be_counted e = Unpriced) errors) @
                  filter (\<lambda>f. snd f = FlagRefuted \<or> snd f = FlagUnverified) (sb_errorFlags before)\<rparr>,
              rr_newlyUnpriced = newlyUnpriced\<rparr>)"

section \<open>triageOf\<close>

record triage_counts =
  tg_counted :: nat
  tg_unpriced :: nat
  tg_refuted :: nat
  tg_excluded :: nat

record result_triage =
  tr_caseFlags :: "case_flag list"
  tr_errorFlags :: "error_flag list"
  tr_counts :: triage_counts

definition count_error :: "breakdown_error \<Rightarrow> triage_counts \<Rightarrow> triage_counts" where
  "count_error e c = (case be_counted e of
      Counted \<Rightarrow> c\<lparr>tg_counted := tg_counted c + 1\<rparr>
    | Unpriced \<Rightarrow> c\<lparr>tg_unpriced := tg_unpriced c + 1\<rparr>
    | RefutedError \<Rightarrow> c\<lparr>tg_refuted := tg_refuted c + 1\<rparr>
    | Excluded \<Rightarrow> c\<lparr>tg_excluded := tg_excluded c + 1\<rparr>)"

definition triageOf :: "pipeline \<Rightarrow> ungradable_class option \<Rightarrow> score_breakdown option \<Rightarrow> result_triage option" where
  "triageOf pl ungradableClass breakdown =
     (case breakdown of
        None \<Rightarrow> None
      | Some b \<Rightarrow>
          if pl \<noteq> Investigator then None
          else if ungradableClass \<noteq> None \<or> sb_ungradable b \<noteq> None then None
          else Some \<lparr>tr_caseFlags = sb_caseFlags b, tr_errorFlags = sb_errorFlags b,
                     tr_counts = fold count_error (sb_errors b)
                       \<lparr>tg_counted = 0, tg_unpriced = 0, tg_refuted = 0, tg_excluded = 0\<rparr>\<rparr>)"

section \<open>What a computation returns\<close>

lemma toErrorRule_simps [simp]:
  "er_ruleKey (toErrorRule r) = rs_ruleKey r" "er_criterionKey (toErrorRule r) = rs_criterionKey r"
  "er_deduction (toErrorRule r) = rs_deduction r" "er_predicate (toErrorRule r) = rs_predicate r"
  by (simp_all add: toErrorRule_def)

lemma snapshot_scoring_simps [simp]:
  "sr_ruleKey (snapshot_scoring r) = rs_ruleKey r" "sr_criterionKey (snapshot_scoring r) = rs_criterionKey r"
  "sr_deduction (snapshot_scoring r) = rs_deduction r"
  by (simp_all add: snapshot_scoring_def)

lemma scoring_of_toErrorRule: "to_scoring_rule (toErrorRule r) = snapshot_scoring r"
  by (simp add: to_scoring_rule_def snapshot_scoring_def)

lemma used_rules_subset: "set (used_rules x) \<subseteq> set (sci_rules x)"
  by (auto simp: used_rules_def matching_rules_def)

lemma distinct_used: "distinct (map rs_ruleKey (sci_rules x)) \<Longrightarrow> distinct (map rs_ruleKey (used_rules x))"
  by (simp add: used_rules_def matching_rules_def List.distinct_map_filter del: filter_filter)

lemma decision_input_ok:
  "distinct (map rs_ruleKey (sci_rules x)) \<Longrightarrow> input_ok (decision_input_of x)"
  using distinct_used[of x]
  by (auto simp: table_ok_def decision_input_of_def list_all_iff o_def used_rules_def matching_rules_def)


text \<open>The keys refuted by the challenge that no exception of the teacher overrides.\<close>

definition standing_refuted :: "score_core_input \<Rightarrow> key list" where
  "standing_refuted x = filter (\<lambda>k. k \<notin> set (excepted_keys x Exclude) \<and> k \<notin> set (excepted_keys x Include))
     (refuted_of (decision_input_of x))"

definition surviving_keys :: "score_core_input \<Rightarrow> key list" where
  "surviving_keys x = map de_ruleKey (filter (\<lambda>e. de_ruleKey e \<notin> set (standing_refuted x) \<and>
     de_ruleKey e \<notin> set (excepted_keys x Exclude)) (errors_of (decision_input_of x)))"

definition breakdown_of :: "score_core_input \<Rightarrow> diagnosed_error \<Rightarrow> breakdown_error" where
  "breakdown_of x e =
     (let r = the (index_by rs_ruleKey (used_rules x) (de_ruleKey e)) in
      \<lparr>be_ruleId = rs_ruleId r, be_revisionId = rs_revisionId r, be_ruleKey = de_ruleKey e,
       be_criterionKey = de_criterionKey e, be_source = de_source e, be_toolCallIds = de_toolCallIds e,
       be_deduction = de_deduction e,
       be_counted = counted_of (standing_refuted x) (excepted_keys x Exclude) (de_ruleKey e) (de_deduction e)\<rparr>)"

lemma excepted_keys_iff:
  "k \<in> set (excepted_keys x z) \<longleftrightarrow>
     (\<exists>r \<in> set (used_rules x). rs_ruleKey r = k \<and> sci_exceptions x (rs_ruleId r) = Some z)"
  by (auto simp: excepted_keys_def)

lemma error_rule_used:
  assumes "distinct (map rs_ruleKey (sci_rules x))" and "e \<in> set (errors_of (decision_input_of x))"
  shows "\<exists>r \<in> set (used_rules x). index_by rs_ruleKey (used_rules x) (de_ruleKey e) = Some r \<and>
     rs_ruleKey r = de_ruleKey e \<and> rs_criterionKey r = de_criterionKey e \<and> rs_deduction r = de_deduction e"
proof -
  have d: "distinct (map rs_ruleKey (used_rules x))" using assms(1) by (rule distinct_used)
  have rules: "di_rules (decision_input_of x) = map toErrorRule (used_rules x)" by (simp add: decision_input_of_def)
  have "distinct (map er_ruleKey (di_rules (decision_input_of x)))" using d by (simp add: rules o_def)
  from diagnose_error_rule[OF this assms(2)] obtain r where r: "r \<in> set (used_rules x)"
    "rs_ruleKey r = de_ruleKey e" "rs_criterionKey r = de_criterionKey e" "rs_deduction r = de_deduction e"
    by (auto simp: rules)
  with index_by_distinct[OF d r(1)] show ?thesis by auto
qed

lemma refuted_flags: "map fst (filter (\<lambda>f. snd f = FlagRefuted) (error_flags i)) = refuted_of i"
  by (simp add: error_flags_def filter_map o_def)

lemma uniq_filter_refuted:
  "uniq (filter P (challenged_keys s ch errors)) = filter P (challenged_keys s ch errors)"
  by (rule uniq_distinct) (auto simp: challenged_keys_def split: option.split)

lemma breakdown_traverse:
  assumes "distinct (map rs_ruleKey (sci_rules x))"
  shows "traverse (breakdown_error_of (index_by rs_ruleKey (used_rules x)) (standing_refuted x) (excepted_keys x Exclude))
           (errors_of (decision_input_of x)) = Inr (map (breakdown_of x) (errors_of (decision_input_of x)))"
proof (rule traverse_Inr)
  fix e assume "e \<in> set (errors_of (decision_input_of x))"
  from error_rule_used[OF assms this] show
    "breakdown_error_of (index_by rs_ruleKey (used_rules x)) (standing_refuted x) (excepted_keys x Exclude) e =
      Inr (breakdown_of x e)"
    by (auto simp: breakdown_error_of_def breakdown_of_def Let_def)
qed

lemma breakdown_of_simps [simp]:
  "be_ruleKey (breakdown_of x e) = de_ruleKey e" "be_criterionKey (breakdown_of x e) = de_criterionKey e"
  "be_deduction (breakdown_of x e) = de_deduction e" "be_source (breakdown_of x e) = de_source e"
  "be_counted (breakdown_of x e) =
     counted_of (standing_refuted x) (excepted_keys x Exclude) (de_ruleKey e) (de_deduction e)"
  by (simp_all add: breakdown_of_def Let_def)

lemma counted_of_charged:
  "counted_of refuted excluded k p \<noteq> Excluded \<and> counted_of refuted excluded k p \<noteq> RefutedError \<longleftrightarrow>
     k \<notin> set refuted \<and> k \<notin> set excluded"
  by (simp add: counted_of_def)

lemma charged_error_keys_breakdown:
  "charged_error_keys (map (breakdown_of x) (errors_of (decision_input_of x))) = surviving_keys x"
  by (simp add: charged_error_keys_def surviving_keys_def filter_map o_def counted_of_charged)

lemma surviving_ok:
  assumes "distinct (map rs_ruleKey (sci_rules x))"
  shows "diagnosis_ok (sci_rubric x) (map snapshot_scoring (used_rules x)) (surviving_keys x)"
proof -
  let ?i = "decision_input_of x"
  have "table_ok (sci_rubric x) (di_rules ?i)" using decision_input_ok[OF assms] by (simp add: decision_input_of_def)
  moreover have "set (surviving_keys x) \<subseteq> de_ruleKey ` set (errors_of ?i)" by (auto simp: surviving_keys_def)
  ultimately have "diagnosis_ok (sci_rubric x) (map to_scoring_rule (di_rules ?i)) (surviving_keys x)"
    by (rule diagnose_scorable)
  then show ?thesis by (simp add: decision_input_of_def o_def scoring_of_toErrorRule)
qed

lemma computeScore_above:
  assumes "distinct (map rs_ruleKey (sci_rules x))" and "floors_passed (decision_input_of x)"
  shows "\<exists>y. computeScore x = Inr y \<and> sco_outcome y \<noteq> Ungradable \<and> sco_ungradable y = None \<and>
     sco_score y = Some (score_formula (sci_rubric x) (map snapshot_scoring (used_rules x)) (surviving_keys x)) \<and>
     sb_errors (sco_breakdown y) = map (breakdown_of x) (errors_of (decision_input_of x)) \<and>
     sb_ungradable (sco_breakdown y) = None \<and>
     (\<exists>d. decide (decision_input_of x) = Inr d \<and> sco_outcome y = dc_outcome d \<and>
        sb_caseFlags (sco_breakdown y) = dc_caseFlags d \<and> sb_confidence (sco_breakdown y) = dc_confidence d)"
proof -
  let ?i = "decision_input_of x"
  have ok: "input_ok ?i" using assms(1) by (rule decision_input_ok)
  obtain d where d: "decide ?i = Inr d" using decide_total[OF ok] by blast
  have errs: "dc_errors d = errors_of ?i" using decide_above_floor[OF ok assms(2) d] by simp
  have ds: "Inr d = decide_scored ?i (diag_of ?i)" using decide_cases[OF ok, of d] d assms(2) by simp
  have out: "dc_outcome d \<noteq> Ungradable" and fl: "dc_errorFlags d = error_flags ?i"
    using ds[unfolded decide_scored_eq[OF ok]] by auto
  have ref: "uniq (filter (\<lambda>k. k \<notin> set (excepted_keys x Exclude) \<and> k \<notin> set (excepted_keys x Include))
      (map fst (filter (\<lambda>f. snd f = FlagRefuted) (error_flags ?i)))) = standing_refuted x"
    unfolding refuted_flags standing_refuted_def by (rule uniq_filter_refuted)
  show ?thesis
    using out by (simp add: computeScore_def Let_def d errs fl ref breakdown_traverse[OF assms(1)]
        charged_error_keys_breakdown computeDeductionScore_Inr[OF surviving_ok[OF assms(1)]])
qed

lemma computeScore_below:
  assumes "distinct (map rs_ruleKey (sci_rules x))" and "\<not> floors_passed (decision_input_of x)"
  shows "\<exists>y u. computeScore x = Inr y \<and> sco_outcome y = Ungradable \<and> sco_score y = None \<and>
     sco_ungradable y = Some u \<and> sb_errors (sco_breakdown y) = [] \<and> sb_ungradable (sco_breakdown y) = Some u"
  using decide_below_floor[OF decision_input_ok[OF assms(1)] assms(2)]
  by (auto simp: computeScore_def Let_def ungradable_decision_def)

section \<open>Two tables that agree charge the same\<close>

lemma charged_cong:
  "(\<And>k. k \<in> set ks \<Longrightarrow> index_by sr_ruleKey R k = index_by sr_ruleKey R' k) \<Longrightarrow> charged R ks c = charged R' ks c"
  unfolding charged_def by (rule sum.cong) (simp_all add: charge_def)

lemma score_formula_cong:
  "(\<And>k. k \<in> set ks \<Longrightarrow> index_by sr_ruleKey R k = index_by sr_ruleKey R' k) \<Longrightarrow>
   score_formula criteria R ks = score_formula criteria R' ks"
  using charged_cong[of ks R R'] by (simp add: score_formula_def)

lemma diagnosis_ok_cong:
  "(\<And>k. k \<in> set ks \<Longrightarrow> index_by sr_ruleKey R k = index_by sr_ruleKey R' k) \<Longrightarrow>
   diagnosis_ok criteria R ks = diagnosis_ok criteria R' ks"
  by (simp add: diagnosis_ok_set key_ok_def)

lemma breakdown_index:
  assumes d: "distinct (map rs_ruleKey (sci_rules x))" and k: "k \<in> de_ruleKey ` set (errors_of (decision_input_of x))"
  shows "index_by sr_ruleKey (map error_scoring (map (breakdown_of x) (errors_of (decision_input_of x)))) k =
         index_by sr_ruleKey (map snapshot_scoring (used_rules x)) k"
proof -
  let ?i = "decision_input_of x"
  from k obtain e where e: "e \<in> set (errors_of ?i)" "k = de_ruleKey e" by auto
  have "distinct (map de_ruleKey (errors_of ?i))"
    using diagnose_distinct table_okD(1)[OF decision_input_ok[OF d]] by blast
  then have ie: "index_by de_ruleKey (errors_of ?i) k = Some e" using e by (simp add: index_by_distinct)
  have "index_by sr_ruleKey (map (\<lambda>e. error_scoring (breakdown_of x e)) (errors_of ?i)) k =
      map_option (\<lambda>e. error_scoring (breakdown_of x e)) (index_by de_ruleKey (errors_of ?i) k)"
    by (rule index_by_map) (simp add: error_scoring_def)
  moreover have "index_by sr_ruleKey (map snapshot_scoring (used_rules x)) k =
      map_option snapshot_scoring (index_by rs_ruleKey (used_rules x) k)"
    by (rule index_by_map) simp
  moreover obtain r where "index_by rs_ruleKey (used_rules x) k = Some r" "rs_ruleKey r = de_ruleKey e"
    "rs_criterionKey r = de_criterionKey e" "rs_deduction r = de_deduction e"
    using error_rule_used[OF d e(1)] e(2) by auto
  ultimately show ?thesis by (simp add: o_def ie error_scoring_def snapshot_scoring_def)
qed

section \<open>The summary counts every error once\<close>

definition triage_total :: "triage_counts \<Rightarrow> nat" where
  "triage_total c = tg_counted c + tg_unpriced c + tg_refuted c + tg_excluded c"

lemma fold_count_error: "triage_total (fold count_error es c) = triage_total c + length es"
proof (induction es arbitrary: c)
  case (Cons e es)
  have "triage_total (count_error e c) = triage_total c + 1"
    by (cases "be_counted e") (simp_all add: count_error_def triage_total_def)
  with Cons show ?case by simp
qed simp

lemma triageOf_total:
  "triageOf pl u (Some b) = Some t \<Longrightarrow> triage_total (tr_counts t) = length (sb_errors b)"
  by (auto simp: triageOf_def fold_count_error triage_total_def split: if_splits)
    (metis (no_types, lifting) add_0 fold_count_error triage_counts.select_convs triage_total_def)

section \<open>A sample computation\<close>

definition sample_snapshots :: "rule_snapshot list" where
  "sample_snapshots =
     [\<lparr>rs_ruleId = ''1'', rs_revisionId = ''1a'', rs_ruleKey = ''R1'', rs_criterionKey = ''c'',
       rs_predicate = Some (TestGroupFailed ''g1''), rs_deduction = Some 200\<rparr>,
      \<lparr>rs_ruleId = ''2'', rs_revisionId = ''2a'', rs_ruleKey = ''R2'', rs_criterionKey = ''c'',
       rs_predicate = None, rs_deduction = Some 50\<rparr>,
      \<lparr>rs_ruleId = ''3'', rs_revisionId = ''3a'', rs_ruleKey = ''R3'', rs_criterionKey = ''elsewhere'',
       rs_predicate = None, rs_deduction = Some 70\<rparr>]"

definition sample_core :: "(key \<Rightarrow> rule_exception option) \<Rightarrow> score_core_input" where
  "sample_core exc =
     \<lparr>sci_stored = \<lparr>si_result = sample_result [sample_claim], si_rulesSeen = [(''R1'', ByMachine), (''R2'', ByModel)],
        si_ruleTable = [(''R1'', ByMachine), (''R2'', ByModel)], si_modelCeiling = 1,
        si_challenge = Some (sample_challenge Refuted)\<rparr>,
      sci_cases = [\<lparr>tk_name = ''t1'', tk_group = ''g1''\<rparr>, \<lparr>tk_name = ''t2'', tk_group = ''g2''\<rparr>],
      sci_rubric = [\<lparr>sc_key = ''c'', sc_max = 1000\<rparr>], sci_rules = sample_snapshots, sci_waived = [],
      sci_exceptions = exc, sci_theta = AUTO_APPROVE_CONFIDENCE, sci_rulerTrust = None, sci_autoBlocked = None,
      sci_autoNoError = None\<rparr>"

lemma sample_core_distinct: "distinct (map rs_ruleKey (sci_rules (sample_core exc)))"
  by (simp add: sample_core_def sample_snapshots_def)

lemma sample_core_floors: "floors_passed (decision_input_of (sample_core exc))"
  using sample_floors(3)
  by (simp add: floors_passed_def decision_input_of_def sample_core_def sample_input_def used_rules_def
      matching_rules_def considered_def sample_snapshots_def sample_rules_def toErrorRule_def)

section \<open>The properties of a computation\<close>

text \<open>
  \<open>computeScore\<close> never throws on a table with unique rule keys, whatever criteria its rules point to: a rule
  outside the rubric is dropped and reported. A dossier has a score exactly when it passes the floors.
\<close>

theorem computeScore_total:
  assumes "distinct (map rs_ruleKey (sci_rules x))"
  shows "\<exists>y. computeScore x = Inr y \<and> (sco_score y = None \<longleftrightarrow> \<not> floors_passed (decision_input_of x)) \<and>
     (sco_outcome y = Ungradable \<longleftrightarrow> \<not> floors_passed (decision_input_of x))"
proof (cases "floors_passed (decision_input_of x)")
  case True
  with computeScore_above[OF assms True] show ?thesis by auto
next
  case False
  with computeScore_below[OF assms False] show ?thesis by auto
qed

lemma computeScore_total_witness:
  "\<exists>y. computeScore (sample_core (\<lambda>_. None)) = Inr y \<and> sco_score y \<noteq> None"
  using computeScore_total[OF sample_core_distinct, of "\<lambda>_. None"] sample_core_floors by blast

text \<open>
  The teacher's exceptions win over the challenge: an error whose rule is excluded for this case is never
  charged, and one whose rule is included is charged even when the challenge refuted it. An error no
  exception names is struck out exactly when the challenge refuted it.
\<close>

theorem computeScore_exceptions:
  assumes d: "distinct (map rs_ruleKey (sci_rules x))" and f: "floors_passed (decision_input_of x)"
    and y: "computeScore x = Inr y" and b: "b \<in> set (sb_errors (sco_breakdown y))"
  shows "(sci_exceptions x (be_ruleId b) = Some Exclude \<longrightarrow> be_counted b = Excluded) \<and>
     (sci_exceptions x (be_ruleId b) = Some Include \<longrightarrow> be_counted b = (if be_deduction b = None then Unpriced else Counted)) \<and>
     (sci_exceptions x (be_ruleId b) = None \<longrightarrow>
        (be_counted b = RefutedError \<longleftrightarrow> be_ruleKey b \<in> set (refuted_of (decision_input_of x))))"
proof -
  from computeScore_above[OF d f] y b obtain e where
    e: "e \<in> set (errors_of (decision_input_of x))" "b = breakdown_of x e" by auto
  obtain r where r: "r \<in> set (used_rules x)" "index_by rs_ruleKey (used_rules x) (de_ruleKey e) = Some r"
    "rs_ruleKey r = de_ruleKey e"
    using error_rule_used[OF d e(1)] by blast
  then have id: "be_ruleId (breakdown_of x e) = rs_ruleId r" by (simp add: breakdown_of_def)
  have exc: "de_ruleKey e \<in> set (excepted_keys x z) \<longleftrightarrow> sci_exceptions x (rs_ruleId r) = Some z" for z
  proof
    assume "de_ruleKey e \<in> set (excepted_keys x z)"
    then obtain r' where "r' \<in> set (used_rules x)" "rs_ruleKey r' = rs_ruleKey r" "sci_exceptions x (rs_ruleId r') = Some z"
      using r(3) by (auto simp: excepted_keys_def)
    with r(1) distinct_used[OF d] show "sci_exceptions x (rs_ruleId r) = Some z" by (metis distinct_map inj_on_def)
  qed (use r in \<open>force simp: excepted_keys_def\<close>)
  show ?thesis
    unfolding e(2) id by (auto simp: counted_of_def standing_refuted_def exc)
qed

lemma computeScore_exceptions_witness:
  "\<exists>y b. computeScore (sample_core (\<lambda>k. if k = ''2'' then Some Include else None)) = Inr y \<and>
     b \<in> set (sb_errors (sco_breakdown y)) \<and> be_ruleKey b = ''R2'' \<and>
     be_counted b = (if be_deduction b = None then Unpriced else Counted)"
proof -
  let ?x = "sample_core (\<lambda>k. if k = ''2'' then Some Include else None)"
  obtain y where y: "computeScore ?x = Inr y" and es: "sb_errors (sco_breakdown y) = map (breakdown_of ?x) (errors_of (decision_input_of ?x))"
    using computeScore_above[OF sample_core_distinct sample_core_floors] by blast
  have "list_ex (\<lambda>b. be_ruleKey b = ''R2'' \<and> be_ruleId b = ''2'') (map (breakdown_of ?x) (errors_of (decision_input_of ?x)))"
    by code_simp
  then obtain b where b: "b \<in> set (sb_errors (sco_breakdown y))" "be_ruleKey b = ''R2''" "be_ruleId b = ''2''"
    unfolding es[symmetric] list_ex_iff by blast
  with computeScore_exceptions[OF sample_core_distinct sample_core_floors y b(1)] y show ?thesis
    by (auto simp: sample_core_def)
qed

text \<open>
  Excluding further errors never lowers a score.
\<close>

theorem computeScore_exclude_antimono:
  assumes "distinct (map rs_ruleKey (sci_rules x))" and "floors_passed (decision_input_of x)"
    and "prices_ok (map snapshot_scoring (sci_rules x))"
    and "\<And>k. exc k = sci_exceptions x k \<or> exc k = Some Exclude"
    and "computeScore x = Inr y" and "computeScore (x\<lparr>sci_exceptions := exc\<rparr>) = Inr y'"
  shows "\<exists>s s'. sco_score y = Some s \<and> sco_score y' = Some s' \<and> s \<le> s'"
proof -
  let ?x' = "x\<lparr>sci_exceptions := exc\<rparr>"
  have used: "used_rules ?x' = used_rules x" by (simp add: used_rules_def matching_rules_def considered_def)
  have dec: "decision_input_of ?x' = decision_input_of x" by (simp add: decision_input_of_def used)
  have d': "distinct (map rs_ruleKey (sci_rules ?x'))" using assms(1) by simp
  have sub: "set (excepted_keys x Exclude) \<subseteq> set (excepted_keys ?x' Exclude)"
  proof
    fix k assume "k \<in> set (excepted_keys x Exclude)"
    then obtain r where "r \<in> set (used_rules x)" "rs_ruleKey r = k" "sci_exceptions x (rs_ruleId r) = Some Exclude"
      by (auto simp: excepted_keys_iff)
    with assms(4)[of "rs_ruleId r"] show "k \<in> set (excepted_keys ?x' Exclude)" by (auto simp: excepted_keys_iff used)
  qed
  have incl: "set (excepted_keys ?x' Include) \<subseteq> set (excepted_keys x Include)"
  proof
    fix k assume "k \<in> set (excepted_keys ?x' Include)"
    then obtain r where "r \<in> set (used_rules x)" "rs_ruleKey r = k" "exc (rs_ruleId r) = Some Include"
      by (auto simp: excepted_keys_iff used)
    with assms(4)[of "rs_ruleId r"] show "k \<in> set (excepted_keys x Include)" by (auto simp: excepted_keys_iff)
  qed
  have "set (surviving_keys ?x') \<subseteq> set (surviving_keys x)"
    unfolding surviving_keys_def standing_refuted_def dec using sub incl by auto
  moreover have "prices_ok (map snapshot_scoring (used_rules x))"
    using assms(3) used_rules_subset[of x] by (auto simp: prices_ok_def list_all_iff)
  ultimately have "score_formula (sci_rubric x) (map snapshot_scoring (used_rules x)) (surviving_keys x)
      \<le> score_formula (sci_rubric x) (map snapshot_scoring (used_rules x)) (surviving_keys ?x')"
    by (intro score_formula_antimono)
  with computeScore_above[OF assms(1,2)] computeScore_above[OF d', unfolded dec used, OF assms(2)] assms(5,6)
  show ?thesis by auto
qed

lemma computeScore_exclude_antimono_witness:
  "\<exists>y y' s s'. computeScore (sample_core (\<lambda>_. None)) = Inr y \<and>
     computeScore (sample_core (\<lambda>k. if k = ''1'' then Some Exclude else None)) = Inr y' \<and>
     sco_score y = Some s \<and> sco_score y' = Some s' \<and> s \<le> s'"
proof -
  let ?exc = "\<lambda>k. if k = ''1'' then Some Exclude else None"
  have upd: "(sample_core (\<lambda>_. None))\<lparr>sci_exceptions := ?exc\<rparr> = sample_core ?exc" by (simp add: sample_core_def)
  obtain y y' where y: "computeScore (sample_core (\<lambda>_. None)) = Inr y" "computeScore (sample_core ?exc) = Inr y'"
    using computeScore_above[OF sample_core_distinct sample_core_floors] by metis
  have p: "prices_ok (map snapshot_scoring (sci_rules (sample_core (\<lambda>_. None))))" by code_simp
  have e: "?exc k = sci_exceptions (sample_core (\<lambda>_. None)) k \<or> ?exc k = Some Exclude" for k
    by (simp add: sample_core_def)
  from computeScore_exclude_antimono[OF sample_core_distinct sample_core_floors p e y(1)] y upd show ?thesis by auto
qed

text \<open>
  Without exceptions a computation is the decision: same outcome, flags and confidence, and the score is the
  formula over the errors that were not refuted.
\<close>

theorem computeScore_no_exceptions:
  assumes "distinct (map rs_ruleKey (sci_rules x))" and "sci_exceptions x = (\<lambda>_. None)"
    and "decide (decision_input_of x) = Inr d" and "computeScore x = Inr y"
  shows "sco_outcome y = dc_outcome d \<and> sco_score y = dc_score d \<and> sco_ungradable y = dc_ungradable d"
proof (cases "floors_passed (decision_input_of x)")
  case True
  have none: "excepted_keys x z = []" for z by (simp add: excepted_keys_def assms(2))
  have "surviving_keys x = counted_keys (decision_input_of x)"
    by (simp add: surviving_keys_def counted_keys_def standing_refuted_def none)
  moreover have "map to_scoring_rule (di_rules (decision_input_of x)) = map snapshot_scoring (used_rules x)"
    by (simp add: decision_input_of_def o_def scoring_of_toErrorRule)
  moreover have "dc_ungradable d = None"
    using decide_cases[OF decision_input_ok[OF assms(1)], of d] True assms(3)
    by (simp add: decide_scored_eq[OF decision_input_ok[OF assms(1)]])
  moreover have "di_rubric (decision_input_of x) = sci_rubric x" by (simp add: decision_input_of_def)
  ultimately show ?thesis
    using computeScore_above[OF assms(1) True] decide_above_floor(1)[OF decision_input_ok[OF assms(1)] True assms(3)] assms(3,4)
    by auto
next
  case False
  from decide_below_floor[OF decision_input_ok[OF assms(1)] False] assms(3) obtain u g where
    "d = ungradable_decision (\<Sum>c\<leftarrow>di_rubric (decision_input_of x). sc_max c) u g" by auto
  with assms(3,4) show ?thesis by (auto simp: computeScore_def Let_def ungradable_decision_def)
qed

lemma computeScore_no_exceptions_witness:
  "\<exists>d y. decide (decision_input_of (sample_core (\<lambda>_. None))) = Inr d \<and> computeScore (sample_core (\<lambda>_. None)) = Inr y \<and>
     sco_score y = dc_score d \<and> sco_score y \<noteq> None"
proof -
  obtain d y where dy: "decide (decision_input_of (sample_core (\<lambda>_. None))) = Inr d" "computeScore (sample_core (\<lambda>_. None)) = Inr y"
    "sco_score y \<noteq> None"
    using computeScore_above[OF sample_core_distinct sample_core_floors, of "\<lambda>_. None"] by auto
  have "sci_exceptions (sample_core (\<lambda>_. None)) = (\<lambda>_. None)" by (simp add: sample_core_def)
  from computeScore_no_exceptions[OF sample_core_distinct this dy(1,2)] dy show ?thesis by auto
qed

text \<open>
  Repricing changes prices and nothing else: with the prices of the computation itself it returns the same
  errors and the same score, and reports no newly unpriced rule.
\<close>

theorem reprice_same_prices:
  assumes d: "distinct (map rs_ruleKey (sci_rules x))" and y: "computeScore x = Inr y" and s: "sco_score y = Some s"
    and p: "\<And>r. r \<in> set (used_rules x) \<Longrightarrow> prices (rs_ruleId r) = rs_deduction r"
  shows "\<exists>z. repriceBreakdown (sco_breakdown y) (sci_rubric x) prices = Inr z \<and> rr_score z = s \<and>
     sb_errors (rr_breakdown z) = sb_errors (sco_breakdown y) \<and> rr_newlyUnpriced z = []"
proof -
  have f: "floors_passed (decision_input_of x)"
    using computeScore_below[OF d] y s by fastforce
  let ?es = "map (breakdown_of x) (errors_of (decision_input_of x))"
  from computeScore_above[OF d f] y s have es: "sb_errors (sco_breakdown y) = ?es"
    and sc: "s = score_formula (sci_rubric x) (map snapshot_scoring (used_rules x)) (surviving_keys x)" by auto
  have same: "map (reprice_error prices) ?es = ?es"
  proof -
    have "reprice_error prices (breakdown_of x e) = breakdown_of x e" if e: "e \<in> set (errors_of (decision_input_of x))" for e
    proof -
      from error_rule_used[OF d e] obtain r where r: "r \<in> set (used_rules x)"
        "index_by rs_ruleKey (used_rules x) (de_ruleKey e) = Some r" "rs_deduction r = de_deduction e" by blast
      then have "prices (be_ruleId (breakdown_of x e)) = de_deduction e" using p[OF r(1)] by (simp add: breakdown_of_def)
      then show ?thesis
        by (auto simp: reprice_error_def counted_of_def intro!: breakdown_error.equality)
    qed
    then show ?thesis by simp
  qed
  have ix: "index_by sr_ruleKey (map error_scoring ?es) k = index_by sr_ruleKey (map snapshot_scoring (used_rules x)) k"
    if "k \<in> set (surviving_keys x)" for k
    using that by (intro breakdown_index[OF d]) (auto simp: surviving_keys_def)
  have "diagnosis_ok (sci_rubric x) (map error_scoring ?es) (surviving_keys x)"
    using surviving_ok[OF d] diagnosis_ok_cong[OF ix] by blast
  note ded = computeDeductionScore_Inr[OF this, folded charged_error_keys_breakdown[of x]]
  have sc': "s = score_formula (sci_rubric x) (map error_scoring ?es) (charged_error_keys ?es)"
    unfolding sc charged_error_keys_breakdown using score_formula_cong[OF ix] by simp
  moreover have "filter (\<lambda>(e, b). be_counted e = Unpriced \<and> be_counted b \<noteq> Unpriced) (zip ?es ?es) = []"
    by (auto simp: filter_empty_conv zip_same_conv_map)
  ultimately show ?thesis by (simp add: repriceBreakdown_def Let_def es same ded del: map_map)
qed

lemma reprice_same_prices_witness:
  "\<exists>y s z. computeScore (sample_core (\<lambda>_. None)) = Inr y \<and> sco_score y = Some s \<and>
     repriceBreakdown (sco_breakdown y) (sci_rubric (sample_core (\<lambda>_. None)))
       (\<lambda>k. if k = ''1'' then Some 200 else if k = ''2'' then Some 50 else Some 70) = Inr z \<and> rr_score z = s"
proof -
  let ?x = "sample_core (\<lambda>_. None)"
  obtain y s where y: "computeScore ?x = Inr y" "sco_score y = Some s"
    using computeScore_above[OF sample_core_distinct sample_core_floors, of "\<lambda>_. None"] by auto
  have p: "(if rs_ruleId r = ''1'' then Some 200 else if rs_ruleId r = ''2'' then Some 50 else Some 70) = rs_deduction r"
    if "r \<in> set (used_rules ?x)" for r
    using that used_rules_subset[of ?x] by (auto simp: sample_core_def sample_snapshots_def)
  from reprice_same_prices[OF sample_core_distinct y p] y show ?thesis by blast
qed

end
