(* ===== verification/BundleView.thy ===== *)
theory BundleView
  imports Predicates
begin

text \<open>
  The test bundle of a result page: \<open>grading/scoring/test-bundle-view.ts\<close> and \<open>latestRunCases\<close> of
  \<open>scoring/result-detail.ts\<close>. \<open>localeCompare\<close> is the parameter \<open>collate\<close> (\<open>collate a b\<close> when the first
  string does not come after the second).
\<close>

datatype case_view_status = ViewPass | ViewFail | ViewTimeout | ViewError | ViewNotRun

record bundle_case_row =
  bc_caseKey :: key
  bc_group :: key
  bc_input :: string
  bc_expectedOutput :: string
  bc_constraintQuote :: "string option"
  bc_autoDropped :: "string option"

record bundle_rule_row =
  br_ruleId :: key
  br_ruleKey :: key
  br_predicate :: "rule_predicate option"
  br_deduction :: "int option"
  br_triggered :: bool

record test_bundle_input =
  tb_id :: key
  tb_version :: int
  tb_origin :: string
  tb_filename :: "string option"
  tb_approvedAt :: "int option"
  tb_cases :: "bundle_case_row list"
  tb_runs :: "case_result list"
  tb_rules :: "bundle_rule_row list"

record case_view =
  cv_caseKey :: key
  cv_status :: case_view_status
  cv_ms :: "int option"
  cv_constraintQuote :: "string option"
  cv_input :: string
  cv_expectedOutput :: string
  cv_diff :: "string option"

record rule_view =
  rv_ruleId :: key
  rv_ruleKey :: key
  rv_deduction :: "int option"
  rv_triggered :: bool

record group_view =
  gv_group :: key
  gv_cases :: "case_view list"
  gv_rules :: "rule_view list"

record test_bundle_view =
  tv_id :: key
  tv_version :: int
  tv_origin :: string
  tv_filename :: "string option"
  tv_approved :: bool
  tv_caseCount :: nat
  tv_droppedCount :: int
  tv_groups :: "group_view list"
  tv_unmeasuredRules :: "(key \<times> key \<times> key) list"
  tv_uncoveredFailingCases :: "key list"

section \<open>The view\<close>

fun is_failing :: "case_view_status \<Rightarrow> bool" where
  "is_failing ViewFail = True"
| "is_failing ViewTimeout = True"
| "is_failing ViewError = True"
| "is_failing _ = False"

fun caseViewStatus :: "case_status option \<Rightarrow> case_view_status" where
  "caseViewStatus None = ViewNotRun"
| "caseViewStatus (Some Ran) = ViewNotRun"
| "caseViewStatus (Some Pass) = ViewPass"
| "caseViewStatus (Some Fail) = ViewFail"
| "caseViewStatus (Some Timeout) = ViewTimeout"
| "caseViewStatus (Some _) = ViewError"

fun groupOf :: "rule_predicate option \<Rightarrow> key option" where
  "groupOf (Some (TestGroupFailed g)) = Some g"
| "groupOf _ = None"

definition view_case :: "(key \<Rightarrow> case_result option) \<Rightarrow> bundle_case_row \<Rightarrow> case_view" where
  "view_case runOf c =
     (let r = runOf (bc_caseKey c) in
      \<lparr>cv_caseKey = bc_caseKey c, cv_status = caseViewStatus (map_option cr_status r), cv_ms = map_option cr_ms r,
       cv_constraintQuote = bc_constraintQuote c, cv_input = bc_input c, cv_expectedOutput = bc_expectedOutput c,
       cv_diff = (case r of None \<Rightarrow> None | Some x \<Rightarrow> cr_diff x)\<rparr>)"

text \<open>Failing cases first; otherwise the order of the sorted bundle is kept (the sort is stable).\<close>

definition failing_first :: "case_view \<Rightarrow> case_view \<Rightarrow> bool" where
  "failing_first a b \<longleftrightarrow> is_failing (cv_status a) \<or> \<not> is_failing (cv_status b)"

definition view_rule :: "bundle_rule_row \<Rightarrow> rule_view" where
  "view_rule r = \<lparr>rv_ruleId = br_ruleId r, rv_ruleKey = br_ruleKey r, rv_deduction = br_deduction r, rv_triggered = br_triggered r\<rparr>"

definition kept_cases :: "(string \<Rightarrow> string \<Rightarrow> bool) \<Rightarrow> test_bundle_input \<Rightarrow> bundle_case_row list" where
  "kept_cases collate inp =
     js_sort (\<lambda>a b. collate (bc_caseKey a) (bc_caseKey b)) (filter (\<lambda>c. bc_autoDropped c = None) (tb_cases inp))"

definition view_group ::
  "(key \<Rightarrow> case_result option) \<Rightarrow> bundle_case_row list \<Rightarrow> bundle_rule_row list \<Rightarrow> key \<Rightarrow> group_view" where
  "view_group runOf kept rules g =
     \<lparr>gv_group = g,
      gv_cases = js_sort failing_first (map (view_case runOf) (filter (\<lambda>c. bc_group c = g) kept)),
      gv_rules = map view_rule (filter (\<lambda>r. groupOf (br_predicate r) = Some g) rules)\<rparr>"

definition buildTestBundleView :: "(string \<Rightarrow> string \<Rightarrow> bool) \<Rightarrow> test_bundle_input \<Rightarrow> test_bundle_view" where
  "buildTestBundleView collate inp =
     (let kept = kept_cases collate inp;
          runOf = index_by cr_name (tb_runs inp);
          groupNames = uniq (map bc_group kept);
          groups = map (view_group runOf kept (tb_rules inp)) groupNames
      in \<lparr>tv_id = tb_id inp, tv_version = tb_version inp, tv_origin = tb_origin inp, tv_filename = tb_filename inp,
          tv_approved = (tb_approvedAt inp \<noteq> None),
          tv_caseCount = length kept,
          tv_droppedCount = int (length (tb_cases inp)) - int (length kept),
          tv_groups = groups,
          tv_unmeasuredRules = List.map_filter (\<lambda>r. case groupOf (br_predicate r) of
              None \<Rightarrow> None
            | Some g \<Rightarrow> if g \<in> set groupNames then None else Some (br_ruleId r, br_ruleKey r, g)) (tb_rules inp),
          tv_uncoveredFailingCases = concat (map (\<lambda>g. map cv_caseKey (filter (\<lambda>c. is_failing (cv_status c)) (gv_cases g)))
              (filter (\<lambda>g. gv_rules g = []) groups))\<rparr>)"

section \<open>The latest result of each case\<close>

definition latestRunCases :: "tool_call list \<Rightarrow> structured_results \<Rightarrow> case_result list" where
  "latestRunCases calls st =
     map snd (fold (\<lambda>call m. case run_tests_of st call of
          None \<Rightarrow> m
        | Some (_, cases) \<Rightarrow> fold (\<lambda>c. AList.update (cr_name c) c) cases m) calls [])"

text \<open>All results of the successful calls, in order.\<close>

definition all_results :: "tool_call list \<Rightarrow> structured_results \<Rightarrow> case_result list" where
  "all_results calls st = concat (map (\<lambda>t. case run_tests_of st t of None \<Rightarrow> [] | Some (_, cs) \<Rightarrow> cs) calls)"

lemma latestRunCases_fold:
  "latestRunCases calls st = map snd (fold (\<lambda>c. AList.update (cr_name c) c) (all_results calls st) [])"
proof -
  have "fold (\<lambda>call m. case run_tests_of st call of
          None \<Rightarrow> m
        | Some (_, cases) \<Rightarrow> fold (\<lambda>c. AList.update (cr_name c) c) cases m) calls m =
      fold (\<lambda>c. AList.update (cr_name c) c) (all_results calls st) m" for m
    by (induction calls arbitrary: m) (auto simp: all_results_def split: option.split)
  then show ?thesis by (simp add: latestRunCases_def)
qed

lemma fold_update_entries:
  "(\<And>k c. (k, c) \<in> set m \<Longrightarrow> f c = k) \<Longrightarrow> (k, c) \<in> set (fold (\<lambda>c. AList.update (f c) c) cs m) \<Longrightarrow> f c = k"
proof (induction cs arbitrary: m)
  case (Cons x cs)
  show ?case
  proof (rule Cons.IH)
    show "(k, c) \<in> set (fold (\<lambda>c. AList.update (f c) c) cs (AList.update (f x) x m))" using Cons.prems(2) by simp
    show "f c' = k'" if "(k', c') \<in> set (AList.update (f x) x m)" for k' c'
      using that Cons.prems(1) by (induction m) (auto split: if_splits)
  qed
qed auto

text \<open>Each case name occurs once, with the result of the last call that ran it.\<close>

lemma latestRunCases_iff:
  "c \<in> set (latestRunCases calls st) \<longleftrightarrow> index_by cr_name (all_results calls st) (cr_name c) = Some c"
proof -
  define m where "m = fold (\<lambda>c. AList.update (cr_name c) c) (all_results calls st) []"
  have d: "distinct (map fst m)" unfolding m_def by (rule distinct_fold_update) simp
  have k: "(k, c) \<in> set m \<Longrightarrow> cr_name c = k" for k c unfolding m_def by (rule fold_update_entries[of "[]"]) auto
  have "c \<in> snd ` set m \<longleftrightarrow> (cr_name c, c) \<in> set m"
  proof
    assume "c \<in> snd ` set m"
    then obtain j where "(j, c) \<in> set m" by auto
    with k[OF this] show "(cr_name c, c) \<in> set m" by simp
  qed (metis image_eqI snd_conv)
  also have "\<dots> \<longleftrightarrow> map_of m (cr_name c) = Some c" using d by simp
  also have "\<dots> \<longleftrightarrow> index_by cr_name (all_results calls st) (cr_name c) = Some c"
    unfolding m_def by (simp add: fold_update_map_of split: option.split)
  finally show ?thesis by (simp add: latestRunCases_fold m_def)
qed

lemma latestRunCases_distinct: "distinct (map cr_name (latestRunCases calls st))"
proof -
  let ?m = "fold (\<lambda>c. AList.update (cr_name c) c) (all_results calls st) []"
  have "map cr_name (map snd ?m) = map fst ?m"
    using fold_update_entries[of "[]" cr_name] by (auto simp: o_def)
  moreover have "distinct (map fst ?m)" by (rule distinct_fold_update) simp
  ultimately show ?thesis by (simp only: latestRunCases_fold)
qed

section \<open>What the view shows\<close>

lemma view_case_simps [simp]:
  "cv_caseKey (view_case runOf c) = bc_caseKey c"
  "cv_status (view_case runOf c) = caseViewStatus (map_option cr_status (runOf (bc_caseKey c)))"
  by (simp_all add: view_case_def Let_def)

lemma total_preorder_failing_first [simp]: "total_preorder failing_first"
  by (auto simp: total_preorder_def failing_first_def)

lemma kept_set: "set (kept_cases collate inp) = {c \<in> set (tb_cases inp). bc_autoDropped c = None}"
  by (auto simp: kept_cases_def)

text \<open>Exactly the kept cases appear, each in its group; failing cases stand before the others.\<close>

lemma view_groups_cases:
  "g \<in> set (tv_groups (buildTestBundleView collate inp)) \<Longrightarrow>
     set (gv_cases g) = view_case (index_by cr_name (tb_runs inp)) `
       {c \<in> set (tb_cases inp). bc_autoDropped c = None \<and> bc_group c = gv_group g} \<and>
     sorted_wrt failing_first (gv_cases g)"
  by (auto simp: buildTestBundleView_def Let_def view_group_def kept_set sorted_js_sort)

lemma view_groups_names:
  "set (map gv_group (tv_groups (buildTestBundleView collate inp))) =
     bc_group ` {c \<in> set (tb_cases inp). bc_autoDropped c = None}"
  "distinct (map gv_group (tv_groups (buildTestBundleView collate inp)))"
  by (auto simp: buildTestBundleView_def Let_def view_group_def kept_set o_def js_simps image_iff)

text \<open>
  A failing case is listed as uncovered exactly when no rule is on its group, so every failing kept case
  is either shown with a rule or listed.
\<close>

lemma uncovered_failing_iff:
  "k \<in> set (tv_uncoveredFailingCases (buildTestBundleView collate inp)) \<longleftrightarrow>
     (\<exists>c \<in> set (tb_cases inp). bc_autoDropped c = None \<and> bc_caseKey c = k \<and>
        is_failing (caseViewStatus (map_option cr_status (index_by cr_name (tb_runs inp) k))) \<and>
        (\<forall>r \<in> set (tb_rules inp). groupOf (br_predicate r) \<noteq> Some (bc_group c)))"
  (is "_ \<longleftrightarrow> ?rhs")
proof
  assume "k \<in> set (tv_uncoveredFailingCases (buildTestBundleView collate inp))"
  then show ?rhs
    by (auto simp: buildTestBundleView_def Let_def view_group_def kept_set filter_empty_conv js_simps)
next
  assume ?rhs
  then obtain c where c: "c \<in> set (tb_cases inp)" "bc_autoDropped c = None" "bc_caseKey c = k"
    "is_failing (caseViewStatus (map_option cr_status (index_by cr_name (tb_runs inp) k)))"
    "\<forall>r \<in> set (tb_rules inp). groupOf (br_predicate r) \<noteq> Some (bc_group c)" by blast
  let ?g = "view_group (index_by cr_name (tb_runs inp)) (kept_cases collate inp) (tb_rules inp) (bc_group c)"
  have "k \<in> set (map cv_caseKey (filter (\<lambda>c. is_failing (cv_status c)) (gv_cases ?g)))"
    using c by (auto simp: view_group_def kept_set image_iff intro!: bexI[of _ c])
  moreover have "gv_rules ?g = []" using c(5) by (auto simp: view_group_def filter_empty_conv)
  moreover have "bc_group c \<in> set (uniq (map bc_group (kept_cases collate inp)))" using c by (auto simp: kept_set)
  ultimately show "k \<in> set (tv_uncoveredFailingCases (buildTestBundleView collate inp))"
    unfolding buildTestBundleView_def Let_def
    by (auto intro!: bexI[of _ "bc_group c"])
qed

lemma unmeasured_rules_iff:
  "(i, k, g) \<in> set (tv_unmeasuredRules (buildTestBundleView collate inp)) \<longleftrightarrow>
     (\<exists>r \<in> set (tb_rules inp). br_ruleId r = i \<and> br_ruleKey r = k \<and> groupOf (br_predicate r) = Some g \<and>
        (\<forall>c \<in> set (tb_cases inp). bc_autoDropped c = None \<longrightarrow> bc_group c \<noteq> g))"
  by (auto simp: buildTestBundleView_def Let_def set_map_filter kept_set js_simps split: option.splits if_splits)

text \<open>A case that did not run is never shown as passed or failed.\<close>

lemma caseViewStatus_pass_iff: "caseViewStatus s = ViewPass \<longleftrightarrow> s = Some Pass"
  by (cases s rule: caseViewStatus.cases) auto

end
