(* ===== verification/Usage.thy ===== *)
theory Usage
  imports Threshold
begin

text \<open>
  Tokens, prices and budgets: \<open>grading/investigator/usage-sink.ts\<close>, \<open>investigator/pricing.ts\<close>,
  \<open>investigator/budget.ts\<close> and \<open>investigator/model-family.ts\<close>.

  A \<open>Record<string, ModelUsage>\<close> is an association list in insertion order. Costs are computed in
  doubles; \<open>fl\<close> marks each rounding, and \<open>Math.round\<close> is \<open>js_round\<close>.
\<close>

section \<open>usage-sink.ts\<close>

record model_usage =
  mu_in :: int
  mu_out :: int

type_synonym usage_by_model = "(string \<times> model_usage) list"

text \<open>The key for tokens nobody can attribute, written without its Vietnamese accents: a name
  no model has.\<close>

definition UNATTRIBUTED :: string where
  "UNATTRIBUTED = ''(khong ro model)''"

definition usage_plus :: "model_usage \<Rightarrow> model_usage \<Rightarrow> model_usage" where
  "usage_plus a b = \<lparr>mu_in = mu_in a + mu_in b, mu_out = mu_out a + mu_out b\<rparr>"

definition usage_at :: "usage_by_model \<Rightarrow> string \<Rightarrow> model_usage" where
  "usage_at u m = (case map_of u m of None \<Rightarrow> \<lparr>mu_in = 0, mu_out = 0\<rparr> | Some x \<Rightarrow> x)"

definition sink_add :: "string \<Rightarrow> model_usage \<Rightarrow> usage_by_model \<Rightarrow> usage_by_model" where
  "sink_add m u acc = AList.update m (usage_plus (usage_at acc m) u) acc"

definition sink_add_all :: "usage_by_model \<Rightarrow> usage_by_model \<Rightarrow> usage_by_model" where
  "sink_add_all part acc = fold (\<lambda>(m, u). sink_add m u) part acc"

definition addSpend :: "usage_by_model option \<Rightarrow> model_usage \<Rightarrow> usage_by_model \<Rightarrow> usage_by_model" where
  "addSpend perModel spent acc =
     (case perModel of Some part \<Rightarrow> sink_add_all part acc | None \<Rightarrow> sink_add UNATTRIBUTED spent acc)"

definition mergeUsage :: "usage_by_model list \<Rightarrow> usage_by_model" where
  "mergeUsage parts = fold sink_add_all parts []"

definition totalOf :: "usage_by_model \<Rightarrow> model_usage" where
  "totalOf u = fold (\<lambda>(_, x) t. usage_plus t x) u \<lparr>mu_in = 0, mu_out = 0\<rparr>"

section \<open>pricing.ts\<close>

record model_price =
  mp_in :: rat
  mp_out :: rat

text \<open>\<open>positive(raw)\<close>: a price that is a positive finite number.\<close>

definition positive_price :: "string option \<Rightarrow> rat option" where
  "positive_price raw =
     (case raw of None \<Rightarrow> None
      | Some r \<Rightarrow> (let t = js_trim r in
          if t = [] then None
          else case js_number t of Some n \<Rightarrow> if 0 < n then Some n else None | None \<Rightarrow> None))"

definition readPrice :: "env \<Rightarrow> nat \<Rightarrow> model_price option" where
  "readPrice env index =
     (let inP = positive_price (env (''GRADING_TIER'' @ show_nat index @ ''_PRICE_IN_PER_MTOK''));
          outP = positive_price (env (''GRADING_TIER'' @ show_nat index @ ''_PRICE_OUT_PER_MTOK''))
      in case (inP, outP) of (Some i, Some j) \<Rightarrow> Some \<lparr>mp_in = i, mp_out = j\<rparr> | _ \<Rightarrow> None)"

fun cost_loop :: "(string \<Rightarrow> model_price option) \<Rightarrow> usage_by_model \<Rightarrow> rat \<Rightarrow> rat option" where
  "cost_loop priceOf [] usd = Some usd"
| "cost_loop priceOf ((m, u) # rest) usd =
     (if mu_in u = 0 \<and> mu_out u = 0 then cost_loop priceOf rest usd
      else if m = UNATTRIBUTED then None
      else case priceOf m of
          None \<Rightarrow> None
        | Some p \<Rightarrow> cost_loop priceOf rest
            (fl (usd + fl (fl (fl (of_int (mu_in u) * mp_in p) + fl (of_int (mu_out u) * mp_out p)) / 1000000))))"

definition costOf :: "usage_by_model \<Rightarrow> (string \<Rightarrow> model_price option) \<Rightarrow> rat option" where
  "costOf usage priceOf =
     map_option (\<lambda>usd. fl (of_int (js_round (fl (usd * 10000))) / 10000)) (cost_loop priceOf usage 0)"

section \<open>budget.ts\<close>

record int_budget =
  ib_maxToolCalls :: int
  ib_maxWallMs :: int
  ib_maxTokens :: int
  ib_maxRounds :: int

definition DEFAULT_BUDGET :: int_budget where
  "DEFAULT_BUDGET = \<lparr>ib_maxToolCalls = 25, ib_maxWallMs = 300000, ib_maxTokens = 150000, ib_maxRounds = 12\<rparr>"

text \<open>One key: its value and whether a warning is pushed.\<close>

definition read_limit :: "env \<Rightarrow> string \<Rightarrow> int \<Rightarrow> int \<times> bool" where
  "read_limit env k dflt =
     (case env k of
        None \<Rightarrow> (dflt, False)
      | Some v \<Rightarrow>
          (let raw = js_trim v in
           case (if raw = [] then None else js_number raw) of
             None \<Rightarrow> (dflt, True)
           | Some x \<Rightarrow> if x = of_int (floor x) \<and> 0 < x then (floor x, False) else (dflt, True)))"

definition readInvestigationBudget :: "env \<Rightarrow> int_budget \<times> string list" where
  "readInvestigationBudget env =
     (let calls = read_limit env ''INVESTIGATE_MAX_TOOL_CALLS'' (ib_maxToolCalls DEFAULT_BUDGET);
          wall = read_limit env ''INVESTIGATE_MAX_WALL_MS'' (ib_maxWallMs DEFAULT_BUDGET);
          tokens = read_limit env ''INVESTIGATE_MAX_TOKENS'' (ib_maxTokens DEFAULT_BUDGET);
          rounds = read_limit env ''INVESTIGATE_MAX_ROUNDS'' (ib_maxRounds DEFAULT_BUDGET)
      in (\<lparr>ib_maxToolCalls = fst calls, ib_maxWallMs = fst wall, ib_maxTokens = fst tokens, ib_maxRounds = fst rounds\<rparr>,
          map fst (filter snd [(''INVESTIGATE_MAX_TOOL_CALLS'', snd calls), (''INVESTIGATE_MAX_WALL_MS'', snd wall),
            (''INVESTIGATE_MAX_TOKENS'', snd tokens), (''INVESTIGATE_MAX_ROUNDS'', snd rounds)])))"

section \<open>model-family.ts\<close>

definition variant_suffixes :: "string list" where
  "variant_suffixes = [''-flash'', ''-mini'', ''-lite'', ''-turbo'']"

definition ends_with_ci :: "string \<Rightarrow> string \<Rightarrow> bool" where
  "ends_with_ci s suffix \<longleftrightarrow> length suffix \<le> length s \<and> map lower_char (drop (length s - length suffix) s) = suffix"

definition familyOf :: "string \<Rightarrow> string" where
  "familyOf model =
     (let afterSlash = last (split_on CHR ''/'' model) in
      case List.find (ends_with_ci afterSlash) variant_suffixes of
        Some sfx \<Rightarrow> take (length afterSlash - length sfx) afterSlash
      | None \<Rightarrow> afterSlash)"

text \<open>The families named in the start-up warning; empty when none is logged.\<close>

definition warnIfSameFamily :: "string list \<Rightarrow> string list \<Rightarrow> string list" where
  "warnIfSameFamily graderModels challengerModels =
     uniq (filter (\<lambda>f. f \<in> set (map familyOf graderModels)) (map familyOf challengerModels))"

section \<open>No token is lost\<close>

lemma usage_at_sink_add: "usage_at (sink_add m u b) k = (if k = m then usage_plus (usage_at b m) u else usage_at b k)"
  by (simp add: sink_add_def usage_at_def js_simps)

definition sum_in :: "usage_by_model \<Rightarrow> int" where "sum_in u = (\<Sum>x\<leftarrow>u. mu_in (snd x))"
definition sum_out :: "usage_by_model \<Rightarrow> int" where "sum_out u = (\<Sum>x\<leftarrow>u. mu_out (snd x))"

lemma totalOf_sums: "totalOf u = \<lparr>mu_in = sum_in u, mu_out = sum_out u\<rparr>"
proof -
  have "fold (\<lambda>(_, x) t. usage_plus t x) u t = \<lparr>mu_in = mu_in t + sum_in u, mu_out = mu_out t + sum_out u\<rparr>" for t
    by (induction u arbitrary: t) (auto simp: sum_in_def sum_out_def usage_plus_def)
  then show ?thesis by (simp add: totalOf_def)
qed

lemma usage_at_Cons: "usage_at ((k, x) # b) m = (if m = k then x else usage_at b m)"
  by (auto simp: usage_at_def)

lemma sink_add_Cons:
  "sink_add m u ((k, x) # b) = (if k = m then (k, usage_plus x u) # b else (k, x) # sink_add m u b)"
  by (auto simp: sink_add_def usage_at_Cons)

lemma sink_add_sums: "sum_in (sink_add m u b) = sum_in b + mu_in u \<and> sum_out (sink_add m u b) = sum_out b + mu_out u"
proof (induction b)
  case Nil
  show ?case by (simp add: sink_add_def usage_at_def usage_plus_def sum_in_def sum_out_def)
next
  case (Cons p b)
  obtain k x where p: "p = (k, x)" by (cases p)
  show ?case
  proof (cases "k = m")
    case True
    then show ?thesis by (simp add: p sink_add_Cons sum_in_def sum_out_def usage_plus_def)
  next
    case False
    with Cons show ?thesis by (simp add: p sink_add_Cons sum_in_def sum_out_def)
  qed
qed

lemma sink_add_all_sums:
  "sum_in (sink_add_all part b) = sum_in b + sum_in part \<and> sum_out (sink_add_all part b) = sum_out b + sum_out part"
proof (induction part arbitrary: b)
  case (Cons p part)
  obtain k x where p: "p = (k, x)" by (cases p)
  have "sink_add_all (p # part) b = sink_add_all part (sink_add k x b)" by (simp add: p sink_add_all_def)
  with Cons[of "sink_add k x b"] sink_add_sums[of k x b] show ?case by (simp add: p sum_in_def sum_out_def)
qed (simp add: sink_add_all_def sum_in_def sum_out_def)

lemma mergeUsage_sums:
  "sum_in (mergeUsage parts) = (\<Sum>p\<leftarrow>parts. sum_in p) \<and> sum_out (mergeUsage parts) = (\<Sum>p\<leftarrow>parts. sum_out p)"
proof -
  have "sum_in (fold sink_add_all parts b) = sum_in b + (\<Sum>p\<leftarrow>parts. sum_in p) \<and>
        sum_out (fold sink_add_all parts b) = sum_out b + (\<Sum>p\<leftarrow>parts. sum_out p)" for b
    by (induction parts arbitrary: b) (simp_all add: sink_add_all_sums)
  from this[of "[]"] show ?thesis by (simp add: mergeUsage_def sum_in_def sum_out_def)
qed

text \<open>A cost is given only when every model that used tokens has a price.\<close>

lemma cost_loop_Some:
  "(\<exists>c. cost_loop priceOf us usd = Some c) \<longleftrightarrow>
     list_all (\<lambda>(m, u). mu_in u = 0 \<and> mu_out u = 0 \<or> (m \<noteq> UNATTRIBUTED \<and> priceOf m \<noteq> None)) us"
proof (induction us arbitrary: usd)
  case (Cons p us)
  obtain m u where p: "p = (m, u)" by (cases p)
  show ?case
  proof (cases "mu_in u = 0 \<and> mu_out u = 0")
    case False
    then show ?thesis using Cons.IH by (cases "priceOf m") (auto simp: p)
  qed (simp add: p Cons.IH)
qed simp

lemma costOf_Some:
  "(\<exists>c. costOf us priceOf = Some c) \<longleftrightarrow>
     list_all (\<lambda>(m, u). mu_in u = 0 \<and> mu_out u = 0 \<or> (m \<noteq> UNATTRIBUTED \<and> priceOf m \<noteq> None)) us"
  unfolding costOf_def using cost_loop_Some[of priceOf us 0] by (auto simp: map_option_case split: option.splits)

text \<open>Every limit read from the environment is a positive integer.\<close>

lemma read_limit_pos: "0 < d \<Longrightarrow> 0 < fst (read_limit env k d)"
proof -
  have "0 < floor x" if "x = of_int (floor x)" "0 < (x :: rat)" for x
    using that by (metis of_int_0_less_iff)
  moreover assume "0 < d"
  ultimately show ?thesis by (simp add: read_limit_def Let_def split: option.split)
qed

lemma readInvestigationBudget_pos:
  "0 < ib_maxToolCalls (fst (readInvestigationBudget env)) \<and> 0 < ib_maxWallMs (fst (readInvestigationBudget env)) \<and>
   0 < ib_maxTokens (fst (readInvestigationBudget env)) \<and> 0 < ib_maxRounds (fst (readInvestigationBudget env))"
  by (simp add: readInvestigationBudget_def Let_def DEFAULT_BUDGET_def read_limit_pos)

end
