(* ===== verification/Envelope.thy ===== *)
theory Envelope
  imports Investigation_Types "HOL-Library.Sublist"
begin

text \<open>
  The envelope around a submission: \<open>grading/harness/submission-envelope.ts\<close>, and the reading and
  checking of code quotes of \<open>investigator/evidence.ts\<close>.

  A text is its list of UTF-16 code units. \<open>units\<close> embeds a \<open>string\<close> (code units below 256) into
  it. The nonce of an envelope is random and so an argument. The two regular expressions are scans:
  their parts (white space, letters, punctuation) are disjoint, so a greedy scan finds every match.
\<close>

definition units :: "string \<Rightarrow> utext" where
  "units s = map of_char s"

section \<open>Scanning\<close>

text \<open>\<open>\s\<close>\<close>

definition is_ws :: "nat \<Rightarrow> bool" where
  "is_ws c \<longleftrightarrow> (9 \<le> c \<and> c \<le> 13) \<or> c = 32 \<or> c = 160 \<or> c = 5760 \<or> (8192 \<le> c \<and> c \<le> 8202) \<or>
     c = 8232 \<or> c = 8233 \<or> c = 8239 \<or> c = 8287 \<or> c = 12288 \<or> c = 65279"

text \<open>The flag \<open>i\<close>: letters of ASCII compare without case.\<close>

definition fold_case :: "nat \<Rightarrow> nat" where
  "fold_case c = (if 65 \<le> c \<and> c \<le> 90 then c + 32 else c)"

fun scan_lit :: "utext \<Rightarrow> utext \<Rightarrow> utext option" where
  "scan_lit [] s = Some s"
| "scan_lit (p # ps) [] = None"
| "scan_lit (p # ps) (c # cs) = (if fold_case p = fold_case c then scan_lit ps cs else None)"

text \<open>The rest after the first of several literals that matches.\<close>

fun scan_alt :: "utext list \<Rightarrow> utext \<Rightarrow> utext option" where
  "scan_alt [] s = None"
| "scan_alt (p # ps) s = (case scan_lit p s of Some r \<Rightarrow> Some r | None \<Rightarrow> scan_alt ps s)"

definition skip_ws :: "utext \<Rightarrow> utext" where
  "skip_ws s = dropWhile is_ws s"

definition skip_ws1 :: "utext \<Rightarrow> utext option" where
  "skip_ws1 s = (case s of c # _ \<Rightarrow> if is_ws c then Some (skip_ws s) else None | [] \<Rightarrow> None)"

definition marker_at :: "utext \<Rightarrow> bool" where
  "marker_at s =
     (case scan_lit (units ''==='') s of
        None \<Rightarrow> False
      | Some r1 \<Rightarrow>
          (case scan_alt [units ''BEGIN'', units ''END''] (skip_ws r1) of
             None \<Rightarrow> False
           | Some r2 \<Rightarrow>
               (case skip_ws1 r2 of None \<Rightarrow> False | Some r3 \<Rightarrow> scan_lit (units ''SUBMISSION'') r3 \<noteq> None)))"

definition tag_at :: "utext \<Rightarrow> bool" where
  "tag_at s =
     (case scan_lit (units ''<'') s of
        None \<Rightarrow> False
      | Some r1 \<Rightarrow>
          (let r2 = (case scan_lit (units ''/'') r1 of Some r \<Rightarrow> r | None \<Rightarrow> r1) in
           case scan_alt [units ''student_submission'', units ''system'', units ''assistant''] (skip_ws r2) of
             None \<Rightarrow> False
           | Some r3 \<Rightarrow> scan_lit (units ''>'') (skip_ws r3) \<noteq> None))"

text \<open>\<open>DELIMITER_SHAPED.exec\<close>: the index of the first match.\<close>

fun delimiter_shaped :: "utext \<Rightarrow> nat option" where
  "delimiter_shaped [] = None"
| "delimiter_shaped (c # cs) =
     (if marker_at (c # cs) \<or> tag_at (c # cs) then Some 0 else map_option Suc (delimiter_shaped cs))"

record submission_envelope =
  se_nonce :: utext
  se_wrapped :: utext
  se_injectionSuspected :: bool
  se_suspectQuote :: "utext option"

text \<open>The announcement of the nonce and the two marker lines.\<close>

definition nonce_line :: "utext \<Rightarrow> utext" where
  "nonce_line nonce = units ''M'' @ [227] @ units '' '' @ [273, 7883] @ units ''nh danh l'' @ [432, 7907] @ units ''t n'' @
     [224] @ units ''y: '' @ nonce"

definition begin_line :: "utext \<Rightarrow> utext" where
  "begin_line nonce = units ''===BEGIN SUBMISSION '' @ nonce @ units ''===''"

definition end_line :: "utext \<Rightarrow> utext" where
  "end_line nonce = units ''===END SUBMISSION '' @ nonce @ units ''===''"

definition wrapSubmission :: "utext \<Rightarrow> utext \<Rightarrow> submission_envelope" where
  "wrapSubmission nonce raw =
     (let m = delimiter_shaped raw in
      \<lparr>se_nonce = nonce,
       se_wrapped = join_with [10] [nonce_line nonce, begin_line nonce, raw, end_line nonce],
       se_injectionSuspected = (m \<noteq> None),
       se_suspectQuote = map_option (\<lambda>i. take (i + 120 - (i - 40)) (drop (i - 40) raw)) m\<rparr>)"

section \<open>Quotes of the submission\<close>

definition MIN_QUOTE_FRAGMENT :: nat where
  "MIN_QUOTE_FRAGMENT = 12"

text \<open>\<open>s.replace(/\s+/g, ' ')\<close>: every run of white space becomes one space.\<close>

function squeeze :: "utext \<Rightarrow> utext" where
  "squeeze [] = []"
| "squeeze (c # cs) = (if is_ws c then 32 # squeeze (dropWhile is_ws cs) else c # squeeze cs)"
  by pat_completeness auto
termination
  by (relation "measure length") (auto simp: le_imp_less_Suc length_dropWhile_le)

definition trim_by :: "('a \<Rightarrow> bool) \<Rightarrow> 'a list \<Rightarrow> 'a list" where
  "trim_by P s = rev (dropWhile P (rev (dropWhile P s)))"

definition flat :: "utext \<Rightarrow> utext" where
  "flat s = trim_by is_ws (squeeze s)"

definition is_open_quote :: "nat \<Rightarrow> bool" where
  "is_open_quote c \<longleftrightarrow> c \<in> {34, 39, 96, 171, 8220, 8216}"

definition is_close_quote :: "nat \<Rightarrow> bool" where
  "is_close_quote c \<longleftrightarrow> c \<in> {34, 39, 96, 187, 8221, 8217}"

definition unquoted :: "utext \<Rightarrow> utext" where
  "unquoted s = trim_by is_ws (rev (dropWhile is_close_quote (rev (dropWhile is_open_quote (flat s)))))"

text \<open>\<open>excerpt.split(/\<dots>|\.\.\./)\<close>: the character U+2026 or three dots.\<close>

fun split_ellipsis :: "utext \<Rightarrow> utext \<Rightarrow> utext list" where
  "split_ellipsis acc [] = [rev acc]"
| "split_ellipsis acc (c # cs) =
     (if c = 8230 then rev acc # split_ellipsis [] cs
      else if c = 46 \<and> take 2 cs = [46, 46] then rev acc # split_ellipsis [] (drop 2 cs)
      else split_ellipsis (c # acc) cs)"

fun occurs_in :: "'a list \<Rightarrow> 'a list \<Rightarrow> bool" where
  "occurs_in p [] = (p = [])"
| "occurs_in p (c # cs) = (starts_with p (c # cs) \<or> occurs_in p cs)"

definition quote_candidates :: "utext \<Rightarrow> utext list" where
  "quote_candidates excerpt =
     (let fragments = filter (\<lambda>f. length f \<ge> MIN_QUOTE_FRAGMENT) (map unquoted (split_ellipsis [] excerpt)) in
      if fragments \<noteq> [] then fragments else [unquoted excerpt])"

definition quoteAppearsInSubmission :: "utext \<Rightarrow> utext list \<Rightarrow> bool" where
  "quoteAppearsInSubmission excerpt submissions =
     list_ex (\<lambda>c. c \<noteq> [] \<and> list_ex (\<lambda>h. occurs_in c h) (map flat submissions)) (quote_candidates excerpt)"

section \<open>Evidence claims\<close>

definition EVIDENCE_MAX_ITEMS :: nat where
  "EVIDENCE_MAX_ITEMS = 3"

definition EVIDENCE_QUOTE_MAX :: nat where
  "EVIDENCE_QUOTE_MAX = 300"

definition FILE_MAX :: nat where
  "FILE_MAX = 512"

definition claim_line :: "json option \<Rightarrow> int option" where
  "claim_line v = (case v of Some (JNum x) \<Rightarrow> if x = of_int (floor x) \<and> 1 \<le> x then Some (floor x) else None | _ \<Rightarrow> None)"

text \<open>An array is an object without the fields read, so only \<open>JObj\<close> can give a claim.\<close>

definition readClaim :: "json \<Rightarrow> evidence_claim option" where
  "readClaim item = (case item of
      JObj o1 \<Rightarrow>
        (case map_of o1 ''file'' of
           Some (JStr file) \<Rightarrow>
             if trim_by is_ws (units file) = [] \<or> length file > FILE_MAX then None
             else (case map_of o1 ''quote'' of
                 Some (JStr quote) \<Rightarrow> Some
                   \<lparr>ec_file = file, ec_startLine = claim_line (map_of o1 ''startLine''),
                    ec_endLine = claim_line (map_of o1 ''endLine''), ec_quote = take EVIDENCE_QUOTE_MAX quote,
                    ec_verified = None\<rparr>
               | _ \<Rightarrow> None)
         | _ \<Rightarrow> None)
    | _ \<Rightarrow> None)"

text \<open>The loop stops at the third claim read.\<close>

definition parseEvidenceClaims :: "json \<Rightarrow> evidence_claim list" where
  "parseEvidenceClaims raw = (case raw of
      JArr items \<Rightarrow> take EVIDENCE_MAX_ITEMS (List.map_filter readClaim items)
    | _ \<Rightarrow> [])"

type_synonym source_file = "string \<times> string"

definition claim_verified :: "source_file list \<Rightarrow> evidence_claim \<Rightarrow> bool" where
  "claim_verified files c \<longleftrightarrow>
     trim_by is_ws (units (ec_quote c)) \<noteq> [] \<and>
     (case List.find (\<lambda>f. fst f = ec_file c) files of
        None \<Rightarrow> False
      | Some f \<Rightarrow> quoteAppearsInSubmission (units (ec_quote c)) [units (snd f)])"

definition verifyEvidence :: "evidence_claim list \<Rightarrow> source_file list \<Rightarrow> evidence_claim list" where
  "verifyEvidence claims files = map (\<lambda>c. c\<lparr>ec_verified := Some (claim_verified files c)\<rparr>) claims"

section \<open>What the envelope guarantees\<close>

lemma scan_lit_append: "scan_lit p (p @ s) = Some s"
  by (induction p) simp_all

lemma delimiter_shaped_append:
  "delimiter_shaped (a @ b) = None \<Longrightarrow> delimiter_shaped b = None"
  by (induction a) (auto split: if_splits)

text \<open>A text that carries a marker line of the envelope, with any nonce, is reported.\<close>

lemma skip_ws_id: "skip_ws (c # s) = c # s" if "\<not> is_ws c"
  using that by (simp add: skip_ws_def)

lemma marker_at_end: "marker_at (units ''===END SUBMISSION '' @ s)"
proof -
  have split: "units ''===END SUBMISSION '' @ s = units ''==='' @ (units ''END'' @ (units '' '' @ (units ''SUBMISSION'' @ units '' '' @ s)))"
    by (simp add: units_def)
  have 1: "skip_ws (units ''END'' @ t) = units ''END'' @ t" for t by (simp add: units_def skip_ws_def is_ws_def)
  have 2: "scan_alt [units ''BEGIN'', units ''END''] (units ''END'' @ t) = Some t" for t
    by (simp add: scan_lit_append, simp add: units_def fold_case_def)
  have 3: "skip_ws1 (units '' '' @ units ''SUBMISSION'' @ t) = Some (units ''SUBMISSION'' @ t)" for t
    by (simp add: units_def skip_ws1_def skip_ws_def is_ws_def)
  show ?thesis unfolding split marker_at_def by (simp add: scan_lit_append 1 2 3 del: scan_alt.simps)
qed

lemma forged_end_reported:
  assumes "raw = a @ units ''===END SUBMISSION '' @ b"
  shows "se_injectionSuspected (wrapSubmission nonce raw)"
proof (rule ccontr)
  assume "\<not> ?thesis"
  then have "delimiter_shaped raw = None" by (simp add: wrapSubmission_def Let_def)
  then have "delimiter_shaped (units ''===END SUBMISSION '' @ b) = None"
    using delimiter_shaped_append assms by blast
  moreover have "units ''===END SUBMISSION '' @ b = 61 # units ''==END SUBMISSION '' @ b" by (simp add: units_def)
  ultimately show False using marker_at_end[of b] by (simp split: if_splits)
qed

text \<open>The submission is inside, byte for byte.\<close>

lemma wrapped_eq:
  "se_wrapped (wrapSubmission nonce raw) =
     nonce_line nonce @ [10] @ begin_line nonce @ [10] @ raw @ [10] @ end_line nonce"
  by (simp add: wrapSubmission_def Let_def)

lemma occurs_in_iff: "occurs_in p s \<longleftrightarrow> (\<exists>a b. s = a @ p @ b)"
proof (induction s)
  case (Cons c cs)
  show ?case
  proof
    assume "occurs_in p (c # cs)"
    then consider "starts_with p (c # cs)" | a b where "cs = a @ p @ b" using Cons by auto
    then show "\<exists>a b. c # cs = a @ p @ b"
    proof cases
      case 1
      then obtain t where "c # cs = [] @ p @ t" by (auto simp: starts_with_iff)
      then show ?thesis by blast
    next
      case 2
      then have "c # cs = (c # a) @ p @ b" by simp
      then show ?thesis by blast
    qed
  next
    assume "\<exists>a b. c # cs = a @ p @ b"
    then obtain a b where ab: "c # cs = a @ p @ b" by blast
    show "occurs_in p (c # cs)"
    proof (cases a)
      case Nil
      with ab have "starts_with p (c # cs)" by (auto simp: starts_with_iff)
      then show ?thesis by simp
    next
      case (Cons x a')
      with ab have "occurs_in p cs" using Cons.IH by auto
      then show ?thesis by simp
    qed
  qed
qed auto

text \<open>A quote that counts is non-empty and really is in one of the files, up to white space.\<close>

lemma quote_sound:
  "quoteAppearsInSubmission excerpt submissions \<Longrightarrow>
     \<exists>q s a b. q \<in> set (quote_candidates excerpt) \<and> q \<noteq> [] \<and> s \<in> set submissions \<and> flat s = a @ q @ b"
  by (auto simp: quoteAppearsInSubmission_def list_ex_iff occurs_in_iff)

lemma quote_of_no_file: "\<not> quoteAppearsInSubmission excerpt []"
  by (simp add: quoteAppearsInSubmission_def list_ex_iff)

lemma parseEvidenceClaims_bounds:
  "length (parseEvidenceClaims raw) \<le> 3 \<and>
   (\<forall>c \<in> set (parseEvidenceClaims raw). length (ec_quote c) \<le> 300 \<and> ec_verified c = None)"
proof -
  have "length (ec_quote c) \<le> 300 \<and> ec_verified c = None" if "readClaim j = Some c" for j c
    using that by (auto simp: readClaim_def EVIDENCE_QUOTE_MAX_def split: json.splits option.splits if_splits)
  then show ?thesis
    by (auto simp: parseEvidenceClaims_def EVIDENCE_MAX_ITEMS_def set_map_filter split: json.split dest!: in_set_takeD)
qed

lemma verifyEvidence_length: "length (verifyEvidence claims files) = length claims"
  by (simp add: verifyEvidence_def)

end
