(* ===== verification/Providers.thy ===== *)
theory Providers
  imports Usage Envelope
begin

text \<open>
  What a failed call of a model means and which tiers are configured:
  \<open>grading/ai-provider/provider-failure.ts\<close>, \<open>readTier\<close> of
  \<open>ai-provider/select-grading-provider.ts\<close> and \<open>buildInvestigatorTiers\<close> of
  \<open>investigator/model-pool.ts\<close>.

  An error is any JavaScript value; \<open>provider_error\<close> holds what the code reads of one. Its chain of
  \<open>cause\<close>s is a function of the depth, so a chain that points back to itself is included.
\<close>

section \<open>provider-failure.ts\<close>

datatype failure_kind = Transient | TierDead | BadOutput

record provider_error =
  pe_badOutput :: bool
  pe_chain :: "nat \<Rightarrow> string option option"
  pe_status :: "int option"
  pe_message :: utext

text \<open>
  \<open>pe_chain e d\<close> is the error \<open>d\<close> causes down: \<open>None\<close> when there is none (a falsy value), else its
  \<open>code\<close> when that is a string. \<open>pe_chain e 0\<close> is the error itself.
\<close>

definition DEAD_CODES :: "string list" where
  "DEAD_CODES = [''all_accounts_unavailable'', ''model_not_found'', ''insufficient_user_quota'', ''insufficient_quota'',
     ''access_denied'', ''invalid_api_key'', ''account_deactivated'', ''billing_hard_limit_reached'']"

definition UNREACHABLE_CODES :: "string list" where
  "UNREACHABLE_CODES = [''enotfound'', ''econnrefused'', ''eai_again'']"

text \<open>\<open>/credit balance is too low|insufficient (credit|balance|funds)/i\<close>: some suffix starts with one of the four texts.\<close>

definition credit_phrases :: "utext list" where
  "credit_phrases = map units [''credit balance is too low'', ''insufficient credit'', ''insufficient balance'',
     ''insufficient funds'']"

fun credit_message :: "utext \<Rightarrow> bool" where
  "credit_message [] = False"
| "credit_message (c # cs) = (scan_alt credit_phrases (c # cs) \<noteq> None \<or> credit_message cs)"

text \<open>The loop over \<open>cause\<close>, five layers at most.\<close>

fun unreachable_from :: "(nat \<Rightarrow> string option option) \<Rightarrow> nat \<Rightarrow> nat \<Rightarrow> bool" where
  "unreachable_from chain depth 0 = False"
| "unreachable_from chain depth (Suc fuel) =
     (case chain depth of
        None \<Rightarrow> False
      | Some (Some code) \<Rightarrow> map lower_char code \<in> set UNREACHABLE_CODES \<or> unreachable_from chain (Suc depth) fuel
      | Some None \<Rightarrow> unreachable_from chain (Suc depth) fuel)"

definition isUnreachable :: "provider_error \<Rightarrow> bool" where
  "isUnreachable e = unreachable_from (pe_chain e) 0 5"

definition error_code :: "provider_error \<Rightarrow> string" where
  "error_code e = (case pe_chain e 0 of Some (Some code) \<Rightarrow> map lower_char code | _ \<Rightarrow> [])"

definition classifyProviderFailure :: "provider_error \<Rightarrow> failure_kind" where
  "classifyProviderFailure e =
     (if pe_badOutput e then BadOutput
      else if error_code e \<noteq> [] \<and> error_code e \<in> set DEAD_CODES then TierDead
      else if isUnreachable e then TierDead
      else if pe_status e = Some 401 \<or> pe_status e = Some 403 \<or> pe_status e = Some 404 then TierDead
      else if pe_status e = Some 400 \<and> credit_message (pe_message e) then TierDead
      else Transient)"

definition badOutputError :: "utext \<Rightarrow> provider_error" where
  "badOutputError message =
     \<lparr>pe_badOutput = True, pe_chain = (\<lambda>d. if d = 0 then Some None else None), pe_status = Some 422, pe_message = message\<rparr>"

definition httpProviderError :: "int \<Rightarrow> string option \<Rightarrow> utext \<Rightarrow> provider_error" where
  "httpProviderError status code message =
     \<lparr>pe_badOutput = False,
      pe_chain = (\<lambda>d. if d = 0 then Some (if code = Some [] then None else code) else None),
      pe_status = Some status, pe_message = message\<rparr>"

definition connection_code :: "string option option \<Rightarrow> bool" where
  "connection_code layer = (case layer of Some (Some code) \<Rightarrow> map lower_char code \<in> set UNREACHABLE_CODES | _ \<Rightarrow> False)"

lemma unreachable_from_Suc:
  "unreachable_from chain depth (Suc fuel) \<longleftrightarrow>
     chain depth \<noteq> None \<and> (connection_code (chain depth) \<or> unreachable_from chain (Suc depth) fuel)"
  by (auto simp: connection_code_def split: option.splits)

lemma unreachable_from_iff:
  "unreachable_from chain depth fuel \<longleftrightarrow>
     (\<exists>d < fuel. (\<forall>j < d. chain (depth + j) \<noteq> None) \<and> connection_code (chain (depth + d)))"
proof (induction fuel arbitrary: depth)
  case (Suc fuel)
  have c: "connection_code x \<Longrightarrow> x \<noteq> None" for x by (cases x) (auto simp: connection_code_def)
  show ?case
    unfolding unreachable_from_Suc Suc Ex_less_Suc2 All_less_Suc2 by (auto dest: c)
qed simp

section \<open>The configured tiers\<close>

definition MAX_TIERS :: nat where
  "MAX_TIERS = 5"

definition DEFAULT_FALLBACK_CEILING :: rat where
  "DEFAULT_FALLBACK_CEILING = lit 0.5"

record tier_config =
  tc_index :: nat
  tc_baseUrl :: string
  tc_model :: string
  tc_apiKey :: string
  tc_ceiling :: rat

definition trimmed_env :: "env \<Rightarrow> string \<Rightarrow> string" where
  "trimmed_env env name = (case env name of None \<Rightarrow> [] | Some v \<Rightarrow> js_trim v)"

text \<open>The label of a tier is a function of its index and its model; the model keeps the two.\<close>

definition readTier :: "env \<Rightarrow> nat \<Rightarrow> tier_config option" where
  "readTier env index =
     (let prefix = ''GRADING_TIER'' @ show_nat index @ ''_'';
          baseUrl = trimmed_env env (prefix @ ''BASE_URL'');
          model = trimmed_env env (prefix @ ''MODEL'');
          apiKey = trimmed_env env (prefix @ ''API_KEY'') in
      if baseUrl = [] \<or> model = [] \<or> apiKey = [] then None
      else
        (let rawCeiling = trimmed_env env (prefix @ ''CEILING'');
             ceiling = (case (if rawCeiling = [] then None else js_number rawCeiling) of
                None \<Rightarrow> DEFAULT_FALLBACK_CEILING
              | Some x \<Rightarrow> if 0 < x \<and> x \<le> 1 then x else DEFAULT_FALLBACK_CEILING)
         in Some \<lparr>tc_index = index, tc_baseUrl = baseUrl, tc_model = model, tc_apiKey = apiKey, tc_ceiling = ceiling\<rparr>))"

record model_tier =
  mt_label :: "nat \<times> string"
  mt_model :: string
  mt_ceiling :: rat
  mt_price :: "model_price option"

definition tier_of_config :: "env \<Rightarrow> tier_config \<Rightarrow> model_tier" where
  "tier_of_config env c =
     \<lparr>mt_label = (tc_index c, tc_model c), mt_model = tc_model c, mt_ceiling = tc_ceiling c,
      mt_price = readPrice env (tc_index c)\<rparr>"

definition buildInvestigatorTiers :: "env \<Rightarrow> model_tier list" where
  "buildInvestigatorTiers env =
     (if env ''NODE_ENV'' = Some ''test'' then []
      else map (tier_of_config env) (List.map_filter (readTier env) [1..<Suc MAX_TIERS]))"

lemma readTier_ceiling:
  "readTier env index = Some c \<Longrightarrow>
     0 < tc_ceiling c \<and> tc_ceiling c \<le> 1 \<and> tc_model c \<noteq> [] \<and> tc_index c = index"
proof -
  assume "readTier env index = Some c"
  moreover have "0 < DEFAULT_FALLBACK_CEILING \<and> DEFAULT_FALLBACK_CEILING \<le> 1" by code_simp
  ultimately show ?thesis by (auto simp: readTier_def Let_def split: if_splits option.splits)
qed

lemma map_filter_indices:
  assumes "\<And>i c. f i = Some c \<Longrightarrow> g c = i"
  shows "map g (List.map_filter f is) = filter (\<lambda>i. f i \<noteq> None) is"
  using assms by (induction "is") (auto simp: List.map_filter_simps split: option.split)

lemma buildInvestigatorTiers_labels: "distinct (map mt_label (buildInvestigatorTiers env))"
proof -
  have "map tc_index (List.map_filter (readTier env) is) = filter (\<lambda>i. readTier env i \<noteq> None) is" for "is"
    by (rule map_filter_indices) (use readTier_ceiling in blast)
  then have "distinct (map tc_index (List.map_filter (readTier env) [1..<Suc MAX_TIERS]))" by simp
  then have "distinct (map (\<lambda>c. (tc_index c, tc_model c)) (List.map_filter (readTier env) [1..<Suc MAX_TIERS]))"
    by (auto simp: distinct_map inj_on_def)
  then show ?thesis by (simp add: buildInvestigatorTiers_def tier_of_config_def comp_def del: upt_Suc)
qed

end
