(* ===== verification/TierChain.thy ===== *)
theory TierChain
  imports Providers
begin

text \<open>
  The chain of grading tiers with its circuit breakers: \<open>grading/ai-provider/tier-chain.ts\<close>.

  The chain is a singleton shared by concurrent jobs, which interleave at every \<open>await\<close>. \<open>run_tiers\<close> is one
  job running alone; \<open>chain_step\<close> is the interleaving of any number of jobs, one step per piece of code
  between two awaits or smaller. Labels, names and logging are left out; a tier is its breaker.
\<close>

section \<open>One breaker\<close>

definition BREAKER_COOLDOWN_MS :: int where
  "BREAKER_COOLDOWN_MS = 60000"

record chain_tier =
  ct_openedAt :: "int option"
  ct_probing :: bool

definition closed_tier :: chain_tier where
  "closed_tier = \<lparr>ct_openedAt = None, ct_probing = False\<rparr>"

definition isBreakerOpen :: "int \<Rightarrow> chain_tier \<Rightarrow> bool \<times> chain_tier" where
  "isBreakerOpen now t =
     (case ct_openedAt t of
        None \<Rightarrow> (False, t)
      | Some opened \<Rightarrow>
          if now - opened < BREAKER_COOLDOWN_MS then (True, t)
          else if ct_probing t then (True, t)
          else (False, t\<lparr>ct_probing := True\<rparr>))"

definition openBreaker :: "int \<Rightarrow> chain_tier \<Rightarrow> chain_tier" where
  "openBreaker now t = t\<lparr>ct_openedAt := Some now, ct_probing := False\<rparr>"

text \<open>A call that succeeds: the only place where a breaker closes.\<close>

definition revive :: "chain_tier \<Rightarrow> chain_tier" where
  "revive t = (if ct_probing t then t\<lparr>ct_probing := False, ct_openedAt := None\<rparr> else t)"

text \<open>A call that fails: a probe is over, whatever the failure; a dead tier is opened.\<close>

definition release_probe :: "int \<Rightarrow> chain_tier \<Rightarrow> chain_tier" where
  "release_probe now t = (if ct_probing t then t\<lparr>ct_probing := False, ct_openedAt := Some now\<rparr> else t)"

definition after_failure :: "int \<Rightarrow> failure_kind \<Rightarrow> chain_tier \<Rightarrow> chain_tier" where
  "after_failure now kind t =
     (if kind = TierDead then openBreaker now (release_probe now t) else release_probe now t)"

section \<open>A job alone\<close>

datatype chain_error = TierFailed provider_error | NoTierAvailable | NoTierGiven

definition new_chain :: "nat \<Rightarrow> chain_error + chain_tier list" where
  "new_chain n = (if n = 0 then Inl NoTierGiven else Inr (replicate n closed_tier))"

definition runWithRetryOnBadOutput ::
  "(nat \<Rightarrow> 'w \<Rightarrow> (provider_error + 'r) \<times> 'w) \<Rightarrow> nat \<Rightarrow> 'w \<Rightarrow> (provider_error + 'r) \<times> 'w" where
  "runWithRetryOnBadOutput call i w =
     (case call i w of
        (Inr r, w1) \<Rightarrow> (Inr r, w1)
      | (Inl e, w1) \<Rightarrow> if classifyProviderFailure e \<noteq> BadOutput then (Inl e, w1) else call i w1)"

fun run_tiers ::
  "int \<Rightarrow> (nat \<Rightarrow> 'w \<Rightarrow> (provider_error + 'r) \<times> 'w) \<Rightarrow> nat \<Rightarrow> chain_tier list \<Rightarrow> provider_error option \<Rightarrow> 'w \<Rightarrow>
   (chain_error + 'r) \<times> chain_tier list \<times> 'w" where
  "run_tiers now call i [] lastError w =
     (Inl (case lastError of Some e \<Rightarrow> TierFailed e | None \<Rightarrow> NoTierAvailable), [], w)"
| "run_tiers now call i (t # ts) lastError w =
     (let b = isBreakerOpen now t in
      if fst b then
        (let r = run_tiers now call (Suc i) ts lastError w in (fst r, snd b # fst (snd r), snd (snd r)))
      else
        (case runWithRetryOnBadOutput call i w of
           (Inr res, w1) \<Rightarrow> (Inr res, revive (snd b) # ts, w1)
         | (Inl e, w1) \<Rightarrow>
             (let kind = classifyProviderFailure e; t1 = after_failure now kind (snd b) in
              if kind = Transient then (Inl (TierFailed e), t1 # ts, w1)
              else
                (let r = run_tiers now call (Suc i) ts (Some e) w1
                 in (fst r, t1 # fst (snd r), snd (snd r))))))"

definition chain_run ::
  "int \<Rightarrow> (nat \<Rightarrow> 'w \<Rightarrow> (provider_error + 'r) \<times> 'w) \<Rightarrow> chain_tier list \<Rightarrow> 'w \<Rightarrow>
   (chain_error + 'r) \<times> chain_tier list \<times> 'w" where
  "chain_run now call ts w = run_tiers now call 0 ts None w"

section \<open>Jobs interleaved\<close>

text \<open>Where a job is: about to look at a tier, waiting for its call (and whether this is the retry), or done.\<close>

datatype job_pos = Visiting nat | Calling nat bool | Finished

record job =
  jb_now :: int
  jb_pos :: job_pos

record chain =
  ch_tiers :: "chain_tier list"
  ch_jobs :: "job list"

definition move :: "nat \<Rightarrow> job_pos \<Rightarrow> chain \<Rightarrow> chain" where
  "move j p c = c\<lparr>ch_jobs := (ch_jobs c)[j := (ch_jobs c ! j)\<lparr>jb_pos := p\<rparr>]\<rparr>"

definition set_tier :: "nat \<Rightarrow> chain_tier \<Rightarrow> chain \<Rightarrow> chain" where
  "set_tier i t c = c\<lparr>ch_tiers := (ch_tiers c)[i := t]\<rparr>"

definition job_at :: "chain \<Rightarrow> nat \<Rightarrow> job_pos \<Rightarrow> bool" where
  "job_at c j p \<longleftrightarrow> j < length (ch_jobs c) \<and> jb_pos (ch_jobs c ! j) = p"

definition now_of :: "chain \<Rightarrow> nat \<Rightarrow> int" where
  "now_of c j = jb_now (ch_jobs c ! j)"

inductive chain_step :: "chain \<Rightarrow> chain \<Rightarrow> bool" where
  start: "chain_step c (c\<lparr>ch_jobs := ch_jobs c @ [\<lparr>jb_now = now, jb_pos = Visiting 0\<rparr>]\<rparr>)"
| skip: "job_at c j (Visiting i) \<Longrightarrow> i < length (ch_tiers c) \<Longrightarrow> isBreakerOpen (now_of c j) (ch_tiers c ! i) = (True, t) \<Longrightarrow>
     chain_step c (move j (Visiting (Suc i)) (set_tier i t c))"
| call: "job_at c j (Visiting i) \<Longrightarrow> i < length (ch_tiers c) \<Longrightarrow> isBreakerOpen (now_of c j) (ch_tiers c ! i) = (False, t) \<Longrightarrow>
     chain_step c (move j (Calling i False) (set_tier i t c))"
| retry: "job_at c j (Calling i False) \<Longrightarrow> chain_step c (move j (Calling i True) c)"
| succeed: "job_at c j (Calling i again) \<Longrightarrow> i < length (ch_tiers c) \<Longrightarrow>
     chain_step c (move j Finished (set_tier i (revive (ch_tiers c ! i)) c))"
| throw: "job_at c j (Calling i again) \<Longrightarrow> i < length (ch_tiers c) \<Longrightarrow>
     chain_step c (move j Finished (set_tier i (after_failure (now_of c j) Transient (ch_tiers c ! i)) c))"
| fall: "job_at c j (Calling i again) \<Longrightarrow> i < length (ch_tiers c) \<Longrightarrow> kind = TierDead \<or> (kind = BadOutput \<and> again) \<Longrightarrow>
     chain_step c (move j (Visiting (Suc i)) (set_tier i (after_failure (now_of c j) kind (ch_tiers c ! i)) c))"
| exhausted: "job_at c j (Visiting i) \<Longrightarrow> i = length (ch_tiers c) \<Longrightarrow> chain_step c (move j Finished c)"

inductive reachable :: "nat \<Rightarrow> chain \<Rightarrow> bool" for n where
  new: "new_chain n = Inr ts \<Longrightarrow> reachable n \<lparr>ch_tiers = ts, ch_jobs = []\<rparr>"
| step: "reachable n c \<Longrightarrow> chain_step c c' \<Longrightarrow> reachable n c'"

section \<open>Breakers\<close>

definition tier_ok :: "chain_tier \<Rightarrow> bool" where
  "tier_ok t \<longleftrightarrow> (ct_probing t \<longrightarrow> ct_openedAt t \<noteq> None)"

lemma tier_ok_closed: "tier_ok closed_tier"
  by (simp add: tier_ok_def closed_tier_def)

lemma tier_ok_isBreakerOpen: "tier_ok t \<Longrightarrow> tier_ok (snd (isBreakerOpen now t))"
  by (auto simp: tier_ok_def isBreakerOpen_def split: option.split)

lemma tier_ok_revive: "tier_ok t \<Longrightarrow> tier_ok (revive t)"
  by (simp add: tier_ok_def revive_def)

lemma tier_ok_after_failure: "tier_ok t \<Longrightarrow> tier_ok (after_failure now kind t)"
  by (simp add: tier_ok_def after_failure_def openBreaker_def release_probe_def)

lemma not_probing_after [simp]: "\<not> ct_probing (revive t)" "\<not> ct_probing (after_failure now kind t)"
  by (simp_all add: revive_def after_failure_def openBreaker_def release_probe_def)

lemma isBreakerOpen_True: "isBreakerOpen now t = (True, t') \<Longrightarrow> t' = t"
  by (auto simp: isBreakerOpen_def split: option.splits if_splits)

lemma isBreakerOpen_False:
  "isBreakerOpen now t = (False, t') \<longleftrightarrow>
     (case ct_openedAt t of None \<Rightarrow> t' = t
      | Some opened \<Rightarrow> 60000 \<le> now - opened \<and> \<not> ct_probing t \<and> t' = t\<lparr>ct_probing := True\<rparr>)"
  by (auto simp: isBreakerOpen_def BREAKER_COOLDOWN_MS_def split: option.split)

section \<open>Interleaved jobs\<close>

text \<open>The jobs waiting for a call of tier \<open>i\<close>.\<close>

definition callers :: "chain \<Rightarrow> nat \<Rightarrow> nat set" where
  "callers c i = {j. \<exists>again. job_at c j (Calling i again)}"

lemma job_at_move: "job_at (move j p c) k q \<longleftrightarrow> (if k = j then j < length (ch_jobs c) \<and> p = q else job_at c k q)"
  by (auto simp: job_at_def move_def nth_list_update)

lemma job_at_set_tier [simp]: "job_at (set_tier i t c) k q = job_at c k q"
  by (simp add: job_at_def set_tier_def)

lemma tiers_move [simp]: "ch_tiers (move j p c) = ch_tiers c"
  by (simp add: move_def)

lemma tiers_set [simp]: "ch_tiers (set_tier i t c) = (ch_tiers c)[i := t]"
  by (simp add: set_tier_def)

lemma move_set_tier: "move j p (set_tier i t c) = set_tier i t (move j p c)"
  by (simp add: move_def set_tier_def)

lemma callers_move:
  "job_at c j q \<Longrightarrow> callers (move j p c) i =
     (case p of Calling k _ \<Rightarrow> if k = i then insert j (callers c i) else callers c i - {j} | _ \<Rightarrow> callers c i - {j})"
  by (auto simp: callers_def job_at_move split: job_pos.split) (auto simp: job_at_def)

lemma callers_set_tier [simp]: "callers (set_tier i t c) k = callers c k"
  by (simp add: callers_def)

lemma callers_start:
  "callers (c\<lparr>ch_jobs := ch_jobs c @ [\<lparr>jb_now = n, jb_pos = Visiting 0\<rparr>]\<rparr>) i = callers c i"
  by (auto simp: callers_def job_at_def nth_append less_Suc_eq)

text \<open>A probe is a call in flight.\<close>

definition probes_fly :: "chain \<Rightarrow> bool" where
  "probes_fly c \<longleftrightarrow>
     (\<forall>i < length (ch_tiers c). tier_ok (ch_tiers c ! i) \<and> (ct_probing (ch_tiers c ! i) \<longrightarrow> callers c i \<noteq> {}))"

lemma chain_step_length: "chain_step c c' \<Longrightarrow> length (ch_tiers c') = length (ch_tiers c)"
  by (induction rule: chain_step.induct) simp_all

lemma job_at_inj: "job_at c j p \<Longrightarrow> job_at c j q \<Longrightarrow> p = q"
  by (simp add: job_at_def)

lemma callers_other: "job_at c j (Calling i again) \<Longrightarrow> k \<noteq> i \<Longrightarrow> j \<notin> callers c k"
  by (auto simp: callers_def dest: job_at_inj)

lemma callers_visiting: "job_at c j (Visiting i) \<Longrightarrow> j \<notin> callers c k"
  by (auto simp: callers_def dest: job_at_inj)

lemma callers_leave:
  "job_at c j (Calling i again) \<Longrightarrow> p = Finished \<or> p = Visiting v \<Longrightarrow>
   callers (move j p c) k = (if k = i then callers c i - {j} else callers c k)"
  using callers_other[of c j i again k] by (auto simp: callers_move)

lemma probes_fly_step:
  assumes "chain_step c c'" and "probes_fly c"
  shows "probes_fly c'"
  using assms
proof (induction rule: chain_step.induct)
  case (start c now)
  then show ?case by (simp add: probes_fly_def callers_start)
next
  case (skip c j i t)
  then have "t = ch_tiers c ! i" using isBreakerOpen_True by blast
  with skip show ?case by (auto simp: probes_fly_def callers_move callers_visiting)
next
  case (call c j i t)
  have "tier_ok t" using tier_ok_isBreakerOpen[of "ch_tiers c ! i" "now_of c j"] call by (simp add: probes_fly_def)
  with call show ?case
    by (auto simp: probes_fly_def callers_move callers_visiting nth_list_update)
next
  case (retry c j i)
  then show ?case by (auto simp: probes_fly_def callers_move callers_other)
next
  case (succeed c j i again)
  then show ?case
    by (auto simp: probes_fly_def callers_leave nth_list_update tier_ok_revive)
next
  case (throw c j i again)
  then show ?case
    by (auto simp: probes_fly_def callers_leave nth_list_update tier_ok_after_failure)
next
  case (fall c j i again kind)
  then show ?case
    by (auto simp: probes_fly_def callers_leave nth_list_update tier_ok_after_failure)
next
  case (exhausted c j i)
  then show ?case by (auto simp: probes_fly_def callers_move callers_visiting)
qed

lemma reachable_probes_fly: "reachable n c \<Longrightarrow> probes_fly c \<and> length (ch_tiers c) = n"
proof (induction rule: reachable.induct)
  case (new ts)
  then show ?case
    by (auto simp: probes_fly_def new_chain_def closed_tier_def tier_ok_def split: if_splits)
next
  case (step c c')
  then show ?case using probes_fly_step chain_step_length by metis
qed

section \<open>A job alone is a path of interleaved steps\<close>

definition with_tiers :: "chain_tier list \<Rightarrow> chain \<Rightarrow> chain" where
  "with_tiers ts c = c\<lparr>ch_tiers := ts\<rparr>"

lemma now_of_move [simp]: "now_of (move j p c) j = now_of c j"
  by (cases "j < length (ch_jobs c)") (simp_all add: now_of_def move_def list_update_beyond)

lemma now_of_set_tier [simp]: "now_of (set_tier i t c) j = now_of c j"
  by (simp add: now_of_def set_tier_def)

lemma move_move [simp]: "move j p (move j q c) = move j p c"
  by (cases "j < length (ch_jobs c)") (simp_all add: move_def list_update_beyond)

lemma with_tiers_same: "with_tiers (ch_tiers c) c = c"
  by (simp add: with_tiers_def)

lemma set_tier_with: "ch_tiers c = ds @ t # ts \<Longrightarrow> set_tier (length ds) x c = with_tiers (ds @ x # ts) c"
  by (simp add: set_tier_def with_tiers_def)

lemma move_with [simp]: "move j p (with_tiers ts c) = with_tiers ts (move j p c)"
  by (simp add: move_def with_tiers_def)

lemma with_with [simp]: "with_tiers ts (with_tiers us c) = with_tiers ts c"
  by (simp add: with_tiers_def)

lemma tiers_with [simp]: "ch_tiers (with_tiers ts c) = ts"
  by (simp add: with_tiers_def)

lemma job_at_with [simp]: "job_at (with_tiers ts c) j p = job_at c j p"
  by (simp add: job_at_def with_tiers_def)

lemma now_of_with [simp]: "now_of (with_tiers ts c) j = now_of c j"
  by (simp add: now_of_def with_tiers_def)

lemma set_tier_at: "ch_tiers c = ds @ t # ts \<Longrightarrow> i = length ds \<Longrightarrow> set_tier i x c = with_tiers (ds @ x # ts) c"
  by (simp add: set_tier_with)

text \<open>The retried call: from \<open>Calling i False\<close> to the outcome of \<open>runWithRetryOnBadOutput\<close>.\<close>

lemma retry_path:
  assumes "job_at c j (Calling i False)" and "runWithRetryOnBadOutput call i w = (out, w1)"
  shows "\<exists>again. chain_step\<^sup>*\<^sup>* c (move j (Calling i again) c) \<and> job_at (move j (Calling i again) c) j (Calling i again) \<and>
     (case out of Inl e \<Rightarrow> classifyProviderFailure e = BadOutput \<longrightarrow> again | Inr r \<Rightarrow> True)"
proof -
  have len: "j < length (ch_jobs c)" using assms(1) by (simp add: job_at_def)
  have "(ch_jobs c ! j)\<lparr>jb_pos := Calling i False\<rparr> = ch_jobs c ! j"
    using assms(1) by (cases "ch_jobs c ! j") (simp add: job_at_def)
  then have same: "move j (Calling i False) c = c" by (simp add: move_def)
  have at: "job_at (move j (Calling i b) c) j (Calling i b)" for b using len by (simp add: job_at_move)
  show ?thesis
  proof (cases "\<exists>e w2. call i w = (Inl e, w2) \<and> classifyProviderFailure e = BadOutput")
    case True
    show ?thesis
      by (rule exI[of _ True]) (use at chain_step.retry[OF assms(1)] in \<open>auto split: sum.split\<close>)
  next
    case False
    then show ?thesis
      by (intro exI[of _ False]) (use at same assms in
          \<open>auto simp: runWithRetryOnBadOutput_def split: prod.splits sum.splits if_splits\<close>)
  qed
qed

lemma run_tiers_path:
  assumes "run_tiers now call (length ds) ts lastError w = (r, ts', w')"
    and "job_at c j (Visiting (length ds))" and "now_of c j = now" and "ch_tiers c = ds @ ts"
  shows "chain_step\<^sup>*\<^sup>* c (with_tiers (ds @ ts') (move j Finished c))"
  using assms
proof (induction ts arbitrary: ds lastError w c r ts' w')
  case Nil
  then have "chain_step c (move j Finished c)" by (intro chain_step.exhausted) simp_all
  moreover have "with_tiers (ds @ ts') (move j Finished c) = move j Finished c"
    using Nil with_tiers_same[of "move j Finished c"] by simp
  ultimately show ?case by simp
next
  case (Cons t ts)
  let ?i = "length ds"
  obtain b t0 where o: "isBreakerOpen now t = (b, t0)" by fastforce
  have nth: "ch_tiers c ! ?i = t" and lt: "?i < length (ch_tiers c)" using Cons.prems by simp_all
  have o': "isBreakerOpen (now_of c j) (ch_tiers c ! ?i) = (b, t0)" using o nth Cons.prems by simp
  have jl: "j < length (ch_jobs c)" using Cons.prems by (simp add: job_at_def)
  show ?case
  proof (cases b)
    case True
    let ?c1 = "with_tiers (ds @ t0 # ts) (move j (Visiting (Suc ?i)) c)"
    have st: "chain_step c ?c1"
      using chain_step.skip[OF Cons.prems(2) lt, of t0] o' True Cons.prems(4) by (simp add: set_tier_with)
    obtain r2 ts2 w2 where rec: "run_tiers now call (Suc ?i) ts lastError w = (r2, ts2, w2)" by (metis prod_cases3)
    then have ts': "ts' = t0 # ts2" using Cons.prems(1) o True by (simp add: Let_def)
    have "chain_step\<^sup>*\<^sup>* ?c1 (with_tiers ((ds @ [t0]) @ ts2) (move j Finished ?c1))"
      by (rule Cons.IH) (use rec Cons.prems jl in \<open>simp_all add: job_at_move\<close>)
    with st show ?thesis by (simp add: ts' converse_rtranclp_into_rtranclp)
  next
    case False
    let ?c1 = "with_tiers (ds @ t0 # ts) (move j (Calling ?i False) c)"
    have st: "chain_step c ?c1"
      using chain_step.call[OF Cons.prems(2) lt, of t0] o' False Cons.prems(4) by (simp add: set_tier_with)
    have at1: "job_at ?c1 j (Calling ?i False)" using jl by (simp add: job_at_move)
    obtain out w1 where ro: "runWithRetryOnBadOutput call ?i w = (out, w1)" by fastforce
    obtain again where path: "chain_step\<^sup>*\<^sup>* ?c1 (move j (Calling ?i again) ?c1)"
      and at2: "job_at (move j (Calling ?i again) ?c1) j (Calling ?i again)"
      and bad: "case out of Inl e \<Rightarrow> classifyProviderFailure e = BadOutput \<longrightarrow> again | Inr r \<Rightarrow> True"
      using retry_path[OF at1 ro] by blast
    let ?c2 = "with_tiers (ds @ t0 # ts) (move j (Calling ?i again) c)"
    have c2: "move j (Calling ?i again) ?c1 = ?c2" by simp
    have reach: "chain_step\<^sup>*\<^sup>* c ?c2" using st path c2 by (simp add: converse_rtranclp_into_rtranclp)
    have lt2: "?i < length (ch_tiers ?c2)" and nth2: "ch_tiers ?c2 ! ?i = t0" by simp_all
    have at3: "job_at ?c2 j (Calling ?i again)" using at2 c2 by simp
    have now2: "now_of ?c2 j = now" using Cons.prems(3) by simp
    have put: "set_tier ?i x ?c2 = with_tiers (ds @ x # ts) (move j (Calling ?i again) c)" for x
      using set_tier_with[of ?c2 ds t0 ts x] by simp
    show ?thesis
    proof (cases out)
      case (Inr res)
      then have ts': "ts' = revive t0 # ts" using Cons.prems(1) o False ro by (simp add: Let_def)
      have "chain_step ?c2 (with_tiers (ds @ ts') (move j Finished c))"
        using chain_step.succeed[OF at3 lt2] by (simp add: nth2 put ts')
      with reach show ?thesis by simp
    next
      case (Inl e)
      let ?k = "classifyProviderFailure e" and ?t1 = "after_failure now (classifyProviderFailure e) t0"
      show ?thesis
      proof (cases "?k = Transient")
        case True
        then have ts': "ts' = ?t1 # ts" using Cons.prems(1) o False ro Inl by (simp add: Let_def)
        have "chain_step ?c2 (with_tiers (ds @ ts') (move j Finished c))"
          using chain_step.throw[OF at3 lt2] True now2 by (simp add: nth2 put ts')
        with reach show ?thesis by simp
      next
        case nt: False
        let ?c3 = "with_tiers (ds @ ?t1 # ts) (move j (Visiting (Suc ?i)) c)"
        have k: "?k = TierDead \<or> (?k = BadOutput \<and> again)" using nt bad Inl by (cases ?k) auto
        have s3: "chain_step ?c2 ?c3" using chain_step.fall[OF at3 lt2 k] now2 by (simp add: nth2 put)
        obtain r2 ts2 w2 where rec: "run_tiers now call (Suc ?i) ts (Some e) w1 = (r2, ts2, w2)" by (metis prod_cases3)
        then have ts': "ts' = ?t1 # ts2" using Cons.prems(1) o False ro Inl nt by (simp add: Let_def)
        have "chain_step\<^sup>*\<^sup>* ?c3 (with_tiers ((ds @ [?t1]) @ ts2) (move j Finished ?c3))"
          by (rule Cons.IH) (use rec Cons.prems jl in \<open>simp_all add: job_at_move\<close>)
        then have "chain_step\<^sup>*\<^sup>* ?c3 (with_tiers (ds @ ts') (move j Finished c))" by (simp add: ts')
        with reach s3 show ?thesis by (meson rtranclp.rtrancl_into_rtrancl rtranclp_trans)
      qed
    qed
  qed
qed

section \<open>Properties\<close>

text \<open>A concrete history of one tier: jobs 0 and 1 call it, job 0 finds it dead.\<close>

definition job_of :: "int \<Rightarrow> job_pos \<Rightarrow> job" where
  "job_of now p = \<lparr>jb_now = now, jb_pos = p\<rparr>"

definition one_tier :: "int option \<Rightarrow> bool \<Rightarrow> job list \<Rightarrow> chain" where
  "one_tier opened probing jobs = \<lparr>ch_tiers = [\<lparr>ct_openedAt = opened, ct_probing = probing\<rparr>], ch_jobs = jobs\<rparr>"

lemmas one_tier_defs = one_tier_def job_of_def job_at_def now_of_def move_def set_tier_def isBreakerOpen_def
  BREAKER_COOLDOWN_MS_def after_failure_def release_probe_def openBreaker_def revive_def

lemma one_tier_new: "reachable 1 (one_tier None False [])"
  using reachable.new[of 1 "[closed_tier]"] by (simp add: new_chain_def one_tier_def closed_tier_def)

lemma one_tier_start: "reachable 1 (one_tier o1 p js) \<Longrightarrow> reachable 1 (one_tier o1 p (js @ [job_of now (Visiting 0)]))"
  by (drule reachable.step[OF _ chain_step.start[of _ now]]) (simp add: one_tier_def job_of_def)

lemma one_tier_step:
  "reachable 1 c \<Longrightarrow> chain_step c c1 \<Longrightarrow> c1 = c2 \<Longrightarrow> reachable 1 c2"
  using reachable.step by blast

lemma history_two_calls: "reachable 1 (one_tier None False [job_of 0 (Calling 0 False), job_of 0 (Calling 0 False)])"
proof -
  have "reachable 1 (one_tier None False [job_of 0 (Visiting 0)])" using one_tier_start[OF one_tier_new, of 0] by simp
  then have "reachable 1 (one_tier None False [job_of 0 (Calling 0 False)])"
    by (rule one_tier_step[OF _ chain_step.call[where j = 0 and i = 0]]) (simp_all add: one_tier_defs)
  then have "reachable 1 (one_tier None False [job_of 0 (Calling 0 False), job_of 0 (Visiting 0)])"
    using one_tier_start by fastforce
  then show ?thesis
    by (rule one_tier_step[OF _ chain_step.call[where j = 1 and i = 0]]) (simp_all add: one_tier_defs)
qed

lemma history_opened: "reachable 1 (one_tier (Some 0) False [job_of 0 (Visiting 1), job_of 0 (Calling 0 False)])"
  by (rule one_tier_step[OF history_two_calls chain_step.fall[where j = 0 and i = 0 and kind = TierDead and again = False]])
    (simp_all add: one_tier_defs)

lemma history_idle: "reachable 1 (one_tier (Some 0) False [job_of 0 (Visiting 1), job_of 0 Finished])"
  by (rule one_tier_step[OF history_opened chain_step.throw[where j = 1 and i = 0 and again = False]]) (simp_all add: one_tier_defs)

text \<open>
  In every interleaving of jobs, a tier that is being probed has a call in flight, and only an open
  breaker is ever probed.
\<close>

theorem probe_is_call:
  assumes "reachable n c" and "i < n" and "ct_probing (ch_tiers c ! i)"
  shows "callers c i \<noteq> {} \<and> ct_openedAt (ch_tiers c ! i) \<noteq> None"
  using reachable_probes_fly[OF assms(1)] assms(2,3) by (auto simp: probes_fly_def tier_ok_def)

lemma history_probing:
  "reachable 1 (one_tier (Some 0) True [job_of 0 (Visiting 1), job_of 0 (Calling 0 False), job_of 60000 (Calling 0 False)])"
proof -
  have "reachable 1 (one_tier (Some 0) False [job_of 0 (Visiting 1), job_of 0 (Calling 0 False), job_of 60000 (Visiting 0)])"
    using one_tier_start[OF history_opened] by simp
  then show ?thesis
    by (rule one_tier_step[OF _ chain_step.call[where j = 2 and i = 0]]) (simp_all add: one_tier_defs)
qed

theorem probe_is_call_witness:
  "callers (one_tier (Some 0) True [job_of 0 (Visiting 1), job_of 0 (Calling 0 False), job_of 60000 (Calling 0 False)]) 0 \<noteq> {}
   \<and> ct_openedAt (ch_tiers (one_tier (Some 0) True [job_of 0 (Visiting 1), job_of 0 (Calling 0 False), job_of 60000 (Calling 0 False)]) ! 0) \<noteq> None"
  by (rule probe_is_call[OF history_probing]) (simp_all add: one_tier_def)

text \<open>
  C33. No breaker stays shut for ever: in every interleaving, once no call of a tier is in flight and its
  cooldown has passed, the next job gets to call it.
\<close>

theorem breaker_never_stuck:
  assumes "reachable n c" and "i < n" and "callers c i = {}"
    and "\<And>opened. ct_openedAt (ch_tiers c ! i) = Some opened \<Longrightarrow> 60000 \<le> now - opened"
  shows "\<not> fst (isBreakerOpen now (ch_tiers c ! i))"
  using reachable_probes_fly[OF assms(1)] assms(2-4)
  by (auto simp: probes_fly_def isBreakerOpen_def BREAKER_COOLDOWN_MS_def split: option.split)

theorem breaker_never_stuck_witness:
  "\<not> fst (isBreakerOpen 60000 (ch_tiers (one_tier (Some 0) False [job_of 0 (Visiting 1), job_of 0 Finished]) ! 0))"
  by (rule breaker_never_stuck[OF history_idle])
    (auto simp: one_tier_def callers_def job_at_def job_of_def nth_Cons split: nat.splits)

text \<open>
  A job alone, as the code reads from top to bottom, is one path of the interleaved steps: it ends with
  the breakers \<open>chain_run\<close> computes, and nothing else in the chain has changed.
\<close>

theorem chain_run_refines:
  assumes "chain_run now call (ch_tiers c) w = (r, ts', w')" and "job_at c j (Visiting 0)" and "now_of c j = now"
  shows "chain_step\<^sup>*\<^sup>* c (with_tiers ts' (move j Finished c))"
  using run_tiers_path[of now call "[]" "ch_tiers c" None w r ts' w' c j] assms by (simp add: chain_run_def)

definition dead_then_good :: "nat \<Rightarrow> nat \<Rightarrow> (provider_error + nat) \<times> nat" where
  "dead_then_good i w = (if i = 0 then Inl (httpProviderError 403 None []) else Inr w, Suc w)"

definition two_closed :: chain where
  "two_closed = \<lparr>ch_tiers = [closed_tier, closed_tier], ch_jobs = [job_of 5 (Visiting 0)]\<rparr>"

theorem chain_run_refines_witness:
  "chain_step\<^sup>*\<^sup>* two_closed (with_tiers [openBreaker 5 closed_tier, closed_tier] (move 0 Finished two_closed))"
proof -
  have "classifyProviderFailure (httpProviderError 403 None []) = TierDead" by code_simp
  then have "chain_run 5 dead_then_good (ch_tiers two_closed) 0 = (Inr 1, [openBreaker 5 closed_tier, closed_tier], 2)"
    by (simp add: chain_run_def dead_then_good_def two_closed_def closed_tier_def isBreakerOpen_def Let_def
        runWithRetryOnBadOutput_def after_failure_def release_probe_def revive_def)
  then show ?thesis by (rule chain_run_refines) (simp_all add: two_closed_def job_at_def now_of_def job_of_def)
qed

text \<open>
  The floor is never absent: when the last tier always answers and its breaker is closed, a job on the
  chain gets an answer whatever the tiers above do, as long as none of them fails with a transient error.
\<close>

theorem floor_always_answers:
  assumes "\<And>v. \<exists>res v'. call (length ts) v = (Inr res, v')"
    and "\<And>i v e v'. i < length ts \<Longrightarrow> call i v = (Inl e, v') \<Longrightarrow> classifyProviderFailure e \<noteq> Transient"
  shows "\<exists>res. fst (chain_run now call (ts @ [closed_tier]) w) = Inr res"
proof -
  have "\<exists>res. fst (run_tiers now call i (us @ [closed_tier]) lastError w) = Inr res"
    if "i + length us = length ts" for i us lastError w
    using that
  proof (induction us arbitrary: i lastError w)
    case Nil
    obtain res v' where "call (length ts) w = (Inr res, v')" using assms(1) by blast
    with Nil show ?case by (simp add: isBreakerOpen_def closed_tier_def runWithRetryOnBadOutput_def Let_def)
  next
    case (Cons u us)
    then have rec: "\<exists>res. fst (run_tiers now call (Suc i) (us @ [closed_tier]) l v) = Inr res" for l v by simp
    obtain out v' where o: "runWithRetryOnBadOutput call i w = (out, v')" by fastforce
    have "classifyProviderFailure e \<noteq> Transient" if "out = Inl e" for e
      using o that assms(2)[of i] Cons.prems
      by (auto simp: runWithRetryOnBadOutput_def split: prod.splits sum.splits if_splits)
    with o rec show ?case by (auto simp: Let_def split: sum.split)
  qed
  from this[of 0 ts] show ?thesis by (simp add: chain_run_def)
qed

theorem floor_always_answers_witness:
  "\<exists>res. fst (chain_run 5 dead_then_good ([closed_tier] @ [closed_tier]) 0) = Inr res"
proof (rule floor_always_answers)
  have "classifyProviderFailure (httpProviderError 403 None []) = TierDead" by code_simp
  then show "i < length [closed_tier] \<Longrightarrow> dead_then_good i v = (Inl e, v') \<Longrightarrow> classifyProviderFailure e \<noteq> Transient"
    for i v e v' by (auto simp: dead_then_good_def)
qed (simp add: dead_then_good_def)

text \<open>
  C34. Two calls of an open tier at a time: job 2 probes the tier after its cooldown; job 1, whose call was in
  flight when the breaker opened, fails and so ends the probe of job 2; job 3 then starts a second probe.
  The flag does not keep a second probe out when older calls are still in flight.
\<close>

theorem two_probes_reachable:
  "\<exists>c. reachable 1 c \<and> ct_openedAt (ch_tiers c ! 0) = Some 0 \<and> {2, 3} \<subseteq> callers c 0 \<and>
     60000 \<le> now_of c 2 \<and> 60000 \<le> now_of c 3"
proof -
  have "reachable 1 (one_tier (Some 0) False [job_of 0 (Visiting 1), job_of 0 Finished, job_of 60000 (Calling 0 False)])"
    by (rule one_tier_step[OF history_probing chain_step.throw[where j = 1 and i = 0 and again = False]]) (simp_all add: one_tier_defs)
  then have "reachable 1 (one_tier (Some 0) False [job_of 0 (Visiting 1), job_of 0 Finished,
      job_of 60000 (Calling 0 False), job_of 60000 (Visiting 0)])"
    using one_tier_start by fastforce
  then have "reachable 1 (one_tier (Some 0) True [job_of 0 (Visiting 1), job_of 0 Finished,
      job_of 60000 (Calling 0 False), job_of 60000 (Calling 0 False)])"
    by (rule one_tier_step[OF _ chain_step.call[where j = 3 and i = 0]]) (simp_all add: one_tier_defs)
  then show ?thesis
    by (intro exI conjI) (auto simp: one_tier_def callers_def job_at_def job_of_def now_of_def less_Suc_eq)
qed

end
