(* ===== verification/Workspace.thy ===== *)
theory Workspace
  imports Hundredths Investigation_Types
begin

text \<open>
  The virtual workspace the agent reads: \<open>grading/investigator/workspace.ts\<close>. Paths are normalised before
  every read, so the agent reaches exactly the three system files and the files of the submission under
  \<open>bai-nop/\<close>. The rendering of the system files to Markdown is given by the argument \<open>sys\<close> of \<open>fromContext\<close>.
\<close>

datatype file_source = FromSubmission | FromSystem

record workspace_file =
  wf_path :: string
  wf_content :: string
  wf_source :: file_source

record workspace_entry =
  we_path :: string
  we_bytes :: nat
  we_source :: file_source

section \<open>Paths\<close>

definition drop_dot_slash :: "string \<Rightarrow> string" where
  "drop_dot_slash p = (if starts_with ''./'' p then drop 2 p else p)"

definition is_letter :: "char \<Rightarrow> bool" where
  "is_letter c \<longleftrightarrow> (let n = (of_char c :: nat) in (65 \<le> n \<and> n \<le> 90) \<or> (97 \<le> n \<and> n \<le> 122))"

definition has_drive :: "string \<Rightarrow> bool" where
  "has_drive p \<longleftrightarrow> (case p of c # d # _ \<Rightarrow> is_letter c \<and> d = CHR '':'' | _ \<Rightarrow> False)"

definition backslash :: char where
  "backslash = CHR 0x5C"

definition normalizePath :: "string \<Rightarrow> string option" where
  "normalizePath raw =
     (let p = drop_dot_slash (map (\<lambda>c. if c = backslash then CHR ''/'' else c) (js_trim raw)) in
      if p = [] \<or> starts_with ''/'' p \<or> has_drive p then None
      else (let parts = split_on CHR ''/'' p in
            if list_ex (\<lambda>s. s = [] \<or> s = ''.'' \<or> s = ''..'') parts then None
            else Some (join_with ''/'' parts)))"

section \<open>The workspace\<close>

text \<open>\<open>new Map(files.map((f) => [f.path, f]))\<close>, iterated in insertion order.\<close>

type_synonym workspace = "(string \<times> workspace_file) list"

definition new_workspace :: "workspace_file list \<Rightarrow> workspace" where
  "new_workspace files = fold (\<lambda>f. AList.update (wf_path f) f) files []"

record system_files =
  sf_statement :: string
  sf_rules :: string
  sf_groups :: string

definition fromContext :: "system_files \<Rightarrow> (string \<times> string) list \<Rightarrow> workspace" where
  "fromContext sys submission = new_workspace
     ([\<lparr>wf_path = ''de-bai.md'', wf_content = sf_statement sys, wf_source = FromSystem\<rparr>,
       \<lparr>wf_path = ''bang-loi.md'', wf_content = sf_rules sys, wf_source = FromSystem\<rparr>,
       \<lparr>wf_path = ''goi-test.md'', wf_content = sf_groups sys, wf_source = FromSystem\<rparr>] @
      map (\<lambda>(path, content). \<lparr>wf_path = ''bai-nop/'' @ path, wf_content = content, wf_source = FromSubmission\<rparr>) submission)"

definition list_files :: "(string \<Rightarrow> nat) \<Rightarrow> workspace \<Rightarrow> workspace_entry list" where
  "list_files byteLength w =
     js_sort (\<lambda>a b. str_le (we_path a) (we_path b))
       (map (\<lambda>(_, f). \<lparr>we_path = wf_path f, we_bytes = byteLength (wf_content f), we_source = wf_source f\<rparr>) w)"

definition read_file :: "workspace \<Rightarrow> string \<Rightarrow> workspace_file option" where
  "read_file w raw = (case normalizePath raw of None \<Rightarrow> None | Some p \<Rightarrow> map_of w p)"

text \<open>\<open>renderTestGroups\<close> counts the cases of each group, in order of first appearance.\<close>

definition group_counts :: "'a test_case_scheme list \<Rightarrow> (string \<times> nat) list" where
  "group_counts cases =
     fold (\<lambda>c m. AList.update (tk_group c) ((case map_of m (tk_group c) of None \<Rightarrow> 0 | Some n \<Rightarrow> n) + 1) m) cases []"

section \<open>What normalisation guarantees\<close>

lemma normalizePath_SomeD:
  assumes "normalizePath raw = Some p"
  shows "p \<noteq> []" "\<not> starts_with ''/'' p" "\<not> has_drive p" "backslash \<notin> set p"
    "\<forall>s \<in> set (split_on CHR ''/'' p). s \<noteq> [] \<and> s \<noteq> ''.'' \<and> s \<noteq> ''..''"
proof -
  define q where "q = drop_dot_slash (map (\<lambda>c. if c = backslash then CHR ''/'' else c) (js_trim raw))"
  from assms have q: "q \<noteq> []" "\<not> starts_with ''/'' q" "\<not> has_drive q"
      "\<not> list_ex (\<lambda>s. s = [] \<or> s = ''.'' \<or> s = ''..'') (split_on CHR ''/'' q)"
      and p: "p = join_with [CHR ''/''] (split_on CHR ''/'' q)"
    by (auto simp: normalizePath_def Let_def q_def split: if_splits)
  have pq: "p = q" unfolding p by (rule join_split_on)
  show "p \<noteq> []" "\<not> starts_with ''/'' p" "\<not> has_drive p"
    "\<forall>s \<in> set (split_on CHR ''/'' p). s \<noteq> [] \<and> s \<noteq> ''.'' \<and> s \<noteq> ''..''"
    using q by (auto simp: pq list_ex_iff)
  have "backslash \<notin> set (map (\<lambda>c. if c = backslash then CHR ''/'' else c) s)" for s
    by (auto simp: backslash_def)
  then show "backslash \<notin> set p"
    unfolding pq q_def drop_dot_slash_def by (auto dest: in_set_dropD split: if_splits)
qed

section \<open>What a read returns\<close>

lemma new_workspace_map_of: "map_of (new_workspace files) p = index_by wf_path files p"
  by (simp add: new_workspace_def fold_update_map_of split: option.split)

definition system_paths :: "string list" where
  "system_paths = [''de-bai.md'', ''bang-loi.md'', ''goi-test.md'']"

text \<open>
  A file of the submission is read only under \<open>bai-nop/\<close> and with the content that was submitted, and no
  submitted file name can hide one of the three system files.
\<close>

lemma read_submission_file:
  assumes "read_file (fromContext sys submission) raw = Some f"
  shows "(wf_source f = FromSubmission \<and> (\<exists>path. wf_path f = ''bai-nop/'' @ path \<and> (path, wf_content f) \<in> set submission)) \<or>
     (wf_source f = FromSystem \<and> wf_path f \<in> set system_paths)"
proof -
  from assms obtain p where "normalizePath raw = Some p" "map_of (fromContext sys submission) p = Some f"
    by (auto simp: read_file_def split: option.splits)
  then show ?thesis
    by (auto simp: fromContext_def new_workspace_map_of system_paths_def dest!: index_by_SomeD)
qed

lemma read_system_file:
  assumes "normalizePath raw = Some p" and "p \<in> set system_paths"
  shows "\<exists>f. read_file (fromContext sys submission) raw = Some f \<and> wf_source f = FromSystem \<and> wf_path f = p"
proof -
  let ?sub = "map (\<lambda>(path, content). \<lparr>wf_path = ''bai-nop/'' @ path, wf_content = content, wf_source = FromSubmission\<rparr>) submission"
  have none: "index_by wf_path ?sub p = None"
    using assms(2) by (auto simp: index_by_None_iff system_paths_def)
  have "read_file (fromContext sys submission) raw = map_of (fromContext sys submission) p"
    using assms(1) by (simp add: read_file_def)
  also have "\<dots> = index_by wf_path [\<lparr>wf_path = ''de-bai.md'', wf_content = sf_statement sys, wf_source = FromSystem\<rparr>,
       \<lparr>wf_path = ''bang-loi.md'', wf_content = sf_rules sys, wf_source = FromSystem\<rparr>,
       \<lparr>wf_path = ''goi-test.md'', wf_content = sf_groups sys, wf_source = FromSystem\<rparr>] p"
    unfolding fromContext_def new_workspace_map_of index_by_append none by simp
  finally show ?thesis using assms(2) by (auto simp: system_paths_def index_by_def js_map_def)
qed

text \<open>The listing has each path once, in code-unit order.\<close>

lemma distinct_new_workspace: "distinct (map fst (new_workspace files))"
  unfolding new_workspace_def by (rule distinct_fold_update) simp

lemma list_files_sorted: "sorted_wrt (\<lambda>a b. str_le (we_path a) (we_path b)) (list_files byteLength w)"
  unfolding list_files_def
  by (rule sorted_js_sort) (use str_le_total str_le_trans in \<open>auto simp: total_preorder_def\<close>)

lemma group_counts_step:
  "map_of (fold (\<lambda>c m. AList.update (tk_group c) ((case map_of m (tk_group c) of None \<Rightarrow> 0 | Some n \<Rightarrow> n) + 1) m) cases m) g =
     (if g \<in> tk_group ` set cases \<or> map_of m g \<noteq> None
      then Some ((case map_of m g of None \<Rightarrow> 0 | Some n \<Rightarrow> n) + length (filter (\<lambda>c. tk_group c = g) cases)) else None)"
  by (induction cases arbitrary: m) (auto simp: js_simps split: option.splits)

lemma group_counts_spec:
  "map_of (group_counts cases) g =
     (if g \<in> tk_group ` set cases then Some (length (filter (\<lambda>c. tk_group c = g) cases)) else None)"
  unfolding group_counts_def group_counts_step by simp

end
