(* ===== verification/TextBounds.thy ===== *)
theory TextBounds
  imports Hundredths JsNumber "HOL-Library.Word"
begin

text \<open>
  Bounded views of texts: \<open>grading/investigator/truncate.ts\<close> and \<open>sliceLines\<close> of
  \<open>investigator/tools.ts\<close>.

  \<open>truncateOutput\<close> works on the UTF-8 bytes of a text, a list of \<open>8 word\<close>. \<open>Buffer.subarray\<close> past the
  end is \<open>take\<close>/\<open>drop\<close>. In \<open>sliceLines\<close> the UTF-8 size of a line, \<open>Buffer.byteLength\<close>, is the argument
  \<open>byteLength\<close>.
\<close>

unbundle bit_operations_syntax

type_synonym byte = "8 word"

definition TOOL_OUTPUT_MAX_BYTES :: nat where
  "TOOL_OUTPUT_MAX_BYTES = 8 * 1024"

definition MARKER_RESERVE :: nat where
  "MARKER_RESERVE = 80"

section \<open>Character boundaries\<close>

definition is_continuation :: "byte \<Rightarrow> bool" where
  "is_continuation b \<longleftrightarrow> b AND 0xC0 = 0x80"

fun backToCharStart :: "byte list \<Rightarrow> nat \<Rightarrow> nat" where
  "backToCharStart buf 0 = 0"
| "backToCharStart buf (Suc i) =
     (if Suc i < length buf \<and> is_continuation (buf ! Suc i) then backToCharStart buf i else Suc i)"

function forwardToCharStart :: "byte list \<Rightarrow> nat \<Rightarrow> nat" where
  "forwardToCharStart buf i =
     (if i < length buf \<and> is_continuation (buf ! i) then forwardToCharStart buf (i + 1) else i)"
  by pat_completeness auto
termination
  by (relation "measure (\<lambda>(buf, i). length buf - i)") auto

declare forwardToCharStart.simps [simp del]

text \<open>A position between two characters, at the start or at the end.\<close>

definition char_boundary :: "byte list \<Rightarrow> nat \<Rightarrow> bool" where
  "char_boundary buf i \<longleftrightarrow> i = 0 \<or> i \<ge> length buf \<or> \<not> is_continuation (buf ! i)"

lemma back_le: "backToCharStart buf i \<le> i"
  by (induction buf i rule: backToCharStart.induct) auto

lemma back_boundary: "char_boundary buf (backToCharStart buf i)"
  by (induction buf i rule: backToCharStart.induct) (auto simp: char_boundary_def)

lemma forward_ge: "i \<le> forwardToCharStart buf i"
proof (induction buf i rule: forwardToCharStart.induct)
  case (1 buf i)
  then show ?case by (subst forwardToCharStart.simps) auto
qed

lemma forward_le: "i \<le> length buf \<Longrightarrow> forwardToCharStart buf i \<le> length buf"
proof (induction buf i rule: forwardToCharStart.induct)
  case (1 buf i)
  then show ?case by (subst forwardToCharStart.simps) auto
qed

lemma forward_boundary: "char_boundary buf (forwardToCharStart buf i)"
proof (induction buf i rule: forwardToCharStart.induct)
  case (1 buf i)
  then show ?case by (subst forwardToCharStart.simps) (auto simp: char_boundary_def)
qed

section \<open>truncateOutput\<close>

text \<open>The marker \<open>\n\<dots>[\<close>da cat\<open> N byte]\<dots>\n\<close> in UTF-8 (with its Vietnamese letters).\<close>

definition marker :: "nat \<Rightarrow> byte list" where
  "marker n =
     [0x0A, 0xE2, 0x80, 0xA6, 0x5B, 0xC4, 0x91, 0xC3, 0xA3, 0x20, 0x63, 0xE1, 0xBA, 0xAF, 0x74, 0x20] @
     map of_char (show_nat n) @
     [0x20, 0x62, 0x79, 0x74, 0x65, 0x5D, 0xE2, 0x80, 0xA6, 0x0A]"

definition head_end :: "byte list \<Rightarrow> nat \<Rightarrow> nat" where
  "head_end buf maxBytes = backToCharStart buf ((maxBytes - MARKER_RESERVE) div 2)"

definition tail_start :: "byte list \<Rightarrow> nat \<Rightarrow> nat" where
  "tail_start buf maxBytes =
     forwardToCharStart buf (length buf - ((maxBytes - MARKER_RESERVE) - head_end buf maxBytes))"

definition truncateOutput :: "byte list \<Rightarrow> nat \<Rightarrow> byte list" where
  "truncateOutput buf maxBytes =
     (if length buf \<le> maxBytes then buf
      else (let headEnd = head_end buf maxBytes; tailStart = tail_start buf maxBytes; dropped = tailStart - headEnd in
            take headEnd buf @ marker dropped @ drop tailStart buf))"

lemma length_marker: "length (marker n) = 26 + length (show_nat n)"
  by (simp add: marker_def)

lemma head_end_le: "head_end buf maxBytes \<le> (maxBytes - MARKER_RESERVE) div 2"
  unfolding head_end_def by (rule back_le)

lemma tail_start_bounds:
  assumes "maxBytes < length buf"
  shows "length buf - ((maxBytes - MARKER_RESERVE) - head_end buf maxBytes) \<le> tail_start buf maxBytes"
    and "tail_start buf maxBytes \<le> length buf" and "head_end buf maxBytes \<le> tail_start buf maxBytes"
proof -
  show 1: "length buf - ((maxBytes - MARKER_RESERVE) - head_end buf maxBytes) \<le> tail_start buf maxBytes"
    unfolding tail_start_def by (rule forward_ge)
  show "tail_start buf maxBytes \<le> length buf" unfolding tail_start_def by (rule forward_le) simp
  show "head_end buf maxBytes \<le> tail_start buf maxBytes"
    using 1 head_end_le[of buf maxBytes] assms by simp
qed

text \<open>
  The result keeps a head and a tail of whole characters, reports how many bytes it dropped, and is
  within the limit.
\<close>

lemma truncateOutput_split:
  assumes "maxBytes < length buf"
  shows "\<exists>head mid tail. buf = head @ mid @ tail \<and> truncateOutput buf maxBytes = head @ marker (length mid) @ tail \<and>
     char_boundary buf (length head) \<and> char_boundary buf (length head + length mid)"
proof -
  let ?h = "head_end buf maxBytes" and ?t = "tail_start buf maxBytes"
  note b = tail_start_bounds[OF assms]
  have "buf = take ?h buf @ take (?t - ?h) (drop ?h buf) @ drop ?t buf"
    using b by (metis append_take_drop_id drop_drop le_add_diff_inverse2)
  moreover have "length (take (?t - ?h) (drop ?h buf)) = ?t - ?h" "length (take ?h buf) = ?h" using b by auto
  moreover have "char_boundary buf ?h" unfolding head_end_def by (rule back_boundary)
  moreover have "char_boundary buf ?t" unfolding tail_start_def by (rule forward_boundary)
  ultimately show ?thesis
    using assms b
    by (intro exI[of _ "take ?h buf"] exI[of _ "take (?t - ?h) (drop ?h buf)"] exI[of _ "drop ?t buf"])
      (simp add: truncateOutput_def Let_def)
qed

lemma truncateOutput_length:
  assumes "80 \<le> maxBytes" and "length buf < 10 ^ 54"
  shows "length (truncateOutput buf maxBytes) \<le> maxBytes"
proof (cases "length buf \<le> maxBytes")
  case False
  let ?h = "head_end buf maxBytes" and ?t = "tail_start buf maxBytes"
  have b: "length buf - ((maxBytes - 80) - ?h) \<le> ?t" "?t \<le> length buf" "?h \<le> ?t"
    using tail_start_bounds[of maxBytes buf] False by (simp_all add: MARKER_RESERVE_def)
  have h: "?h \<le> (maxBytes - 80) div 2" using head_end_le[of buf maxBytes] by (simp add: MARKER_RESERVE_def)
  have "?t - ?h < 10 ^ 54" using b assms(2) by linarith
  then have "length (show_nat (?t - ?h)) \<le> 54" by (simp add: length_show_nat)
  then have "length (marker (?t - ?h)) \<le> 80" by (simp add: length_marker)
  moreover have "length (take ?h buf) \<le> ?h" "length (drop ?t buf) \<le> (maxBytes - 80) - ?h" using b by auto
  ultimately show ?thesis using False h assms(1) by (simp add: truncateOutput_def Let_def)
qed (simp add: truncateOutput_def)

section \<open>sliceLines\<close>

definition READ_CHUNK_BYTES :: nat where
  "READ_CHUNK_BYTES = TOOL_OUTPUT_MAX_BYTES - 1024"

datatype line_arg = LineAbsent | LineNo int | LineBad

datatype slice_error = BadLineArg | BeyondEnd nat int | ReversedRange int int

record line_slice =
  ls_from :: nat
  ls_to :: nat
  ls_total :: nat
  ls_lines :: "string list"

definition line_valid :: "line_arg \<Rightarrow> bool" where
  "line_valid v = (case v of LineAbsent \<Rightarrow> True | LineNo n \<Rightarrow> 1 \<le> n | LineBad \<Rightarrow> False)"

text \<open>\<open>content.split('\n')\<close> without the empty part after a final line feed.\<close>

definition lines_of :: "string \<Rightarrow> string list" where
  "lines_of content =
     (let ls = split_on CHR 0x0A content in if length ls > 1 \<and> last ls = [] then butlast ls else ls)"

text \<open>The loop over \<open>i = from \<dots> min until total\<close>, on the remaining lines.\<close>

fun pick_lines :: "(string \<Rightarrow> nat) \<Rightarrow> bool \<Rightarrow> nat \<Rightarrow> string list \<Rightarrow> string list" where
  "pick_lines byteLength picked bytes [] = []"
| "pick_lines byteLength picked bytes (l # ls) =
     (let size = byteLength l + 1 in
      if picked \<and> bytes + size > READ_CHUNK_BYTES then []
      else l # pick_lines byteLength True (bytes + size) ls)"

definition sliceLines :: "(string \<Rightarrow> nat) \<Rightarrow> string \<Rightarrow> line_arg \<Rightarrow> line_arg \<Rightarrow> slice_error + line_slice" where
  "sliceLines byteLength content fromLine toLine =
     (let lines = lines_of content; total = length lines in
      if \<not> line_valid fromLine \<or> \<not> line_valid toLine then Inl BadLineArg
      else
        (let from = (case fromLine of LineNo n \<Rightarrow> n | _ \<Rightarrow> 1);
             until = (case toLine of LineNo n \<Rightarrow> n | _ \<Rightarrow> int total)
         in if from > int total then Inl (BeyondEnd total from)
            else if until < from then Inl (ReversedRange until from)
            else
              (let picked = pick_lines byteLength False 0 (take (nat (min until (int total)) - (nat from - 1)) (drop (nat from - 1) lines))
               in Inr \<lparr>ls_from = nat from, ls_to = nat from - 1 + length picked, ls_total = total, ls_lines = picked\<rparr>)))"

lemma lines_of_nonempty: "lines_of content \<noteq> []"
proof -
  let ?ls = "split_on CHR 0x0A content"
  show ?thesis
  proof (cases "length ?ls > 1")
    case True
    then have "length (butlast ?ls) > 0" by simp
    then have "butlast ?ls \<noteq> []" by (rule length_greater_0_conv[THEN iffD1])
    then show ?thesis by (simp add: lines_of_def Let_def)
  qed (simp add: lines_of_def Let_def)
qed

lemma pick_lines_prefix: "\<exists>rest. ls = pick_lines bl p b ls @ rest"
  by (induction ls arbitrary: p b) (auto simp: Let_def)

lemma pick_lines_take: "pick_lines bl p b ls = take (length (pick_lines bl p b ls)) ls"
  by (metis append_eq_conv_conj pick_lines_prefix)

lemma pick_lines_first: "ls \<noteq> [] \<Longrightarrow> pick_lines bl False b ls \<noteq> []"
  by (cases ls) (simp_all add: Let_def)

lemma pick_lines_bytes:
  "p \<Longrightarrow> b + (\<Sum>l\<leftarrow>pick_lines bl p b ls. bl l + 1) \<le> max b READ_CHUNK_BYTES"
proof (induction ls arbitrary: b p)
  case (Cons l ls)
  show ?case
  proof (cases "b + (bl l + 1) > READ_CHUNK_BYTES")
    case False
    have "b + (bl l + 1) + (\<Sum>l\<leftarrow>pick_lines bl True (b + (bl l + 1)) ls. bl l + 1) \<le> max (b + (bl l + 1)) READ_CHUNK_BYTES"
      by (rule Cons.IH) simp
    with False Cons.prems show ?thesis by (simp add: Let_def)
  qed (use Cons.prems in \<open>simp add: Let_def\<close>)
qed simp

text \<open>
  A slice is a non-empty run of lines of the file, starting at the line asked for; it fits the chunk unless
  it is a single line. So reading on from \<open>to + 1\<close> loses no line.
\<close>

lemma sliceLines_spec:
  assumes "sliceLines byteLength content fromLine toLine = Inr s"
  shows "1 \<le> ls_from s" "ls_from s \<le> ls_to s" "ls_to s \<le> ls_total s" "ls_total s = length (lines_of content)"
    and "ls_lines s = take (ls_to s - (ls_from s - 1)) (drop (ls_from s - 1) (lines_of content))"
    and "length (ls_lines s) = 1 \<or> (\<Sum>l\<leftarrow>ls_lines s. byteLength l + 1) \<le> READ_CHUNK_BYTES"
proof -
  let ?ls = "lines_of content"
  define frm where "frm = (case fromLine of LineNo n \<Rightarrow> n | _ \<Rightarrow> 1)"
  define til where "til = (case toLine of LineNo n \<Rightarrow> n | _ \<Rightarrow> int (length ?ls))"
  define avail where "avail = take (nat (min til (int (length ?ls))) - (nat frm - 1)) (drop (nat frm - 1) ?ls)"
  define picked where "picked = pick_lines byteLength False 0 avail"
  have v: "line_valid fromLine"
    and s: "s = \<lparr>ls_from = nat frm, ls_to = nat frm - 1 + length picked, ls_total = length ?ls, ls_lines = picked\<rparr>"
    and c2: "frm \<le> int (length ?ls)" "frm \<le> til"
    using assms
    unfolding sliceLines_def Let_def frm_def[symmetric] til_def[symmetric] avail_def[symmetric] picked_def[symmetric]
    by (simp_all split: if_splits)
  have "1 \<le> frm" using v by (auto simp: frm_def line_valid_def split: line_arg.splits)
  note c = this c2
  have la: "length avail = nat (min til (int (length ?ls))) - (nat frm - 1)" "avail \<noteq> []"
    using c by (auto simp: avail_def)
  have pk: "picked = take (length picked) avail" "picked \<noteq> []" "length picked \<le> length avail"
    unfolding picked_def using pick_lines_take[of byteLength False 0 avail] pick_lines_first[OF la(2)]
    by (simp, simp, metis length_take min.cobounded1)
  show "1 \<le> ls_from s" using c by (simp add: s)
  show "ls_from s \<le> ls_to s" using c pk(2) by (cases picked) (auto simp: s)
  show "ls_to s \<le> ls_total s" proof -
    have "nat frm - 1 + length picked \<le> nat (min til (int (length ?ls)))" using c pk(3) la(1) by linarith
    also have "\<dots> \<le> length ?ls" by simp
    finally show ?thesis by (simp add: s)
  qed
  show "ls_total s = length ?ls" by (simp add: s)
  have "take (length picked) avail = take (length picked) (drop (nat frm - 1) ?ls)"
    using pk(3) la(1) by (simp add: avail_def min_def)
  with pk(1) show "ls_lines s = take (ls_to s - (ls_from s - 1)) (drop (ls_from s - 1) ?ls)" by (simp add: s)
  show "length (ls_lines s) = 1 \<or> (\<Sum>l\<leftarrow>ls_lines s. byteLength l + 1) \<le> READ_CHUNK_BYTES"
  proof (cases avail)
    case (Cons l rest)
    then have p: "picked = l # pick_lines byteLength True (byteLength l + 1) rest" by (simp add: picked_def Let_def)
    have m: "byteLength l + 1 + (\<Sum>l\<leftarrow>pick_lines byteLength True (byteLength l + 1) rest. byteLength l + 1)
        \<le> max (byteLength l + 1) READ_CHUNK_BYTES"
      by (rule pick_lines_bytes) simp
    show ?thesis
    proof (cases "byteLength l + 1 \<le> READ_CHUNK_BYTES")
      case True
      with m p show ?thesis by (simp add: s)
    next
      case False
      then have "pick_lines byteLength True (byteLength l + 1) rest = []" by (cases rest) (simp_all add: Let_def)
      with p show ?thesis by (simp add: s)
    qed
  qed (use la in simp)
qed

end
