(* ===== verification/Tools.thy ===== *)
theory Tools
  imports Workspace Envelope TextBounds
begin

text \<open>
  The four tools of the agent: \<open>grading/investigator/tools.ts\<close> and \<open>renderListing\<close> of
  \<open>investigator/workspace.ts\<close>.

  The sandbox, the clock, the nonces and SHA-256 are functions of the record \<open>tool_world\<close> over a world
  state \<open>'w\<close>; \<open>tw_issue\<close> is \<open>execJob.safeParse\<close> of the package zod: the first issue of a job, if any.
  A text for the model is a value of \<open>tool_text\<close>, which keeps the envelopes around what the student wrote;
  \<open>tw_render\<close> gives its sentences in UTF-8, which are cut by \<open>truncateOutput\<close> (theory \<open>TextBounds\<close>).
\<close>

section \<open>The context of an investigation\<close>

datatype sandbox_language = Cpp | Python

record rule_entry =
  rn_ruleKey :: key
  rn_title :: string
  rn_criterionKey :: key
  rn_priced :: bool
  rn_checkedBy :: checked_by
  rn_machineNote :: "string option"
  rn_description :: "string option"

record investigation_context =
  ic_language :: sandbox_language
  ic_problemStatement :: string
  ic_requiredComplexity :: "string option"
  ic_files :: "(string \<times> string) list"
  ic_driver :: "string option"
  ic_entry :: "string option"
  ic_bundleId :: string
  ic_cases :: "bundle_case list"
  ic_rules :: "rule_entry list"
  ic_budget :: budget_limits

section \<open>Jobs of the sandbox\<close>

record job_program =
  jp_files :: "(string \<times> string) list"
  jp_driver :: "string option"
  jp_entry :: "string option"

record job_case =
  jc_name :: string
  jc_group :: "string option"
  jc_stdin :: string
  jc_expected :: "string option"

record exec_request =
  eq_language :: sandbox_language
  eq_program :: job_program
  eq_cases :: "job_case list"
  eq_budgetMs :: "int option"

record exec_case =
  xc_name :: string
  xc_group :: "string option"
  xc_status :: case_status
  xc_ms :: int
  xc_stdout :: "string option"
  xc_diff :: "string option"

record exec_result =
  xr_unavailable :: "string option"
  xr_compile :: "compile_info option"
  xr_cases :: "exec_case list"
  xr_aborted :: bool
  xr_host :: "host_fingerprint option"

datatype job_issue = IssueFile nat bool string | IssueCase nat string | IssueOther string

section \<open>Texts for the model\<close>

datatype tool_text =
    Listing "workspace_entry list" "submission_envelope option"
  | PathNotString
  | NoSuchFile string
  | BadSlice slice_error
  | SystemChunk string line_slice
  | SubmissionChunk nat nat nat submission_envelope
  | InputNotString
  | InputTooLong
  | Late
  | SandboxDown string
  | CompileError submission_envelope
  | RunOutcome "case_status option" int submission_envelope
  | GroupNotString
  | NoSuchGroup string "string list"
  | TooManyCases nat
  | DisabledTool tool
  | BlockedCall tool nat
  | TestsOutcome "(string option \<times> nat \<times> nat) list" "(nat \<times> nat) option" "submission_envelope option"

record 'w tool_world =
  tw_now :: "'w \<Rightarrow> int \<times> 'w"
  tw_nonce :: "'w \<Rightarrow> utext \<times> 'w"
  tw_exec :: "exec_request \<Rightarrow> 'w \<Rightarrow> (string + exec_result) \<times> 'w"
  tw_issue :: "exec_request \<Rightarrow> job_issue option"
  tw_sha256 :: "string \<Rightarrow> string"
  tw_byteLength :: "string \<Rightarrow> nat"
  tw_render :: "tool_text \<Rightarrow> byte list"

record dispatched =
  dp_status :: call_status
  dp_text :: tool_text
  dp_suspected :: bool
  dp_structured :: "structured option"

definition MAX_RUN_INPUT_BYTES :: nat where "MAX_RUN_INPUT_BYTES = 1024 * 1024"
definition MAX_CASES_PER_JOB :: nat where "MAX_CASES_PER_JOB = 200"
definition MAX_EXEC_BUDGET_MS :: int where "MAX_EXEC_BUDGET_MS = 120000"
definition MIN_SANDBOX_MS :: int where "MIN_SANDBOX_MS = 3000"

definition wrapStudent :: "'w tool_world \<Rightarrow> utext \<Rightarrow> 'w \<Rightarrow> submission_envelope \<times> 'w" where
  "wrapStudent tw text w = (let n = tw_nonce tw w in (wrapSubmission (fst n) text, snd n))"

definition fail_with :: "tool_text \<Rightarrow> dispatched" where
  "fail_with t = \<lparr>dp_status = CallError, dp_text = t, dp_suspected = False, dp_structured = None\<rparr>"

definition sandbox_unavailable :: "string \<Rightarrow> dispatched" where
  "sandbox_unavailable r = \<lparr>dp_status = Unavailable, dp_text = SandboxDown r, dp_suspected = False, dp_structured = None\<rparr>"

definition answered :: "tool_text \<Rightarrow> bool \<Rightarrow> structured option \<Rightarrow> dispatched" where
  "answered t suspected st = \<lparr>dp_status = CallOk, dp_text = t, dp_suspected = suspected, dp_structured = st\<rparr>"

section \<open>Is there a program to run?\<close>

definition programOf :: "investigation_context \<Rightarrow> job_program" where
  "programOf ctx = \<lparr>jp_files = ic_files ctx, jp_driver = ic_driver ctx, jp_entry = ic_entry ctx\<rparr>"

definition test_job_case :: "bundle_case \<Rightarrow> job_case" where
  "test_job_case c = \<lparr>jc_name = tk_name c, jc_group = Some (tk_group c), jc_stdin = bk_input c, jc_expected = Some (bk_expected c)\<rparr>"

function chunks_of :: "nat \<Rightarrow> 'a list \<Rightarrow> 'a list list" where
  "chunks_of n xs = (if n = 0 \<or> xs = [] then [] else take n xs # chunks_of n (drop n xs))"
  by pat_completeness auto
termination by (relation "measure (length \<circ> snd)") auto
declare chunks_of.simps [simp del]

definition probe_request :: "investigation_context \<Rightarrow> job_case list \<Rightarrow> exec_request" where
  "probe_request ctx cases =
     \<lparr>eq_language = ic_language ctx, eq_program = programOf ctx, eq_cases = cases, eq_budgetMs = None\<rparr>"

definition issue_reason :: "investigation_context \<Rightarrow> job_case list \<Rightarrow> job_issue \<Rightarrow> reason" where
  "issue_reason ctx cases issue =
     (case issue of
        IssueFile i isPath message \<Rightarrow>
          (let path = fst (ic_files ctx ! i) in if isPath then RejectedFileName path else RejectedFile path message)
      | IssueCase i message \<Rightarrow> RejectedCase (jc_name (cases ! i)) message
      | IssueOther message \<Rightarrow> RejectedProgram message)"

definition programProblem :: "(exec_request \<Rightarrow> job_issue option) \<Rightarrow> investigation_context \<Rightarrow> ungradable option" where
  "programProblem issue_of ctx =
     (if ic_files ctx = [] then Some \<lparr>ug_class = SubmissionFault, ug_reason = NoFiles\<rparr>
      else if list_all (\<lambda>f. js_trim (snd f) = []) (ic_files ctx) then
        Some \<lparr>ug_class = SubmissionFault, ug_reason = NoCode\<rparr>
      else case List.find (\<lambda>g. snd g > MAX_CASES_PER_JOB) (group_counts (ic_cases ctx)) of
          Some (grp, n) \<Rightarrow> Some \<lparr>ug_class = SystemFault, ug_reason = OversizedGroup grp n\<rparr>
        | None \<Rightarrow>
            (let jobs = (if ic_cases ctx = []
                         then [[\<lparr>jc_name = ''run'', jc_group = None, jc_stdin = [], jc_expected = None\<rparr>]]
                         else chunks_of MAX_CASES_PER_JOB (map test_job_case (ic_cases ctx))) in
             case List.map_filter (\<lambda>cases. map_option (issue_reason ctx cases) (issue_of (probe_request ctx cases))) jobs of
               [] \<Rightarrow> None
             | r # _ \<Rightarrow> Some \<lparr>ug_class = SystemFault, ug_reason = r\<rparr>))"

section \<open>The tools\<close>

text \<open>\<open>sandboxBudget\<close>: \<open>Inl\<close> is \<open>'late'\<close>, \<open>Inr None\<close> is no deadline.\<close>

definition sandboxBudget :: "'w tool_world \<Rightarrow> int option \<Rightarrow> 'w \<Rightarrow> (unit + int option) \<times> 'w" where
  "sandboxBudget tw deadline w =
     (case deadline of
        None \<Rightarrow> (Inr None, w)
      | Some d \<Rightarrow>
          (let n = tw_now tw w; left = d - fst n in
           (if left < MIN_SANDBOX_MS then Inl () else Inr (Some (min MAX_EXEC_BUDGET_MS (max 1000 left))), snd n)))"

definition entry_line :: "workspace_entry \<Rightarrow> string" where
  "entry_line f = ''- '' @ we_path f @ '' ('' @ show_nat (we_bytes f) @ '' byte)''"

definition renderListing :: "'w tool_world \<Rightarrow> workspace_entry list \<Rightarrow> 'w \<Rightarrow> (tool_text \<times> bool) \<times> 'w" where
  "renderListing tw files w =
     (let system = filter (\<lambda>f. we_source f = FromSystem) files;
          submitted = filter (\<lambda>f. we_source f = FromSubmission) files in
      if submitted = [] then ((Listing system None, False), w)
      else
        (let e = wrapStudent tw (join_with [10] (map (units \<circ> entry_line) submitted)) w
         in ((Listing system (Some (fst e)), se_injectionSuspected (fst e)), snd e)))"

definition listFiles :: "'w tool_world \<Rightarrow> workspace \<Rightarrow> 'w \<Rightarrow> dispatched \<times> 'w" where
  "listFiles tw ws w =
     (let l = renderListing tw (list_files (tw_byteLength tw) ws) w
      in (answered (fst (fst l)) (snd (fst l)) None, snd l))"

text \<open>A line argument as the code reads it: absent or null, an integer, anything else.\<close>

definition line_arg_of :: "json option \<Rightarrow> line_arg" where
  "line_arg_of v =
     (case v of
        None \<Rightarrow> LineAbsent
      | Some JNull \<Rightarrow> LineAbsent
      | Some (JNum x) \<Rightarrow> if x = of_int (floor x) then LineNo (floor x) else LineBad
      | Some _ \<Rightarrow> LineBad)"

definition readFile :: "'w tool_world \<Rightarrow> workspace \<Rightarrow> args \<Rightarrow> 'w \<Rightarrow> dispatched \<times> 'w" where
  "readFile tw ws a w =
     (case str_arg a ''path'' of
        None \<Rightarrow> (fail_with PathNotString, w)
      | Some path \<Rightarrow>
          (case read_file ws path of
             None \<Rightarrow> (fail_with (NoSuchFile path), w)
           | Some f \<Rightarrow>
               (case sliceLines (tw_byteLength tw) (wf_content f) (line_arg_of (map_of a ''fromLine''))
                       (line_arg_of (map_of a ''toLine'')) of
                  Inl e \<Rightarrow> (fail_with (BadSlice e), w)
                | Inr s \<Rightarrow>
                    (if wf_source f = FromSystem then (answered (SystemChunk (wf_path f) s) False None, w)
                     else
                       (let e = wrapStudent tw (units (join_with [CHR 0x0A] (ls_lines s))) w
                        in (answered (SubmissionChunk (ls_from s) (ls_to s) (ls_total s) (fst e))
                              (se_injectionSuspected (fst e)) None, snd e))))))"

definition compile_log :: "exec_result \<Rightarrow> string option" where
  "compile_log r = (case xr_compile r of Some c \<Rightarrow> if ci_ok c then None else Some (ci_log c) | None \<Rightarrow> None)"

definition run_program :: "'w tool_world \<Rightarrow> investigation_context \<Rightarrow> int option \<Rightarrow> args \<Rightarrow> 'w \<Rightarrow> dispatched \<times> 'w" where
  "run_program tw ctx deadline a w =
     (case str_arg a ''input'' of
        None \<Rightarrow> (fail_with InputNotString, w)
      | Some input \<Rightarrow>
          if tw_byteLength tw input > MAX_RUN_INPUT_BYTES then (fail_with InputTooLong, w)
          else
            (case sandboxBudget tw deadline w of
               (Inl _, w1) \<Rightarrow> (fail_with Late, w1)
             | (Inr budget, w1) \<Rightarrow>
                 (case tw_exec tw
                     \<lparr>eq_language = ic_language ctx, eq_program = programOf ctx,
                      eq_cases = [\<lparr>jc_name = ''run'', jc_group = None, jc_stdin = input, jc_expected = None\<rparr>],
                      eq_budgetMs = budget\<rparr> w1 of
                    (Inl message, w2) \<Rightarrow> (sandbox_unavailable (take 300 message), w2)
                  | (Inr r, w2) \<Rightarrow>
                      (case xr_unavailable r of
                         Some reason \<Rightarrow> (sandbox_unavailable reason, w2)
                       | None \<Rightarrow>
                           (case compile_log r of
                              Some lg \<Rightarrow>
                                (let e = wrapStudent tw (units lg) w2
                                 in (answered (CompileError (fst e)) (se_injectionSuspected (fst e))
                                       (Some (RunResult (xr_compile r) None None (xr_host r))), snd e))
                            | None \<Rightarrow>
                                (let c = (case xr_cases r of [] \<Rightarrow> None | c # _ \<Rightarrow> Some c);
                                     status = map_option xc_status c;
                                     stdout = (case Option.bind c xc_stdout of None \<Rightarrow> [] | Some s \<Rightarrow> s);
                                     e = wrapStudent tw (units stdout) w2
                                 in (answered (RunOutcome status (case c of None \<Rightarrow> 0 | Some c \<Rightarrow> xc_ms c) (fst e))
                                       (se_injectionSuspected (fst e))
                                       (Some (RunResult (xr_compile r) status (Some (tw_sha256 tw stdout)) (xr_host r))), snd e)))))))"

definition case_result_of :: "exec_case \<Rightarrow> case_result" where
  "case_result_of c = \<lparr>cr_name = xc_name c, cr_group = xc_group c, cr_status = xc_status c, cr_diff = xc_diff c, cr_ms = xc_ms c\<rparr>"

text \<open>\<open>byGroup\<close>: passed and total per group, in order of first appearance.\<close>

definition group_tally :: "case_result list \<Rightarrow> (string option \<times> nat \<times> nat) list" where
  "group_tally cases =
     fold (\<lambda>c m.
         let e = (case map_of m (cr_group c) of None \<Rightarrow> (0, 0) | Some e \<Rightarrow> e)
         in AList.update (cr_group c) (fst e + (if cr_status c = Pass then 1 else 0), snd e + 1) m)
       cases []"

fun status_name :: "case_status \<Rightarrow> string" where
  "status_name Pass = ''pass''"
| "status_name Fail = ''fail''"
| "status_name Ran = ''ran''"
| "status_name Timeout = ''timeout''"
| "status_name RuntimeCrash = ''runtime_crash''"
| "status_name RecursionLimit = ''recursion_limit''"
| "status_name OutputLimit = ''output_limit''"

definition failure_line :: "case_result \<Rightarrow> utext" where
  "failure_line c =
     units (cr_name c @ '' ('' @ (case cr_group c of None \<Rightarrow> ''-'' | Some g \<Rightarrow> g) @ ''): '' @ status_name (cr_status c)) @
     (case cr_diff c of None \<Rightarrow> [] | Some d \<Rightarrow> if d = [] then [] else units '' '' @ [8212] @ units '' '' @ units d)"

definition tests_answer :: "'w tool_world \<Rightarrow> nat \<Rightarrow> exec_result \<Rightarrow> 'w \<Rightarrow> dispatched \<times> 'w" where
  "tests_answer tw asked r w =
     (let cases = map case_result_of (xr_cases r);
          st = Some (RunTestsResult (xr_compile r) cases (xr_aborted r) (xr_host r)) in
      case compile_log r of
        Some lg \<Rightarrow>
          (let e = wrapStudent tw (units lg) w
           in (answered (CompileError (fst e)) (se_injectionSuspected (fst e)) st, snd e))
      | None \<Rightarrow>
          (let tally = group_tally cases;
               stopped = (if xr_aborted r then Some (length cases, asked) else None);
               failures = map failure_line (filter (\<lambda>c. cr_status c \<noteq> Pass) cases) in
           if failures = [] then (answered (TestsOutcome tally stopped None) False st, w)
           else
             (let e = wrapStudent tw (join_with [10] failures) w
              in (answered (TestsOutcome tally stopped (Some (fst e))) (se_injectionSuspected (fst e)) st, snd e))))"

text \<open>\<open>args.group\<close> is null, a string, or anything else (a missing one included).\<close>

definition group_arg :: "args \<Rightarrow> string option option" where
  "group_arg a = (case map_of a ''group'' of Some JNull \<Rightarrow> Some None | Some (JStr g) \<Rightarrow> Some (Some g) | _ \<Rightarrow> None)"

definition asked_cases :: "investigation_context \<Rightarrow> string option \<Rightarrow> bundle_case list" where
  "asked_cases ctx grp = filter (\<lambda>c. grp = None \<or> Some (tk_group c) = grp) (ic_cases ctx)"

definition runTests :: "'w tool_world \<Rightarrow> investigation_context \<Rightarrow> int option \<Rightarrow> args \<Rightarrow> 'w \<Rightarrow> dispatched \<times> 'w" where
  "runTests tw ctx deadline a w =
     (case group_arg a of
        None \<Rightarrow> (fail_with GroupNotString, w)
      | Some grp \<Rightarrow>
          (let cases = asked_cases ctx grp in
           if cases = [] then
             (fail_with (NoSuchGroup (case grp of None \<Rightarrow> ''null'' | Some g \<Rightarrow> g) (uniq (map tk_group (ic_cases ctx)))), w)
           else if length cases > MAX_CASES_PER_JOB then (fail_with (TooManyCases (length cases)), w)
           else
             (case sandboxBudget tw deadline w of
                (Inl _, w1) \<Rightarrow> (fail_with Late, w1)
              | (Inr budget, w1) \<Rightarrow>
                  (case tw_exec tw
                      \<lparr>eq_language = ic_language ctx, eq_program = programOf ctx, eq_cases = map test_job_case cases,
                       eq_budgetMs = budget\<rparr> w1 of
                     (Inl message, w2) \<Rightarrow> (sandbox_unavailable (take 300 message), w2)
                   | (Inr r, w2) \<Rightarrow>
                       (case xr_unavailable r of
                          Some reason \<Rightarrow> (sandbox_unavailable reason, w2)
                        | None \<Rightarrow> tests_answer tw (length cases) r w2)))))"

definition dispatch ::
  "'w tool_world \<Rightarrow> investigation_context \<Rightarrow> workspace \<Rightarrow> int option \<Rightarrow> tool \<Rightarrow> args \<Rightarrow> 'w \<Rightarrow> dispatched \<times> 'w" where
  "dispatch tw ctx ws deadline t a w =
     (case t of
        ListFiles \<Rightarrow> listFiles tw ws w
      | ReadFile \<Rightarrow> readFile tw ws a w
      | Run \<Rightarrow> run_program tw ctx deadline a w
      | RunTests \<Rightarrow> runTests tw ctx deadline a w)"

text \<open>The bytes of the answer, cut to 8 KB; a \<open>string\<close> here is the UTF-8 of the text.\<close>

definition cut_output :: "byte list \<Rightarrow> string" where
  "cut_output bs = map (\<lambda>b. char_of (unat b)) (truncateOutput bs TOOL_OUTPUT_MAX_BYTES)"

definition execute ::
  "'w tool_world \<Rightarrow> investigation_context \<Rightarrow> workspace \<Rightarrow> int option \<Rightarrow> string \<Rightarrow> tool \<Rightarrow> args \<Rightarrow> 'w \<Rightarrow>
   (tool_call \<times> structured option) \<times> 'w" where
  "execute tw ctx ws deadline callId t a w =
     (let n0 = tw_now tw w;
          d = dispatch tw ctx ws deadline t a (snd n0);
          n1 = tw_now tw (snd d);
          r = fst d
      in ((\<lparr>tc_id = callId, tc_tool = t, tc_args = a, tc_status = dp_status r, tc_output = cut_output (tw_render tw (dp_text r)),
            tc_structuredRef = (if dp_structured r \<noteq> None then Some callId else None), tc_startedAt = fst n0,
            tc_wallMs = fst n1 - fst n0, tc_injectionSuspected = dp_suspected r\<rparr>, dp_structured r), snd n1))"

section \<open>What a call of a tool can be\<close>

text \<open>Only the sandbox tools leave a structured result, each its own kind, and only on success.\<close>

definition dispatched_ok :: "tool \<Rightarrow> dispatched \<Rightarrow> bool" where
  "dispatched_ok t d \<longleftrightarrow> dp_status d \<noteq> BlockedDuplicate \<and>
     (case dp_structured d of
        None \<Rightarrow> dp_status d = CallOk \<longrightarrow> t \<in> {ReadFile, ListFiles}
      | Some (RunResult _ _ _ _) \<Rightarrow> t = Run \<and> dp_status d = CallOk
      | Some (RunTestsResult _ _ _ _) \<Rightarrow> t = RunTests \<and> dp_status d = CallOk)"

lemma dispatched_ok_simps [simp]:
  "dispatched_ok t (fail_with x)" "dispatched_ok t (sandbox_unavailable r)"
  "dispatched_ok t (answered x b None) \<longleftrightarrow> t \<in> {ReadFile, ListFiles}"
  "dispatched_ok t (answered x b (Some (RunResult c s h f))) \<longleftrightarrow> t = Run"
  "dispatched_ok t (answered x b (Some (RunTestsResult c cs ab f))) \<longleftrightarrow> t = RunTests"
  by (simp_all add: dispatched_ok_def fail_with_def sandbox_unavailable_def answered_def)

lemma tests_answer_ok: "dispatched_ok RunTests (fst (tests_answer tw n r w))"
  by (simp add: tests_answer_def Let_def split: option.split)

lemma dispatch_ok: "dispatched_ok t (fst (dispatch tw ctx ws deadline t a w))"
proof (cases t)
  case Run
  then show ?thesis
    by (simp add: dispatch_def run_program_def Let_def split: option.split prod.split sum.split)
next
  case RunTests
  then show ?thesis
    by (simp add: dispatch_def runTests_def tests_answer_ok Let_def split: option.split prod.split sum.split)
next
  case ReadFile
  then show ?thesis
    by (simp add: dispatch_def readFile_def Let_def split: option.split prod.split sum.split)
next
  case ListFiles
  then show ?thesis by (simp add: dispatch_def listFiles_def Let_def)
qed

lemma execute_ok:
  assumes "execute tw ctx ws deadline callId t a w = ((tc, st), w')"
  shows "tc_id tc = callId" "tc_tool tc = t" "tc_args tc = a" "tc_status tc \<noteq> BlockedDuplicate"
    "tc_structuredRef tc = (if st = None then None else Some callId)"
    "st \<noteq> None \<Longrightarrow> tc_status tc = CallOk"
    "tc_status tc = CallOk \<Longrightarrow> t = RunTests \<Longrightarrow> \<exists>c cs ab h. st = Some (RunTestsResult c cs ab h)"
    "tc_status tc = CallOk \<Longrightarrow> t = Run \<Longrightarrow> \<exists>c s x h. st = Some (RunResult c s x h)"
    "st = Some (RunTestsResult c cs ab h) \<Longrightarrow> t = RunTests"
    "st = Some (RunResult c s x h) \<Longrightarrow> t = Run"
proof -
  let ?d = "fst (dispatch tw ctx ws deadline t a (snd (tw_now tw w)))"
  have tc: "tc_id tc = callId" "tc_tool tc = t" "tc_args tc = a" "tc_status tc = dp_status ?d"
    "tc_structuredRef tc = (if st = None then None else Some callId)" and st: "st = dp_structured ?d"
    using assms by (auto simp: execute_def Let_def)
  have "dispatched_ok t ?d" by (rule dispatch_ok)
  then have ok: "tc_status tc \<noteq> BlockedDuplicate \<and>
     (case st of
        None \<Rightarrow> tc_status tc = CallOk \<longrightarrow> t \<in> {ReadFile, ListFiles}
      | Some (RunResult _ _ _ _) \<Rightarrow> t = Run \<and> tc_status tc = CallOk
      | Some (RunTestsResult _ _ _ _) \<Rightarrow> t = RunTests \<and> tc_status tc = CallOk)"
    unfolding dispatched_ok_def tc(4) st .
  show "tc_id tc = callId" "tc_tool tc = t" "tc_args tc = a" "tc_status tc \<noteq> BlockedDuplicate"
    "tc_structuredRef tc = (if st = None then None else Some callId)" using tc ok by simp_all
  show "st \<noteq> None \<Longrightarrow> tc_status tc = CallOk" using ok by (cases "the st") auto
  show "tc_status tc = CallOk \<Longrightarrow> t = RunTests \<Longrightarrow> \<exists>c cs ab h. st = Some (RunTestsResult c cs ab h)"
    "tc_status tc = CallOk \<Longrightarrow> t = Run \<Longrightarrow> \<exists>c s x h. st = Some (RunResult c s x h)"
    using ok by (simp_all split: option.splits structured.splits)
  show "st = Some (RunTestsResult c cs ab h) \<Longrightarrow> t = RunTests" "st = Some (RunResult c s x h) \<Longrightarrow> t = Run"
    using ok by simp_all
qed

section \<open>Jobs the sandbox gets\<close>

text \<open>
  A job within the limits of the contract: the program of the submission, 1 to 200 cases, and where the
  investigation has a deadline a budget between one second and two minutes.
\<close>

definition sane_job :: "investigation_context \<Rightarrow> int option \<Rightarrow> exec_request \<Rightarrow> bool" where
  "sane_job ctx deadline q \<longleftrightarrow>
     eq_language q = ic_language ctx \<and> eq_program q = programOf ctx \<and>
     1 \<le> length (eq_cases q) \<and> length (eq_cases q) \<le> 200 \<and>
     (case deadline of None \<Rightarrow> eq_budgetMs q = None
      | Some d \<Rightarrow> \<exists>b. eq_budgetMs q = Some b \<and> 1000 \<le> b \<and> b \<le> 120000)"

lemma sandboxBudget_sane:
  "sandboxBudget tw deadline w = (Inr b, w') \<Longrightarrow>
     (case deadline of None \<Rightarrow> b = None | Some d \<Rightarrow> \<exists>n. b = Some n \<and> 1000 \<le> n \<and> n \<le> 120000)"
  by (auto simp: sandboxBudget_def MIN_SANDBOX_MS_def MAX_EXEC_BUDGET_MS_def Let_def split: option.splits if_splits)

definition same_but_exec :: "'w tool_world \<Rightarrow> 'w tool_world \<Rightarrow> bool" where
  "same_but_exec tw tw' \<longleftrightarrow> tw' = tw\<lparr>tw_exec := tw_exec tw'\<rparr>"

lemma same_but_execD:
  assumes "same_but_exec tw tw'"
  shows "tw_now tw' = tw_now tw" "tw_nonce tw' = tw_nonce tw" "tw_sha256 tw' = tw_sha256 tw"
    "tw_byteLength tw' = tw_byteLength tw" "tw_render tw' = tw_render tw"
proof -
  have e: "tw' = tw\<lparr>tw_exec := tw_exec tw'\<rparr>" using assms by (simp add: same_but_exec_def)
  show "tw_now tw' = tw_now tw" "tw_nonce tw' = tw_nonce tw" "tw_sha256 tw' = tw_sha256 tw"
    "tw_byteLength tw' = tw_byteLength tw" "tw_render tw' = tw_render tw" by (subst e; simp)+
qed

lemma same_wrap: "same_but_exec tw tw' \<Longrightarrow> wrapStudent tw' = wrapStudent tw"
  by (intro ext) (simp add: wrapStudent_def same_but_execD)

lemma same_budget: "same_but_exec tw tw' \<Longrightarrow> sandboxBudget tw' = sandboxBudget tw"
  by (intro ext) (simp add: sandboxBudget_def same_but_execD split: option.split)

lemma same_tests: "same_but_exec tw tw' \<Longrightarrow> tests_answer tw' = tests_answer tw"
  by (intro ext) (simp only: tests_answer_def same_wrap)

lemma same_run:
  assumes s: "same_but_exec tw tw'"
    and q: "\<And>q v. sane_job ctx deadline q \<Longrightarrow> tw_exec tw' q v = tw_exec tw q v"
  shows "run_program tw' ctx deadline a w = run_program tw ctx deadline a w"
proof (cases "str_arg a ''input''")
  case (Some input)
  show ?thesis
  proof (cases "sandboxBudget tw deadline w")
    case (Pair r w1)
    show ?thesis
    proof (cases r)
      case (Inr b)
      have "sane_job ctx deadline \<lparr>eq_language = ic_language ctx, eq_program = programOf ctx,
          eq_cases = [\<lparr>jc_name = ''run'', jc_group = None, jc_stdin = input, jc_expected = None\<rparr>], eq_budgetMs = b\<rparr>"
        using sandboxBudget_sane[OF Pair[unfolded Inr]] by (cases deadline) (simp_all add: sane_job_def)
      from q[OF this] show ?thesis
        unfolding run_program_def same_wrap[OF s] same_budget[OF s] same_but_execD[OF s]
        by (simp add: Some Pair Inr)
    qed (simp add: run_program_def same_wrap[OF s] same_budget[OF s] same_but_execD[OF s] Some Pair)
  qed
qed (simp add: run_program_def)

lemma same_runTests:
  assumes s: "same_but_exec tw tw'"
    and q: "\<And>q v. sane_job ctx deadline q \<Longrightarrow> tw_exec tw' q v = tw_exec tw q v"
  shows "runTests tw' ctx deadline a w = runTests tw ctx deadline a w"
proof (cases "group_arg a")
  case (Some grp)
  let ?cs = "asked_cases ctx grp"
  show ?thesis
  proof (cases "?cs = [] \<or> length ?cs > MAX_CASES_PER_JOB")
    case True
    then show ?thesis by (auto simp: runTests_def Some Let_def)
  next
    case ok: False
    obtain r w1 where b: "sandboxBudget tw deadline w = (r, w1)" by fastforce
    show ?thesis
    proof (cases r)
      case (Inr n)
      have "sane_job ctx deadline \<lparr>eq_language = ic_language ctx, eq_program = programOf ctx,
          eq_cases = map test_job_case ?cs, eq_budgetMs = n\<rparr>"
        using sandboxBudget_sane[OF b[unfolded Inr]] ok
        by (cases deadline) (simp_all add: sane_job_def MAX_CASES_PER_JOB_def Suc_le_eq)
      from q[OF this] show ?thesis using ok
        unfolding runTests_def same_tests[OF s] same_budget[OF s] by (simp add: Some b Inr)
    qed (use ok in \<open>simp add: runTests_def same_budget[OF s] Some b\<close>)
  qed
qed (simp add: runTests_def)

text \<open>A small world for concrete runs: it never answers a job outside the contract of \<open>sample_ctx\<close>.\<close>

definition sample_ctx :: investigation_context where
  "sample_ctx = \<lparr>ic_language = Cpp, ic_problemStatement = ''p'', ic_requiredComplexity = None,
     ic_files = [(''main.cpp'', ''int main(){}'')], ic_driver = None, ic_entry = None, ic_bundleId = ''b'',
     ic_cases = [\<lparr>tk_name = ''c1'', tk_group = ''g'', bk_input = ''1'', bk_expected = ''1''\<rparr>],
     ic_rules = [\<lparr>rn_ruleKey = ''r1'', rn_title = ''t'', rn_criterionKey = ''k'', rn_priced = True,
       rn_checkedBy = ByModel, rn_machineNote = None, rn_description = None\<rparr>],
     ic_budget = \<lparr>bl_maxToolCalls = 25, bl_maxWallMs = 300000, bl_maxTokens = 150000, bl_maxRounds = 12\<rparr>\<rparr>"

definition pass_all :: "exec_request \<Rightarrow> exec_result" where
  "pass_all q = \<lparr>xr_unavailable = None, xr_compile = None,
     xr_cases = map (\<lambda>c. \<lparr>xc_name = jc_name c, xc_group = jc_group c, xc_status = Pass, xc_ms = 1,
       xc_stdout = None, xc_diff = None\<rparr>) (eq_cases q), xr_aborted = False, xr_host = None\<rparr>"

definition sample_world :: "nat tool_world" where
  "sample_world = \<lparr>tw_now = (\<lambda>w. (int w, Suc w)), tw_nonce = (\<lambda>w. ([48], w)), tw_exec = (\<lambda>q w. (Inr (pass_all q), w + 5)),
     tw_issue = (\<lambda>_. None), tw_sha256 = (\<lambda>s. s), tw_byteLength = length, tw_render = (\<lambda>_. [])\<rparr>"

definition strict_world :: "nat tool_world" where
  "strict_world = sample_world\<lparr>tw_exec := (\<lambda>q w. if length (eq_cases q) \<le> 200 then (Inr (pass_all q), w + 5) else (Inl [], w))\<rparr>"

text \<open>
  The sandbox only gets jobs its contract accepts: the result of a tool call does not depend on what the
  sandbox would do with an empty job, with more than 200 cases, with another program or with a budget
  outside 1 s to 120 s. Too little time left is an answer to the model, not a job.
\<close>

theorem execute_sane_jobs:
  assumes "same_but_exec tw tw'"
    and "\<And>q v. sane_job ctx deadline q \<Longrightarrow> tw_exec tw' q v = tw_exec tw q v"
  shows "execute tw' ctx ws deadline callId t a w = execute tw ctx ws deadline callId t a w"
proof -
  have "listFiles tw' ws v = listFiles tw ws v" "readFile tw' ws a v = readFile tw ws a v" for v
    unfolding listFiles_def renderListing_def readFile_def same_wrap[OF assms(1)] same_but_execD[OF assms(1)] by simp_all
  then have "dispatch tw' ctx ws deadline t a v = dispatch tw ctx ws deadline t a v" for v
    by (simp add: dispatch_def same_run[OF assms] same_runTests[OF assms] split: tool.split)
  then show ?thesis by (simp add: execute_def same_but_execD[OF assms(1)])
qed

theorem execute_sane_jobs_witness:
  "execute strict_world sample_ctx [] (Some 300000) ''tc-1'' RunTests [(''group'', JNull)] 0 =
   execute sample_world sample_ctx [] (Some 300000) ''tc-1'' RunTests [(''group'', JNull)] 0"
  by (rule execute_sane_jobs) (simp_all add: same_but_exec_def strict_world_def sample_world_def sane_job_def)

text \<open>
  What a call records is bounded and consistent: its text is at most 8 KB, a successful \<open>run_tests\<close> or
  \<open>run\<close> call and only such a call leaves a structured result, of its own kind and under its own id.
\<close>

theorem execute_record:
  assumes "execute tw ctx ws deadline callId t a w = ((tc, st), w')" and "\<And>x. length (tw_render tw x) < 10 ^ 54"
  shows "length (tc_output tc) \<le> 8192 \<and> tc_structuredRef tc = map_option (\<lambda>_. callId) st \<and>
     (case st of
        None \<Rightarrow> tc_status tc \<noteq> CallOk \<or> t = ReadFile \<or> t = ListFiles
      | Some (RunTestsResult _ _ _ _) \<Rightarrow> t = RunTests \<and> tc_status tc = CallOk
      | Some (RunResult _ _ _ _) \<Rightarrow> t = Run \<and> tc_status tc = CallOk)"
proof -
  have "length (cut_output (tw_render tw x)) \<le> 8192" for x
    using truncateOutput_length[OF _ assms(2), of 8192 x] by (simp add: cut_output_def TOOL_OUTPUT_MAX_BYTES_def)
  then show ?thesis
    using assms(1) dispatch_ok[of t tw ctx ws deadline a "snd (tw_now tw w)"]
    by (cases t) (auto simp: execute_def Let_def dispatched_ok_def split: option.splits structured.splits)
qed

theorem execute_record_witness:
  "\<exists>tc st w'. execute sample_world sample_ctx [] (Some 300000) ''tc-1'' RunTests [(''group'', JNull)] 0 = ((tc, st), w') \<and>
     length (tc_output tc) \<le> 8192 \<and> tc_structuredRef tc = map_option (\<lambda>_. ''tc-1'') st"
proof -
  obtain tc st w' where e: "execute sample_world sample_ctx [] (Some 300000) ''tc-1'' RunTests [(''group'', JNull)] 0 = ((tc, st), w')"
    by (metis prod.exhaust)
  from execute_record[OF e] show ?thesis using e by (simp add: sample_world_def)
qed

text \<open>
  An investigation starts only when every test of the bundle can be run: when \<open>programProblem\<close> finds
  nothing, the submission has a line of code, every group has at most 200 cases, and the sandbox contract
  accepts every chunk of the bundle, so that \<open>run_tests\<close> on a group never answers that it is too large.
\<close>

theorem programProblem_clear:
  assumes "programProblem issue_of ctx = None"
  shows "(\<exists>f. f \<in> set (ic_files ctx) \<and> js_trim (snd f) \<noteq> []) \<and> length (asked_cases ctx (Some g)) \<le> 200 \<and>
     (ic_cases ctx = [] \<or> (\<forall>cs \<in> set (chunks_of 200 (map test_job_case (ic_cases ctx))). issue_of (probe_request ctx cs) = None))"
proof -
  have find: "List.find (\<lambda>g. snd g > MAX_CASES_PER_JOB) (group_counts (ic_cases ctx)) = None"
    using assms by (auto simp: programProblem_def split: if_splits option.splits)
  have len: "length (asked_cases ctx (Some g)) \<le> 200"
  proof (cases "g \<in> tk_group ` set (ic_cases ctx)")
    case True
    then have "(g, length (filter (\<lambda>c. tk_group c = g) (ic_cases ctx))) \<in> set (group_counts (ic_cases ctx))"
      using group_counts_spec[of "ic_cases ctx" g] by (auto intro: map_of_SomeD)
    with find have "\<not> 200 < length (filter (\<lambda>c. tk_group c = g) (ic_cases ctx))"
      by (fastforce simp: find_None_iff MAX_CASES_PER_JOB_def)
    then show ?thesis by (simp add: asked_cases_def)
  next
    case False
    then have "asked_cases ctx (Some g) = []" by (auto simp: asked_cases_def filter_empty_conv)
    then show ?thesis by simp
  qed
  have code: "\<exists>f. f \<in> set (ic_files ctx) \<and> js_trim (snd f) \<noteq> []"
  proof -
    have "\<not> list_all (\<lambda>f. js_trim (snd f) = []) (ic_files ctx)"
      using assms by (simp add: programProblem_def split: if_splits)
    then show ?thesis unfolding list_all_iff by blast
  qed
  moreover have "ic_cases ctx \<noteq> [] \<Longrightarrow> \<forall>cs \<in> set (chunks_of 200 (map test_job_case (ic_cases ctx))). issue_of (probe_request ctx cs) = None"
    using assms find
    by (auto simp: programProblem_def Let_def MAX_CASES_PER_JOB_def map_filter_Nil_iff split: if_splits list.splits)
  ultimately show ?thesis using len by blast
qed

theorem programProblem_clear_witness:
  "(\<exists>f. f \<in> set (ic_files sample_ctx) \<and> js_trim (snd f) \<noteq> []) \<and> length (asked_cases sample_ctx (Some ''g'')) \<le> 200"
proof -
  have "programProblem (\<lambda>_. None) sample_ctx = None" by code_simp
  from programProblem_clear[OF this, of "''g''"] show ?thesis by blast
qed

end
