(* ===== verification/Dedup.thy ===== *)
theory Dedup
  imports Investigation_Types "HOL-Library.Multiset"
begin

text \<open>
  The guard against repeated tool calls: \<open>grading/investigator/canonical-json.ts\<close> and
  \<open>investigator/dedup.ts\<close>.

  A signature is a tool with the canonical form of its arguments: \<open>JSON.stringify\<close> maps equal canonical values to equal
  texts and different ones to different texts, so the value stands for its text. The map of counters is
  the function \<open>dg_counts\<close> (an absent key reads 0). \<open>admit\<close> is one step of the guard; the facts below are
  about any sequence of requests.
\<close>

section \<open>Canonical JSON\<close>

definition entry_le :: "string \<times> 'a \<Rightarrow> string \<times> 'a \<Rightarrow> bool" where
  "entry_le a b = str_le (fst a) (fst b)"

primrec canonical :: "json \<Rightarrow> json" where
  "canonical JNull = JNull"
| "canonical (JBool b) = JBool b"
| "canonical (JNum n) = JNum n"
| "canonical (JStr s) = JStr s"
| "canonical (JArr xs) = JArr (map canonical xs)"
| "canonical (JObj kvs) = JObj (js_sort entry_le (map (map_prod id canonical) kvs))"

text \<open>Objects have each key once, at every depth.\<close>

primrec json_ok :: "json \<Rightarrow> bool" where
  "json_ok JNull = True"
| "json_ok (JBool b) = True"
| "json_ok (JNum n) = True"
| "json_ok (JStr s) = True"
| "json_ok (JArr xs) = (\<forall>x \<in> set (map json_ok xs). x)"
| "json_ok (JObj kvs) = (distinct (map fst kvs) \<and> (\<forall>x \<in> snd ` set (map (map_prod id json_ok) kvs). x))"

lemma total_preorder_entry_le [simp]: "total_preorder entry_le"
  using str_le_total str_le_trans unfolding total_preorder_def entry_le_def by blast

lemma antisymp_entry_le: "distinct (map fst kvs) \<Longrightarrow> antisymp_on (set kvs) entry_le"
proof (rule antisymp_onI)
  fix x y assume "distinct (map fst kvs)" "x \<in> set kvs" "y \<in> set kvs" "entry_le x y" "entry_le y x"
  then have "fst x = fst y" by (simp add: entry_le_def str_le_antisym)
  moreover have "inj_on fst (set kvs)" using \<open>distinct (map fst kvs)\<close> by (simp add: distinct_map)
  ultimately show "x = y" using \<open>x \<in> set kvs\<close> \<open>y \<in> set kvs\<close> by (simp add: inj_on_eq_iff)
qed

lemma distinct_map_fst: "distinct (map fst xs) \<Longrightarrow> distinct xs"
  by (simp add: distinct_map)

lemma sort_entries_unique:
  assumes "distinct (map fst xs)" and "mset xs = mset ys"
  shows "js_sort entry_le xs = js_sort entry_le ys"
proof (rule sorted_wrt_unique[where le = entry_le])
  have "mset (map fst xs) = mset (map fst ys)" using assms(2) by simp
  then have d: "distinct (map fst ys)" using assms(1) mset_eq_imp_distinct_iff by blast
  show "distinct (js_sort entry_le xs)" "distinct (js_sort entry_le ys)"
    using distinct_map_fst[OF assms(1)] distinct_map_fst[OF d] by simp_all
  show "set (js_sort entry_le xs) = set (js_sort entry_le ys)" using mset_eq_setD[OF assms(2)] by simp
  show "antisymp_on (set (js_sort entry_le xs)) entry_le" using antisymp_entry_le[OF assms(1)] by simp
qed (simp_all add: sorted_js_sort)

lemma map_fst_canonical: "map fst (map (map_prod id f) kvs) = map fst kvs"
  by (simp add: o_def)

text \<open>The order in which a model writes the fields of its arguments does not change the signature.\<close>

lemma canonical_order:
  assumes "distinct (map fst kvs)" and "mset kvs = mset kvs'"
  shows "canonical (JObj kvs) = canonical (JObj kvs')"
proof -
  have "distinct (map fst (map (map_prod id canonical) kvs))" using assms(1) by (simp only: map_fst_canonical)
  moreover have "mset (map (map_prod id canonical) kvs) = mset (map (map_prod id canonical) kvs')"
    using assms(2) by simp
  ultimately show ?thesis by (simp add: sort_entries_unique)
qed

lemma js_insert_head: "(\<forall>y \<in> set ys. le x y) \<Longrightarrow> js_insert le x ys = x # ys"
  by (cases ys) simp_all

lemma js_sort_sorted: "sorted_wrt le xs \<Longrightarrow> js_sort le xs = xs"
  by (induction xs) (simp_all add: js_insert_head)

lemma js_insert_map: "(\<And>x y. le (f x) (f y) = le' x y) \<Longrightarrow> js_insert le (f x) (map f xs) = map f (js_insert le' x xs)"
  by (induction xs) auto

lemma js_sort_map: "(\<And>x y. le (f x) (f y) = le' x y) \<Longrightarrow> js_sort le (map f xs) = map f (js_sort le' xs)"
  by (induction xs) (simp_all add: js_insert_map)

lemma canonical_idem: "canonical (canonical v) = canonical v"
proof (induction v)
  case (JObj kvs)
  have "map (map_prod id canonical) (map (map_prod id canonical) kvs) = map (map_prod id canonical) kvs"
    using JObj by (auto simp: prod_set_defs intro!: map_cong)
  then have "map (map_prod id canonical) (js_sort entry_le (map (map_prod id canonical) kvs)) =
      js_sort entry_le (map (map_prod id canonical) kvs)"
    by (subst js_sort_map[where le = entry_le, symmetric]) (simp_all add: entry_le_def del: map_map)
  then show ?case by (simp add: js_sort_sorted sorted_js_sort del: map_map)
qed simp_all

section \<open>The guard\<close>

fun DUPLICATE_LIMITS :: "tool \<Rightarrow> nat" where
  "DUPLICATE_LIMITS Run = 8"
| "DUPLICATE_LIMITS ReadFile = 4"
| "DUPLICATE_LIMITS RunTests = 2"
| "DUPLICATE_LIMITS ListFiles = 2"

definition MAX_CONSECUTIVE_BLOCKED :: nat where
  "MAX_CONSECUTIVE_BLOCKED = 3"

type_synonym signature = "tool \<times> json"

definition signatureOf :: "tool \<Rightarrow> args \<Rightarrow> signature" where
  "signatureOf t a = (t, canonical (JObj a))"

record guard =
  dg_counts :: "signature \<Rightarrow> nat"
  dg_blocked :: nat

definition new_guard :: guard where
  "new_guard = \<lparr>dg_counts = (\<lambda>_. 0), dg_blocked = 0\<rparr>"

definition admit :: "tool \<Rightarrow> args \<Rightarrow> guard \<Rightarrow> bool \<times> guard" where
  "admit t a g =
     (let k = signatureOf t a; used = dg_counts g k in
      if used \<ge> DUPLICATE_LIMITS t then (False, g\<lparr>dg_blocked := dg_blocked g + 1\<rparr>)
      else (True, g\<lparr>dg_counts := (dg_counts g)(k := used + 1), dg_blocked := 0\<rparr>))"

definition stuck :: "guard \<Rightarrow> bool" where
  "stuck g \<longleftrightarrow> dg_blocked g \<ge> MAX_CONSECUTIVE_BLOCKED"

section \<open>Sequences of requests\<close>

text \<open>The answers of the guard to a sequence of requests, with the guard at the end.\<close>

primrec admit_all :: "(tool \<times> args) list \<Rightarrow> guard \<Rightarrow> bool list \<times> guard" where
  "admit_all [] g = ([], g)"
| "admit_all (r # rs) g =
     (let x = admit (fst r) (snd r) g; y = admit_all rs (snd x) in (fst x # fst y, snd y))"

definition admitted_count :: "signature \<Rightarrow> (tool \<times> args) list \<Rightarrow> bool list \<Rightarrow> nat" where
  "admitted_count k rs bs = length (filter (\<lambda>(r, b). b \<and> signatureOf (fst r) (snd r) = k) (zip rs bs))"

lemma length_admit_all [simp]: "length (fst (admit_all rs g)) = length rs"
  by (induction rs arbitrary: g) (simp_all add: Let_def)

lemma admit_counts:
  "dg_counts (snd (admit t a g)) k = dg_counts g k + (if fst (admit t a g) \<and> signatureOf t a = k then 1 else 0)"
  by (auto simp: admit_def Let_def)

lemma admit_all_counts:
  "dg_counts (snd (admit_all rs g)) k = dg_counts g k + admitted_count k rs (fst (admit_all rs g))"
  by (induction rs arbitrary: g) (simp_all add: admitted_count_def admit_counts Let_def)

definition guard_ok :: "guard \<Rightarrow> bool" where
  "guard_ok g \<longleftrightarrow> (\<forall>k. dg_counts g k \<le> DUPLICATE_LIMITS (fst k))"

lemma guard_ok_new: "guard_ok new_guard"
  by (simp add: guard_ok_def new_guard_def)

lemma guard_ok_admit: "guard_ok g \<Longrightarrow> guard_ok (snd (admit t a g))"
  by (auto simp: guard_ok_def admit_def Let_def signatureOf_def not_le Suc_le_eq)

lemma guard_ok_admit_all: "guard_ok g \<Longrightarrow> guard_ok (snd (admit_all rs g))"
  by (induction rs arbitrary: g) (simp_all add: Let_def guard_ok_admit)

text \<open>The answer depends only on how often the same signature was admitted before.\<close>

lemma admit_iff: "fst (admit t a g) \<longleftrightarrow> dg_counts g (signatureOf t a) < DUPLICATE_LIMITS t"
  by (auto simp: admit_def Let_def)

text \<open>The guard is stuck exactly when the last three requests were refused.\<close>

lemma admit_all_append:
  "admit_all (rs @ ss) g = (fst (admit_all rs g) @ fst (admit_all ss (snd (admit_all rs g))), snd (admit_all ss (snd (admit_all rs g))))"
  by (induction rs arbitrary: g) (simp_all add: Let_def)

lemma admit_all_blocked:
  "dg_blocked (snd (admit_all rs new_guard)) = length (takeWhile Not (rev (fst (admit_all rs new_guard))))"
proof (induction rs rule: rev_induct)
  case Nil
  then show ?case by (simp add: new_guard_def)
next
  case (snoc r rs)
  obtain t a where r: "r = (t, a)" by (cases r)
  let ?g = "snd (admit_all rs new_guard)"
  show ?case
  proof (cases "fst (admit t a ?g)")
    case True
    then have "dg_blocked (snd (admit t a ?g)) = 0" by (auto simp: admit_def Let_def split: if_splits)
    with True show ?thesis by (simp add: r admit_all_append Let_def)
  next
    case False
    then have "dg_blocked (snd (admit t a ?g)) = dg_blocked ?g + 1" by (auto simp: admit_def Let_def split: if_splits)
    with False snoc show ?thesis by (simp add: r admit_all_append Let_def)
  qed
qed

section \<open>What a loop that asks the guard may rely on\<close>

text \<open>
  A guard of requests: a request is admitted while its signature was taken less often than its cap. A log of
  requests with the answer to each is consistent with a guard when the guard counts what the log admitted.
\<close>

locale request_guard =
  fixes signature :: "'r \<Rightarrow> 'k" and ask_guard :: "'r \<Rightarrow> 'g \<Rightarrow> bool \<times> 'g" and used :: "'g \<Rightarrow> 'k \<Rightarrow> nat"
    and cap :: "'k \<Rightarrow> nat" and fresh :: 'g
  assumes used_fresh: "used fresh k = 0"
    and answer_iff: "fst (ask_guard r g) \<longleftrightarrow> used g (signature r) < cap (signature r)"
    and used_after: "used (snd (ask_guard r g)) k = used g k + (if fst (ask_guard r g) \<and> signature r = k then 1 else 0)"
begin

definition taken :: "('r \<times> bool) list \<Rightarrow> 'k \<Rightarrow> nat" where
  "taken requests k = length (filter (\<lambda>(r, b). b \<and> signature r = k) requests)"

definition consistent :: "('r \<times> bool) list \<Rightarrow> 'g \<Rightarrow> bool" where
  "consistent requests g \<longleftrightarrow> (\<forall>k. taken requests k = used g k \<and> used g k \<le> cap k)"

lemma consistent_fresh: "consistent [] fresh"
  by (simp add: consistent_def taken_def used_fresh)

lemma consistent_skip: "consistent requests g \<Longrightarrow> consistent (requests @ [(r, False)]) g"
  by (simp add: consistent_def taken_def)

lemma consistent_ask:
  "consistent requests g \<Longrightarrow> consistent (requests @ [(r, fst (ask_guard r g))]) (snd (ask_guard r g))"
  using answer_iff[of r g] by (auto simp: consistent_def taken_def used_after Suc_le_eq)

lemma consistent_cap: "consistent requests g \<Longrightarrow> taken requests k \<le> cap k"
  unfolding consistent_def by metis

end

interpretation dedup: request_guard "\<lambda>r. signatureOf (fst r) (snd r)" "\<lambda>r. admit (fst r) (snd r)" dg_counts
    "\<lambda>k. DUPLICATE_LIMITS (fst k)" new_guard
  by unfold_locales (simp_all add: new_guard_def admit_iff admit_counts, simp add: signatureOf_def)

end
