(* ===== verification/VerdictReader.thy ===== *)
theory VerdictReader
  imports Envelope Dedup
begin

text \<open>
  Reading one verdict out of a model's reply: \<open>grading/investigator/verdict-reader.ts\<close>.

  Replies are lists of code units (\<open>utext\<close>). \<open>JSON.parse\<close> is the argument \<open>parse\<close> (\<open>None\<close> when it
  throws). The scans keep the state the code keeps: the depth of braces, whether a JSON string is open,
  and whether the last character was a backslash.
\<close>

abbreviation (input) LT :: nat where "LT \<equiv> 60"
abbreviation (input) GT :: nat where "GT \<equiv> 62"
abbreviation (input) SLASH :: nat where "SLASH \<equiv> 47"
abbreviation (input) BACKSLASH :: nat where "BACKSLASH \<equiv> 92"
abbreviation (input) QUOTE :: nat where "QUOTE \<equiv> 34"
abbreviation (input) LBRACE :: nat where "LBRACE \<equiv> 123"
abbreviation (input) RBRACE :: nat where "RBRACE \<equiv> 125"

section \<open>Reasoning tags\<close>

definition is_word :: "nat \<Rightarrow> bool" where
  "is_word c \<longleftrightarrow> (48 \<le> c \<and> c \<le> 57) \<or> (65 \<le> c \<and> c \<le> 90) \<or> (97 \<le> c \<and> c \<le> 122) \<or> c = 95"

definition reasoning_tags :: "utext list" where
  "reasoning_tags = [units ''think'', units ''thinking'', units ''reasoning'']"

text \<open>\<open>name\b[^>]*>\<close> at the front of a text: what follows the tag.\<close>

definition tag_rest :: "utext \<Rightarrow> utext \<Rightarrow> utext option" where
  "tag_rest name s =
     (case scan_lit name s of
        None \<Rightarrow> None
      | Some r \<Rightarrow>
          if r \<noteq> [] \<and> is_word (hd r) then None
          else (case dropWhile (\<lambda>c. c \<noteq> GT) r of [] \<Rightarrow> None | _ # after \<Rightarrow> Some after))"

fun first_tag :: "utext list \<Rightarrow> utext \<Rightarrow> (utext \<times> utext) option" where
  "first_tag [] s = None"
| "first_tag (n # ns) s = (case tag_rest n s of Some after \<Rightarrow> Some (n, after) | None \<Rightarrow> first_tag ns s)"

definition open_tag_at :: "utext \<Rightarrow> (utext \<times> utext) option" where
  "open_tag_at s = (case s of c # cs \<Rightarrow> if c = LT then first_tag reasoning_tags cs else None | [] \<Rightarrow> None)"

text \<open>\<open></name\s*>\<close> anywhere: what follows its first occurrence.\<close>

definition close_tag_at :: "utext \<Rightarrow> utext \<Rightarrow> utext option" where
  "close_tag_at name s =
     (case scan_lit (LT # SLASH # name) s of
        None \<Rightarrow> None
      | Some r \<Rightarrow> (case skip_ws r of c # after \<Rightarrow> if c = GT then Some after else None | [] \<Rightarrow> None))"

fun after_close :: "utext \<Rightarrow> utext \<Rightarrow> utext option" where
  "after_close name [] = None"
| "after_close name (c # cs) = (case close_tag_at name (c # cs) of Some after \<Rightarrow> Some after | None \<Rightarrow> after_close name cs)"

lemma scan_lit_length: "scan_lit p s = Some r \<Longrightarrow> length r \<le> length s"
  by (induction p s rule: scan_lit.induct) (auto split: if_splits)

lemma tag_rest_length: "tag_rest n s = Some r \<Longrightarrow> length r < length s"
proof -
  assume "tag_rest n s = Some r"
  then obtain t c where t: "scan_lit n s = Some t" "dropWhile (\<lambda>c. c \<noteq> GT) t = c # r"
    by (auto simp: tag_rest_def split: option.splits if_splits list.splits)
  have "length (c # r) \<le> length t" unfolding t(2)[symmetric] by (rule length_dropWhile_le)
  with scan_lit_length[OF t(1)] show ?thesis by simp
qed

lemma open_tag_length: "open_tag_at s = Some (n, r) \<Longrightarrow> length r < length s"
proof -
  have "first_tag ns t = Some (n, r) \<Longrightarrow> length r < length t" for ns t
    by (induction ns) (auto split: option.splits dest: tag_rest_length)
  moreover assume "open_tag_at s = Some (n, r)"
  ultimately show ?thesis by (fastforce simp: open_tag_at_def split: list.splits if_splits)
qed

lemma close_tag_length: "close_tag_at n s = Some r \<Longrightarrow> length r \<le> length s"
proof -
  assume "close_tag_at n s = Some r"
  then obtain t c where t: "scan_lit (LT # SLASH # n) s = Some t" "skip_ws t = c # r"
    by (auto simp: close_tag_at_def split: option.splits if_splits list.splits)
  have "length (c # r) \<le> length t" unfolding t(2)[symmetric] skip_ws_def by (rule length_dropWhile_le)
  with scan_lit_length[OF t(1)] show ?thesis by simp
qed

lemma after_close_length: "after_close n s = Some r \<Longrightarrow> length r \<le> length s"
proof (induction s)
  case (Cons c cs)
  then show ?case by (auto split: option.splits dest: close_tag_length)
qed simp

section \<open>stripReasoning\<close>

text \<open>The flags of the JSON string scanner after one more character.\<close>

definition string_step :: "bool \<Rightarrow> nat \<Rightarrow> bool \<times> bool" where
  "string_step escaped c =
     (if escaped then (True, False) else if c = BACKSLASH then (True, True) else (c \<noteq> QUOTE, False))"

definition depth_step :: "nat \<Rightarrow> nat \<Rightarrow> nat" where
  "depth_step depth c = (if c = LBRACE then depth + 1 else if c = RBRACE then depth - 1 else depth)"

function strip :: "nat \<Rightarrow> bool \<Rightarrow> bool \<Rightarrow> utext \<Rightarrow> utext" where
  "strip depth inString escaped [] = []"
| "strip depth True escaped (c # cs) =
     c # strip depth (fst (string_step escaped c)) (snd (string_step escaped c)) cs"
| "strip depth False escaped (c # cs) =
     (case (if c = LT \<and> depth = 0 then open_tag_at (c # cs) else None) of
        Some (name, after) \<Rightarrow> (case after_close name after of None \<Rightarrow> [] | Some r \<Rightarrow> strip depth False escaped r)
      | None \<Rightarrow>
          if c = QUOTE \<and> depth > 0 then c # strip depth True escaped cs
          else c # strip (depth_step depth c) False escaped cs)"
  by pat_completeness auto
termination
  by (relation "measure (\<lambda>(d, s, e, cs). length cs)")
    (auto dest!: open_tag_length after_close_length split: if_splits)

definition stripReasoning :: "utext \<Rightarrow> utext" where
  "stripReasoning content = strip 0 False False content"

section \<open>topLevelObjects\<close>

text \<open>\<open>acc\<close> holds the characters since \<open>start\<close>, reversed; it is empty outside objects.\<close>

fun objects :: "nat \<Rightarrow> bool \<Rightarrow> bool \<Rightarrow> utext \<Rightarrow> utext \<Rightarrow> utext list" where
  "objects depth inString escaped acc [] = []"
| "objects depth True escaped acc (c # cs) =
     objects depth (fst (string_step escaped c)) (snd (string_step escaped c)) (c # acc) cs"
| "objects depth False escaped acc (c # cs) =
     (if c = QUOTE \<and> depth > 0 then objects depth True escaped (c # acc) cs
      else if c = LBRACE then objects (depth + 1) False escaped (if depth = 0 then [c] else c # acc) cs
      else if c = RBRACE \<and> depth > 0 then
        (if depth = 1 then rev (c # acc) # objects 0 False escaped [] cs
         else objects (depth - 1) False escaped (c # acc) cs)
      else objects depth False escaped (if depth = 0 then [] else c # acc) cs)"

definition topLevelObjects :: "utext \<Rightarrow> utext list" where
  "topLevelObjects t = objects 0 False False [] t"

section \<open>readSingleJson\<close>

datatype read_result = ReadOk json | ReadEmpty | ReadUnparseable | ReadConflicting

definition readSingleJson :: "(utext \<Rightarrow> json option) \<Rightarrow> utext \<Rightarrow> read_result" where
  "readSingleJson parse content =
     (let t = trim_by is_ws (stripReasoning content) in
      if t = [] then ReadEmpty
      else case parse t of
          Some v \<Rightarrow> ReadOk v
        | None \<Rightarrow>
            (case List.map_filter parse (topLevelObjects t) of
               [] \<Rightarrow> ReadUnparseable
             | p # ps \<Rightarrow>
                 if list_ex (\<lambda>q. canonical q \<noteq> canonical p) (p # ps) then ReadConflicting else ReadOk p))"

section \<open>What the reader guarantees\<close>

lemma open_tag_LT: "open_tag_at s \<noteq> None \<Longrightarrow> \<exists>cs. s = LT # cs"
  by (auto simp: open_tag_at_def split: list.splits if_splits)

text \<open>Prose before a tag is kept; an opening tag without its closing tag cuts the reply there.\<close>

lemma strip_prose:
  "list_all (\<lambda>c. c \<noteq> LT \<and> c \<noteq> LBRACE \<and> c \<noteq> RBRACE) p \<Longrightarrow> strip 0 False e (p @ s) = p @ strip 0 False e s"
  by (induction p) (simp_all add: depth_step_def)

lemma strip_unclosed:
  assumes "open_tag_at s = Some (name, after)" and "after_close name after = None"
  shows "strip 0 False e s = []"
proof -
  obtain cs where "s = LT # cs" using open_tag_LT[of s] assms(1) by auto
  with assms show ?thesis by simp
qed

lemma strip_closed:
  assumes "open_tag_at s = Some (name, after)" and "after_close name after = Some r"
  shows "strip 0 False e s = strip 0 False e r"
proof -
  obtain cs where "s = LT # cs" using open_tag_LT[of s] assms(1) by auto
  with assms show ?thesis by simp
qed

text \<open>Nothing is invented: the result is a subsequence of the reply.\<close>

lemma scan_lit_suffix: "scan_lit p s = Some r \<Longrightarrow> \<exists>a. s = a @ r"
  by (induction p s rule: scan_lit.induct) (auto split: if_splits)

lemma dropWhile_suffix: "\<exists>a. s = a @ dropWhile P s"
  by (metis takeWhile_dropWhile_id)

lemma tag_rest_suffix: "tag_rest n s = Some r \<Longrightarrow> \<exists>a. s = a @ r"
proof -
  assume "tag_rest n s = Some r"
  then obtain t c where t: "scan_lit n s = Some t" "dropWhile (\<lambda>c. c \<noteq> GT) t = c # r"
    by (auto simp: tag_rest_def split: option.splits if_splits list.splits)
  from scan_lit_suffix[OF t(1)] dropWhile_suffix[of t "\<lambda>c. c \<noteq> GT"] t(2) obtain a b where "s = a @ b @ c # r" by metis
  then have "s = (a @ b @ [c]) @ r" by simp
  then show ?thesis by blast
qed

lemma open_tag_suffix: "open_tag_at s = Some (n, r) \<Longrightarrow> \<exists>a. s = a @ r"
proof -
  have ft: "first_tag ns t = Some (n, r) \<Longrightarrow> \<exists>a. t = a @ r" for ns t
    by (induction ns) (auto split: option.splits dest: tag_rest_suffix)
  assume "open_tag_at s = Some (n, r)"
  then obtain cs where "s = LT # cs" "first_tag reasoning_tags cs = Some (n, r)"
    by (auto simp: open_tag_at_def split: list.splits if_splits)
  with ft[of reasoning_tags cs] show ?thesis by (metis append_Cons)
qed

lemma close_tag_suffix: "close_tag_at n s = Some r \<Longrightarrow> \<exists>a. s = a @ r"
proof -
  assume "close_tag_at n s = Some r"
  then obtain t c where t: "scan_lit (LT # SLASH # n) s = Some t" "skip_ws t = c # r"
    by (auto simp: close_tag_at_def split: option.splits if_splits list.splits)
  from scan_lit_suffix[OF t(1)] dropWhile_suffix[of t is_ws] t(2) obtain a b where "s = a @ b @ c # r"
    unfolding skip_ws_def by metis
  then have "s = (a @ b @ [c]) @ r" by simp
  then show ?thesis by blast
qed

lemma after_close_suffix: "after_close n s = Some r \<Longrightarrow> \<exists>a. s = a @ r"
proof (induction s)
  case (Cons c cs)
  show ?case
  proof (cases "close_tag_at n (c # cs)")
    case None
    with Cons obtain a where "cs = a @ r" by auto
    then have "c # cs = (c # a) @ r" by simp
    then show ?thesis by blast
  next
    case (Some x)
    with Cons.prems close_tag_suffix[OF Some] show ?thesis by simp
  qed
qed simp

lemma strip_subseq: "subseq (strip d s e t) t"
proof (induction d s e t rule: strip.induct)
  case (2 depth escaped c cs)
  then show ?case by simp
next
  case (3 depth escaped c cs)
  show ?case
  proof (cases "if c = LT \<and> depth = 0 then open_tag_at (c # cs) else None")
    case None
    show ?thesis
    proof (cases "c = QUOTE \<and> depth > 0")
      case True
      with None "3.IH"(1)[OF None True] show ?thesis by simp
    next
      case False
      with None "3.IH"(2)[OF None False] show ?thesis by auto
    qed
  next
    case (Some p)
    obtain name after where p: "p = (name, after)" by (cases p)
    with Some have ot: "open_tag_at (c # cs) = Some (name, after)" by (simp split: if_splits)
    from open_tag_suffix[OF ot] obtain a where a: "c # cs = a @ after" by blast
    show ?thesis
    proof (cases "after_close name after")
      case None
      with Some p show ?thesis by simp
    next
      case (Some r)
      note ac = this
      from after_close_suffix[OF Some] obtain b where b: "after = b @ r" by blast
      have "subseq (strip depth False escaped r) r"
        using "3.IH"(3)[OF \<open>(if c = LT \<and> depth = 0 then open_tag_at (c # cs) else None) = Some p\<close> p[symmetric] ac] .
      then have "subseq (strip depth False escaped r) (c # cs)" unfolding a b
        by (simp add: list_emb_append2)
      with \<open>(if c = LT \<and> depth = 0 then open_tag_at (c # cs) else None) = Some p\<close> p ac show ?thesis by simp
    qed
  qed
qed simp

text \<open>A tag inside a JSON string is content of the object, not reasoning.\<close>

lemma strip_string:
  "list_all (\<lambda>c. c \<noteq> QUOTE \<and> c \<noteq> BACKSLASH) q \<Longrightarrow> strip d True False (q @ QUOTE # s) = q @ QUOTE # strip d False False s"
  by (induction q) (simp_all add: string_step_def)

text \<open>Every object found starts and ends with its braces and stands in the text.\<close>

lemma objects_infix:
  "o1 \<in> set (objects d s e acc t) \<Longrightarrow> (d = 0 \<longleftrightarrow> acc = []) \<Longrightarrow> (acc \<noteq> [] \<longrightarrow> last acc = LBRACE) \<Longrightarrow> (d = 0 \<longrightarrow> \<not> s) \<Longrightarrow>
   (\<exists>m. o1 = LBRACE # m @ [RBRACE]) \<and> (\<exists>a b. rev acc @ t = a @ o1 @ b)"
proof (induction d s e acc t rule: objects.induct)
  case (2 depth escaped acc c cs)
  show ?case
    using 2 by auto
next
  case (3 depth escaped acc c cs)
  let ?goal = "(\<exists>m. o1 = LBRACE # m @ [RBRACE]) \<and> (\<exists>a b. rev acc @ c # cs = a @ o1 @ b)"
  have outside: ?goal if "(\<exists>m. o1 = LBRACE # m @ [RBRACE]) \<and> (\<exists>a b. cs = a @ o1 @ b)"
  proof -
    from that obtain m a b where m: "o1 = LBRACE # m @ [RBRACE]" "cs = a @ o1 @ b" by blast
    then have "rev acc @ c # cs = (rev acc @ c # a) @ o1 @ b" by simp
    with m(1) show ?thesis by blast
  qed
  have inside: ?goal if "(\<exists>m. o1 = LBRACE # m @ [RBRACE]) \<and> (\<exists>a b. rev (c # acc) @ cs = a @ o1 @ b)"
    using that by simp
  have acc: "last (c # acc) = LBRACE" if "depth > 0" using that "3.prems"(2,3) by auto
  consider (q) "c = QUOTE \<and> depth > 0" | (l) "\<not> (c = QUOTE \<and> depth > 0)" "c = LBRACE"
    | (r) "\<not> (c = QUOTE \<and> depth > 0)" "c \<noteq> LBRACE" "c = RBRACE \<and> depth > 0" "depth = 1"
    | (rr) "\<not> (c = QUOTE \<and> depth > 0)" "c \<noteq> LBRACE" "c = RBRACE \<and> depth > 0" "depth \<noteq> 1"
    | (x) "\<not> (c = QUOTE \<and> depth > 0)" "c \<noteq> LBRACE" "\<not> (c = RBRACE \<and> depth > 0)" by argo
  then show ?case
  proof cases
    case q
    then have "o1 \<in> set (objects depth True escaped (c # acc) cs)" using "3.prems"(1) by simp
    from "3.IH"(1)[OF q this] q acc show ?thesis by (intro inside) simp
  next
    case l
    then have o: "o1 \<in> set (objects (depth + 1) False escaped (if depth = 0 then [c] else c # acc) cs)"
      using "3.prems"(1) by (simp split: if_splits)
    show ?thesis
    proof (cases "depth = 0")
      case True
      with "3.IH"(2)[OF l o] l "3.prems"(2) show ?thesis by (intro inside) simp
    next
      case False
      with "3.IH"(2)[OF l o] acc show ?thesis by (intro inside) simp
    qed
  next
    case r
    then have m: "o1 = rev (c # acc) \<or> o1 \<in> set (objects 0 False escaped [] cs)" using "3.prems"(1) by simp
    have ne: "acc \<noteq> []" "last acc = LBRACE" using r "3.prems"(2,3) by auto
    show ?thesis
    proof (cases "o1 = rev (c # acc)")
      case True
      from ne have "acc = butlast acc @ [LBRACE]" by (metis append_butlast_last_id)
      then have "rev acc = LBRACE # rev (butlast acc)" by (metis rev.simps(2) rev_append rev_singleton_conv append_Cons append_Nil rev_rev_ident)
      with True r have "o1 = LBRACE # rev (butlast acc) @ [RBRACE]" "rev acc @ c # cs = [] @ o1 @ cs" by simp_all
      then show ?thesis by blast
    next
      case False
      with m have "o1 \<in> set (objects 0 False escaped [] cs)" by simp
      from "3.IH"(3)[OF r this] show ?thesis by (intro outside) simp
    qed
  next
    case rr
    then have "o1 \<in> set (objects (depth - 1) False escaped (c # acc) cs)" using "3.prems"(1) by simp
    from "3.IH"(4)[OF rr this] rr acc show ?thesis by (intro inside) simp
  next
    case x
    then have o: "o1 \<in> set (objects depth False escaped (if depth = 0 then [] else c # acc) cs)"
      using "3.prems"(1) by (auto split: if_splits)
    show ?thesis
    proof (cases "depth = 0")
      case True
      with "3.IH"(5)[OF x o] show ?thesis by (intro outside) simp
    next
      case False
      with "3.IH"(5)[OF x o] acc show ?thesis by (intro inside) simp
    qed
  qed
qed simp

lemma topLevelObjects_infix:
  "o1 \<in> set (topLevelObjects t) \<Longrightarrow> (\<exists>m. o1 = LBRACE # m @ [RBRACE]) \<and> (\<exists>a b. t = a @ o1 @ b)"
  unfolding topLevelObjects_def by (drule objects_infix) auto

text \<open>A value is returned only when no other object of the reply says something else.\<close>

lemma readSingleJson_ok:
  assumes "readSingleJson parse content = ReadOk v"
  shows "parse (trim_by is_ws (stripReasoning content)) = Some v \<or>
     (\<exists>t \<in> set (topLevelObjects (trim_by is_ws (stripReasoning content))). parse t = Some v) \<and>
     (\<forall>t \<in> set (topLevelObjects (trim_by is_ws (stripReasoning content))). \<forall>w. parse t = Some w \<longrightarrow> canonical w = canonical v)"
proof (cases "parse (trim_by is_ws (stripReasoning content))")
  case None
  with assms obtain ps where ps: "List.map_filter parse (topLevelObjects (trim_by is_ws (stripReasoning content))) = v # ps"
    and eq: "\<not> list_ex (\<lambda>q. canonical q \<noteq> canonical v) (v # ps)"
    by (auto simp: readSingleJson_def Let_def split: if_splits list.splits)
  have "set (v # ps) = {w. \<exists>t \<in> set (topLevelObjects (trim_by is_ws (stripReasoning content))). parse t = Some w}"
    unfolding ps[symmetric] set_map_filter ..
  with eq show ?thesis by (auto simp: list_ex_iff)
next
  case (Some w)
  with assms show ?thesis by (auto simp: readSingleJson_def Let_def split: if_splits)
qed

lemma readSingleJson_conflict:
  assumes "a \<in> set (topLevelObjects (trim_by is_ws (stripReasoning content)))"
    and "b \<in> set (topLevelObjects (trim_by is_ws (stripReasoning content)))"
    and "parse a = Some x" "parse b = Some y" "canonical x \<noteq> canonical y"
    and "parse (trim_by is_ws (stripReasoning content)) = None"
  shows "readSingleJson parse content = ReadConflicting"
proof -
  let ?t = "trim_by is_ws (stripReasoning content)"
  have xy: "x \<in> set (List.map_filter parse (topLevelObjects ?t))" "y \<in> set (List.map_filter parse (topLevelObjects ?t))"
    using assms(1-4) by (auto simp: set_map_filter)
  then obtain p ps where ps: "List.map_filter parse (topLevelObjects ?t) = p # ps"
    by (cases "List.map_filter parse (topLevelObjects ?t)") auto
  have "list_ex (\<lambda>q. canonical q \<noteq> canonical p) (p # ps)"
    using xy assms(5) unfolding ps list_ex_iff by metis
  moreover have "?t \<noteq> []" using assms(1) by (auto simp: topLevelObjects_def)
  ultimately show ?thesis using assms(6) ps unfolding readSingleJson_def Let_def by simp
qed

end
