(* ===== verification/Protocol.thy ===== *)
theory Protocol
  imports Tools VerdictReader
begin

text \<open>
  One turn of the agent as it travels: \<open>parseReply\<close>, its zod schemas and \<open>argsFor\<close> of
  \<open>grading/investigator/protocol.ts\<close>.

  The schemas are functions from JSON to an option: \<open>None\<close> is a failed parse. \<open>JSON.parse\<close> is the argument
  \<open>parse\<close>. \<open>json_of_reply\<close> is the object the loop writes back into the conversation with
  \<open>JSON.stringify\<close>.
\<close>

section \<open>Fields\<close>

definition MAX_CALLS_PER_ROUND :: nat where "MAX_CALLS_PER_ROUND = 5"

definition RULE_KEY_PLACEHOLDER :: string where
  "RULE_KEY_PLACEHOLDER = ''<rule_key trong bang-loi.md>''"

definition TOOL_CALL_ID_PLACEHOLDER :: string where
  "TOOL_CALL_ID_PLACEHOLDER = ''tc-N''"

text \<open>\<open>z.string()\<close>, \<open>z.number().int()\<close>, \<open>.nullish()\<close> and \<open>.nullable()\<close>.\<close>

definition str_of :: "json \<Rightarrow> string option" where
  "str_of j = (case j of JStr s \<Rightarrow> Some s | _ \<Rightarrow> None)"

definition int_of :: "json \<Rightarrow> int option" where
  "int_of j = (case j of JNum x \<Rightarrow> if x = of_int (floor x) then Some (floor x) else None | _ \<Rightarrow> None)"

definition short_str :: "nat \<Rightarrow> nat \<Rightarrow> json \<Rightarrow> string option" where
  "short_str lo hi j = (case j of JStr s \<Rightarrow> if lo \<le> length s \<and> length s \<le> hi then Some s else None | _ \<Rightarrow> None)"

definition nullable :: "(json \<Rightarrow> 'a option) \<Rightarrow> json \<Rightarrow> 'a option option" where
  "nullable f j = (if j = JNull then Some None else map_option Some (f j))"

definition nullish :: "(json \<Rightarrow> 'a option) \<Rightarrow> json option \<Rightarrow> 'a option option" where
  "nullish f v = (case v of None \<Rightarrow> Some None | Some j \<Rightarrow> nullable f j)"

text \<open>\<open>z.array(item).max(n)\<close>\<close>

definition array_of :: "nat \<Rightarrow> (json \<Rightarrow> 'a option) \<Rightarrow> json \<Rightarrow> 'a list option" where
  "array_of n item j = (case j of JArr js \<Rightarrow> if length js \<le> n then those (map item js) else None | _ \<Rightarrow> None)"

definition field :: "args \<Rightarrow> string \<Rightarrow> (json \<Rightarrow> 'a option) \<Rightarrow> 'a option" where
  "field o1 k f = Option.bind (map_of o1 k) f"

section \<open>Calls\<close>

record model_call =
  ml_tool :: tool
  ml_input :: "string option"
  ml_group :: "string option"
  ml_path :: "string option"
  ml_fromLine :: "int option"
  ml_toLine :: "int option"

fun tool_name :: "tool \<Rightarrow> string" where
  "tool_name Run = ''run''"
| "tool_name RunTests = ''run_tests''"
| "tool_name ReadFile = ''read_file''"
| "tool_name ListFiles = ''list_files''"

definition tool_of :: "json \<Rightarrow> tool option" where
  "tool_of j = (case j of JStr s \<Rightarrow> List.find (\<lambda>t. tool_name t = s) [ListFiles, ReadFile, Run, RunTests] | _ \<Rightarrow> None)"

fun NEEDED_FIELD :: "tool \<Rightarrow> string option" where
  "NEEDED_FIELD Run = Some ''input''"
| "NEEDED_FIELD ReadFile = Some ''path''"
| "NEEDED_FIELD _ = None"

definition call_of_json :: "json \<Rightarrow> model_call option" where
  "call_of_json j =
     (case j of
        JObj o1 \<Rightarrow>
          (case (field o1 ''tool'' tool_of, nullish str_of (map_of o1 ''input''), nullish str_of (map_of o1 ''group''),
                 nullish str_of (map_of o1 ''path''), nullish int_of (map_of o1 ''fromLine''), nullish int_of (map_of o1 ''toLine'')) of
             (Some t, Some i, Some g, Some p, Some f, Some l) \<Rightarrow>
               (if (case NEEDED_FIELD t of Some k \<Rightarrow> map_of o1 k = None | None \<Rightarrow> False) then None
                else Some \<lparr>ml_tool = t, ml_input = i, ml_group = g, ml_path = p, ml_fromLine = f, ml_toLine = l\<rparr>)
           | _ \<Rightarrow> None)
      | _ \<Rightarrow> None)"

definition json_str :: "string option \<Rightarrow> json" where
  "json_str v = (case v of None \<Rightarrow> JNull | Some s \<Rightarrow> JStr s)"

definition json_int :: "int option \<Rightarrow> json" where
  "json_int v = (case v of None \<Rightarrow> JNull | Some n \<Rightarrow> JNum (of_int n))"

definition argsFor :: "model_call \<Rightarrow> args" where
  "argsFor c =
     (case ml_tool c of
        Run \<Rightarrow> [(''input'', json_str (ml_input c))]
      | RunTests \<Rightarrow> [(''group'', json_str (ml_group c))]
      | ReadFile \<Rightarrow> [(''path'', json_str (ml_path c)), (''fromLine'', json_int (ml_fromLine c)), (''toLine'', json_int (ml_toLine c))]
      | ListFiles \<Rightarrow> [])"

section \<open>Verdicts\<close>

definition rule_key_of :: "json \<Rightarrow> string option" where
  "rule_key_of j = (case short_str 1 64 j of Some k \<Rightarrow> if k = RULE_KEY_PLACEHOLDER then None else Some k | None \<Rightarrow> None)"

definition call_id_of :: "json \<Rightarrow> string option" where
  "call_id_of j = (case short_str 0 32 j of Some i \<Rightarrow> if i = TOOL_CALL_ID_PLACEHOLDER then None else Some i | None \<Rightarrow> None)"

definition error_of_json :: "json \<Rightarrow> verdict_error option" where
  "error_of_json j =
     (case j of
        JObj o1 \<Rightarrow>
          (case (field o1 ''ruleKey'' rule_key_of, field o1 ''toolCallIds'' (array_of 25 call_id_of),
                 field o1 ''note'' (nullable (short_str 0 500))) of
             (Some k, Some ids, Some note) \<Rightarrow>
               Some \<lparr>ve_ruleKey = k, ve_toolCallIds = ids, ve_note = note,
                     ve_evidence = (case map_of o1 ''evidence'' of None \<Rightarrow> [] | Some e \<Rightarrow> parseEvidenceClaims e)\<rparr>
           | _ \<Rightarrow> None)
      | _ \<Rightarrow> None)"

definition missing_of_json :: "json \<Rightarrow> missing_rule option" where
  "missing_of_json j =
     (case j of
        JObj o1 \<Rightarrow>
          (case (field o1 ''description'' (short_str 1 500), field o1 ''toolCallIds'' (array_of 25 (short_str 0 32))) of
             (Some d, Some ids) \<Rightarrow> Some \<lparr>mr_description = d, mr_toolCallIds = ids\<rparr>
           | _ \<Rightarrow> None)
      | _ \<Rightarrow> None)"

definition injection_of_json :: "json \<Rightarrow> (bool \<times> string option) option" where
  "injection_of_json j =
     (case j of
        JObj o1 \<Rightarrow>
          (case (field o1 ''detected'' (\<lambda>b. case b of JBool b \<Rightarrow> Some b | _ \<Rightarrow> None),
                 field o1 ''excerpt'' (nullable (short_str 0 500))) of
             (Some d, Some e) \<Rightarrow> Some (d, e)
           | _ \<Rightarrow> None)
      | _ \<Rightarrow> None)"

definition verdict_of_json :: "json \<Rightarrow> verdict option" where
  "verdict_of_json j =
     (case j of
        JObj o1 \<Rightarrow>
          (case (field o1 ''errors'' (array_of 50 error_of_json), field o1 ''missingRules'' (array_of 20 missing_of_json),
                 field o1 ''injectionAttempt'' injection_of_json) of
             (Some es, Some ms, Some i) \<Rightarrow>
               Some \<lparr>v_errors = es, v_missingRules = ms, v_injectionDetected = fst i, v_injectionExcerpt = snd i\<rparr>
           | _ \<Rightarrow> None)
      | _ \<Rightarrow> None)"

section \<open>Replies\<close>

text \<open>A conclusion keeps the superfluous \<open>calls\<close> it came with: they are written back into the conversation.\<close>

datatype model_reply = CallTools "model_call list" | FinalVerdict "json list" verdict

definition reply_of_json :: "json \<Rightarrow> model_reply option" where
  "reply_of_json j =
     (case j of
        JObj o1 \<Rightarrow>
          (if map_of o1 ''action'' = Some (JStr ''call'') then
             (case map_of o1 ''calls'' of
                Some (JArr cs) \<Rightarrow>
                  if cs \<noteq> [] \<and> map_of o1 ''verdict'' \<in> {None, Some JNull} then map_option CallTools (those (map call_of_json cs))
                  else None
              | _ \<Rightarrow> None)
           else if map_of o1 ''action'' = Some (JStr ''final'') then
             (case (map_of o1 ''calls'', field o1 ''verdict'' verdict_of_json) of
                (Some (JArr cs), Some v) \<Rightarrow> Some (FinalVerdict cs v)
              | _ \<Rightarrow> None)
           else None)
      | _ \<Rightarrow> None)"

definition parseReply :: "(utext \<Rightarrow> json option) \<Rightarrow> utext \<Rightarrow> model_reply option" where
  "parseReply parse content = (case readSingleJson parse content of ReadOk v \<Rightarrow> reply_of_json v | _ \<Rightarrow> None)"

section \<open>Writing a reply back\<close>

definition json_of_call :: "model_call \<Rightarrow> json" where
  "json_of_call c = JObj [(''tool'', JStr (tool_name (ml_tool c))), (''input'', json_str (ml_input c)),
     (''group'', json_str (ml_group c)), (''path'', json_str (ml_path c)), (''fromLine'', json_int (ml_fromLine c)),
     (''toLine'', json_int (ml_toLine c))]"

definition json_of_claim :: "evidence_claim \<Rightarrow> json" where
  "json_of_claim c = JObj [(''file'', JStr (ec_file c)), (''startLine'', json_int (ec_startLine c)),
     (''endLine'', json_int (ec_endLine c)), (''quote'', JStr (ec_quote c))]"

definition json_of_error :: "verdict_error \<Rightarrow> json" where
  "json_of_error e = JObj [(''ruleKey'', JStr (ve_ruleKey e)), (''toolCallIds'', JArr (map JStr (ve_toolCallIds e))),
     (''note'', json_str (ve_note e)), (''evidence'', JArr (map json_of_claim (ve_evidence e)))]"

definition json_of_verdict :: "verdict \<Rightarrow> json" where
  "json_of_verdict v = JObj [(''errors'', JArr (map json_of_error (v_errors v))),
     (''missingRules'', JArr (map (\<lambda>m. JObj [(''description'', JStr (mr_description m)),
        (''toolCallIds'', JArr (map JStr (mr_toolCallIds m)))]) (v_missingRules v))),
     (''injectionAttempt'', JObj [(''detected'', JBool (v_injectionDetected v)), (''excerpt'', json_str (v_injectionExcerpt v))])]"

fun json_of_reply :: "model_reply \<Rightarrow> json" where
  "json_of_reply (CallTools cs) = JObj [(''action'', JStr ''call''), (''calls'', JArr (map json_of_call cs))]"
| "json_of_reply (FinalVerdict cs v) =
     JObj [(''action'', JStr ''final''), (''calls'', JArr cs), (''verdict'', json_of_verdict v)]"

section \<open>Reading back what was written\<close>

named_theorems wire

lemma those_map_Some: "(\<And>x. x \<in> set xs \<Longrightarrow> f x = Some x) \<Longrightarrow> those (map f xs) = Some xs"
  by (induction xs) simp_all

lemma those_map_inv: "those (map f js) = Some ys \<Longrightarrow> y \<in> set ys \<Longrightarrow> \<exists>j. f j = Some y"
proof (induction js arbitrary: ys)
  case (Cons j js)
  then show ?case by (auto split: option.splits)
qed simp

lemma those_length: "those xs = Some ys \<Longrightarrow> length ys = length xs"
  by (induction xs arbitrary: ys) (auto split: option.splits)

lemma array_of_inv:
  assumes "array_of n item j = Some ys"
  shows "length ys \<le> n \<and> (\<forall>y \<in> set ys. \<exists>j. item j = Some y)"
  using assms
  by (auto simp: array_of_def split: json.splits if_splits dest: those_map_inv) (auto dest: those_length)

text \<open>An array whose items read back reads back.\<close>

lemma array_back:
  "array_of n item j = Some ys \<Longrightarrow> (\<And>k y. item k = Some y \<Longrightarrow> item (enc y) = Some y) \<Longrightarrow>
   array_of n item (JArr (map enc ys)) = Some ys"
  using array_of_inv[of n item j ys] by (auto simp: array_of_def intro!: those_map_Some)

lemma str_back [wire]: "str_of j = Some s \<Longrightarrow> str_of (JStr s) = Some s"
  by (simp add: str_of_def)

lemma nullish_str_back [wire]: "nullish str_of v = Some s \<Longrightarrow> nullish str_of (Some (json_str s)) = Some s"
  by (auto simp: nullish_def nullable_def json_str_def str_of_def split: option.splits if_splits)

lemma nullish_int_back [wire]: "nullish int_of v = Some n \<Longrightarrow> nullish int_of (Some (json_int n)) = Some n"
  by (auto simp: nullish_def nullable_def json_int_def int_of_def split: option.splits if_splits)

lemma short_str_back [wire]: "short_str lo hi j = Some s \<Longrightarrow> short_str lo hi (JStr s) = Some s"
  by (auto simp: short_str_def split: json.splits if_splits)

lemma nullable_short_back [wire]:
  "nullable (short_str lo hi) j = Some s \<Longrightarrow> nullable (short_str lo hi) (json_str s) = Some s"
  by (auto simp: nullable_def json_str_def short_str_def split: json.splits if_splits option.splits)

lemma rule_key_back [wire]: "rule_key_of j = Some k \<Longrightarrow> rule_key_of (JStr k) = Some k"
  by (auto simp: rule_key_of_def wire split: option.splits if_splits)

lemma call_id_back [wire]: "call_id_of j = Some k \<Longrightarrow> call_id_of (JStr k) = Some k"
  by (auto simp: call_id_of_def wire split: option.splits if_splits)

lemma tool_back [wire]: "tool_of (JStr (tool_name t)) = Some t"
  by (cases t) (simp_all add: tool_of_def)

lemma claim_line_back: "claim_line (Some (json_int (claim_line v))) = claim_line v"
  by (auto simp: claim_line_def json_int_def split: option.splits json.splits)

lemma claim_back: "readClaim j = Some c \<Longrightarrow> readClaim (json_of_claim c) = Some c"
  by (auto simp: readClaim_def json_of_claim_def claim_line_back split: json.splits option.splits if_splits)

lemma map_filter_all: "(\<And>x. x \<in> set xs \<Longrightarrow> f (g x) = Some x) \<Longrightarrow> List.map_filter f (map g xs) = xs"
  by (induction xs) (simp_all add: List.map_filter_simps)

lemma claims_back [wire]:
  "parseEvidenceClaims (JArr (map json_of_claim (parseEvidenceClaims j))) = parseEvidenceClaims j"
proof -
  have "readClaim (json_of_claim c) = Some c" if "c \<in> set (parseEvidenceClaims j)" for c
    using that by (auto simp: parseEvidenceClaims_def set_map_filter split: json.splits dest!: in_set_takeD intro: claim_back)
  then have "List.map_filter readClaim (map json_of_claim (parseEvidenceClaims j)) = parseEvidenceClaims j"
    by (rule map_filter_all)
  then show ?thesis using parseEvidenceClaims_bounds[of j] by (simp add: parseEvidenceClaims_def EVIDENCE_MAX_ITEMS_def)
qed

lemma parse_no_claims [wire]: "parseEvidenceClaims (JArr []) = []"
  by (simp add: parseEvidenceClaims_def List.map_filter_simps)

lemma call_of_json_fields:
  assumes "call_of_json j = Some c"
  obtains o1 where "j = JObj o1" "nullish str_of (map_of o1 ''input'') = Some (ml_input c)"
    "nullish str_of (map_of o1 ''group'') = Some (ml_group c)" "nullish str_of (map_of o1 ''path'') = Some (ml_path c)"
    "nullish int_of (map_of o1 ''fromLine'') = Some (ml_fromLine c)" "nullish int_of (map_of o1 ''toLine'') = Some (ml_toLine c)"
  using assms by (auto simp: call_of_json_def split: json.splits option.splits if_splits)

lemma call_back: "call_of_json j = Some c \<Longrightarrow> call_of_json (json_of_call c) = Some c"
proof (erule call_of_json_fields)
  fix o1
  assume "nullish str_of (map_of o1 ''input'') = Some (ml_input c)" "nullish str_of (map_of o1 ''group'') = Some (ml_group c)"
    "nullish str_of (map_of o1 ''path'') = Some (ml_path c)" "nullish int_of (map_of o1 ''fromLine'') = Some (ml_fromLine c)"
    "nullish int_of (map_of o1 ''toLine'') = Some (ml_toLine c)"
  then have b: "nullish str_of (Some (json_str (ml_input c))) = Some (ml_input c)"
    "nullish str_of (Some (json_str (ml_group c))) = Some (ml_group c)"
    "nullish str_of (Some (json_str (ml_path c))) = Some (ml_path c)"
    "nullish int_of (Some (json_int (ml_fromLine c))) = Some (ml_fromLine c)"
    "nullish int_of (Some (json_int (ml_toLine c))) = Some (ml_toLine c)" by (simp_all only: wire)
  show ?thesis
    by (cases "ml_tool c") (simp_all add: call_of_json_def json_of_call_def field_def b tool_back[of Run, simplified]
        tool_back[of RunTests, simplified] tool_back[of ReadFile, simplified] tool_back[of ListFiles, simplified])
qed

lemma array_id_back [wire]: "array_of n call_id_of j = Some ids \<Longrightarrow> array_of n call_id_of (JArr (map JStr ids)) = Some ids"
  by (erule array_back) (rule wire)

lemma array_short_back [wire]:
  "array_of n (short_str lo hi) j = Some ids \<Longrightarrow> array_of n (short_str lo hi) (JArr (map JStr ids)) = Some ids"
  by (erule array_back) (rule wire)

lemma error_back: "error_of_json j = Some e \<Longrightarrow> error_of_json (json_of_error e) = Some e"
  by (auto simp: error_of_json_def json_of_error_def field_def bind_eq_Some_conv wire
      split: json.splits option.splits)

lemma missing_back:
  "missing_of_json j = Some m \<Longrightarrow> missing_of_json (JObj [(''description'', JStr (mr_description m)),
     (''toolCallIds'', JArr (map JStr (mr_toolCallIds m)))]) = Some m"
  by (auto simp: missing_of_json_def field_def bind_eq_Some_conv wire split: json.splits option.splits)

lemma injection_back:
  "injection_of_json j = Some (d, e) \<Longrightarrow> injection_of_json (JObj [(''detected'', JBool d), (''excerpt'', json_str e)]) = Some (d, e)"
  by (auto simp: injection_of_json_def field_def bind_eq_Some_conv wire split: json.splits option.splits)

lemma verdict_back: "verdict_of_json j = Some v \<Longrightarrow> verdict_of_json (json_of_verdict v) = Some v"
proof -
  assume "verdict_of_json j = Some v"
  then obtain o1 je jm ji where j: "j = JObj o1" and e: "map_of o1 ''errors'' = Some je" "array_of 50 error_of_json je = Some (v_errors v)"
    and m: "map_of o1 ''missingRules'' = Some jm" "array_of 20 missing_of_json jm = Some (v_missingRules v)"
    and i: "map_of o1 ''injectionAttempt'' = Some ji" "injection_of_json ji = Some (v_injectionDetected v, v_injectionExcerpt v)"
    by (auto simp: verdict_of_json_def field_def bind_eq_Some_conv split: json.splits option.splits)
  show ?thesis
    using array_back[OF e(2) error_back] array_back[OF m(2) missing_back] injection_back[OF i(2)]
    by (simp add: verdict_of_json_def json_of_verdict_def field_def)
qed

text \<open>
  A reply of the model that was accepted reads back as itself after the loop has written it into the
  conversation: the placeholders, the limits and the defaults of the schemas are stable.
\<close>

theorem reply_roundtrip:
  assumes "reply_of_json j = Some r"
  shows "reply_of_json (json_of_reply r) = Some r"
proof (cases r)
  case (CallTools cs)
  with assms obtain js where js: "js \<noteq> []" "those (map call_of_json js) = Some cs"
    by (auto simp: reply_of_json_def split: json.splits option.splits if_splits)
  have "those (map call_of_json (map json_of_call cs)) = Some cs"
    unfolding map_map by (rule those_map_Some) (use those_map_inv[OF js(2)] call_back in auto)
  moreover have "cs \<noteq> []" using js those_length[OF js(2)] by auto
  ultimately show ?thesis by (simp add: reply_of_json_def CallTools)
next
  case (FinalVerdict cs v)
  with assms obtain jv where "verdict_of_json jv = Some v"
    by (auto simp: reply_of_json_def field_def bind_eq_Some_conv split: json.splits option.splits if_splits)
  then show ?thesis by (simp add: reply_of_json_def FinalVerdict field_def verdict_back)
qed

definition sample_call_reply :: json where
  "sample_call_reply = JObj [(''action'', JStr ''call''), (''calls'', JArr [JObj [(''tool'', JStr ''run_tests'')]])]"

theorem reply_roundtrip_witness:
  "\<exists>r. reply_of_json sample_call_reply = Some r \<and> reply_of_json (json_of_reply r) = Some r"
proof -
  have "reply_of_json sample_call_reply = Some (CallTools [\<lparr>ml_tool = RunTests, ml_input = None, ml_group = None,
      ml_path = None, ml_fromLine = None, ml_toLine = None\<rparr>])"
    by (simp add: reply_of_json_def sample_call_reply_def call_of_json_def field_def nullish_def tool_of_def)
  with reply_roundtrip[OF this] show ?thesis by blast
qed

text \<open>
  What a conclusion may contain is bounded, and a copied placeholder never gets through: at most 50
  errors with at most 25 call ids and 3 quotes each, no rule key and no cited id that is a placeholder.
\<close>

theorem reply_verdict_bounds:
  assumes "parseReply parse content = Some (FinalVerdict cs v)"
  shows "length (v_errors v) \<le> 50 \<and> length (v_missingRules v) \<le> 20 \<and>
     (\<forall>e \<in> set (v_errors v). ve_ruleKey e \<noteq> [] \<and> ve_ruleKey e \<noteq> RULE_KEY_PLACEHOLDER \<and>
        TOOL_CALL_ID_PLACEHOLDER \<notin> set (ve_toolCallIds e) \<and> length (ve_toolCallIds e) \<le> 25 \<and> length (ve_evidence e) \<le> 3)"
proof -
  obtain jv where "verdict_of_json jv = Some v"
    using assms by (auto simp: parseReply_def reply_of_json_def field_def bind_eq_Some_conv
        split: read_result.splits json.splits option.splits if_splits)
  then obtain je jm where e: "array_of 50 error_of_json je = Some (v_errors v)"
    and m: "array_of 20 missing_of_json jm = Some (v_missingRules v)"
    by (auto simp: verdict_of_json_def field_def bind_eq_Some_conv split: json.splits option.splits)
  have "ve_ruleKey x \<noteq> [] \<and> ve_ruleKey x \<noteq> RULE_KEY_PLACEHOLDER \<and> TOOL_CALL_ID_PLACEHOLDER \<notin> set (ve_toolCallIds x) \<and>
      length (ve_toolCallIds x) \<le> 25 \<and> length (ve_evidence x) \<le> 3" if x: "x \<in> set (v_errors v)" for x
  proof -
    obtain k where k: "error_of_json k = Some x" using array_of_inv[OF e, THEN conjunct2, THEN bspec, OF x] ..
    then obtain ji jk where i: "array_of 25 call_id_of ji = Some (ve_toolCallIds x)" and r: "rule_key_of jk = Some (ve_ruleKey x)"
      by (auto simp: error_of_json_def field_def bind_eq_Some_conv split: json.splits option.splits)
    have "length (ve_evidence x) \<le> 3"
      using k parseEvidenceClaims_bounds by (auto simp: error_of_json_def split: json.splits option.splits)
    moreover have "TOOL_CALL_ID_PLACEHOLDER \<notin> set (ve_toolCallIds x)" "length (ve_toolCallIds x) \<le> 25"
      using array_of_inv[OF i] by (auto simp: call_id_of_def split: option.splits if_splits)
    moreover have "ve_ruleKey x \<noteq> [] \<and> ve_ruleKey x \<noteq> RULE_KEY_PLACEHOLDER"
      using r by (auto simp: rule_key_of_def short_str_def split: option.splits json.splits if_splits)
    ultimately show ?thesis by simp
  qed
  then show ?thesis
    using array_of_inv[OF e, THEN conjunct1] array_of_inv[OF m, THEN conjunct1] by simp
qed

definition sample_final_json :: json where
  "sample_final_json = JObj [(''action'', JStr ''final''), (''calls'', JArr []), (''verdict'', JObj
     [(''errors'', JArr [JObj [(''ruleKey'', JStr ''r1''), (''toolCallIds'', JArr [JStr ''tc-1'']), (''note'', JNull)]]),
      (''missingRules'', JArr []), (''injectionAttempt'', JObj [(''detected'', JBool False), (''excerpt'', JNull)])])]"

theorem reply_verdict_bounds_witness:
  "\<exists>cs v. parseReply (\<lambda>_. Some sample_final_json) (units ''{}'') = Some (FinalVerdict cs v) \<and> length (v_errors v) \<le> 50"
proof -
  have "rule_key_of (JStr ''r1'') = Some ''r1''"
    by (simp add: rule_key_of_def short_str_def RULE_KEY_PLACEHOLDER_def)
  moreover have "array_of 25 call_id_of (JArr [JStr ''tc-1'']) = Some [''tc-1'']"
    by (simp add: array_of_def call_id_of_def short_str_def TOOL_CALL_ID_PLACEHOLDER_def)
  ultimately have e: "error_of_json (JObj [(''ruleKey'', JStr ''r1''), (''toolCallIds'', JArr [JStr ''tc-1'']), (''note'', JNull)]) =
      Some \<lparr>ve_ruleKey = ''r1'', ve_toolCallIds = [''tc-1''], ve_note = None, ve_evidence = []\<rparr>"
    by (simp add: error_of_json_def field_def nullable_def)
  have i: "injection_of_json (JObj [(''detected'', JBool False), (''excerpt'', JNull)]) = Some (False, None)"
    by (simp add: injection_of_json_def field_def nullable_def)
  have m: "array_of 20 missing_of_json (JArr []) = Some []" by (simp add: array_of_def)
  have es: "array_of 50 error_of_json (JArr [JObj [(''ruleKey'', JStr ''r1''), (''toolCallIds'', JArr [JStr ''tc-1'']), (''note'', JNull)]]) =
      Some [\<lparr>ve_ruleKey = ''r1'', ve_toolCallIds = [''tc-1''], ve_note = None, ve_evidence = []\<rparr>]"
    by (simp add: array_of_def e)
  have "verdict_of_json (JObj
     [(''errors'', JArr [JObj [(''ruleKey'', JStr ''r1''), (''toolCallIds'', JArr [JStr ''tc-1'']), (''note'', JNull)]]),
      (''missingRules'', JArr []), (''injectionAttempt'', JObj [(''detected'', JBool False), (''excerpt'', JNull)])]) =
      Some \<lparr>v_errors = [\<lparr>ve_ruleKey = ''r1'', ve_toolCallIds = [''tc-1''], ve_note = None, ve_evidence = []\<rparr>],
       v_missingRules = [], v_injectionDetected = False, v_injectionExcerpt = None\<rparr>"
    by (simp add: verdict_of_json_def field_def es m i)
  then have "reply_of_json sample_final_json = Some (FinalVerdict []
      \<lparr>v_errors = [\<lparr>ve_ruleKey = ''r1'', ve_toolCallIds = [''tc-1''], ve_note = None, ve_evidence = []\<rparr>],
       v_missingRules = [], v_injectionDetected = False, v_injectionExcerpt = None\<rparr>)"
    by (simp add: reply_of_json_def sample_final_json_def field_def)
  moreover have "readSingleJson (\<lambda>_. Some sample_final_json) (units ''{}'') = ReadOk sample_final_json"
    by (simp add: readSingleJson_def stripReasoning_def units_def trim_by_def is_ws_def depth_step_def)
  ultimately have "parseReply (\<lambda>_. Some sample_final_json) (units ''{}'') = Some (FinalVerdict []
      \<lparr>v_errors = [\<lparr>ve_ruleKey = ''r1'', ve_toolCallIds = [''tc-1''], ve_note = None, ve_evidence = []\<rparr>],
       v_missingRules = [], v_injectionDetected = False, v_injectionExcerpt = None\<rparr>)"
    by (simp add: parseReply_def)
  with reply_verdict_bounds[OF this] show ?thesis by blast
qed

end
