(* ===== verification/ModelPool.thy ===== *)
theory ModelPool
  imports Providers
begin

text \<open>
  One question to a list of model tiers: \<open>ModelPool.ask\<close> of \<open>grading/investigator/model-pool.ts\<close>.

  The world outside (the clock, the provider, the sleep) is the record \<open>provider\<close> of functions over a
  world state \<open>'w\<close>. The set of excluded labels lives in the pool: it is an argument and a result of \<open>ask\<close>.
  The loop \<open>for (;;)\<close> over one tier is \<open>tier_loop\<close>; its measure is what is left of the two retry
  budgets. A reply is a list of UTF-16 code units and \<open>parse\<close> a function on it.
\<close>

section \<open>The outside world\<close>

record chat_usage =
  cu_in :: int
  cu_out :: int
  cu_cacheRead :: int
  cu_cacheCreation :: int

datatype call_result =
    Reply utext chat_usage "utext option"
  | Failure provider_error "chat_usage option"

text \<open>A failed call carries the tokens it spent where the provider reported them (\<open>usageOf\<close>).\<close>

record 'w provider =
  pr_now :: "'w \<Rightarrow> int \<times> 'w"
  pr_call :: "model_tier \<Rightarrow> int \<Rightarrow> 'w \<Rightarrow> call_result \<times> 'w"
  pr_sleep :: "int \<Rightarrow> 'w \<Rightarrow> 'w"

definition MIN_ATTEMPT_MS :: int where
  "MIN_ATTEMPT_MS = 1000"

definition DEFAULT_TIMEOUT_MS :: int where
  "DEFAULT_TIMEOUT_MS = 90000"

definition addUsage :: "chat_usage \<Rightarrow> chat_usage \<Rightarrow> chat_usage" where
  "addUsage a b = \<lparr>cu_in = cu_in a + cu_in b, cu_out = cu_out a + cu_out b,
     cu_cacheRead = cu_cacheRead a + cu_cacheRead b, cu_cacheCreation = cu_cacheCreation a + cu_cacheCreation b\<rparr>"

definition ZERO_usage :: chat_usage where
  "ZERO_usage = \<lparr>cu_in = 0, cu_out = 0, cu_cacheRead = 0, cu_cacheCreation = 0\<rparr>"

section \<open>What is recorded of a question\<close>

datatype reply_start = StartsWithBrace | StartsWithFence | StartsOtherwise

record unreadable_reply =
  ur_length :: nat
  ur_start :: reply_start
  ur_complete :: bool
  ur_finish :: "utext option"

definition describeUnreadable :: "utext \<Rightarrow> utext option \<Rightarrow> unreadable_reply" where
  "describeUnreadable content finishReason =
     (let t = trim_by is_ws content in
      \<lparr>ur_length = length content,
       ur_start = (if starts_with (units ''{'') t then StartsWithBrace
                   else if starts_with (units ''```'') t then StartsWithFence else StartsOtherwise),
       ur_complete = starts_with (units ''}'') (rev t),
       ur_finish = finishReason\<rparr>)"

datatype rotation_reason = UnreadableTwice "unreadable_reply list" | FailedWith failure_kind provider_error

type_synonym pool_rotation = "(nat \<times> string) \<times> rotation_reason"

text \<open>\<open>spent\<close> and \<open>spentBy\<close>, charged together.\<close>

record pool_spend =
  ps_spent :: chat_usage
  ps_by :: usage_by_model

definition no_spend :: pool_spend where
  "no_spend = \<lparr>ps_spent = ZERO_usage, ps_by = []\<rparr>"

definition charge :: "model_tier \<Rightarrow> chat_usage \<Rightarrow> pool_spend \<Rightarrow> pool_spend" where
  "charge t u s =
     \<lparr>ps_spent = addUsage (ps_spent s) u,
      ps_by = sink_add (mt_model t) \<lparr>mu_in = cu_in u, mu_out = cu_out u\<rparr> (ps_by s)\<rparr>"

definition charge_lost :: "model_tier \<Rightarrow> chat_usage option \<Rightarrow> pool_spend \<Rightarrow> pool_spend" where
  "charge_lost t lost s = (case lost of None \<Rightarrow> s | Some u \<Rightarrow> charge t u s)"

section \<open>The clock\<close>

text \<open>\<open>left()\<close>; \<open>None\<close> is \<open>Infinity\<close>, and then the clock is not read.\<close>

definition time_left :: "'w provider \<Rightarrow> int option \<Rightarrow> 'w \<Rightarrow> int option \<times> 'w" where
  "time_left pr deadline w =
     (case deadline of None \<Rightarrow> (None, w) | Some d \<Rightarrow> (let r = pr_now pr w in (Some (d - fst r), snd r)))"

definition too_late :: "int option \<Rightarrow> bool" where
  "too_late l \<longleftrightarrow> (case l of None \<Rightarrow> False | Some n \<Rightarrow> n < MIN_ATTEMPT_MS)"

definition attempt_timeout :: "int option \<Rightarrow> int option \<Rightarrow> int" where
  "attempt_timeout requested l =
     (let t = (case requested of None \<Rightarrow> DEFAULT_TIMEOUT_MS | Some t \<Rightarrow> t) in
      case l of None \<Rightarrow> t | Some n \<Rightarrow> min t n)"

section \<open>One tier\<close>

datatype 'v tier_outcome = Answered 'v | GivenUp rotation_reason | OutOfTime

record ask_params =
  ap_deadline :: "int option"
  ap_timeout :: "int option"
  ap_retries :: nat

text \<open>One attempt: the deadline is checked, the clock is read again for the timeout, the tier is called.\<close>

definition attempt ::
  "'w provider \<Rightarrow> ask_params \<Rightarrow> model_tier \<Rightarrow> 'w \<Rightarrow> call_result option \<times> 'w" where
  "attempt pr ap t w =
     (let l1 = time_left pr (ap_deadline ap) w in
      if too_late (fst l1) then (None, snd l1)
      else
        (let l2 = time_left pr (ap_deadline ap) (snd l1);
             r = pr_call pr t (attempt_timeout (ap_timeout ap) (fst l2)) (snd l2)
         in (Some (fst r), snd r)))"

text \<open>The variables of the loop over one tier.\<close>

record tier_state =
  ts_bad :: nat
  ts_transients :: nat
  ts_unread :: "unreadable_reply list"
  ts_spend :: pool_spend

definition fresh_tier :: "pool_spend \<Rightarrow> tier_state" where
  "fresh_tier s = \<lparr>ts_bad = 0, ts_transients = 0, ts_unread = [], ts_spend = s\<rparr>"

text \<open>
  One turn of the loop: \<open>Inl\<close> ends it (a value, the exclusion of the tier, no time), \<open>Inr\<close> goes round
  again.
\<close>

definition tier_step ::
  "'w provider \<Rightarrow> (utext \<Rightarrow> 'v option) \<Rightarrow> ask_params \<Rightarrow> model_tier \<Rightarrow> tier_state \<Rightarrow> 'w \<Rightarrow>
   ('v tier_outcome \<times> pool_spend + tier_state) \<times> 'w" where
  "tier_step pr parse ap t x w =
     (case attempt pr ap t w of
        (None, w1) \<Rightarrow> (Inl (OutOfTime, ts_spend x), w1)
      | (Some (Reply content usage finish), w1) \<Rightarrow>
          (let s1 = charge t usage (ts_spend x) in
           case parse content of
             Some v \<Rightarrow> (Inl (Answered v, s1), w1)
           | None \<Rightarrow>
               (let unread = ts_unread x @ [describeUnreadable content finish];
                    bad = ts_bad x + 1 in
                if 2 \<le> bad then (Inl (GivenUp (UnreadableTwice unread), s1), w1)
                else (Inr (x\<lparr>ts_bad := bad, ts_unread := unread, ts_spend := s1\<rparr>), w1)))
      | (Some (Failure e lost), w1) \<Rightarrow>
          (let s1 = charge_lost t lost (ts_spend x);
               kind = classifyProviderFailure e in
           if kind = BadOutput \<and> ts_bad x + 1 < 2 then
             (Inr (x\<lparr>ts_bad := ts_bad x + 1, ts_spend := s1\<rparr>), w1)
           else if kind = Transient \<and> ts_transients x < ap_retries ap then
             (let transients = ts_transients x + 1;
                  wait = 1000 * int transients;
                  l = time_left pr (ap_deadline ap) w1 in
              if too_late (map_option (\<lambda>n. n - wait) (fst l)) then (Inl (OutOfTime, s1), snd l)
              else (Inr (x\<lparr>ts_transients := transients, ts_spend := s1\<rparr>), pr_sleep pr wait (snd l)))
           else (Inl (GivenUp (FailedWith kind e), s1), w1)))"

text \<open>What is left of the two retry budgets.\<close>

definition retries_left :: "ask_params \<Rightarrow> tier_state \<Rightarrow> nat" where
  "retries_left ap x = (2 - ts_bad x) + (ap_retries ap - ts_transients x)"

lemma tier_step_again:
  "tier_step pr parse ap t x w = (Inr x', w') \<Longrightarrow> retries_left ap x = Suc (retries_left ap x')"
  by (auto simp: tier_step_def retries_left_def Let_def split: prod.splits option.splits call_result.splits if_splits)

function tier_loop ::
  "'w provider \<Rightarrow> (utext \<Rightarrow> 'v option) \<Rightarrow> ask_params \<Rightarrow> model_tier \<Rightarrow> tier_state \<Rightarrow> 'w \<Rightarrow>
   'v tier_outcome \<times> pool_spend \<times> 'w" where
  "tier_loop pr parse ap t x w =
     (case tier_step pr parse ap t x w of
        (Inl (out, s), w1) \<Rightarrow> (out, s, w1)
      | (Inr x1, w1) \<Rightarrow> tier_loop pr parse ap t x1 w1)"
  by pat_completeness auto

termination
  by (relation "measure (\<lambda>(_, _, ap, _, x, _). retries_left ap x)") (auto dest: tier_step_again[OF sym])

declare tier_loop.simps [simp del]

section \<open>All tiers\<close>

record 'v pool_reply =
  py_value :: 'v
  py_usage :: chat_usage
  py_model :: string
  py_rotations :: "pool_rotation list"
  py_usageByModel :: usage_by_model

datatype 'v ask_result =
    Answer "'v pool_reply"
  | Exhausted chat_usage "pool_rotation list" usage_by_model
  | DeadlineExceeded chat_usage "pool_rotation list" usage_by_model

text \<open>
  \<open>reasons\<close> of the code are the same entries as \<open>rotations\<close>, one per excluded tier, and are not kept
  twice.
\<close>

fun ask_tiers ::
  "'w provider \<Rightarrow> (utext \<Rightarrow> 'v option) \<Rightarrow> ask_params \<Rightarrow> model_tier list \<Rightarrow>
   (nat \<times> string) list \<Rightarrow> pool_rotation list \<Rightarrow> pool_spend \<Rightarrow> 'w \<Rightarrow> 'v ask_result \<times> (nat \<times> string) list \<times> 'w" where
  "ask_tiers pr parse ap [] excluded rots s w = (Exhausted (ps_spent s) rots (ps_by s), excluded, w)"
| "ask_tiers pr parse ap (t # ts) excluded rots s w =
     (if mt_label t \<in> set excluded then ask_tiers pr parse ap ts excluded rots s w
      else case tier_loop pr parse ap t (fresh_tier s) w of
          (Answered v, s1, w1) \<Rightarrow>
            (Answer \<lparr>py_value = v, py_usage = ps_spent s1, py_model = mt_model t, py_rotations = rots,
                     py_usageByModel = ps_by s1\<rparr>, excluded, w1)
        | (OutOfTime, s1, w1) \<Rightarrow> (DeadlineExceeded (ps_spent s1) rots (ps_by s1), excluded, w1)
        | (GivenUp reason, s1, w1) \<Rightarrow>
            ask_tiers pr parse ap ts (set_add (mt_label t) excluded) (rots @ [(mt_label t, reason)]) s1 w1)"

definition ask ::
  "'w provider \<Rightarrow> (utext \<Rightarrow> 'v option) \<Rightarrow> ask_params \<Rightarrow> model_tier list \<Rightarrow> (nat \<times> string) list \<Rightarrow> 'w \<Rightarrow>
   'v ask_result \<times> (nat \<times> string) list \<times> 'w" where
  "ask pr parse ap tiers excluded w = ask_tiers pr parse ap tiers excluded [] no_spend w"

fun result_usage :: "'v ask_result \<Rightarrow> chat_usage" where
  "result_usage (Answer y) = py_usage y"
| "result_usage (Exhausted u _ _) = u"
| "result_usage (DeadlineExceeded u _ _) = u"

fun result_by :: "'v ask_result \<Rightarrow> usage_by_model" where
  "result_by (Answer y) = py_usageByModel y"
| "result_by (Exhausted _ _ b) = b"
| "result_by (DeadlineExceeded _ _ b) = b"

fun result_rotations :: "'v ask_result \<Rightarrow> pool_rotation list" where
  "result_rotations (Answer y) = py_rotations y"
| "result_rotations (Exhausted _ r _) = r"
| "result_rotations (DeadlineExceeded _ r _) = r"

section \<open>Invariants of the loop over one tier\<close>

definition after_call :: "model_tier \<Rightarrow> call_result \<Rightarrow> pool_spend \<Rightarrow> pool_spend" where
  "after_call t r s = (case r of Reply _ u _ \<Rightarrow> charge t u s | Failure _ lost \<Rightarrow> charge_lost t lost s)"

lemma time_left_inv: "(\<And>w. I w \<Longrightarrow> I (snd (pr_now pr w))) \<Longrightarrow> I w \<Longrightarrow> I (snd (time_left pr d w))"
  by (auto simp: time_left_def Let_def split: option.split)

text \<open>The spend at the end of a turn.\<close>

fun step_spend :: "'v tier_outcome \<times> pool_spend + tier_state \<Rightarrow> pool_spend" where
  "step_spend (Inl (out, s)) = s"
| "step_spend (Inr x) = ts_spend x"

text \<open>
  A predicate on the spend and the world that reading the clock, sleeping and a charged call keep is
  kept by a turn and so by the loop.
\<close>

definition world_keeps :: "'w provider \<Rightarrow> model_tier \<Rightarrow> (pool_spend \<Rightarrow> 'w \<Rightarrow> bool) \<Rightarrow> bool" where
  "world_keeps pr t I \<longleftrightarrow>
     (\<forall>s w. I s w \<longrightarrow> I s (snd (pr_now pr w)) \<and> (\<forall>n. I s (pr_sleep pr n w)) \<and>
        (\<forall>n. I (after_call t (fst (pr_call pr t n w)) s) (snd (pr_call pr t n w))))"

lemma world_keeps_left: "world_keeps pr t I \<Longrightarrow> I s w \<Longrightarrow> I s (snd (time_left pr d w))"
  by (rule time_left_inv[of "I s"]) (auto simp: world_keeps_def)

lemma attempt_inv:
  assumes k: "world_keeps pr t I" and i: "I s w"
  shows "case attempt pr ap t w of (None, w1) \<Rightarrow> I s w1 | (Some r, w1) \<Rightarrow> I (after_call t r s) w1"
proof -
  let ?w1 = "snd (time_left pr (ap_deadline ap) w)"
  let ?w2 = "snd (time_left pr (ap_deadline ap) ?w1)"
  have "I s ?w1" "I s ?w2" using k i by (blast intro: world_keeps_left)+
  then show ?thesis using k by (simp add: attempt_def Let_def world_keeps_def)
qed

lemma tier_step_inv:
  assumes k: "world_keeps pr t I" and i: "I (ts_spend x) w"
    and st: "tier_step pr parse ap t x w = (r, w')"
  shows "I (step_spend r) w'"
proof -
  obtain o1 w1 where a: "attempt pr ap t w = (o1, w1)" by fastforce
  show ?thesis
  proof (cases o1)
    case None
    with attempt_inv[OF k i, of ap] st show ?thesis by (auto simp: a tier_step_def)
  next
    case (Some c)
    then have c: "I (after_call t c (ts_spend x)) w1" using attempt_inv[OF k i, of ap] by (simp add: a)
    show ?thesis
    proof (cases c)
      case (Reply content u fin)
      with c st Some show ?thesis
        by (auto simp: a tier_step_def after_call_def Let_def split: option.splits if_splits)
    next
      case (Failure e lost)
      let ?s = "charge_lost t lost (ts_spend x)" and ?w2 = "snd (time_left pr (ap_deadline ap) w1)"
      have s: "I ?s w1" using c by (simp add: Failure after_call_def)
      have w2: "I ?s ?w2" using world_keeps_left[OF k s] .
      then have "I ?s (pr_sleep pr n ?w2)" for n using k by (auto simp: world_keeps_def)
      with s w2 st Some Failure show ?thesis
        by (auto simp: a tier_step_def Let_def split: if_splits)
    qed
  qed
qed

lemma tier_loop_inv:
  assumes k: "world_keeps pr t I"
  shows "I (ts_spend x) w \<Longrightarrow> tier_loop pr parse ap t x w = (out, s', w') \<Longrightarrow> I s' w'"
proof (induction "retries_left ap x" arbitrary: x w)
  case (0 x w)
  then show ?case
    using tier_step_inv[OF k "0.prems"(1)] tier_step_again
    by (fastforce simp: tier_loop.simps[of pr parse ap t x w] split: prod.splits sum.splits)
next
  case (Suc n x w)
  obtain r w1 where st: "tier_step pr parse ap t x w = (r, w1)" by fastforce
  note i = tier_step_inv[OF k Suc.prems(1) st]
  show ?case
  proof (cases r)
    case (Inl y)
    with Suc.prems(2) i show ?thesis by (cases y) (simp add: tier_loop.simps[of pr parse ap t x w] st)
  next
    case (Inr x1)
    then have "n = retries_left ap x1" using tier_step_again Suc.hyps(2) st by fastforce
    moreover have "tier_loop pr parse ap t x1 w1 = (out, s', w')"
      using Suc.prems(2) by (simp add: tier_loop.simps[of pr parse ap t x w] st Inr)
    ultimately show ?thesis using Suc.hyps(1) i Inr by simp
  qed
qed

section \<open>A whole question\<close>

lemma ask_tiers_inv:
  assumes "\<And>t. t \<in> set ts \<Longrightarrow> world_keeps pr t I"
  shows "I s w \<Longrightarrow> ask_tiers pr parse ap ts excluded rots s w = (r, ex', w') \<Longrightarrow>
    \<exists>s'. I s' w' \<and> result_usage r = ps_spent s' \<and> result_by r = ps_by s'"
  using assms
proof (induction ts arbitrary: excluded rots s w)
  case (Cons t ts)
  show ?case
  proof (cases "mt_label t \<in> set excluded")
    case False
    obtain out s1 w1 where l: "tier_loop pr parse ap t (fresh_tier s) w = (out, s1, w1)" by (metis prod_cases3)
    have "I s1 w1" using tier_loop_inv[OF Cons.prems(3) _ l] Cons.prems(1) by (simp add: fresh_tier_def)
    with Cons l False show ?thesis by (cases out) auto
  qed (use Cons in auto)
qed auto

text \<open>The exclusions of a question.\<close>

definition excludes :: "model_tier list \<Rightarrow> (nat \<times> string) list \<Rightarrow> pool_rotation list \<Rightarrow> 'v ask_result \<Rightarrow> (nat \<times> string) list \<Rightarrow> bool" where
  "excludes ts excluded new r ex' \<longleftrightarrow>
     set ex' = set excluded \<union> fst ` set new \<and> distinct (map fst new) \<and> set excluded \<inter> fst ` set new = {} \<and>
     fst ` set new \<subseteq> mt_label ` set ts \<and>
     (case r of
        Answer y \<Rightarrow> \<exists>t. t \<in> set ts \<and> mt_model t = py_model y \<and> mt_label t \<notin> set ex'
      | Exhausted _ _ _ \<Rightarrow> mt_label ` set ts \<subseteq> set ex'
      | DeadlineExceeded _ _ _ \<Rightarrow> True)"

lemma excludes_skip: "mt_label t \<in> set excluded \<Longrightarrow> excludes ts excluded new r ex' \<Longrightarrow> excludes (t # ts) excluded new r ex'"
  by (cases r) (auto simp: excludes_def)

lemma excludes_add:
  "mt_label t \<notin> set excluded \<Longrightarrow> excludes ts (set_add (mt_label t) excluded) new r ex' \<Longrightarrow>
   excludes (t # ts) excluded ((mt_label t, reason) # new) r ex'"
  by (cases r) (auto simp: excludes_def)

lemma ask_tiers_excluded:
  assumes "ask_tiers pr parse ap ts excluded rots s w = (r, ex', w')"
  shows "\<exists>new. result_rotations r = rots @ new \<and> excludes ts excluded new r ex'"
  using assms
proof (induction ts arbitrary: excluded rots s w)
  case Nil
  then show ?case by (auto simp: excludes_def)
next
  case (Cons t ts)
  show ?case
  proof (cases "mt_label t \<in> set excluded")
    case True
    then have "ask_tiers pr parse ap ts excluded rots s w = (r, ex', w')" using Cons.prems by simp
    from Cons.IH[OF this] show ?thesis using True excludes_skip by blast
  next
    case False
    obtain out s1 w1 where l: "tier_loop pr parse ap t (fresh_tier s) w = (out, s1, w1)" by (metis prod_cases3)
    show ?thesis
    proof (cases out)
      case (GivenUp reason)
      with Cons.prems False l have "ask_tiers pr parse ap ts (set_add (mt_label t) excluded)
          (rots @ [(mt_label t, reason)]) s1 w1 = (r, ex', w')" by simp
      from Cons.IH[OF this] obtain new where "result_rotations r = rots @ (mt_label t, reason) # new"
        "excludes ts (set_add (mt_label t) excluded) new r ex'" by auto
      with False show ?thesis using excludes_add by blast
    qed (use Cons.prems False l in \<open>auto simp: excludes_def\<close>)
  qed
qed

text \<open>The calls of one turn and of the loop.\<close>

definition counts_calls :: "'w provider \<Rightarrow> ('w \<Rightarrow> nat) \<Rightarrow> bool" where
  "counts_calls pr cnt \<longleftrightarrow>
     (\<forall>w. cnt (snd (pr_now pr w)) = cnt w \<and> (\<forall>n. cnt (pr_sleep pr n w) = cnt w) \<and>
        (\<forall>t n. cnt (snd (pr_call pr t n w)) = Suc (cnt w)))"

lemma attempt_count: "counts_calls pr cnt \<Longrightarrow> cnt (snd (attempt pr ap t w)) \<le> Suc (cnt w)"
  by (auto simp: counts_calls_def attempt_def time_left_def Let_def split: option.splits)

lemma tier_step_count:
  assumes c: "counts_calls pr cnt"
  shows "cnt (snd (tier_step pr parse ap t x w)) \<le> Suc (cnt w)"
proof -
  have l: "cnt (snd (time_left pr d w)) = cnt w" for d w
    using c by (simp add: counts_calls_def time_left_def Let_def split: option.split)
  have "cnt (snd (tier_step pr parse ap t x w)) = cnt (snd (attempt pr ap t w))"
    using c by (simp add: tier_step_def Let_def counts_calls_def l
        split: prod.split option.split call_result.split)
  with attempt_count[OF c] show ?thesis by simp
qed

lemma tier_step_bad: "tier_step pr parse ap t x w = (Inr x', w') \<Longrightarrow> ts_bad x < 2 \<Longrightarrow> ts_bad x' < 2"
  by (auto simp: tier_step_def Let_def split: prod.splits option.splits call_result.splits if_splits)

lemma tier_loop_count:
  assumes c: "counts_calls pr cnt"
  shows "ts_bad x < 2 \<Longrightarrow> cnt (snd (snd (tier_loop pr parse ap t x w))) \<le> cnt w + retries_left ap x"
proof (induction "retries_left ap x" arbitrary: x w rule: less_induct)
  case less
  obtain r w1 where st: "tier_step pr parse ap t x w = (r, w1)" by fastforce
  have w1: "cnt w1 \<le> Suc (cnt w)" using tier_step_count[OF c, of parse ap t x w] by (simp add: st)
  show ?case
  proof (cases r)
    case (Inl y)
    moreover have "0 < retries_left ap x" using less.prems by (simp add: retries_left_def)
    ultimately show ?thesis using w1 by (cases y) (simp add: tier_loop.simps[of pr parse ap t x w] st)
  next
    case (Inr x1)
    with st have st1: "tier_step pr parse ap t x w = (Inr x1, w1)" by simp
    note s = tier_step_again[OF st1] tier_step_bad[OF st1 less.prems]
    then have "cnt (snd (snd (tier_loop pr parse ap t x1 w1))) \<le> cnt w1 + retries_left ap x1"
      using less.hyps[of x1 w1] by simp
    with s w1 show ?thesis by (simp add: tier_loop.simps[of pr parse ap t x w] st Inr)
  qed
qed

lemma ask_tiers_count:
  assumes c: "counts_calls pr cnt"
  shows "cnt (snd (snd (ask_tiers pr parse ap ts ex rots s w))) \<le> cnt w + length ts * (2 + ap_retries ap)"
proof (induction ts arbitrary: ex rots s w)
  case (Cons t ts)
  obtain out s1 w1 where l: "tier_loop pr parse ap t (fresh_tier s) w = (out, s1, w1)" by (metis prod_cases3)
  have "cnt w1 \<le> cnt w + (2 + ap_retries ap)"
    using tier_loop_count[OF c, of "fresh_tier s" parse ap t w] unfolding l by (simp add: fresh_tier_def retries_left_def)
  with Cons.IH[of ex rots s w] Cons.IH[of "set_add (mt_label t) ex" _ s1 w1] l show ?case
    by (cases out) (fastforce simp: algebra_simps intro: order_trans)+
qed simp

text \<open>Only live tiers are called, and never for longer than the caller asked.\<close>

definition longest :: "ask_params \<Rightarrow> int" where
  "longest ap = (case ap_timeout ap of None \<Rightarrow> DEFAULT_TIMEOUT_MS | Some t \<Rightarrow> t)"

lemma attempt_timeout_le: "attempt_timeout (ap_timeout ap) l \<le> longest ap"
  by (simp add: attempt_timeout_def longest_def Let_def split: option.split)

lemma tier_step_cong:
  assumes "pr_now pr' = pr_now pr" "pr_sleep pr' = pr_sleep pr"
    and "\<And>n w. n \<le> longest ap \<Longrightarrow> pr_call pr' t n w = pr_call pr t n w"
  shows "tier_step pr' parse ap t x w = tier_step pr parse ap t x w"
proof -
  have l: "time_left pr' = time_left pr"
    by (intro ext) (simp add: time_left_def assms(1) split: option.split)
  have a: "attempt pr' ap t w = attempt pr ap t w"
    by (simp add: attempt_def l Let_def assms(3)[OF attempt_timeout_le])
  show ?thesis unfolding tier_step_def l a assms(2) ..
qed

lemma tier_loop_cong:
  assumes "pr_now pr' = pr_now pr" "pr_sleep pr' = pr_sleep pr"
    and "\<And>n w. n \<le> longest ap \<Longrightarrow> pr_call pr' t n w = pr_call pr t n w"
  shows "tier_loop pr' parse ap t x w = tier_loop pr parse ap t x w"
proof (induction "retries_left ap x" arbitrary: x w rule: less_induct)
  case less
  note st = tier_step_cong[OF assms, where x = x and w = w]
  have "tier_loop pr' parse ap t x1 w1 = tier_loop pr parse ap t x1 w1"
    if "tier_step pr parse ap t x w = (Inr x1, w1)" for x1 w1
    using less tier_step_again[OF that] by simp
  then show ?case
    by (simp add: tier_loop.simps[of pr' parse ap t x w] tier_loop.simps[of pr parse ap t x w] st
        split: prod.split sum.split)
qed

lemma ask_tiers_cong:
  assumes "pr_now pr' = pr_now pr" "pr_sleep pr' = pr_sleep pr"
    and "\<And>t n w. mt_label t \<notin> set ex \<Longrightarrow> n \<le> longest ap \<Longrightarrow> pr_call pr' t n w = pr_call pr t n w"
  shows "ask_tiers pr' parse ap ts ex rots s w = ask_tiers pr parse ap ts ex rots s w"
  using assms(3)
proof (induction ts arbitrary: ex rots s w)
  case (Cons t ts)
  have "ask_tiers pr' parse ap ts ex rots s w = ask_tiers pr parse ap ts ex rots s w" for rots s w
    using Cons by blast
  moreover have "ask_tiers pr' parse ap ts (set_add (mt_label t) ex) rots s w =
      ask_tiers pr parse ap ts (set_add (mt_label t) ex) rots s w" for rots s w
    by (rule Cons.IH) (simp add: Cons.prems)
  moreover have "tier_loop pr' parse ap t x w = tier_loop pr parse ap t x w" if "mt_label t \<notin> set ex" for x w
    using assms(1,2) Cons.prems[OF that] by (rule tier_loop_cong)
  ultimately show ?case by (simp split: prod.split tier_outcome.split)
qed simp

text \<open>Without a deadline a question never runs out of time.\<close>

lemma tier_step_no_deadline:
  "ap_deadline ap = None \<Longrightarrow> tier_step pr parse ap t x w = (Inl (out, s), w') \<Longrightarrow> out \<noteq> OutOfTime"
  by (auto simp: tier_step_def attempt_def time_left_def too_late_def Let_def
      split: option.splits call_result.splits if_splits)

lemma tier_loop_no_deadline:
  "ap_deadline ap = None \<Longrightarrow> fst (tier_loop pr parse ap t x w) \<noteq> OutOfTime"
proof (induction "retries_left ap x" arbitrary: x w rule: less_induct)
  case less
  then show ?case
    using tier_step_no_deadline[of ap pr parse t x w] tier_step_again[of pr parse ap t x w]
    by (auto simp: tier_loop.simps[of pr parse ap t x w] split: prod.split sum.split)
qed

lemma ask_tiers_no_deadline:
  assumes "ap_deadline ap = None"
  shows "fst (ask_tiers pr parse ap ts ex rots s w) \<noteq> DeadlineExceeded u r b"
proof (induction ts arbitrary: ex rots s w)
  case (Cons t ts)
  then show ?case
    using tier_loop_no_deadline[OF assms, of pr parse t "fresh_tier s" w]
    by (auto split: prod.split tier_outcome.split)
qed simp

section \<open>Properties of a question\<close>

text \<open>A provider that answers from a script, for concrete runs: it counts its calls and logs the tokens it reports.\<close>

record script =
  sc_results :: "call_result list"
  sc_calls :: nat
  sc_spent :: "(string \<times> chat_usage) list"
  sc_clock :: int

text \<open>What the provider reports of one call: its model and its tokens, those of a failed call where it gives them.\<close>

definition reported :: "model_tier \<Rightarrow> call_result \<Rightarrow> (string \<times> chat_usage) list" where
  "reported t r =
     (case r of Reply _ u _ \<Rightarrow> [(mt_model t, u)] | Failure _ (Some u) \<Rightarrow> [(mt_model t, u)] | Failure _ None \<Rightarrow> [])"

definition scripted_call :: "model_tier \<Rightarrow> script \<Rightarrow> call_result \<times> script" where
  "scripted_call t w =
     (let r = (case sc_results w of r # _ \<Rightarrow> r | [] \<Rightarrow> Failure (badOutputError []) None) in
      (r, w\<lparr>sc_results := tl (sc_results w), sc_calls := Suc (sc_calls w), sc_spent := sc_spent w @ reported t r\<rparr>))"

definition scripted :: "script provider" where
  "scripted = \<lparr>pr_now = (\<lambda>w. (sc_clock w, w)), pr_call = (\<lambda>t _. scripted_call t),
     pr_sleep = (\<lambda>n w. w\<lparr>sc_clock := sc_clock w + n\<rparr>)\<rparr>"

definition sample_tier :: "nat \<Rightarrow> model_tier" where
  "sample_tier i = \<lparr>mt_label = (i, ''m''), mt_model = ''m'', mt_ceiling = 1, mt_price = None\<rparr>"

definition sample_usage :: chat_usage where
  "sample_usage = \<lparr>cu_in = 7, cu_out = 3, cu_cacheRead = 0, cu_cacheCreation = 0\<rparr>"

definition sample_script :: script where
  "sample_script = \<lparr>sc_results =
       [Failure (httpProviderError 503 None []) None, Reply (units ''x'') sample_usage None, Failure (badOutputError []) (Some sample_usage),
        Reply (units ''{}'') sample_usage None],
     sc_calls = 0, sc_spent = [], sc_clock = 0\<rparr>"

definition sample_parse :: "utext \<Rightarrow> nat option" where
  "sample_parse c = (if c = units ''{}'' then Some 1 else None)"

definition sample_params :: ask_params where
  "sample_params = \<lparr>ap_deadline = Some 100000, ap_timeout = None, ap_retries = 2\<rparr>"

text \<open>\<open>lg\<close> reads from the world what the provider has reported so far, call by call.\<close>

definition logs_usage :: "'w provider \<Rightarrow> ('w \<Rightarrow> (string \<times> chat_usage) list) \<Rightarrow> bool" where
  "logs_usage pr lg \<longleftrightarrow>
     (\<forall>w. lg (snd (pr_now pr w)) = lg w \<and> (\<forall>n. lg (pr_sleep pr n w) = lg w) \<and>
        (\<forall>t n. lg (snd (pr_call pr t n w)) = lg w @ reported t (fst (pr_call pr t n w))))"

lemma logs_scripted: "logs_usage scripted sc_spent"
  by (simp add: logs_usage_def scripted_def scripted_call_def Let_def)

lemma counts_scripted: "counts_calls scripted sc_calls"
  by (simp add: counts_calls_def scripted_def scripted_call_def Let_def)

text \<open>The bill of a list of reports, in total and for one model.\<close>

definition bill :: "(string \<times> chat_usage) list \<Rightarrow> chat_usage" where
  "bill xs = \<lparr>cu_in = (\<Sum>x\<leftarrow>xs. cu_in (snd x)), cu_out = (\<Sum>x\<leftarrow>xs. cu_out (snd x)),
     cu_cacheRead = (\<Sum>x\<leftarrow>xs. cu_cacheRead (snd x)), cu_cacheCreation = (\<Sum>x\<leftarrow>xs. cu_cacheCreation (snd x))\<rparr>"

definition model_bill :: "(string \<times> chat_usage) list \<Rightarrow> string \<Rightarrow> model_usage" where
  "model_bill xs m = (let own = filter (\<lambda>x. fst x = m) xs in
     \<lparr>mu_in = (\<Sum>x\<leftarrow>own. cu_in (snd x)), mu_out = (\<Sum>x\<leftarrow>own. cu_out (snd x))\<rparr>)"

definition billed :: "(string \<times> chat_usage) list \<Rightarrow> pool_spend \<Rightarrow> bool" where
  "billed xs s \<longleftrightarrow> ps_spent s = bill xs \<and> (\<forall>m. usage_at (ps_by s) m = model_bill xs m)"

lemma billed_charge: "billed xs s \<Longrightarrow> billed (xs @ [(mt_model t, u)]) (charge t u s)"
  by (simp add: billed_def charge_def bill_def model_bill_def addUsage_def usage_at_sink_add usage_plus_def Let_def)

lemma billed_call: "billed xs s \<Longrightarrow> billed (xs @ reported t r) (after_call t r s)"
  by (auto simp: after_call_def charge_lost_def reported_def billed_charge split: call_result.split option.split)

text \<open>
  C32. No token is lost: whatever a question ends with (an answer, every tier excluded, no time left), its bill is that
  of everything the provider reported on the calls of the question, those of unreadable replies and of failed calls
  included: the input, output and cache tokens in total, and the input and output tokens of each model by itself.
\<close>

theorem ask_no_token_lost:
  assumes "logs_usage pr lg" and "ask pr parse ap ts excluded w = (r, ex', w')"
  shows "\<exists>calls. lg w' = lg w @ calls \<and> result_usage r = bill calls \<and>
     (\<forall>m. usage_at (result_by r) m = model_bill calls m)"
proof -
  have a: "ask_tiers pr parse ap ts excluded [] no_spend w = (r, ex', w')" using assms(2) by (simp add: ask_def)
  define I where "I = (\<lambda>(s :: pool_spend) v. \<exists>calls. lg v = lg w @ calls \<and> billed calls s)"
  have k: "world_keeps pr t I" for t
    using assms(1) unfolding world_keeps_def I_def logs_usage_def by (auto intro: billed_call)
  have "I no_spend w"
    by (simp add: I_def billed_def no_spend_def ZERO_usage_def bill_def model_bill_def usage_at_def)
  from ask_tiers_inv[OF k this a] show ?thesis by (auto simp: I_def billed_def)
qed

theorem ask_no_token_lost_witness:
  "\<exists>r ex' w' calls. ask scripted sample_parse sample_params [sample_tier 1, sample_tier 2] [] sample_script = (r, ex', w') \<and>
     sc_spent w' = calls \<and> result_usage r = bill calls \<and> (\<forall>m. usage_at (result_by r) m = model_bill calls m)"
proof -
  obtain r ex' w' where a: "ask scripted sample_parse sample_params [sample_tier 1, sample_tier 2] [] sample_script = (r, ex', w')"
    by (metis prod_cases3)
  show ?thesis using ask_no_token_lost[OF logs_scripted a] a by (auto simp: sample_script_def)
qed

text \<open>
  A question calls the provider at most \<open>2 + transientRetries\<close> times per tier: a tier is given up after
  its second unreadable reply, after its last retry of a transient failure, or at once when it is dead.
\<close>

theorem ask_attempts:
  assumes "counts_calls pr cnt"
  shows "cnt (snd (snd (ask pr parse ap ts excluded w))) \<le> cnt w + length ts * (2 + ap_retries ap)"
  unfolding ask_def using assms by (rule ask_tiers_count)

theorem ask_attempts_witness:
  "sc_calls (snd (snd (ask scripted sample_parse sample_params [sample_tier 1, sample_tier 2] [] sample_script))) \<le>
     sc_calls sample_script + length [sample_tier 1, sample_tier 2] * (2 + ap_retries sample_params)"
  by (rule ask_attempts[OF counts_scripted])

text \<open>
  A tier excluded earlier in the investigation is never called again, and no call runs longer than the
  caller allows: the result of a question does not depend on what the provider does on such calls.
\<close>

theorem ask_excluded_never_called:
  assumes "pr_now pr' = pr_now pr" and "pr_sleep pr' = pr_sleep pr"
    and "\<And>t n w. mt_label t \<notin> set excluded \<Longrightarrow> n \<le> longest ap \<Longrightarrow> pr_call pr' t n w = pr_call pr t n w"
  shows "ask pr' parse ap ts excluded w = ask pr parse ap ts excluded w"
  unfolding ask_def using assms by (rule ask_tiers_cong)

definition scripted_without :: "(nat \<times> string) \<Rightarrow> script provider" where
  "scripted_without l = scripted\<lparr>pr_call := (\<lambda>t n w. if mt_label t = l \<or> 90000 < n
     then (Failure (badOutputError []) None, w) else scripted_call t w)\<rparr>"

theorem ask_excluded_never_called_witness:
  "ask (scripted_without (1, ''m'')) sample_parse sample_params [sample_tier 1, sample_tier 2] [(1, ''m'')] sample_script =
   ask scripted sample_parse sample_params [sample_tier 1, sample_tier 2] [(1, ''m'')] sample_script"
  by (rule ask_excluded_never_called)
    (auto simp: scripted_without_def scripted_def longest_def sample_params_def DEFAULT_TIMEOUT_MS_def)

text \<open>
  The exclusions of a question are its rotations: each tier it gives up is recorded once and excluded
  from then on, no tier excluded before is recorded again, a question that ends without an answer or a
  deadline has excluded every tier, and the tier that answers stays in use.
\<close>

theorem ask_exclusions:
  "excludes ts excluded (result_rotations (fst (ask pr parse ap ts excluded w))) (fst (ask pr parse ap ts excluded w))
     (fst (snd (ask pr parse ap ts excluded w)))"
proof -
  obtain r ex' w' where a: "ask_tiers pr parse ap ts excluded [] no_spend w = (r, ex', w')" by (metis prod_cases3)
  from ask_tiers_excluded[OF a] show ?thesis by (simp add: ask_def a)
qed

text \<open>
  Without a deadline a question ends with an answer or with every tier excluded: it never runs out of
  time, and by the bound on its calls it always ends.
\<close>

theorem ask_without_deadline:
  assumes "ap_deadline ap = None"
  shows "(\<exists>y. fst (ask pr parse ap ts excluded w) = Answer y) \<or>
     mt_label ` set ts \<subseteq> set (fst (snd (ask pr parse ap ts excluded w)))"
proof -
  obtain r ex' w' where a: "ask_tiers pr parse ap ts excluded [] no_spend w = (r, ex', w')" by (metis prod_cases3)
  have "r \<noteq> DeadlineExceeded u ro b" for u ro b
    using ask_tiers_no_deadline[OF assms, of pr parse ts excluded "[]" no_spend w u ro b] by (simp add: a)
  then show ?thesis using ask_tiers_excluded[OF a] by (cases r) (auto simp: ask_def a excludes_def)
qed

theorem ask_without_deadline_witness:
  "(\<exists>y. fst (ask scripted sample_parse (sample_params\<lparr>ap_deadline := None\<rparr>) [sample_tier 1] [] sample_script) = Answer y) \<or>
     mt_label ` set [sample_tier 1] \<subseteq>
       set (fst (snd (ask scripted sample_parse (sample_params\<lparr>ap_deadline := None\<rparr>) [sample_tier 1] [] sample_script)))"
  by (rule ask_without_deadline) simp

end
