(* ===== verification/Investigate.thy ===== *)
theory Investigate
  imports Protocol ModelPool Dedup
begin

text \<open>
  The investigation of one submission: \<open>grading/investigator/investigate.ts\<close>.

  \<open>inv_state\<close> holds the variables of \<open>investigate\<close>; one turn of its loop is \<open>inv_turn\<close>, the loop
  \<open>inv_loop\<close>, which ends because every turn that does not stop adds a round and there are at most
  \<open>maxRounds\<close>. What the investigation asks of the outside is the record \<open>inv_world\<close>: the tools' world, the
  provider (which sees the conversation), \<open>JSON.parse\<close>, the random choice and the rendering of rotations.
  The rendered summary of the result is not modelled.
\<close>

section \<open>The conversation and the world\<close>

datatype user_part = StartText tool_text | ResultsText "tool_call list" nat | ForceFinalText

datatype message = UserMessage user_part bool | AssistantMessage model_reply

text \<open>The flag of a user message: the request for a conclusion was appended to it.\<close>

record 'w inv_world =
  iw_tools :: "'w tool_world"
  iw_call :: "message list \<Rightarrow> model_tier \<Rightarrow> int \<Rightarrow> 'w \<Rightarrow> call_result \<times> 'w"
  iw_sleep :: "int \<Rightarrow> 'w \<Rightarrow> 'w"
  iw_random :: "'w \<Rightarrow> rat \<times> 'w"
  iw_parse :: "utext \<Rightarrow> json option"
  iw_rotation :: "pool_rotation \<Rightarrow> string \<times> string"
  iw_system :: system_files

record components =
  co_replayCheck :: bool
  co_tools :: "tool \<Rightarrow> bool"

definition ALL_COMPONENTS :: components where
  "ALL_COMPONENTS = \<lparr>co_replayCheck = True, co_tools = (\<lambda>_. True)\<rparr>"

definition STALL_AFTER_ROUNDS :: nat where "STALL_AFTER_ROUNDS = 2"
definition STALL_AFTER_MS :: int where "STALL_AFTER_MS = 60000"
definition MODEL_CALL_TIMEOUT_MS :: int where "MODEL_CALL_TIMEOUT_MS = 90000"
definition MIN_REPLAY_MS :: int where "MIN_REPLAY_MS = 5000"
definition REPLAY_CONFIDENCE_CAP :: rat where "REPLAY_CONFIDENCE_CAP = lit 0.5"

text \<open>What stays the same during one investigation.\<close>

record 'w setting =
  sg_world :: "'w inv_world"
  sg_ctx :: investigation_context
  sg_components :: components
  sg_tiers :: "model_tier list"
  sg_workspace :: workspace
  sg_started :: int

definition sg_deadline :: "'w setting \<Rightarrow> int" where
  "sg_deadline sg = sg_started sg + bl_maxWallMs (ic_budget (sg_ctx sg))"

definition sg_now :: "'w setting \<Rightarrow> 'w \<Rightarrow> int \<times> 'w" where
  "sg_now sg w = tw_now (iw_tools (sg_world sg)) w"

definition elapsed :: "'w setting \<Rightarrow> 'w \<Rightarrow> int \<times> 'w" where
  "elapsed sg w = (let n = sg_now sg w in (fst n - sg_started sg, snd n))"

record inv_state =
  st_calls :: "tool_call list"
  st_structured :: "(string \<times> structured) list"
  st_messages :: "message list"
  st_modelsUsed :: "string list"
  st_rotations :: "tier_rotation list"
  st_rounds :: nat
  st_inputTokens :: int
  st_outputTokens :: int
  st_usage :: usage_by_model
  st_verdict :: "verdict option"
  st_stop :: "stop_reason option"
  st_poolFailure :: "string option"
  st_excluded :: "(nat \<times> string) list"
  st_guard :: guard

definition ok_calls :: "tool_call list \<Rightarrow> tool_call list" where
  "ok_calls calls = filter (\<lambda>t. tc_status t = CallOk) calls"

definition start_state :: "tool_text \<Rightarrow> inv_state" where
  "start_state listing =
     \<lparr>st_calls = [], st_structured = [], st_messages = [UserMessage (StartText listing) False], st_modelsUsed = [],
      st_rotations = [], st_rounds = 0, st_inputTokens = 0, st_outputTokens = 0, st_usage = [], st_verdict = None,
      st_stop = None, st_poolFailure = None, st_excluded = [], st_guard = new_guard\<rparr>"

section \<open>Asking the model\<close>

datatype ask_failure = AskExhausted | AskDeadline

definition provider_for :: "'w setting \<Rightarrow> message list \<Rightarrow> 'w provider" where
  "provider_for sg msgs =
     \<lparr>pr_now = sg_now sg, pr_call = iw_call (sg_world sg) msgs, pr_sleep = iw_sleep (sg_world sg)\<rparr>"

text \<open>The tokens and rotations of a question, whatever it ended with.\<close>

definition charge_state :: "'w setting \<Rightarrow> chat_usage \<Rightarrow> usage_by_model \<Rightarrow> pool_rotation list \<Rightarrow> inv_state \<Rightarrow> inv_state" where
  "charge_state sg u by_model rots s =
     s\<lparr>st_inputTokens := st_inputTokens s + cu_in u, st_outputTokens := st_outputTokens s + cu_out u,
       st_usage := addSpend (Some by_model) \<lparr>mu_in = cu_in u, mu_out = cu_out u\<rparr> (st_usage s),
       st_rotations := st_rotations s @ map (\<lambda>r. let p = iw_rotation (sg_world sg) r in
          \<lparr>rot_round = st_rounds s + 1, rot_from = fst p, rot_reason = snd p\<rparr>) rots\<rparr>"

text \<open>\<open>error.reasons.join('; ')\<close>, each reason with its label.\<close>

definition reasons_text :: "'w setting \<Rightarrow> pool_rotation list \<Rightarrow> string" where
  "reasons_text sg rots =
     join_with ''; '' (map (\<lambda>r. let p = iw_rotation (sg_world sg) r in fst p @ '': '' @ snd p) rots)"

definition inv_ask :: "'w setting \<Rightarrow> inv_state \<Rightarrow> 'w \<Rightarrow> (ask_failure + model_reply) \<times> inv_state \<times> 'w" where
  "inv_ask sg s w =
     (case ask (provider_for sg (st_messages s)) (parseReply (iw_parse (sg_world sg)))
         \<lparr>ap_deadline = Some (sg_deadline sg), ap_timeout = Some MODEL_CALL_TIMEOUT_MS, ap_retries = 2\<rparr>
         (sg_tiers sg) (st_excluded s) w of
        (Answer y, ex, w1) \<Rightarrow>
          (let s1 = charge_state sg (py_usage y) (py_usageByModel y) (py_rotations y) (s\<lparr>st_excluded := ex\<rparr>) in
           (Inr (py_value y),
            s1\<lparr>st_modelsUsed := set_add (py_model y) (st_modelsUsed s1),
               st_messages := st_messages s1 @ [AssistantMessage (py_value y)]\<rparr>, w1))
      | (Exhausted u rots by_model, ex, w1) \<Rightarrow>
          (Inl AskExhausted,
           (charge_state sg u by_model rots (s\<lparr>st_excluded := ex\<rparr>))\<lparr>st_poolFailure := Some (reasons_text sg rots)\<rparr>, w1)
      | (DeadlineExceeded u rots by_model, ex, w1) \<Rightarrow>
          (Inl AskDeadline, charge_state sg u by_model rots (s\<lparr>st_excluded := ex\<rparr>), w1))"

section \<open>The limits\<close>

definition limits_reached :: "'w setting \<Rightarrow> inv_state \<Rightarrow> 'w \<Rightarrow> stop_reason option \<times> 'w" where
  "limits_reached sg s w =
     (let b = ic_budget (sg_ctx sg) in
      if bl_maxRounds b \<le> st_rounds s then (Some MaxRounds, w)
      else
        (let e = elapsed sg w in
         if bl_maxWallMs b \<le> fst e then (Some MaxWall, snd e)
         else if bl_maxTokens b \<le> st_inputTokens s + st_outputTokens s then (Some MaxTokens, snd e)
         else if bl_maxToolCalls b \<le> length (st_calls s) then (Some MaxToolCalls, snd e)
         else if STALL_AFTER_ROUNDS \<le> st_rounds s \<and> ok_calls (st_calls s) = [] then
           (let e2 = elapsed sg (snd e) in (if STALL_AFTER_MS < fst e2 then Some Stalled else None, snd e2))
         else (None, snd e)))"

section \<open>The calls of one reply\<close>

definition call_id :: "nat \<Rightarrow> string" where
  "call_id n = ''tc-'' @ show_nat n"

definition syntheticCall :: "'w setting \<Rightarrow> string \<Rightarrow> tool \<Rightarrow> args \<Rightarrow> call_status \<Rightarrow> tool_text \<Rightarrow> 'w \<Rightarrow> tool_call \<times> 'w" where
  "syntheticCall sg i t a status text w =
     (let n = sg_now sg w in
      (\<lparr>tc_id = i, tc_tool = t, tc_args = a, tc_status = status,
        tc_output = map (\<lambda>b. char_of (unat b)) (tw_render (iw_tools (sg_world sg)) text), tc_structuredRef = None,
        tc_startedAt = fst n, tc_wallMs = 0, tc_injectionSuspected = False\<rparr>, snd n))"

text \<open>One call: switched off, blocked as a duplicate, or executed.\<close>

definition one_call :: "'w setting \<Rightarrow> model_call \<Rightarrow> inv_state \<Rightarrow> 'w \<Rightarrow> tool_call \<times> inv_state \<times> 'w" where
  "one_call sg c s w =
     (let i = call_id (length (st_calls s) + 1); a = argsFor c; t = ml_tool c in
      if \<not> co_tools (sg_components sg) t then
        (let r = syntheticCall sg i t a CallError (DisabledTool t) w in (fst r, s, snd r))
      else
        (let adm = admit t a (st_guard s); s1 = s\<lparr>st_guard := snd adm\<rparr> in
         if \<not> fst adm then
           (let r = syntheticCall sg i t a BlockedDuplicate (BlockedCall t (dg_counts (st_guard s) (signatureOf t a))) w
            in (fst r, s1, snd r))
         else
           (let r = execute (iw_tools (sg_world sg)) (sg_ctx sg) (sg_workspace sg) (Some (sg_deadline sg)) i t a w in
            (fst (fst r),
             (case snd (fst r) of None \<Rightarrow> s1 | Some st \<Rightarrow> s1\<lparr>st_structured := AList.update i st (st_structured s1)\<rparr>),
             snd r))))"

fun run_calls :: "'w setting \<Rightarrow> model_call list \<Rightarrow> inv_state \<Rightarrow> tool_call list \<Rightarrow> 'w \<Rightarrow> inv_state \<times> tool_call list \<times> 'w" where
  "run_calls sg [] s results w = (s, results, w)"
| "run_calls sg (c # cs) s results w =
     (if bl_maxToolCalls (ic_budget (sg_ctx sg)) \<le> length (st_calls s) then (s\<lparr>st_stop := Some MaxToolCalls\<rparr>, results, w)
      else
        (let e = elapsed sg w in
         if bl_maxWallMs (ic_budget (sg_ctx sg)) \<le> fst e then (s\<lparr>st_stop := Some MaxWall\<rparr>, results, snd e)
         else
           (case one_call sg c s (snd e) of
              (tc, s1, w1) \<Rightarrow>
                (let s2 = s1\<lparr>st_calls := st_calls s1 @ [tc]\<rparr>; results2 = results @ [tc] in
                 if stuck (st_guard s2) then (s2\<lparr>st_stop := Some BlockedRepeatedly\<rparr>, results2, w1)
                 else run_calls sg cs s2 results2 w1))))"

section \<open>The loop\<close>

definition inv_turn :: "'w setting \<Rightarrow> inv_state \<Rightarrow> 'w \<Rightarrow> inv_state \<times> 'w" where
  "inv_turn sg s w =
     (let l = limits_reached sg s w in
      case fst l of
        Some r \<Rightarrow> (s\<lparr>st_stop := Some r\<rparr>, snd l)
      | None \<Rightarrow>
          (case inv_ask sg s (snd l) of
             (Inl AskExhausted, s1, w1) \<Rightarrow> (s1\<lparr>st_stop := Some ModelsExhausted\<rparr>, w1)
           | (Inl AskDeadline, s1, w1) \<Rightarrow> (s1\<lparr>st_stop := Some MaxWall\<rparr>, w1)
           | (Inr (FinalVerdict extra v), s1, w1) \<Rightarrow>
               (s1\<lparr>st_rounds := st_rounds s1 + 1, st_verdict := Some v, st_stop := Some StopVerdict\<rparr>, w1)
           | (Inr (CallTools cs), s1, w1) \<Rightarrow>
               (case run_calls sg (take MAX_CALLS_PER_ROUND cs) (s1\<lparr>st_rounds := st_rounds s1 + 1\<rparr>) [] w1 of
                  (s2, results, w2) \<Rightarrow>
                    (s2\<lparr>st_messages := st_messages s2 @
                         [UserMessage (ResultsText results (length cs - MAX_CALLS_PER_ROUND)) False]\<rparr>, w2))))"

text \<open>A turn that does not stop adds one round below the limit.\<close>

definition rounds_left :: "'w setting \<Rightarrow> inv_state \<Rightarrow> nat" where
  "rounds_left sg s = bl_maxRounds (ic_budget (sg_ctx sg)) - st_rounds s"

lemma one_call_frame:
  "one_call sg c s w = (tc, s1, w1) \<Longrightarrow>
     st_rounds s1 = st_rounds s \<and> st_calls s1 = st_calls s \<and> st_stop s1 = st_stop s \<and> st_verdict s1 = st_verdict s \<and>
     st_inputTokens s1 = st_inputTokens s \<and> st_outputTokens s1 = st_outputTokens s \<and> st_usage s1 = st_usage s \<and>
     st_excluded s1 = st_excluded s"
  by (auto simp: one_call_def Let_def split: if_splits option.splits)

lemma run_calls_frame:
  "run_calls sg cs s results w = (s1, results1, w1) \<Longrightarrow>
     st_rounds s1 = st_rounds s \<and> st_verdict s1 = st_verdict s \<and>
     st_inputTokens s1 = st_inputTokens s \<and> st_outputTokens s1 = st_outputTokens s \<and> st_usage s1 = st_usage s \<and>
     st_excluded s1 = st_excluded s"
proof (induction cs arbitrary: s results w)
  case (Cons c cs)
  obtain tc s2 w2 where o: "one_call sg c s (snd (elapsed sg w)) = (tc, s2, w2)" by (metis prod_cases3)
  note f = one_call_frame[OF o]
  show ?case
  proof (cases "bl_maxToolCalls (ic_budget (sg_ctx sg)) \<le> length (st_calls s) \<or>
      bl_maxWallMs (ic_budget (sg_ctx sg)) \<le> fst (elapsed sg w) \<or> stuck (st_guard s2)")
    case True
    with Cons.prems f show ?thesis by (auto simp: o Let_def split: if_splits)
  next
    case False
    with Cons.prems have "run_calls sg cs (s2\<lparr>st_calls := st_calls s2 @ [tc]\<rparr>) (results @ [tc]) w2 = (s1, results1, w1)"
      by (simp add: o Let_def)
    from Cons.IH[OF this] f show ?thesis by simp
  qed
qed simp

lemma inv_ask_frame:
  "inv_ask sg s w = (r, s1, w1) \<Longrightarrow> st_rounds s1 = st_rounds s \<and> st_calls s1 = st_calls s \<and> st_stop s1 = st_stop s \<and>
     st_verdict s1 = st_verdict s \<and> st_structured s1 = st_structured s \<and> st_guard s1 = st_guard s"
  by (auto simp: inv_ask_def charge_state_def Let_def split: prod.splits ask_result.splits)

lemma inv_turn_rounds:
  assumes "inv_turn sg s w = (s', w')" and "st_stop s' = None"
  shows "st_rounds s < bl_maxRounds (ic_budget (sg_ctx sg)) \<and> st_rounds s' = st_rounds s + 1"
proof -
  have lt: "st_rounds s < bl_maxRounds (ic_budget (sg_ctx sg))"
    using assms by (auto simp: inv_turn_def limits_reached_def Let_def split: if_splits)
  have "st_rounds s' = st_rounds s + 1"
    using assms
    by (auto simp: inv_turn_def Let_def split: option.splits prod.splits sum.splits ask_failure.splits model_reply.splits
        dest!: inv_ask_frame run_calls_frame)
  with lt show ?thesis by simp
qed

function inv_loop :: "'w setting \<Rightarrow> inv_state \<Rightarrow> 'w \<Rightarrow> inv_state \<times> 'w" where
  "inv_loop sg s w =
     (let r = inv_turn sg s w in
      if st_stop (fst r) = None then inv_loop sg (fst r) (snd r) else r)"
  by pat_completeness auto

termination
proof (relation "measure (\<lambda>(sg, s, _). rounds_left sg s)")
  fix sg :: "'w setting" and s :: inv_state and w :: 'w and r
  assume "r = inv_turn sg s w" and "st_stop (fst r) = None"
  then have "st_rounds s < bl_maxRounds (ic_budget (sg_ctx sg)) \<and> st_rounds (fst r) = st_rounds s + 1"
    using inv_turn_rounds[of sg s w "fst r" "snd r"] by simp
  then show "((sg, fst r, snd r), (sg, s, w)) \<in> measure (\<lambda>(sg, s, _). rounds_left sg s)"
    by (cases r) (auto simp: rounds_left_def)
qed simp

declare inv_loop.simps [simp del]

section \<open>The forced conclusion\<close>

text \<open>The request is appended to the last message when that is the user's.\<close>

definition ask_for_conclusion :: "message list \<Rightarrow> message list" where
  "ask_for_conclusion msgs =
     (case rev msgs of
        UserMessage p _ # before \<Rightarrow> rev before @ [UserMessage p True]
      | _ \<Rightarrow> msgs @ [UserMessage ForceFinalText False])"

definition forced_final :: "'w setting \<Rightarrow> inv_state \<Rightarrow> 'w \<Rightarrow> bool \<times> inv_state \<times> 'w" where
  "forced_final sg s w =
     (if (st_stop s = Some MaxToolCalls \<or> st_stop s = Some MaxRounds) \<and> ok_calls (st_calls s) \<noteq> [] then
        (case inv_ask sg (s\<lparr>st_messages := ask_for_conclusion (st_messages s)\<rparr>) w of
           (Inr (FinalVerdict extra v), s1, w1) \<Rightarrow> (True, s1\<lparr>st_verdict := Some v\<rparr>, w1)
         | (Inr (CallTools cs), s1, w1) \<Rightarrow> (True, s1, w1)
         | (Inl AskExhausted, s1, w1) \<Rightarrow> (False, s1\<lparr>st_stop := Some ModelsExhausted\<rparr>, w1)
         | (Inl AskDeadline, s1, w1) \<Rightarrow> (False, s1, w1))
      else (False, s, w))"

section \<open>What is accepted of a verdict (T-AG-2)\<close>

fun accept_errors ::
  "key set \<Rightarrow> string set \<Rightarrow> string set \<Rightarrow> source_file list \<Rightarrow> key list \<Rightarrow> verdict_error list \<Rightarrow>
   verdict_error list \<times> (key \<times> reject_reason) list" where
  "accept_errors known all_ids ok_ids files seen [] = ([], [])"
| "accept_errors known all_ids ok_ids files seen (e # es) =
     (let k = ve_ruleKey e in
      if k \<notin> known then
        (let r = accept_errors known all_ids ok_ids files seen es in (fst r, (k, UnknownRuleKey) # snd r))
      else if \<not> set (ve_toolCallIds e) \<subseteq> all_ids then
        (let r = accept_errors known all_ids ok_ids files seen es in (fst r, (k, FabricatedToolCall) # snd r))
      else
        (let evidence = filter (\<lambda>i. i \<in> ok_ids) (ve_toolCallIds e) in
         if evidence = [] then
           (let r = accept_errors known all_ids ok_ids files seen es in (fst r, (k, NoValidToolCall) # snd r))
         else if k \<in> set seen then accept_errors known all_ids ok_ids files seen es
         else
           (let r = accept_errors known all_ids ok_ids files (seen @ [k]) es
            in (e\<lparr>ve_toolCallIds := evidence, ve_evidence := verifyEvidence (ve_evidence e) files\<rparr> # fst r, snd r))))"

definition accept_verdict ::
  "investigation_context \<Rightarrow> tool_call list \<Rightarrow> verdict \<Rightarrow> verdict \<times> (key \<times> reject_reason) list" where
  "accept_verdict ctx calls v =
     (let ok_ids = set (map tc_id (ok_calls calls));
          r = accept_errors (set (map rn_ruleKey (ic_rules ctx))) (set (map tc_id calls)) ok_ids (ic_files ctx) [] (v_errors v) in
      (v\<lparr>v_errors := fst r,
         v_missingRules := map (\<lambda>m. m\<lparr>mr_toolCallIds := filter (\<lambda>i. i \<in> ok_ids) (mr_toolCallIds m)\<rparr>) (v_missingRules v)\<rparr>,
       snd r))"

section \<open>The floors of the investigation\<close>

text \<open>The reason for a pool that failed, cut to 500 code units with its separator of three.\<close>

definition why_of :: "inv_state \<Rightarrow> string option" where
  "why_of s = (if st_stop s = Some ModelsExhausted
     then (case st_poolFailure s of Some p \<Rightarrow> if p = [] then None else Some (take 497 p) | None \<Rightarrow> None) else None)"

definition inv_floor :: "investigation_context \<Rightarrow> inv_state \<Rightarrow> stop_reason \<Rightarrow> bool \<Rightarrow> ungradable option" where
  "inv_floor ctx s stop accepted =
     (let missing = uncoveredCases (ic_cases ctx) (st_calls s) (map_of (st_structured s));
          system = (\<lambda>r. Some \<lparr>ug_class = SystemFault, ug_reason = r\<rparr>) in
      if ok_calls (st_calls s) = [] then system (NoSuccessfulCall stop (why_of s))
      else if stop = ModelsExhausted then system (ExhaustedBeforeVerdict (why_of s))
      else if ic_cases ctx = [] then system EmptyBundle
      else if missing \<noteq> [] then system (BundleNotCovered (length missing) (length (ic_cases ctx)) (uniq (map tk_group missing)))
      else if \<not> accepted then system (StoppedBeforeVerdict stop (why_of s))
      else None)"

section \<open>Injection and replay\<close>

definition claim_quote :: "verdict option \<Rightarrow> utext" where
  "claim_quote accepted = (case Option.bind accepted v_injectionExcerpt of None \<Rightarrow> [] | Some x \<Rightarrow> trim_by is_ws (units x))"

definition claim_credible :: "investigation_context \<Rightarrow> verdict option \<Rightarrow> bool" where
  "claim_credible ctx accepted \<longleftrightarrow>
     (case accepted of None \<Rightarrow> False | Some v \<Rightarrow> v_injectionDetected v) \<and>
     (claim_quote accepted = [] \<or> quoteAppearsInSubmission (claim_quote accepted) (map (units \<circ> snd) (ic_files ctx)))"

definition submission_suspected :: "investigation_context \<Rightarrow> bool" where
  "submission_suspected ctx \<longleftrightarrow> list_ex (\<lambda>f. se_injectionSuspected (wrapSubmission [] (units (snd f)))) (ic_files ctx)"

definition injection_sources :: "investigation_context \<Rightarrow> tool_call list \<Rightarrow> verdict option \<Rightarrow> injection_source list" where
  "injection_sources ctx calls accepted =
     (if submission_suspected ctx then [SubmissionPattern] else []) @
     (if list_ex tc_injectionSuspected calls then [ToolOutput] else []) @
     (if claim_credible ctx accepted
      then [if claim_quote accepted = [] then ModelClaimWithoutQuote else ModelClaimWithQuote] else [])"

definition inv_flags ::
  "result_kind \<Rightarrow> stop_reason \<Rightarrow> (key \<times> reject_reason) list \<Rightarrow> injection_source list \<Rightarrow> investigation_flag list" where
  "inv_flags kind stop rejected sources =
     (if kind = KVerdict \<and> stop \<noteq> StopVerdict then [BudgetExhausted] else []) @
     (if rejected \<noteq> [] then [EvidenceRejected] else []) @
     (if sources \<noteq> [] then [InjectionSuspected] else [])"

text \<open>What has to be the same when a call runs again; \<open>None\<close> without a structured result.\<close>

datatype replay_key =
    RunKey "bool option" "case_status option" "string option"
  | TestsKey "bool option" "(string \<times> case_status) list"

fun replayKey :: "structured \<Rightarrow> replay_key" where
  "replayKey (RunResult c s x h) = RunKey (map_option ci_ok c) s x"
| "replayKey (RunTestsResult c cs ab h) = TestsKey (map_option ci_ok c) (map (\<lambda>k. (cr_name k, cr_status k)) cs)"

fun aborted :: "structured option \<Rightarrow> bool" where
  "aborted (Some (RunTestsResult c cs ab h)) = ab"
| "aborted _ = False"

definition replay_candidates :: "tool_call list \<Rightarrow> verdict \<Rightarrow> tool_call list" where
  "replay_candidates calls v =
     (let cited = concat (map ve_toolCallIds (v_errors v));
          sandbox_calls = filter (\<lambda>t. tc_status t = CallOk \<and> (tc_tool t = Run \<or> tc_tool t = RunTests)) calls;
          preferred = filter (\<lambda>t. tc_id t \<in> set cited) sandbox_calls
      in if preferred \<noteq> [] then preferred else sandbox_calls)"

definition replay_matched :: "structured option \<Rightarrow> tool_call \<Rightarrow> structured option \<Rightarrow> bool option" where
  "replay_matched before again after =
     (if tc_status again \<noteq> CallOk \<or> aborted after \<or> aborted before then None
      else Some (before \<noteq> None \<and> map_option replayKey before = map_option replayKey after))"

definition run_replay ::
  "'w setting \<Rightarrow> inv_state \<Rightarrow> verdict \<Rightarrow> 'w \<Rightarrow> replay_check option \<times> investigation_flag list \<times> rat \<times> 'w" where
  "run_replay sg s v w =
     (let cands = replay_candidates (st_calls s) v in
      if cands = [] then (None, [], 1, w)
      else
        (let rnd = iw_random (sg_world sg) w;
             pick = cands ! nat (min (int (length cands) - 1) (floor (fst rnd * of_nat (length cands))));
             r = execute (iw_tools (sg_world sg)) (sg_ctx sg) (sg_workspace sg) (Some (sg_deadline sg))
               (tc_id pick @ ''-replay'') (tc_tool pick) (tc_args pick) (snd rnd);
             matched = replay_matched (map_of (st_structured s) (tc_id pick)) (fst (fst r)) (snd (fst r))
         in (Some \<lparr>rp_toolCallId = tc_id pick, rp_matched = matched\<rparr>,
             (case matched of None \<Rightarrow> [ReplayUnverified] | Some b \<Rightarrow> if b then [] else [ReplayMismatch]),
             (if matched = Some False then REPLAY_CONFIDENCE_CAP else 1), snd r)))"

text \<open>Replay is skipped when it is off or there is no verdict; too little time is said, not silently skipped.\<close>

definition inv_replay ::
  "'w setting \<Rightarrow> inv_state \<Rightarrow> verdict option \<Rightarrow> 'w \<Rightarrow> replay_check option \<times> investigation_flag list \<times> rat \<times> 'w" where
  "inv_replay sg s verdict w =
     (case verdict of
        None \<Rightarrow> (None, [], 1, w)
      | Some v \<Rightarrow>
          if \<not> co_replayCheck (sg_components sg) then (None, [], 1, w)
          else
            (let n = sg_now sg w in
             if sg_deadline sg - fst n < MIN_REPLAY_MS then (None, [ReplayUnverified], 1, snd n)
             else run_replay sg s v (snd n)))"

section \<open>The whole investigation\<close>

definition no_budget_use :: "stop_reason \<Rightarrow> budget_limits \<Rightarrow> budget_use" where
  "no_budget_use stop limits = \<lparr>bu_toolCalls = 0, bu_wallMs = 0, bu_tokens = 0, bu_rounds = 0, bu_forcedFinal = False,
     bu_stopReason = stop, bu_limits = limits\<rparr>"

definition invalidProgram :: "investigation_context \<Rightarrow> ungradable \<Rightarrow> bool \<Rightarrow> investigation_result" where
  "invalidProgram ctx u suspected =
     \<lparr>ir_kind = KUngradable, ir_verdict = None, ir_rejected = [], ir_ungradable = Some u,
      ir_flags = (if suspected then [InjectionSuspected] else []),
      ir_injectionSources = (if suspected then [SubmissionPattern] else []), ir_confidenceCap = 1, ir_replay = None,
      ir_investigation = \<lparr>inv_toolCalls = [], inv_structured = Map.empty,
        inv_budget = no_budget_use (if ug_class u = SubmissionFault then EmptySubmission else InvalidProgram) (ic_budget ctx),
        inv_modelsUsed = [], inv_rotations = []\<rparr>,
      ir_inputTokens = 0, ir_outputTokens = 0\<rparr>"

definition inv_result :: "'w setting \<Rightarrow> bool \<Rightarrow> inv_state \<Rightarrow> 'w \<Rightarrow> investigation_result \<times> usage_by_model \<times> 'w" where
  "inv_result sg forced s w =
     (let ctx = sg_ctx sg;
          stop = (case st_stop s of Some r \<Rightarrow> r | None \<Rightarrow> StopVerdict);
          accepted = map_option (accept_verdict ctx (st_calls s)) (st_verdict s);
          rejected = (case accepted of None \<Rightarrow> [] | Some r \<Rightarrow> snd r);
          ungradable = inv_floor ctx s stop (accepted \<noteq> None);
          kind = (if ungradable = None then KVerdict else KUngradable);
          sources = injection_sources ctx (st_calls s) (map_option fst accepted);
          verdict = (if kind = KVerdict then map_option fst accepted else None);
          rp = inv_replay sg s verdict w;
          e = elapsed sg (snd (snd (snd rp)))
      in (\<lparr>ir_kind = kind, ir_verdict = verdict, ir_rejected = rejected, ir_ungradable = ungradable,
           ir_flags = inv_flags kind stop rejected sources @ fst (snd rp), ir_injectionSources = sources,
           ir_confidenceCap = fst (snd (snd rp)), ir_replay = fst rp,
           ir_investigation = \<lparr>inv_toolCalls = st_calls s, inv_structured = map_of (st_structured s),
             inv_budget = \<lparr>bu_toolCalls = length (st_calls s), bu_wallMs = fst e,
               bu_tokens = st_inputTokens s + st_outputTokens s, bu_rounds = st_rounds s, bu_forcedFinal = forced,
               bu_stopReason = stop, bu_limits = ic_budget ctx\<rparr>,
             inv_modelsUsed = st_modelsUsed s, inv_rotations = st_rotations s\<rparr>,
           ir_inputTokens = st_inputTokens s, ir_outputTokens = st_outputTokens s\<rparr>, st_usage s, snd e))"

definition setting_for :: "'w inv_world \<Rightarrow> model_tier list \<Rightarrow> components \<Rightarrow> investigation_context \<Rightarrow> int \<Rightarrow> 'w setting" where
  "setting_for iw tiers co ctx started =
     \<lparr>sg_world = iw, sg_ctx = ctx, sg_components = co, sg_tiers = tiers,
      sg_workspace = fromContext (iw_system iw) (ic_files ctx), sg_started = started\<rparr>"

definition investigate ::
  "'w inv_world \<Rightarrow> model_tier list \<Rightarrow> components \<Rightarrow> investigation_context \<Rightarrow> 'w \<Rightarrow>
   investigation_result \<times> usage_by_model option \<times> 'w" where
  "investigate iw tiers co ctx w =
     (let n = tw_now (iw_tools iw) w in
      case programProblem (tw_issue (iw_tools iw)) ctx of
        Some u \<Rightarrow> (invalidProgram ctx u (submission_suspected ctx), None, snd n)
      | None \<Rightarrow>
          (let sg = setting_for iw tiers co ctx (fst n);
               l = renderListing (iw_tools iw) (list_files (tw_byteLength (iw_tools iw)) (sg_workspace sg)) (snd n);
               r = inv_loop sg (start_state (fst (fst l))) (snd l);
               f = forced_final sg (fst r) (snd r);
               x = inv_result sg (fst f) (fst (snd f)) (snd (snd f))
           in (fst x, Some (fst (snd x)), snd (snd x))))"

end
