(* ===== verification/Investigation_Spec.thy ===== *)
theory Investigation_Spec
  imports Investigate Decide
begin

text \<open>
  What an investigation guarantees, whatever the model, the sandbox and the clock do: its limits, the
  evidence behind every accepted error, the floors, and that a repeated call is not executed for ever.
\<close>

section \<open>Call ids\<close>

lemma call_id_inj [simp]: "call_id m = call_id n \<longleftrightarrow> m = n"
  by (metis append_same_eq call_id_def number_of_show_nat same_append_eq)

definition ids_upto :: "nat \<Rightarrow> string list" where
  "ids_upto n = map call_id [1..<Suc n]"

lemma ids_upto_Suc: "ids_upto (Suc n) = ids_upto n @ [call_id (Suc n)]"
  by (simp add: ids_upto_def)

lemma ids_upto_0: "ids_upto 0 = []"
  by (simp add: ids_upto_def)

lemma distinct_ids_upto: "distinct (ids_upto n)"
  by (simp add: ids_upto_def distinct_map inj_on_def del: upt_Suc)

lemma call_id_in_upto: "call_id k \<in> set (ids_upto n) \<longleftrightarrow> 1 \<le> k \<and> k \<le> n"
  by (auto simp: ids_upto_def simp del: upt_Suc)

section \<open>The invariant of the loop\<close>

text \<open>A call that reached the runner: neither blocked nor switched off.\<close>

definition executed :: "'w setting \<Rightarrow> tool_call \<Rightarrow> bool" where
  "executed sg t \<longleftrightarrow> tc_status t \<noteq> BlockedDuplicate \<and> co_tools (sg_components sg) (tc_tool t)"

definition guard_entry :: "'w setting \<Rightarrow> tool_call \<Rightarrow> (tool \<times> args) \<times> bool" where
  "guard_entry sg t = ((tc_tool t, tc_args t), executed sg t)"

text \<open>A structured result belongs to a call of its kind; a call refers to its own result or to none.\<close>

definition result_fits :: "tool_call \<Rightarrow> (string \<Rightarrow> structured option) \<Rightarrow> bool" where
  "result_fits t st \<longleftrightarrow>
     (tc_structuredRef t = (if st (tc_id t) = None then None else Some (tc_id t))) \<and>
     (case st (tc_id t) of
        None \<Rightarrow> \<not> (tc_status t = CallOk \<and> (tc_tool t = Run \<or> tc_tool t = RunTests))
      | Some (RunTestsResult _ _ _ _) \<Rightarrow> tc_tool t = RunTests \<and> tc_status t = CallOk
      | Some (RunResult _ _ _ _) \<Rightarrow> tc_tool t = Run \<and> tc_status t = CallOk)"

definition calls_ok :: "'w setting \<Rightarrow> inv_state \<Rightarrow> bool" where
  "calls_ok sg s \<longleftrightarrow>
     map tc_id (st_calls s) = ids_upto (length (st_calls s)) \<and>
     length (st_calls s) \<le> bl_maxToolCalls (ic_budget (sg_ctx sg)) \<and>
     st_rounds s \<le> bl_maxRounds (ic_budget (sg_ctx sg)) \<and>
     fst ` set (st_structured s) \<subseteq> set (map tc_id (st_calls s)) \<and>
     (\<forall>t \<in> set (st_calls s). result_fits t (map_of (st_structured s))) \<and>
     dedup.consistent (map (guard_entry sg) (st_calls s)) (st_guard s)"

lemma calls_ok_start: "calls_ok sg (start_state l)"
  by (simp add: calls_ok_def start_state_def ids_upto_0 dedup.consistent_fresh)

lemma execute_executed:
  assumes "execute tw ctx ws d i t a w = ((tc, st), w')"
  shows "tc_status tc \<noteq> BlockedDuplicate \<and> tc_tool tc = t \<and> tc_args tc = a \<and> tc_id tc = i"
  using execute_ok[OF assms] by simp

text \<open>Appending a call: what has to be known of it and of the state it was run from.\<close>

lemma calls_ok_append:
  assumes ok: "calls_ok sg s" and lt: "length (st_calls s) < bl_maxToolCalls (ic_budget (sg_ctx sg))"
    and tc: "tc_id tc = call_id (length (st_calls s) + 1)"
    and same: "st_calls s1 = st_calls s" "st_rounds s1 = st_rounds s"
    and keys: "fst ` set (st_structured s1) \<subseteq> insert (tc_id tc) (fst ` set (st_structured s))"
    and fit: "result_fits tc (map_of (st_structured s1))"
    and other: "\<And>x. tc_id tc \<noteq> x \<Longrightarrow> map_of (st_structured s1) x = map_of (st_structured s) x"
    and g: "dedup.consistent (map (guard_entry sg) (st_calls s) @ [guard_entry sg tc]) (st_guard s1)"
  shows "calls_ok sg (s1\<lparr>st_calls := st_calls s1 @ [tc]\<rparr>)"
proof -
  let ?n = "length (st_calls s)"
  have ids: "map tc_id (st_calls s) = ids_upto ?n" and sub: "fst ` set (st_structured s) \<subseteq> set (map tc_id (st_calls s))"
    and fits: "\<And>x. x \<in> set (st_calls s) \<Longrightarrow> result_fits x (map_of (st_structured s))"
    and r: "st_rounds s \<le> bl_maxRounds (ic_budget (sg_ctx sg))"
    using ok unfolding calls_ok_def by blast+
  have "tc_id tc \<notin> set (map tc_id (st_calls s))" unfolding ids tc by (simp add: call_id_in_upto)
  then have ne: "tc_id tc \<noteq> tc_id x" if "x \<in> set (st_calls s)" for x using that by auto
  have "result_fits x (map_of (st_structured s1))" if "x \<in> set (st_calls s)" for x
    using fits[OF that] other[OF ne[OF that]] by (simp add: result_fits_def)
  moreover have "map tc_id (st_calls s @ [tc]) = ids_upto (Suc ?n)"
    using ids tc by (simp add: ids_upto_Suc)
  moreover have "fst ` set (st_structured s1) \<subseteq> set (map tc_id (st_calls s @ [tc]))"
    using keys sub by auto
  ultimately show ?thesis
    unfolding calls_ok_def using lt r fit g same by auto
qed

text \<open>One call keeps the invariant once it is appended.\<close>

lemma one_call_ok:
  assumes ok: "calls_ok sg s" and lt: "length (st_calls s) < bl_maxToolCalls (ic_budget (sg_ctx sg))"
    and o: "one_call sg c s w = (tc, s1, w1)"
  shows "calls_ok sg (s1\<lparr>st_calls := st_calls s1 @ [tc]\<rparr>)"
proof -
  define i where "i = call_id (length (st_calls s) + 1)"
  define t where "t = ml_tool c"
  define a where "a = argsFor c"
  have ids: "map tc_id (st_calls s) = ids_upto (length (st_calls s))"
    and g: "dedup.consistent (map (guard_entry sg) (st_calls s)) (st_guard s)"
    and sub: "fst ` set (st_structured s) \<subseteq> set (map tc_id (st_calls s))"
    using ok unfolding calls_ok_def by blast+
  have "i \<notin> set (map tc_id (st_calls s))" unfolding ids i_def by (simp add: call_id_in_upto)
  then have none: "map_of (st_structured s) i = None" using sub by (force simp: map_of_eq_None_iff)
  consider (off) "\<not> co_tools (sg_components sg) t"
    | (blocked) "co_tools (sg_components sg) t" "\<not> fst (admit t a (st_guard s))"
    | (run) "co_tools (sg_components sg) t" "fst (admit t a (st_guard s))" by blast
  then show ?thesis
  proof cases
    case off
    then have tc: "tc_id tc = i" "tc_status tc = CallError" "tc_structuredRef tc = None" "tc_tool tc = t" and s1: "s1 = s"
      using o by (auto simp: one_call_def Let_def syntheticCall_def i_def t_def)
    have "\<not> executed sg tc" using off tc by (simp add: executed_def)
    moreover have "result_fits tc (map_of (st_structured s))" using none tc by (simp add: result_fits_def)
    ultimately show ?thesis
      by (intro calls_ok_append[OF ok lt])
        (use tc dedup.consistent_skip[OF g] in \<open>auto simp: s1 i_def guard_entry_def\<close>)
  next
    case blocked
    then have tc: "tc_id tc = i" "tc_status tc = BlockedDuplicate" "tc_structuredRef tc = None"
        "tc_tool tc = t" "tc_args tc = a"
      and s1: "s1 = s\<lparr>st_guard := snd (admit t a (st_guard s))\<rparr>"
      using o by (auto simp: one_call_def Let_def syntheticCall_def i_def t_def a_def)
    have "\<not> executed sg tc" using tc by (simp add: executed_def)
    moreover have "result_fits tc (map_of (st_structured s))" using none tc by (simp add: result_fits_def)
    ultimately show ?thesis
      by (intro calls_ok_append[OF ok lt])
        (use tc dedup.consistent_ask[OF g, of "(t, a)"] blocked in \<open>auto simp: s1 i_def guard_entry_def\<close>)
  next
    case run
    obtain st w2 where e: "execute (iw_tools (sg_world sg)) (sg_ctx sg) (sg_workspace sg) (Some (sg_deadline sg)) i t a w =
        ((tc, st), w2)"
      and s1: "s1 = (case st of None \<Rightarrow> s\<lparr>st_guard := snd (admit t a (st_guard s))\<rparr>
        | Some x \<Rightarrow> s\<lparr>st_guard := snd (admit t a (st_guard s)), st_structured := AList.update i x (st_structured s)\<rparr>)"
    proof -
      obtain tc' st' w' where "execute (iw_tools (sg_world sg)) (sg_ctx sg) (sg_workspace sg) (Some (sg_deadline sg)) i t a w =
        ((tc', st'), w')" by (metis prod.exhaust)
      with o run show thesis
        by (intro that) (auto simp: one_call_def Let_def i_def t_def a_def split: option.splits)
    qed
    note x = execute_ok[OF e]
    have m: "map_of (st_structured s1) y = (if y = i then st else map_of (st_structured s) y)" for y
      using none by (auto simp: s1 js_simps split: option.split)
    have "result_fits tc (map_of (st_structured s1))"
      using x by (cases st) (auto simp: result_fits_def m split: structured.split)
    moreover have "fst ` set (st_structured s1) \<subseteq> insert i (fst ` set (st_structured s))"
      by (cases st) (auto simp: s1 set_fst_update)
    moreover have "executed sg tc" using x run by (simp add: executed_def)
    ultimately show ?thesis
      by (intro calls_ok_append[OF ok lt])
        (use x dedup.consistent_ask[OF g, of "(t, a)"] run in \<open>auto simp: i_def js_simps s1 guard_entry_def split: option.splits\<close>)
  qed
qed

lemma calls_ok_stop [simp]: "calls_ok sg (s\<lparr>st_stop := r\<rparr>) = calls_ok sg s"
  by (simp add: calls_ok_def)

lemma calls_ok_messages [simp]: "calls_ok sg (s\<lparr>st_messages := m\<rparr>) = calls_ok sg s"
  by (simp add: calls_ok_def)

lemma calls_ok_cong:
  assumes "calls_ok sg s" and "st_calls s' = st_calls s" "st_structured s' = st_structured s" "st_guard s' = st_guard s"
    and "st_rounds s' \<le> bl_maxRounds (ic_budget (sg_ctx sg))"
  shows "calls_ok sg s'"
  using assms(1,5) unfolding calls_ok_def assms(2-4) by blast

lemma calls_ok_rounds: "calls_ok sg s \<Longrightarrow> st_rounds s \<le> bl_maxRounds (ic_budget (sg_ctx sg))"
  by (simp add: calls_ok_def)

lemma run_calls_ok:
  "calls_ok sg s \<Longrightarrow> run_calls sg cs s results w = (s1, results1, w1) \<Longrightarrow> calls_ok sg s1"
proof (induction cs arbitrary: s results w)
  case (Cons c cs)
  let ?e = "elapsed sg w"
  obtain tc s2 w2 where o: "one_call sg c s (snd ?e) = (tc, s2, w2)" by (metis prod_cases3)
  show ?case
  proof (cases "bl_maxToolCalls (ic_budget (sg_ctx sg)) \<le> length (st_calls s) \<or>
      bl_maxWallMs (ic_budget (sg_ctx sg)) \<le> fst ?e")
    case True
    then have "st_calls s1 = st_calls s \<and> st_rounds s1 = st_rounds s \<and> st_structured s1 = st_structured s \<and> st_guard s1 = st_guard s"
      using Cons.prems(2) by (auto simp: Let_def split: if_splits)
    with calls_ok_cong[OF Cons.prems(1), of s1] calls_ok_rounds[OF Cons.prems(1)] show ?thesis by simp
  next
    case False
    then have s2: "calls_ok sg (s2\<lparr>st_calls := st_calls s2 @ [tc]\<rparr>)"
      using one_call_ok[OF Cons.prems(1) _ o] by simp
    show ?thesis
    proof (cases "stuck (st_guard s2)")
      case True
      with Cons.prems(2) False have "s1 = s2\<lparr>st_calls := st_calls s2 @ [tc], st_stop := Some BlockedRepeatedly\<rparr>"
        by (simp add: o Let_def)
      with s2 show ?thesis by simp
    next
      case go: False
      then have "run_calls sg cs (s2\<lparr>st_calls := st_calls s2 @ [tc]\<rparr>) (results @ [tc]) w2 = (s1, results1, w1)"
        using Cons.prems(2) False by (simp add: o Let_def)
      with Cons.IH[OF s2] show ?thesis by blast
    qed
  qed
qed simp

lemma inv_turn_ok:
  assumes ok: "calls_ok sg s" and t: "inv_turn sg s w = (s', w')"
  shows "calls_ok sg s'"
proof -
  let ?l = "limits_reached sg s w"
  show ?thesis
  proof (cases "fst ?l")
    case (Some r)
    then have "s' = s\<lparr>st_stop := Some r\<rparr>" using t by (simp add: inv_turn_def Let_def)
    then show ?thesis using ok by simp
  next
    case None
    then have lt: "st_rounds s < bl_maxRounds (ic_budget (sg_ctx sg))"
      by (auto simp: limits_reached_def Let_def split: if_splits)
    obtain r s1 w1 where a: "inv_ask sg s (snd ?l) = (r, s1, w1)" by (metis prod_cases3)
    note f = inv_ask_frame[OF a]
    have s1: "calls_ok sg (s1\<lparr>st_rounds := n\<rparr>)" if "n \<le> bl_maxRounds (ic_budget (sg_ctx sg))" for n
      by (rule calls_ok_cong[OF ok]) (use f that in simp_all)
    show ?thesis
    proof (cases "\<exists>cs. r = Inr (CallTools cs)")
      case True
      then obtain cs where r: "r = Inr (CallTools cs)" by blast
      obtain s2 results w2 where rc: "run_calls sg (take MAX_CALLS_PER_ROUND cs) (s1\<lparr>st_rounds := st_rounds s1 + 1\<rparr>) [] w1 =
          (s2, results, w2)" by (metis prod_cases3)
      have "calls_ok sg s2" using run_calls_ok[OF s1 rc] lt f by simp
      moreover have "s' = s2\<lparr>st_messages := st_messages s2 @
          [UserMessage (ResultsText results (length cs - MAX_CALLS_PER_ROUND)) False]\<rparr>"
        using t None by (simp add: inv_turn_def Let_def a r rc[simplified])
      ultimately show ?thesis by simp
    next
      case False
      then have "st_calls s' = st_calls s \<and> st_structured s' = st_structured s \<and> st_guard s' = st_guard s \<and>
          (st_rounds s' = st_rounds s \<or> st_rounds s' = st_rounds s + 1)"
        using t None f
        by (auto simp: inv_turn_def Let_def a split: sum.splits ask_failure.splits model_reply.splits)
      then show ?thesis using lt by (intro calls_ok_cong[OF ok]) auto
    qed
  qed
qed

lemma inv_loop_rule:
  assumes "\<And>s w s' w'. I s \<Longrightarrow> inv_turn sg s w = (s', w') \<Longrightarrow> I s'"
  shows "I s \<Longrightarrow> I (fst (inv_loop sg s w))"
proof (induction "rounds_left sg s" arbitrary: s w rule: less_induct)
  case less
  obtain s' w' where t: "inv_turn sg s w = (s', w')" by fastforce
  have i: "I s'" using assms[OF less.prems t] .
  show ?case
  proof (cases "st_stop s' = None")
    case True
    then have "rounds_left sg s' < rounds_left sg s" using inv_turn_rounds[OF t] by (auto simp: rounds_left_def)
    with less.hyps[OF _ i] True show ?thesis by (simp add: inv_loop.simps[of sg s w] t Let_def)
  qed (auto simp: inv_loop.simps[of sg s w] t i Let_def)
qed

lemma inv_loop_ok: "calls_ok sg s \<Longrightarrow> calls_ok sg (fst (inv_loop sg s w))"
  by (rule inv_loop_rule[where I = "calls_ok sg"]) (simp_all add: inv_turn_ok)

lemma inv_loop_stops: "st_stop (fst (inv_loop sg s w)) \<noteq> None"
proof (induction "rounds_left sg s" arbitrary: s w rule: less_induct)
  case less
  obtain s' w' where t: "inv_turn sg s w = (s', w')" by fastforce
  show ?case
  proof (cases "st_stop s' = None")
    case True
    then have "rounds_left sg s' < rounds_left sg s" using inv_turn_rounds[OF t] by (auto simp: rounds_left_def)
    with less True show ?thesis by (simp add: inv_loop.simps[of sg s w] t Let_def)
  qed (auto simp: inv_loop.simps[of sg s w] t Let_def)
qed

lemma forced_final_frame:
  assumes "forced_final sg s w = (b, s', w')"
  shows "st_calls s' = st_calls s \<and> st_structured s' = st_structured s \<and> st_guard s' = st_guard s \<and> st_rounds s' = st_rounds s \<and>
     (st_stop s' = st_stop s \<or> st_stop s' = Some ModelsExhausted)"
  using assms
  by (auto simp: forced_final_def split: if_splits prod.splits sum.splits ask_failure.splits model_reply.splits
      dest!: inv_ask_frame)

section \<open>The end of an investigation\<close>

text \<open>The state the result is made of, for an investigation that starts.\<close>

definition final_state :: "'w inv_world \<Rightarrow> model_tier list \<Rightarrow> components \<Rightarrow> investigation_context \<Rightarrow> 'w \<Rightarrow> 'w setting \<times> bool \<times> inv_state \<times> 'w" where
  "final_state iw tiers co ctx w =
     (let n = tw_now (iw_tools iw) w;
          sg = setting_for iw tiers co ctx (fst n);
          l = renderListing (iw_tools iw) (list_files (tw_byteLength (iw_tools iw)) (sg_workspace sg)) (snd n);
          r = inv_loop sg (start_state (fst (fst l))) (snd l);
          f = forced_final sg (fst r) (snd r)
      in (sg, fst f, fst (snd f), snd (snd f)))"

lemma investigate_cases:
  obtains (invalid) u where "programProblem (tw_issue (iw_tools iw)) ctx = Some u"
      "fst (investigate iw tiers co ctx w) = invalidProgram ctx u (submission_suspected ctx)"
    | (run) sg b s v where "final_state iw tiers co ctx w = (sg, b, s, v)" "sg_ctx sg = ctx" "sg_components sg = co"
      "programProblem (tw_issue (iw_tools iw)) ctx = None"
      "fst (investigate iw tiers co ctx w) = fst (inv_result sg b s v)" "calls_ok sg s" "st_stop s \<noteq> None"
proof (cases "programProblem (tw_issue (iw_tools iw)) ctx")
  case (Some u)
  then show thesis by (intro invalid) (simp_all add: investigate_def Let_def)
next
  case None
  obtain sg b s v where fs: "final_state iw tiers co ctx w = (sg, b, s, v)" by (metis prod_cases4)
  let ?n = "tw_now (iw_tools iw) w"
  let ?sg = "setting_for iw tiers co ctx (fst ?n)"
  let ?l = "renderListing (iw_tools iw) (list_files (tw_byteLength (iw_tools iw)) (sg_workspace ?sg)) (snd ?n)"
  let ?r = "inv_loop ?sg (start_state (fst (fst ?l))) (snd ?l)"
  define F where "F = forced_final ?sg (fst ?r) (snd ?r)"
  have p: "?sg = sg" "fst F = b" "fst (snd F) = s" "snd (snd F) = v"
    using fs unfolding final_state_def Let_def F_def prod.inject by blast+
  have sg: "sg = ?sg" using p(1) ..
  have "F = (b, s, v)" using p(2-4) by (auto simp: prod_eq_iff)
  then have f: "forced_final ?sg (fst ?r) (snd ?r) = (b, s, v)" unfolding F_def .
  have "calls_ok ?sg (fst ?r)" by (rule inv_loop_ok[OF calls_ok_start])
  then have ok: "calls_ok sg s"
    unfolding sg by (rule calls_ok_cong) (use forced_final_frame[OF f] calls_ok_rounds[OF \<open>calls_ok ?sg (fst ?r)\<close>] in simp_all)
  have stop: "st_stop s \<noteq> None"
    using forced_final_frame[OF f] inv_loop_stops[of ?sg "start_state (fst (fst ?l))" "snd ?l"] by auto
  have "fst (investigate iw tiers co ctx w) = fst (inv_result ?sg (fst F) (fst (snd F)) (snd (snd F)))"
    unfolding investigate_def Let_def None option.case fst_conv F_def ..
  then have inv: "fst (investigate iw tiers co ctx w) = fst (inv_result sg b s v)" unfolding p .
  show thesis by (rule run[OF fs _ _ None inv ok stop]) (simp_all add: sg setting_for_def)
qed


lemma executed_le:
  assumes "calls_ok sg s"
  shows "length (filter (\<lambda>t. executed sg t \<and> signatureOf (tc_tool t) (tc_args t) = k) (st_calls s)) \<le> DUPLICATE_LIMITS (fst k)"
proof -
  have "dedup.consistent (map (guard_entry sg) (st_calls s)) (st_guard s)" using assms by (simp add: calls_ok_def)
  from dedup.consistent_cap[OF this, of k] show ?thesis
    by (simp add: dedup.taken_def guard_entry_def filter_map o_def)
qed

lemma inv_result_fields:
  "inv_toolCalls (ir_investigation (fst (inv_result sg b s v))) = st_calls s"
  "inv_structured (ir_investigation (fst (inv_result sg b s v))) = map_of (st_structured s)"
  "bu_toolCalls (inv_budget (ir_investigation (fst (inv_result sg b s v)))) = length (st_calls s)"
  "bu_rounds (inv_budget (ir_investigation (fst (inv_result sg b s v)))) = st_rounds s"
  by (simp_all add: inv_result_def Let_def)

lemma invalidProgram_fields:
  "inv_toolCalls (ir_investigation (invalidProgram ctx u x)) = []"
  "inv_structured (ir_investigation (invalidProgram ctx u x)) = Map.empty"
  "bu_toolCalls (inv_budget (ir_investigation (invalidProgram ctx u x))) = 0"
  "bu_rounds (inv_budget (ir_investigation (invalidProgram ctx u x))) = 0"
  "ir_kind (invalidProgram ctx u x) = KUngradable" "ir_ungradable (invalidProgram ctx u x) = Some u"
  "ir_verdict (invalidProgram ctx u x) = None" "ir_confidenceCap (invalidProgram ctx u x) = 1"
  by (simp_all add: invalidProgram_def no_budget_use_def)

section \<open>Limits\<close>

text \<open>
  C4. Whatever the model answers, an investigation makes at most \<open>maxRounds\<close> rounds and \<open>maxToolCalls\<close> tool
  calls, numbers its calls tc-1, tc-2, ... without a gap, and never runs a tool that is switched off.
\<close>

theorem investigate_limits:
  "let r = fst (investigate iw tiers co ctx w); b = inv_budget (ir_investigation r); calls = inv_toolCalls (ir_investigation r)
   in bu_rounds b \<le> bl_maxRounds (ic_budget ctx) \<and> bu_toolCalls b = length calls \<and>
      length calls \<le> bl_maxToolCalls (ic_budget ctx) \<and> map tc_id calls = ids_upto (length calls) \<and> distinct (map tc_id calls)"
proof (cases rule: investigate_cases[of iw ctx tiers co w])
  case (invalid u)
  then show ?thesis by (simp add: invalidProgram_fields Let_def ids_upto_0)
next
  case (run sg b s v)
  then have "map tc_id (st_calls s) = ids_upto (length (st_calls s))" by (simp add: calls_ok_def)
  moreover from this have "distinct (map tc_id (st_calls s))" using distinct_ids_upto by metis
  ultimately show ?thesis using run unfolding Let_def run(5) inv_result_fields calls_ok_def by blast
qed

section \<open>Floors\<close>

lemma measured_truncate [simp]: "measured calls st (test_case.truncate c) = measured calls st c"
  by (simp add: measured_def test_case.truncate_def)

lemma uncovered_truncate:
  fixes cases :: "'a test_case_scheme list"
  shows "uncoveredCases (map test_case.truncate cases) calls st = [] \<longleftrightarrow> uncoveredCases cases calls st = []"
  by (simp add: uncoveredCases_Nil_iff)

lemma inv_floor_None:
  "inv_floor ctx s stop accepted = None \<longleftrightarrow>
     ok_calls (st_calls s) \<noteq> [] \<and> stop \<noteq> ModelsExhausted \<and> ic_cases ctx \<noteq> [] \<and> accepted \<and>
     uncoveredCases (ic_cases ctx) (st_calls s) (map_of (st_structured s)) = []"
  by (auto simp: inv_floor_def Let_def)

lemma inv_result_kind:
  "ir_kind (fst (inv_result sg b s v)) = KVerdict \<longleftrightarrow> ir_ungradable (fst (inv_result sg b s v)) = None"
  "ir_kind (fst (inv_result sg b s v)) = KVerdict \<longleftrightarrow> ir_verdict (fst (inv_result sg b s v)) \<noteq> None"
  by (auto simp: inv_result_def Let_def inv_floor_None)

lemma inv_result_verdict:
  assumes "ir_kind (fst (inv_result sg b s v)) = KVerdict"
  shows "ok_calls (st_calls s) \<noteq> []" "ic_cases (sg_ctx sg) \<noteq> []"
    "uncoveredCases (ic_cases (sg_ctx sg)) (st_calls s) (map_of (st_structured s)) = []"
  using assms by (auto simp: inv_result_def Let_def inv_floor_None split: if_splits)

text \<open>
  The floors of \<open>investigate\<close> and of \<open>decide\<close> agree: on what an investigation returned, over the tests
  it was given, the decision has a floor exactly when the investigation ended without a verdict.
\<close>

theorem investigate_floor_agrees:
  "floor_of (i\<lparr>di_pipeline := Investigator, di_result := fst (investigate iw tiers co ctx w),
       di_cases := map test_case.truncate (ic_cases ctx)\<rparr>) = None \<longleftrightarrow>
   ir_kind (fst (investigate iw tiers co ctx w)) = KVerdict"
proof (cases rule: investigate_cases[of iw ctx tiers co w])
  case (invalid u)
  then show ?thesis by (simp add: floor_of_def invalidProgram_fields Let_def)
next
  case (run sg b s v)
  show ?thesis
  proof (cases "ir_kind (fst (inv_result sg b s v))")
    case KVerdict
    then show ?thesis using inv_result_verdict[OF KVerdict]
      by (simp add: floor_of_def run(2,5) inv_result_fields uncovered_truncate Let_def)
  qed (simp add: floor_of_def run(5) Let_def)
qed

text \<open>
  C1. A verdict stands on evidence: an investigation ends with a verdict only when the model returned one, some
  tool call succeeded, the bundle has tests and every one of them was measured; otherwise it has no verdict
  and says why.
\<close>

theorem investigate_verdict_needs:
  "let r = fst (investigate iw tiers co ctx w); inv = ir_investigation r
   in case ir_kind r of
        KUngradable \<Rightarrow> ir_verdict r = None \<and> ir_ungradable r \<noteq> None
      | KVerdict \<Rightarrow> ir_verdict r \<noteq> None \<and> ir_ungradable r = None \<and> ok_calls (inv_toolCalls inv) \<noteq> [] \<and>
          ic_cases ctx \<noteq> [] \<and> list_all (measured (inv_toolCalls inv) (inv_structured inv)) (ic_cases ctx)"
proof (cases rule: investigate_cases[of iw ctx tiers co w])
  case (invalid u)
  then show ?thesis by (simp add: invalidProgram_fields Let_def)
next
  case (run sg b s v)
  show ?thesis
  proof (cases "ir_kind (fst (inv_result sg b s v))")
    case KVerdict
    then show ?thesis using inv_result_verdict[OF KVerdict] inv_result_kind[of sg b s v]
      by (simp add: run(2,5) inv_result_fields Let_def uncoveredCases_Nil_iff list_all_iff)
  next
    case KUngradable
    then show ?thesis using inv_result_kind[of sg b s v] by (simp add: run(5) Let_def)
  qed
qed

section \<open>Accepted errors\<close>

text \<open>An error of a verdict the investigation keeps: a known rule, no invented call, one call that succeeded.\<close>

definition acceptable :: "investigation_context \<Rightarrow> tool_call list \<Rightarrow> verdict_error \<Rightarrow> bool" where
  "acceptable ctx calls e \<longleftrightarrow>
     ve_ruleKey e \<in> rn_ruleKey ` set (ic_rules ctx) \<and> set (ve_toolCallIds e) \<subseteq> tc_id ` set calls \<and>
     set (ve_toolCallIds e) \<inter> tc_id ` set (ok_calls calls) \<noteq> {}"

definition fault_of :: "investigation_context \<Rightarrow> tool_call list \<Rightarrow> verdict_error \<Rightarrow> reject_reason option" where
  "fault_of ctx calls e =
     (if ve_ruleKey e \<notin> rn_ruleKey ` set (ic_rules ctx) then Some UnknownRuleKey
      else if \<not> set (ve_toolCallIds e) \<subseteq> tc_id ` set calls then Some FabricatedToolCall
      else if set (ve_toolCallIds e) \<inter> tc_id ` set (ok_calls calls) = {} then Some NoValidToolCall
      else None)"

lemma accept_errors_rejected:
  "snd (accept_errors (rn_ruleKey ` set (ic_rules ctx)) (tc_id ` set calls) (tc_id ` set (ok_calls calls)) files seen es) =
     List.map_filter (\<lambda>e. map_option (Pair (ve_ruleKey e)) (fault_of ctx calls e)) es"
  by (induction es arbitrary: seen)
    (auto simp: Let_def fault_of_def map_filter_simps filter_empty_conv split: if_splits)

lemma evidence_Nil_iff: "filter (\<lambda>i. i \<in> ok) is = [] \<longleftrightarrow> set is \<inter> ok = {}"
  by (auto simp: filter_empty_conv)

lemma accept_errors_Cons_keys:
  fixes ctx calls files
  defines "A \<equiv> accept_errors (rn_ruleKey ` set (ic_rules ctx)) (tc_id ` set calls) (tc_id ` set (ok_calls calls)) files"
  shows "ve_ruleKey ` set (fst (A seen (e # es))) =
     (if acceptable ctx calls e \<and> ve_ruleKey e \<notin> set seen
      then insert (ve_ruleKey e) (ve_ruleKey ` set (fst (A (seen @ [ve_ruleKey e]) es)))
      else ve_ruleKey ` set (fst (A seen es)))"
  by (simp add: A_def Let_def acceptable_def evidence_Nil_iff)

lemma accept_errors_keys:
  "ve_ruleKey ` set (fst (accept_errors (rn_ruleKey ` set (ic_rules ctx)) (tc_id ` set calls) (tc_id ` set (ok_calls calls)) files seen es)) =
     ve_ruleKey ` {e \<in> set es. acceptable ctx calls e} - set seen"
proof (induction es arbitrary: seen)
  case (Cons e es)
  show ?case unfolding accept_errors_Cons_keys Cons.IH by auto
qed simp

lemma accept_errors_distinct:
  "distinct (map ve_ruleKey (fst (accept_errors known ids ok files seen es))) \<and>
     ve_ruleKey ` set (fst (accept_errors known ids ok files seen es)) \<inter> set seen = {}"
proof (induction es arbitrary: seen)
  case (Cons e es)
  show ?case using Cons.IH[of seen] Cons.IH[of "seen @ [ve_ruleKey e]"] by (auto simp: Let_def)
qed simp

lemma accept_errors_ids:
  "e \<in> set (fst (accept_errors known ids ok files seen es)) \<Longrightarrow> ve_toolCallIds e \<noteq> [] \<and> set (ve_toolCallIds e) \<subseteq> ok"
  by (induction es arbitrary: seen) (auto simp: Let_def split: if_splits)

text \<open>
  What the independent reading of a verdict keeps: of the acceptable errors the first one of each rule, in the order
  of the verdict, each with the cited calls that succeeded and its claims checked against the files.
\<close>

definition first_of_rule :: "verdict_error list \<Rightarrow> verdict_error list" where
  "first_of_rule es =
     map (\<lambda>i. es ! i) (filter (\<lambda>i. \<forall>j<i. ve_ruleKey (es ! j) \<noteq> ve_ruleKey (es ! i)) [0..<length es])"

definition with_evidence :: "investigation_context \<Rightarrow> tool_call list \<Rightarrow> verdict_error \<Rightarrow> verdict_error" where
  "with_evidence ctx calls e =
     e\<lparr>ve_toolCallIds := filter (\<lambda>i. \<exists>t \<in> set calls. tc_id t = i \<and> tc_status t = CallOk) (ve_toolCallIds e),
       ve_evidence := verifyEvidence (ve_evidence e) (ic_files ctx)\<rparr>"

fun dedup_rules :: "key list \<Rightarrow> verdict_error list \<Rightarrow> verdict_error list" where
  "dedup_rules seen [] = []"
| "dedup_rules seen (e # es) =
     (if ve_ruleKey e \<in> set seen then dedup_rules seen es else e # dedup_rules (seen @ [ve_ruleKey e]) es)"

lemma dedup_rules_nth:
  "dedup_rules seen es = map (\<lambda>i. es ! i)
     (filter (\<lambda>i. ve_ruleKey (es ! i) \<notin> set seen \<and> (\<forall>j<i. ve_ruleKey (es ! j) \<noteq> ve_ruleKey (es ! i))) [0..<length es])"
proof (induction es arbitrary: seen)
  case (Cons e es)
  have up: "[0..<length (e # es)] = 0 # map Suc [0..<length es]" by (simp add: map_Suc_upt upt_conv_Cons del: upt_Suc)
  have all: "(\<forall>j<Suc i. P j) \<longleftrightarrow> P 0 \<and> (\<forall>j<i. P (Suc j))" for P i
    using less_Suc_eq_0_disj by auto
  show ?case
    unfolding up
    by (simp add: filter_map comp_def Cons.IH all) (auto intro!: arg_cong[where f = "map ((!) es)"] filter_cong)
qed simp

lemma first_of_rule_dedup: "first_of_rule es = dedup_rules [] es"
  unfolding dedup_rules_nth first_of_rule_def by simp

lemma accept_errors_kept:
  "fst (accept_errors (rn_ruleKey ` set (ic_rules ctx)) (tc_id ` set calls) (tc_id ` set (ok_calls calls)) (ic_files ctx) seen es) =
     map (with_evidence ctx calls) (dedup_rules seen (filter (acceptable ctx calls) es))"
proof (induction es arbitrary: seen)
  case (Cons e es)
  have ok: "i \<in> tc_id ` set (ok_calls calls) \<longleftrightarrow> (\<exists>t \<in> set calls. tc_id t = i \<and> tc_status t = CallOk)" for i
    by (auto simp: ok_calls_def)
  show ?case
    using Cons.IH[of seen] Cons.IH[of "seen @ [ve_ruleKey e]"]
    by (simp add: Let_def acceptable_def evidence_Nil_iff with_evidence_def ok[symmetric])
qed simp

text \<open>
  C5. What is kept of a verdict: of the errors that name a known rule, invent no call and cite one that succeeded, the
  first of each rule, in order, citing exactly those of its own calls that succeeded and with its claims checked;
  every other error is recorded with its fault, in order, except that a repeated rule is dropped. A proposed missing
  rule keeps its calls that succeeded, and nothing else of the verdict changes.
\<close>

theorem accept_verdict_spec:
  "let r = accept_verdict ctx calls v;
       ok = (\<lambda>i. \<exists>t \<in> set calls. tc_id t = i \<and> tc_status t = CallOk)
   in fst r = v\<lparr>v_errors := map (with_evidence ctx calls) (first_of_rule (filter (acceptable ctx calls) (v_errors v))),
        v_missingRules := map (\<lambda>m. m\<lparr>mr_toolCallIds := filter ok (mr_toolCallIds m)\<rparr>) (v_missingRules v)\<rparr> \<and>
      snd r = List.map_filter (\<lambda>e. map_option (Pair (ve_ruleKey e)) (fault_of ctx calls e)) (v_errors v)"
proof -
  have ok: "(\<lambda>i. i \<in> tc_id ` set (ok_calls calls)) = (\<lambda>i. \<exists>t \<in> set calls. tc_id t = i \<and> tc_status t = CallOk)"
    by (auto simp: ok_calls_def fun_eq_iff)
  show ?thesis
    using accept_errors_kept[of ctx calls "[]" "v_errors v"]
      accept_errors_rejected[of ctx calls "ic_files ctx" "[]" "v_errors v"]
    by (simp add: accept_verdict_def Let_def first_of_rule_dedup ok)
qed

section \<open>Replay and flags\<close>

lemma no_replay_flags: "ReplayMismatch \<notin> set (inv_flags k st rj src)" "ReplayUnverified \<notin> set (inv_flags k st rj src)"
  by (simp_all add: inv_flags_def)

text \<open>What replay leaves: the check, its flags and the cap go together.\<close>

definition replay_ok :: "replay_check option \<Rightarrow> investigation_flag list \<Rightarrow> rat \<Rightarrow> bool" where
  "replay_ok p fs cap \<longleftrightarrow>
     cap = (if ReplayMismatch \<in> set fs then REPLAY_CONFIDENCE_CAP else 1) \<and>
     (case p of None \<Rightarrow> ReplayMismatch \<notin> set fs
      | Some p \<Rightarrow> (ReplayMismatch \<in> set fs \<longleftrightarrow> rp_matched p = Some False) \<and>
          (ReplayUnverified \<in> set fs \<longleftrightarrow> rp_matched p = None))"

lemma run_replay_ok: "run_replay sg s v w = (p, fs, cap, w') \<Longrightarrow> replay_ok p fs cap"
  by (auto simp: run_replay_def replay_ok_def Let_def split: if_splits option.splits)

lemma inv_replay_ok:
  assumes "inv_replay sg s v w = (p, fs, cap, w')"
  shows "replay_ok p fs cap \<and> (p = None \<or> v \<noteq> None)"
proof (cases v)
  case (Some x)
  show ?thesis
  proof (cases "\<not> co_replayCheck (sg_components sg) \<or> sg_deadline sg - fst (sg_now sg w) < MIN_REPLAY_MS")
    case True
    then show ?thesis using assms Some by (auto simp: inv_replay_def replay_ok_def Let_def split: if_splits)
  next
    case False
    then have "run_replay sg s x (snd (sg_now sg w)) = (p, fs, cap, w')" using assms Some by (simp add: inv_replay_def Let_def)
    from run_replay_ok[OF this] Some show ?thesis by simp
  qed
qed (use assms in \<open>simp add: inv_replay_def replay_ok_def\<close>)

text \<open>
  Replay only lowers confidence, and says so: the cap is 0.5 exactly when a call that was run again gave
  a different result, that flag and that cap come together, a replay that could not be compared leaves the
  cap at 1 with its own flag, and only a verdict is replayed.
\<close>

theorem investigate_replay_cap:
  "let r = fst (investigate iw tiers co ctx w)
   in ir_confidenceCap r = (if ReplayMismatch \<in> set (ir_flags r) then REPLAY_CONFIDENCE_CAP else 1) \<and>
      (case ir_replay r of
         None \<Rightarrow> ReplayMismatch \<notin> set (ir_flags r)
       | Some p \<Rightarrow> ir_kind r = KVerdict \<and> (ReplayMismatch \<in> set (ir_flags r) \<longleftrightarrow> rp_matched p = Some False) \<and>
           (ReplayUnverified \<in> set (ir_flags r) \<longleftrightarrow> rp_matched p = None))"
proof (cases rule: investigate_cases[of iw ctx tiers co w])
  case (invalid u)
  then show ?thesis by (simp add: invalidProgram_def Let_def)
next
  case (run sg b s v)
  let ?r = "fst (inv_result sg b s v)"
  obtain p fs cap w' where rp: "inv_replay sg s (ir_verdict ?r) v = (p, fs, cap, w')" by (metis prod_cases4)
  note ok = inv_replay_ok[OF rp]
  have "ir_replay ?r = p" "ir_confidenceCap ?r = cap"
    "\<exists>k st rj src. ir_flags ?r = inv_flags k st rj src @ fs"
    using rp by (auto simp: inv_result_def Let_def)
  then have "ir_replay ?r = p" "ir_confidenceCap ?r = cap"
    "ReplayMismatch \<in> set (ir_flags ?r) \<longleftrightarrow> ReplayMismatch \<in> set fs"
    "ReplayUnverified \<in> set (ir_flags ?r) \<longleftrightarrow> ReplayUnverified \<in> set fs"
    using no_replay_flags by auto
  then show ?thesis using ok inv_result_kind(2)[of sg b s v]
    by (auto simp: run(5) replay_ok_def Let_def split: option.splits)
qed

section \<open>Repeated requests\<close>

text \<open>How often a request reached its runner: the recorded calls that were neither blocked nor switched off, and the replay.\<close>

definition times_run :: "components \<Rightarrow> investigation_result \<Rightarrow> signature \<Rightarrow> nat" where
  "times_run co r k =
     (let calls = inv_toolCalls (ir_investigation r); same = (\<lambda>t. signatureOf (tc_tool t) (tc_args t) = k) in
      length (filter (\<lambda>t. tc_status t \<noteq> BlockedDuplicate \<and> co_tools co (tc_tool t) \<and> same t) calls) +
      (case ir_replay r of None \<Rightarrow> 0 | Some p \<Rightarrow> length (filter (\<lambda>t. tc_id t = rp_toolCallId p \<and> same t) calls)))"

lemma filter_by_id:
  "distinct (map f xs) \<Longrightarrow> t \<in> set xs \<Longrightarrow> filter (\<lambda>x. f x = f t \<and> P x) xs = (if P t then [t] else [])"
proof (induction xs)
  case (Cons x xs)
  then show ?case by (auto simp: filter_empty_conv image_iff)
qed simp

lemma candidates_sub: "set (replay_candidates calls v) \<subseteq> {t \<in> set calls. tc_status t = CallOk \<and> (tc_tool t = Run \<or> tc_tool t = RunTests)}"
  by (auto simp: replay_candidates_def Let_def)

lemma nat_pick_in: "xs \<noteq> [] \<Longrightarrow> xs ! nat (min (int (length xs) - 1) k) \<in> set xs"
  by (intro nth_mem) (cases xs, auto simp: min_def nat_less_iff)

lemma inv_replay_call:
  assumes "inv_replay sg s v w = (Some p, fs, cap, w')"
  shows "\<exists>t \<in> set (st_calls s). tc_id t = rp_toolCallId p \<and> tc_status t = CallOk \<and> (tc_tool t = Run \<or> tc_tool t = RunTests)"
proof -
  obtain x where v: "v = Some x" using assms by (cases v) (auto simp: inv_replay_def)
  have "run_replay sg s x (snd (sg_now sg w)) = (Some p, fs, cap, w')"
    using assms v by (auto simp: inv_replay_def Let_def split: if_splits)
  then obtain k where "replay_candidates (st_calls s) x \<noteq> []"
    "rp_toolCallId p = tc_id (replay_candidates (st_calls s) x ! nat (min (int (length (replay_candidates (st_calls s) x)) - 1) k))"
    by (auto simp: run_replay_def Let_def split: if_splits)
  with nat_pick_in[of "replay_candidates (st_calls s) x" k] candidates_sub[of "st_calls s" x]
  show ?thesis by (intro bexI[of _ "replay_candidates (st_calls s) x ! nat (min (int (length (replay_candidates (st_calls s) x)) - 1) k)"]) auto
qed

text \<open>
  C35. No request is executed for ever: over a whole investigation, the calls of one tool with the same arguments (up
  to the order of their fields) that reach its runner, the replay at the end included, are at most the limit of that
  tool, except that a successful call of the sandbox which the replay repeats may run once more.
\<close>

theorem investigate_no_repeat:
  "let r = fst (investigate iw tiers co ctx w) in
   times_run co r k \<le> DUPLICATE_LIMITS (fst k) \<or>
   (times_run co r k = Suc (DUPLICATE_LIMITS (fst k)) \<and>
    (\<exists>p t. ir_replay r = Some p \<and> t \<in> set (inv_toolCalls (ir_investigation r)) \<and> tc_id t = rp_toolCallId p \<and>
       tc_status t = CallOk \<and> (tc_tool t = Run \<or> tc_tool t = RunTests) \<and> signatureOf (tc_tool t) (tc_args t) = k))"
proof (cases rule: investigate_cases[of iw ctx tiers co w])
  case (invalid u)
  then show ?thesis by (simp add: times_run_def invalidProgram_fields invalidProgram_def Let_def)
next
  case (run sg b s v)
  let ?r = "fst (inv_result sg b s v)"
  let ?same = "\<lambda>t. signatureOf (tc_tool t) (tc_args t) = k"
  have le: "length (filter (\<lambda>t. tc_status t \<noteq> BlockedDuplicate \<and> co_tools co (tc_tool t) \<and> ?same t) (st_calls s)) \<le> DUPLICATE_LIMITS (fst k)"
    using executed_le[OF run(6), of k] by (simp add: executed_def run(3) conj_assoc)
  show ?thesis
  proof (cases "ir_replay ?r")
    case None
    then show ?thesis using le by (simp add: run(5) times_run_def inv_result_fields Let_def)
  next
    case (Some p)
    obtain q fs cap w' where rp: "inv_replay sg s (ir_verdict ?r) v = (q, fs, cap, w')" by (metis prod_cases4)
    then have "ir_replay ?r = q" by (auto simp: inv_result_def Let_def)
    with rp Some have "inv_replay sg s (ir_verdict ?r) v = (Some p, fs, cap, w')" by simp
    from inv_replay_call[OF this] obtain t where t: "t \<in> set (st_calls s)" "tc_id t = rp_toolCallId p" "tc_status t = CallOk"
      "tc_tool t = Run \<or> tc_tool t = RunTests" by blast
    have "distinct (map tc_id (st_calls s))"
      using run(6) distinct_ids_upto unfolding calls_ok_def by metis
    then have only: "filter (\<lambda>x. tc_id x = rp_toolCallId p \<and> ?same x) (st_calls s) = (if ?same t then [t] else [])"
      using t(1) unfolding t(2)[symmetric] by (rule filter_by_id)
    show ?thesis using le Some t
      by (auto simp: run(5) times_run_def inv_result_fields only Let_def)
  qed
qed

end
