(* ===== verification/Lens.thy ===== *)
theory Lens
  imports Protocol ModelPool Dedup
begin

text \<open>
  One run of a lens of the challenge: \<open>grading/investigator/lens-protocol.ts\<close> and
  \<open>investigator/lens-loop.ts\<close>.

  A reply is \<open>lens_reply\<close> with the type of its conclusion as a parameter, as in the code. The loop is
  \<open>lens_loop\<close>; every turn that does not end it adds a round and there are six. The world is the record
  \<open>lens_world\<close>. The message of a failure is the value \<open>lens_failure\<close>.
\<close>

section \<open>Replies\<close>

definition CASE_NOTE_MAX :: nat where "CASE_NOTE_MAX = 500"

definition ellipsis :: nat where "ellipsis = 8230"

text \<open>Cut to a number of code units, the last one an ellipsis.\<close>

definition clamp :: "nat \<Rightarrow> utext \<Rightarrow> utext" where
  "clamp n t = (if length t \<le> n then t else take (n - 1) t @ [ellipsis])"

definition clampNote :: "utext \<Rightarrow> utext" where
  "clampNote note = clamp CASE_NOTE_MAX note"

lemma length_clamp: "0 < n \<Longrightarrow> length (clamp n t) \<le> n"
  by (simp add: clamp_def)

lemma clamp_idem: "0 < n \<Longrightarrow> clamp n (clamp n t) = clamp n t"
  using length_clamp[of n t] by (simp add: clamp_def)

datatype 'c lens_reply = LensCalls "model_call list" | LensFinal "json list" 'c

text \<open>The schema of a call; unlike \<open>call_of_json\<close> no field is required.\<close>

definition lens_call_of_json :: "json \<Rightarrow> model_call option" where
  "lens_call_of_json j =
     (case j of
        JObj o1 \<Rightarrow>
          (case (field o1 ''tool'' tool_of, nullish str_of (map_of o1 ''input''), nullish str_of (map_of o1 ''group''),
                 nullish str_of (map_of o1 ''path''), nullish int_of (map_of o1 ''fromLine''), nullish int_of (map_of o1 ''toLine'')) of
             (Some t, Some i, Some g, Some p, Some f, Some l) \<Rightarrow>
               Some \<lparr>ml_tool = t, ml_input = i, ml_group = g, ml_path = p, ml_fromLine = f, ml_toLine = l\<rparr>
           | _ \<Rightarrow> None)
      | _ \<Rightarrow> None)"

definition lensArgsFor :: "model_call \<Rightarrow> args" where
  "lensArgsFor c =
     (case ml_tool c of
        Run \<Rightarrow> [(''input'', json_str (ml_input c))]
      | RunTests \<Rightarrow> [(''group'', json_str (ml_group c))]
      | ReadFile \<Rightarrow> [(''path'', json_str (ml_path c)), (''fromLine'', json_int (ml_fromLine c)), (''toLine'', json_int (ml_toLine c))]
      | ListFiles \<Rightarrow> [])"

definition lens_reply_of_json :: "(json \<Rightarrow> 'c option) \<Rightarrow> json \<Rightarrow> 'c lens_reply option" where
  "lens_reply_of_json conclusion j =
     (case j of
        JObj o1 \<Rightarrow>
          (if map_of o1 ''action'' = Some (JStr ''call'') then
             (case map_of o1 ''calls'' of
                Some (JArr cs) \<Rightarrow>
                  if cs \<noteq> [] \<and> map_of o1 ''conclusion'' \<in> {None, Some JNull}
                  then map_option LensCalls (those (map lens_call_of_json cs)) else None
              | _ \<Rightarrow> None)
           else if map_of o1 ''action'' = Some (JStr ''final'') then
             (case (map_of o1 ''calls'', field o1 ''conclusion'' conclusion) of
                (Some (JArr cs), Some c) \<Rightarrow> Some (LensFinal cs c)
              | _ \<Rightarrow> None)
           else None)
      | _ \<Rightarrow> None)"

definition parse_lens_reply :: "(json \<Rightarrow> 'c option) \<Rightarrow> (utext \<Rightarrow> json option) \<Rightarrow> utext \<Rightarrow> 'c lens_reply option" where
  "parse_lens_reply conclusion parse content =
     (case readSingleJson parse content of ReadOk v \<Rightarrow> lens_reply_of_json conclusion v | _ \<Rightarrow> None)"

section \<open>Conclusions\<close>

record error_verdict =
  ev_refuted :: bool
  ev_toolCallIds :: "string list"
  ev_reason :: "utext option"

text \<open>An empty reason counts as none.\<close>

definition reason_of_json :: "json option \<Rightarrow> utext option option" where
  "reason_of_json v =
     map_option (\<lambda>r. case r of None \<Rightarrow> None | Some s \<Rightarrow> if s = [] then None else Some (clampNote (units s))) (nullish str_of v)"

definition perErrorConclusion :: "json \<Rightarrow> error_verdict option" where
  "perErrorConclusion j =
     (case j of
        JObj o1 \<Rightarrow>
          (case (map_of o1 ''status'', field o1 ''toolCallIds'' (array_of 25 (short_str 0 32)), reason_of_json (map_of o1 ''reason'')) of
             (Some (JStr s), Some ids, Some r) \<Rightarrow>
               if s = ''confirmed'' \<or> s = ''refuted''
               then Some \<lparr>ev_refuted = (s = ''refuted''), ev_toolCallIds = ids, ev_reason = r\<rparr> else None
           | _ \<Rightarrow> None)
      | _ \<Rightarrow> None)"

record case_verdict =
  cv_suspected :: bool
  cv_note :: utext

definition note_of_json :: "json \<Rightarrow> utext option" where
  "note_of_json j = map_option (clampNote \<circ> units) (str_of j)"

definition caseLensConclusion :: "json \<Rightarrow> case_verdict option" where
  "caseLensConclusion j =
     (case j of
        JObj o1 \<Rightarrow>
          (case (map_of o1 ''suspected'', field o1 ''note'' note_of_json) of
             (Some (JBool b), Some n) \<Rightarrow> Some \<lparr>cv_suspected = b, cv_note = n\<rparr>
           | _ \<Rightarrow> None)
      | _ \<Rightarrow> None)"

datatype rule_answer = Violated | RuleOk | Unsure

record omission_verdict =
  ov_rules :: "(key \<times> rule_answer) list"
  ov_missed :: "key list"
  ov_note :: utext

definition answer_of_json :: "json \<Rightarrow> rule_answer option" where
  "answer_of_json j =
     (case j of
        JStr s \<Rightarrow>
          (let t = map lower_char (js_trim s) in
           if t = ''violated'' then Some Violated else if t = ''ok'' then Some RuleOk
           else if t = ''unsure'' then Some Unsure else None)
      | _ \<Rightarrow> None)"

definition rule_line_of_json :: "json \<Rightarrow> (key \<times> rule_answer) option" where
  "rule_line_of_json j =
     (case j of
        JObj o1 \<Rightarrow>
          (case (field o1 ''ruleKey'' (short_str 0 64), field o1 ''verdict'' answer_of_json) of
             (Some k, Some a) \<Rightarrow> Some (k, a) | _ \<Rightarrow> None)
      | _ \<Rightarrow> None)"

definition defaulted :: "'a \<Rightarrow> (json \<Rightarrow> 'a option) \<Rightarrow> json option \<Rightarrow> 'a option" where
  "defaulted d f v = (case v of None \<Rightarrow> Some d | Some j \<Rightarrow> f j)"

definition omissionConclusion :: "json \<Rightarrow> omission_verdict option" where
  "omissionConclusion j =
     (case j of
        JObj o1 \<Rightarrow>
          (case (defaulted [] (array_of 60 rule_line_of_json) (map_of o1 ''rules''),
                 defaulted [] (array_of 30 (short_str 0 64)) (map_of o1 ''missedRuleKeys''), field o1 ''note'' note_of_json) of
             (Some rs, Some ms, Some n) \<Rightarrow> Some \<lparr>ov_rules = rs, ov_missed = ms, ov_note = n\<rparr>
           | _ \<Rightarrow> None)
      | _ \<Rightarrow> None)"

section \<open>The loop\<close>

definition LENS_MAX_ROUNDS :: nat where "LENS_MAX_ROUNDS = 6"
definition LENS_MAX_TOOL_CALLS :: nat where "LENS_MAX_TOOL_CALLS = 8"
definition LENS_MAX_WALL_MS :: int where "LENS_MAX_WALL_MS = 300000"
definition LENS_CALL_TIMEOUT_MS :: int where "LENS_CALL_TIMEOUT_MS = 60000"

text \<open>What a lens is asked, as the data of its first message.\<close>

datatype lens_question =
    AboutRule key "string list"
  | AboutEvidence key "(string \<times> tool \<times> call_status \<times> string) list"
  | AboutCase "key list" "(key \<times> string) list"
  | AboutOmissions "key list" "(key \<times> string) list" "(key \<times> string \<times> string option) list"

datatype lens_part = LensQuestion lens_question | LensResults "tool_call list" | LensForceFinal

datatype 'c lens_message = LensUser lens_part bool | LensAssistant "'c lens_reply"

record ('w, 'c) lens_world =
  lw_tools :: "'w tool_world"
  lw_call :: "'c lens_message list \<Rightarrow> model_tier \<Rightarrow> int \<Rightarrow> 'w \<Rightarrow> call_result \<times> 'w"
  lw_sleep :: "int \<Rightarrow> 'w \<Rightarrow> 'w"
  lw_parse :: "utext \<Rightarrow> 'c lens_reply option"
  lw_system :: system_files

record ('w, 'c) lens_setting =
  lg_world :: "('w, 'c) lens_world"
  lg_ctx :: investigation_context
  lg_label :: string
  lg_tiers :: "model_tier list"
  lg_workspace :: workspace
  lg_started :: int

record 'c lens_state =
  le_calls :: "tool_call list"
  le_messages :: "'c lens_message list"
  le_rounds :: nat
  le_excluded :: "(nat \<times> string) list"
  le_guard :: guard
  le_usage :: usage_by_model

datatype lens_end = LensDone | LensMaxRounds | LensMaxWall | LensMaxToolCalls | LensExhausted | LensDeadline

datatype lens_detail =
    NoDetail
  | AllTiersFailed "pool_rotation list"
  | ForcedOnlyCalls
  | ForcedTiersFailed "pool_rotation list"
  | ForcedNoReply

type_synonym lens_failure = "lens_end \<times> lens_detail"

record 'c lens_run =
  lr_conclusion :: "'c option"
  lr_calls :: "tool_call list"
  lr_end :: lens_end
  lr_failure :: "lens_failure option"

definition lens_deadline :: "('w, 'c) lens_setting \<Rightarrow> int" where
  "lens_deadline lg = lg_started lg + LENS_MAX_WALL_MS"

definition lens_now :: "('w, 'c) lens_setting \<Rightarrow> 'w \<Rightarrow> int \<times> 'w" where
  "lens_now lg w = tw_now (lw_tools (lg_world lg)) w"

definition lens_start :: "lens_question \<Rightarrow> 'c lens_state" where
  "lens_start q = \<lparr>le_calls = [], le_messages = [LensUser (LensQuestion q) False], le_rounds = 0, le_excluded = [],
     le_guard = new_guard, le_usage = []\<rparr>"

definition lens_spend :: "chat_usage \<Rightarrow> usage_by_model \<Rightarrow> 'c lens_state \<Rightarrow> 'c lens_state" where
  "lens_spend u by_model s = s\<lparr>le_usage := addSpend (Some by_model) \<lparr>mu_in = cu_in u, mu_out = cu_out u\<rparr> (le_usage s)\<rparr>"

text \<open>One question: its tokens are charged whatever it ends with.\<close>

datatype 'c lens_answer = LensSays "'c lens_reply" | LensNoTier "pool_rotation list" | LensLate

definition lens_ask :: "('w, 'c) lens_setting \<Rightarrow> 'c lens_state \<Rightarrow> 'w \<Rightarrow> 'c lens_answer \<times> 'c lens_state \<times> 'w" where
  "lens_ask lg s w =
     (case ask \<lparr>pr_now = lens_now lg, pr_call = lw_call (lg_world lg) (le_messages s), pr_sleep = lw_sleep (lg_world lg)\<rparr>
         (lw_parse (lg_world lg))
         \<lparr>ap_deadline = Some (lens_deadline lg), ap_timeout = Some LENS_CALL_TIMEOUT_MS, ap_retries = 2\<rparr>
         (lg_tiers lg) (le_excluded s) w of
        (Answer y, ex, w1) \<Rightarrow> (LensSays (py_value y), lens_spend (py_usage y) (py_usageByModel y) (s\<lparr>le_excluded := ex\<rparr>), w1)
      | (Exhausted u rots by_model, ex, w1) \<Rightarrow> (LensNoTier rots, lens_spend u by_model (s\<lparr>le_excluded := ex\<rparr>), w1)
      | (DeadlineExceeded u rots by_model, ex, w1) \<Rightarrow> (LensLate, lens_spend u by_model (s\<lparr>le_excluded := ex\<rparr>), w1))"

definition lens_limit :: "('w, 'c) lens_setting \<Rightarrow> 'c lens_state \<Rightarrow> 'w \<Rightarrow> lens_end option \<times> 'w" where
  "lens_limit lg s w =
     (if LENS_MAX_ROUNDS \<le> le_rounds s then (Some LensMaxRounds, w)
      else
        (let n = lens_now lg w in
         (if LENS_MAX_WALL_MS \<le> fst n - lg_started lg then Some LensMaxWall
          else if LENS_MAX_TOOL_CALLS \<le> length (le_calls s) then Some LensMaxToolCalls else None, snd n)))"

definition lens_call_id :: "string \<Rightarrow> nat \<Rightarrow> string" where
  "lens_call_id label n = label @ ''-tc-'' @ show_nat n"

definition lens_syntheticCall :: "('w, 'c) lens_setting \<Rightarrow> string \<Rightarrow> tool \<Rightarrow> args \<Rightarrow> tool_text \<Rightarrow> 'w \<Rightarrow> tool_call \<times> 'w" where
  "lens_syntheticCall lg i t a text w =
     (let n = lens_now lg w in
      (\<lparr>tc_id = i, tc_tool = t, tc_args = a, tc_status = BlockedDuplicate,
        tc_output = map (\<lambda>b. char_of (unat b)) (tw_render (lw_tools (lg_world lg)) text), tc_structuredRef = None,
        tc_startedAt = fst n, tc_wallMs = 0, tc_injectionSuspected = False\<rparr>, snd n))"

text \<open>One call, blocked as a duplicate or executed, with the guard after it.\<close>

definition lens_one_call :: "('w, 'c) lens_setting \<Rightarrow> model_call \<Rightarrow> 'c lens_state \<Rightarrow> 'w \<Rightarrow> tool_call \<times> guard \<times> 'w" where
  "lens_one_call lg c s w =
     (let i = lens_call_id (lg_label lg) (length (le_calls s) + 1); a = lensArgsFor c; t = ml_tool c;
          adm = admit t a (le_guard s) in
      if \<not> fst adm then
        (let r = lens_syntheticCall lg i t a (BlockedCall t (dg_counts (le_guard s) (signatureOf t a))) w in (fst r, snd adm, snd r))
      else
        (let r = execute (lw_tools (lg_world lg)) (lg_ctx lg) (lg_workspace lg) (Some (lens_deadline lg)) i t a w
         in (fst (fst r), snd adm, snd r)))"

fun lens_calls :: "('w, 'c) lens_setting \<Rightarrow> model_call list \<Rightarrow> 'c lens_state \<Rightarrow> tool_call list \<Rightarrow> 'w \<Rightarrow>
    'c lens_state \<times> tool_call list \<times> 'w" where
  "lens_calls lg [] s results w = (s, results, w)"
| "lens_calls lg (c # cs) s results w =
     (if LENS_MAX_TOOL_CALLS \<le> length (le_calls s) then (s, results, w)
      else case lens_one_call lg c s w of
          (tc, g, w1) \<Rightarrow> lens_calls lg cs (s\<lparr>le_calls := le_calls s @ [tc], le_guard := g\<rparr>) (results @ [tc]) w1)"

definition lens_done :: "'c lens_reply \<Rightarrow> 'c lens_state \<Rightarrow> 'c lens_run" where
  "lens_done r s = \<lparr>lr_conclusion = (case r of LensFinal cs c \<Rightarrow> Some c | LensCalls cs \<Rightarrow> None), lr_calls = le_calls s,
     lr_end = LensDone, lr_failure = None\<rparr>"

definition lens_failed :: "lens_end \<Rightarrow> lens_detail \<Rightarrow> 'c lens_state \<Rightarrow> 'c lens_run" where
  "lens_failed e d s = \<lparr>lr_conclusion = None, lr_calls = le_calls s, lr_end = e, lr_failure = Some (e, d)\<rparr>"

text \<open>One turn: \<open>Inl\<close> is the end of the run, or (on the right) the limit that ends the loop.\<close>

definition lens_turn :: "('w, 'c) lens_setting \<Rightarrow> 'c lens_state \<Rightarrow> 'w \<Rightarrow> ('c lens_run + lens_end option) \<times> 'c lens_state \<times> 'w" where
  "lens_turn lg s w =
     (let l = lens_limit lg s w in
      case fst l of
        Some e \<Rightarrow> (Inr (Some e), s, snd l)
      | None \<Rightarrow>
          (case lens_ask lg s (snd l) of
             (LensNoTier rots, s1, w1) \<Rightarrow> (Inl (lens_failed LensExhausted (AllTiersFailed rots) s1), s1, w1)
           | (LensLate, s1, w1) \<Rightarrow> (Inl (lens_failed LensDeadline NoDetail s1), s1, w1)
           | (LensSays r, s1, w1) \<Rightarrow>
               (let s2 = s1\<lparr>le_rounds := le_rounds s1 + 1, le_messages := le_messages s1 @ [LensAssistant r]\<rparr> in
                case r of
                  LensFinal _ _ \<Rightarrow> (Inl (lens_done r s2), s2, w1)
                | LensCalls cs \<Rightarrow>
                    (case lens_calls lg cs s2 [] w1 of
                       (s3, results, w2) \<Rightarrow>
                         (Inr None, s3\<lparr>le_messages := le_messages s3 @ [LensUser (LensResults results) False]\<rparr>, w2)))))"

lemma lens_ask_frame:
  "lens_ask lg s w = (r, s1, w1) \<Longrightarrow>
     le_calls s1 = le_calls s \<and> le_rounds s1 = le_rounds s \<and> le_guard s1 = le_guard s \<and> le_messages s1 = le_messages s"
  by (auto simp: lens_ask_def lens_spend_def split: prod.splits ask_result.splits)

lemma lens_calls_frame:
  "lens_calls lg cs s results w = (s1, results1, w1) \<Longrightarrow>
     le_rounds s1 = le_rounds s \<and> le_usage s1 = le_usage s \<and> le_excluded s1 = le_excluded s"
proof (induction cs arbitrary: s results w)
  case (Cons c cs)
  obtain tc g w2 where o: "lens_one_call lg c s w = (tc, g, w2)" by (metis prod_cases3)
  show ?case
  proof (cases "LENS_MAX_TOOL_CALLS \<le> length (le_calls s)")
    case False
    then have "lens_calls lg cs (s\<lparr>le_calls := le_calls s @ [tc], le_guard := g\<rparr>) (results @ [tc]) w2 = (s1, results1, w1)"
      using Cons.prems by (simp add: o)
    from Cons.IH[OF this] show ?thesis by simp
  qed (use Cons.prems in simp)
qed simp

lemma lens_turn_rounds:
  assumes "lens_turn lg s w = (Inr None, s', w')"
  shows "le_rounds s < LENS_MAX_ROUNDS \<and> le_rounds s' = le_rounds s + 1"
  using assms
  by (auto simp: lens_turn_def lens_limit_def Let_def split: if_splits prod.splits lens_answer.splits lens_reply.splits
      dest!: lens_ask_frame lens_calls_frame)

function lens_loop :: "('w, 'c) lens_setting \<Rightarrow> 'c lens_state \<Rightarrow> 'w \<Rightarrow> ('c lens_run + lens_end) \<times> 'c lens_state \<times> 'w" where
  "lens_loop lg s w =
     (case lens_turn lg s w of
        (Inl r, s1, w1) \<Rightarrow> (Inl r, s1, w1)
      | (Inr (Some e), s1, w1) \<Rightarrow> (Inr e, s1, w1)
      | (Inr None, s1, w1) \<Rightarrow> lens_loop lg s1 w1)"
  by pat_completeness auto

termination
  by (relation "measure (\<lambda>(_, s, _). LENS_MAX_ROUNDS - le_rounds s)") (auto dest: lens_turn_rounds[OF sym])

declare lens_loop.simps [simp del]

definition lens_ask_for_conclusion :: "'c lens_message list \<Rightarrow> 'c lens_message list" where
  "lens_ask_for_conclusion msgs =
     (case rev msgs of
        LensUser p _ # before \<Rightarrow> rev before @ [LensUser p True]
      | _ \<Rightarrow> msgs @ [LensUser LensForceFinal False])"

text \<open>The limit was reached: one forced conclusion when some call succeeded and there is time.\<close>

definition lens_forced :: "('w, 'c) lens_setting \<Rightarrow> lens_end \<Rightarrow> 'c lens_state \<Rightarrow> 'w \<Rightarrow> 'c lens_run \<times> 'c lens_state \<times> 'w" where
  "lens_forced lg e s w =
     (if (e = LensMaxRounds \<or> e = LensMaxToolCalls) \<and> list_ex (\<lambda>t. tc_status t = CallOk) (le_calls s) then
        (case lens_ask lg (s\<lparr>le_messages := lens_ask_for_conclusion (le_messages s)\<rparr>) w of
           (LensSays (LensFinal cs c), s1, w1) \<Rightarrow> (lens_done (LensFinal cs c) s1, s1, w1)
         | (LensSays (LensCalls cs), s1, w1) \<Rightarrow> (lens_failed e ForcedOnlyCalls s1, s1, w1)
         | (LensNoTier rots, s1, w1) \<Rightarrow> (lens_failed e (ForcedTiersFailed rots) s1, s1, w1)
         | (LensLate, s1, w1) \<Rightarrow> (lens_failed e ForcedNoReply s1, s1, w1))
      else (lens_failed e NoDetail s, s, w))"

definition runLensLoop ::
  "('w, 'c) lens_world \<Rightarrow> model_tier list \<Rightarrow> string \<Rightarrow> investigation_context \<Rightarrow> lens_question \<Rightarrow> 'w \<Rightarrow>
   'c lens_run \<times> 'c lens_state \<times> 'w" where
  "runLensLoop lw tiers label ctx q w =
     (let n = tw_now (lw_tools lw) w;
          lg = \<lparr>lg_world = lw, lg_ctx = ctx, lg_label = label, lg_tiers = tiers,
            lg_workspace = fromContext (lw_system lw) (ic_files ctx), lg_started = fst n\<rparr>
      in case lens_loop lg (lens_start q) (snd n) of
           (Inl r, s1, w1) \<Rightarrow> (r, s1, w1)
         | (Inr e, s1, w1) \<Rightarrow> lens_forced lg e s1 w1)"

section \<open>Limits of a run\<close>

definition lens_ids :: "string \<Rightarrow> nat \<Rightarrow> string list" where
  "lens_ids label n = map (lens_call_id label) [1..<Suc n]"

lemma lens_ids_Suc: "lens_ids label (Suc n) = lens_ids label n @ [lens_call_id label (Suc n)]"
  by (simp add: lens_ids_def)

lemma distinct_lens_ids: "distinct (lens_ids label n)"
proof -
  have "lens_call_id label m = lens_call_id label n \<Longrightarrow> m = n" for m n
    by (metis append_same_eq lens_call_id_def number_of_show_nat same_append_eq)
  then show ?thesis by (auto simp: lens_ids_def distinct_map inj_on_def simp del: upt_Suc)
qed

definition lens_entry :: "tool_call \<Rightarrow> (tool \<times> args) \<times> bool" where
  "lens_entry t = ((tc_tool t, tc_args t), tc_status t \<noteq> BlockedDuplicate)"

definition lens_ok :: "('w, 'c) lens_setting \<Rightarrow> 'c lens_state \<Rightarrow> bool" where
  "lens_ok lg s \<longleftrightarrow>
     map tc_id (le_calls s) = lens_ids (lg_label lg) (length (le_calls s)) \<and>
     length (le_calls s) \<le> LENS_MAX_TOOL_CALLS \<and> le_rounds s \<le> LENS_MAX_ROUNDS \<and>
     dedup.consistent (map lens_entry (le_calls s)) (le_guard s)"

lemma lens_ok_start: "lens_ok lg (lens_start q)"
  by (simp add: lens_ok_def lens_start_def lens_ids_def dedup.consistent_fresh)

lemma lens_ok_cong:
  "lens_ok lg s \<Longrightarrow> le_calls s' = le_calls s \<Longrightarrow> le_guard s' = le_guard s \<Longrightarrow> le_rounds s' \<le> LENS_MAX_ROUNDS \<Longrightarrow> lens_ok lg s'"
  unfolding lens_ok_def by simp

lemma lens_one_call_entry:
  assumes "lens_one_call lg c s w = (tc, g, w')"
  shows "tc_id tc = lens_call_id (lg_label lg) (length (le_calls s) + 1) \<and>
    lens_entry tc = ((ml_tool c, lensArgsFor c), fst (admit (ml_tool c) (lensArgsFor c) (le_guard s))) \<and>
    g = snd (admit (ml_tool c) (lensArgsFor c) (le_guard s))"
proof (cases "fst (admit (ml_tool c) (lensArgsFor c) (le_guard s))")
  case True
  let ?i = "lens_call_id (lg_label lg) (length (le_calls s) + 1)"
  obtain tc' st w2 where e: "execute (lw_tools (lg_world lg)) (lg_ctx lg) (lg_workspace lg) (Some (lens_deadline lg)) ?i
      (ml_tool c) (lensArgsFor c) w = ((tc', st), w2)" by (metis prod.exhaust)
  then have "tc = tc'" "g = snd (admit (ml_tool c) (lensArgsFor c) (le_guard s))"
    using assms True by (auto simp: lens_one_call_def Let_def)
  then show ?thesis using execute_ok[OF e] True by (simp add: lens_entry_def)
next
  case False
  then show ?thesis using assms by (auto simp: lens_one_call_def Let_def lens_syntheticCall_def lens_entry_def)
qed

lemma lens_calls_ok:
  "lens_ok lg s \<Longrightarrow> lens_calls lg cs s results w = (s1, results1, w1) \<Longrightarrow> lens_ok lg s1"
proof (induction cs arbitrary: s results w)
  case (Cons c cs)
  obtain tc g w2 where o: "lens_one_call lg c s w = (tc, g, w2)" by (metis prod_cases3)
  note x = lens_one_call_entry[OF o]
  show ?case
  proof (cases "LENS_MAX_TOOL_CALLS \<le> length (le_calls s)")
    case False
    have g: "dedup.consistent (map lens_entry (le_calls s)) (le_guard s)" using Cons.prems(1) by (simp add: lens_ok_def)
    have "lens_ok lg (s\<lparr>le_calls := le_calls s @ [tc], le_guard := g\<rparr>)"
      using Cons.prems(1) False x dedup.consistent_ask[OF g, of "(ml_tool c, lensArgsFor c)"]
      by (simp add: lens_ok_def lens_ids_Suc)
    moreover have "lens_calls lg cs (s\<lparr>le_calls := le_calls s @ [tc], le_guard := g\<rparr>) (results @ [tc]) w2 = (s1, results1, w1)"
      using Cons.prems(2) False by (simp add: o)
    ultimately show ?thesis by (rule Cons.IH)
  qed (use Cons.prems in simp)
qed simp

lemma lens_turn_ok:
  assumes ok: "lens_ok lg s" and t: "lens_turn lg s w = (r, s', w')"
  shows "lens_ok lg s' \<and> (case r of Inl run \<Rightarrow> lr_calls run = le_calls s' \<and>
      (lr_conclusion run \<noteq> None \<longleftrightarrow> lr_end run = LensDone) \<and> (lr_failure run = None \<longleftrightarrow> lr_end run = LensDone)
    | Inr e \<Rightarrow> e \<noteq> Some LensDone)"
proof (cases "fst (lens_limit lg s w)")
  case (Some e)
  then have "e \<noteq> LensDone" by (auto simp: lens_limit_def Let_def split: if_splits)
  then show ?thesis using t ok Some by (auto simp: lens_turn_def Let_def)
next
  case None
  then have lt: "le_rounds s < LENS_MAX_ROUNDS" by (auto simp: lens_limit_def Let_def split: if_splits)
  obtain a s1 w1 where a: "lens_ask lg s (snd (lens_limit lg s w)) = (a, s1, w1)" by (metis prod_cases3)
  note f = lens_ask_frame[OF a]
  have s2: "lens_ok lg (s1\<lparr>le_rounds := le_rounds s1 + 1, le_messages := m\<rparr>)" and s1: "lens_ok lg s1" for m
    by (rule lens_ok_cong[OF ok]; use f lt in simp)+
  show ?thesis
  proof (cases "\<exists>cs. a = LensSays (LensCalls cs)")
    case True
    then obtain cs where cs: "a = LensSays (LensCalls cs)" by blast
    let ?s2 = "s1\<lparr>le_rounds := le_rounds s1 + 1, le_messages := le_messages s1 @ [LensAssistant (LensCalls cs)]\<rparr>"
    obtain s3 results w2 where c: "lens_calls lg cs ?s2 [] w1 = (s3, results, w2)" by (metis prod_cases3)
    have "lens_ok lg s3" by (rule lens_calls_ok[OF s2 c])
    then have "lens_ok lg (s3\<lparr>le_messages := m\<rparr>)" for m by (rule lens_ok_cong) (use \<open>lens_ok lg s3\<close> in \<open>simp_all add: lens_ok_def\<close>)
    then show ?thesis using t None by (auto simp: lens_turn_def Let_def a cs c[simplified])
  next
    case False
    then show ?thesis using t None s1 s2
      by (auto simp: lens_turn_def Let_def a lens_failed_def lens_done_def split: lens_answer.splits lens_reply.splits)
  qed
qed

text \<open>What every end of a run satisfies.\<close>

definition run_ok :: "('w, 'c) lens_setting \<Rightarrow> 'c lens_run \<Rightarrow> 'c lens_state \<Rightarrow> bool" where
  "run_ok lg r s \<longleftrightarrow> lens_ok lg s \<and> lr_calls r = le_calls s \<and>
     (lr_conclusion r \<noteq> None \<longleftrightarrow> lr_end r = LensDone) \<and> (lr_failure r = None \<longleftrightarrow> lr_end r = LensDone)"

lemma lens_loop_ok:
  "lens_ok lg s \<Longrightarrow> lens_loop lg s w = (r, s', w') \<Longrightarrow>
     lens_ok lg s' \<and> (case r of Inl run \<Rightarrow> run_ok lg run s' | Inr e \<Rightarrow> e \<noteq> LensDone)"
proof (induction "LENS_MAX_ROUNDS - le_rounds s" arbitrary: s w rule: less_induct)
  case less
  obtain a s1 w1 where t: "lens_turn lg s w = (a, s1, w1)" by (metis prod_cases3)
  note ok = lens_turn_ok[OF less.prems(1) t]
  show ?case
  proof (cases "a = Inr None")
    case True
    then have "LENS_MAX_ROUNDS - le_rounds s1 < LENS_MAX_ROUNDS - le_rounds s" using lens_turn_rounds t by fastforce
    moreover have "lens_loop lg s1 w1 = (r, s', w')" using less.prems(2) True by (simp add: lens_loop.simps[of lg s w] t)
    ultimately show ?thesis using less.hyps ok by blast
  next
    case False
    then show ?thesis using less.prems(2) ok
      by (auto simp: lens_loop.simps[of lg s w] t run_ok_def split: sum.splits option.splits)
  qed
qed

lemma lens_forced_ok:
  assumes "lens_ok lg s" and "e \<noteq> LensDone" and "lens_forced lg e s w = (r, s', w')"
  shows "run_ok lg r s'"
proof (cases "(e = LensMaxRounds \<or> e = LensMaxToolCalls) \<and> list_ex (\<lambda>t. tc_status t = CallOk) (le_calls s)")
  case True
  obtain a s1 w1 where a: "lens_ask lg (s\<lparr>le_messages := lens_ask_for_conclusion (le_messages s)\<rparr>) w = (a, s1, w1)"
    by (metis prod_cases3)
  have "lens_ok lg s1" by (rule lens_ok_cong[OF assms(1)]) (use lens_ask_frame[OF a] assms(1) in \<open>simp_all add: lens_ok_def\<close>)
  then show ?thesis using assms(2,3) True
    by (auto simp: lens_forced_def a run_ok_def lens_done_def lens_failed_def split: lens_answer.splits lens_reply.splits)
next
  case False
  then have "lens_forced lg e s w = (lens_failed e NoDetail s, s, w)" by (auto simp: lens_forced_def)
  then show ?thesis using assms by (auto simp: run_ok_def lens_failed_def)
qed

lemma runLensLoop_ok:
  fixes lw :: "('w, 'c) lens_world"
  assumes "runLensLoop lw tiers label ctx q w = (r, s, w')"
  obtains lg :: "('w, 'c) lens_setting" where "lg_label lg = label" "run_ok lg r s"
proof -
  define lg :: "('w, 'c) lens_setting" where "lg = \<lparr>lg_world = lw, lg_ctx = ctx, lg_label = label, lg_tiers = tiers,
     lg_workspace = fromContext (lw_system lw) (ic_files ctx), lg_started = fst (tw_now (lw_tools lw) w)\<rparr>"
  obtain a s1 w1 where l: "lens_loop lg (lens_start q) (snd (tw_now (lw_tools lw) w)) = (a, s1, w1)" by (metis prod_cases3)
  note ok = lens_loop_ok[OF lens_ok_start l]
  have "runLensLoop lw tiers label ctx q w = (case lens_loop lg (lens_start q) (snd (tw_now (lw_tools lw) w)) of
      (Inl r, s1, w1) \<Rightarrow> (r, s1, w1) | (Inr e, s1, w1) \<Rightarrow> lens_forced lg e s1 w1)"
    unfolding runLensLoop_def lg_def Let_def ..
  then have "run_ok lg r s" using assms ok lens_forced_ok[of lg s1 _ w1 r s w'] by (cases a) (auto simp: l)
  then show thesis using that[of lg] by (simp add: lg_def)
qed

text \<open>
  A run of a lens is bounded whatever the model answers: at most six rounds and eight tool calls, numbered
  under the name of the lens, no request executed more often than its tool allows; and it has a conclusion
  exactly when it ended with one, otherwise a reason.
\<close>

theorem lens_limits:
  fixes lw :: "('w, 'c) lens_world"
  shows "case runLensLoop lw tiers label ctx q w of (r, s, w') \<Rightarrow>
     length (lr_calls r) \<le> 8 \<and> le_rounds s \<le> 6 \<and> map tc_id (lr_calls r) = lens_ids label (length (lr_calls r)) \<and>
     distinct (map tc_id (lr_calls r)) \<and>
     length (filter (\<lambda>t. tc_status t \<noteq> BlockedDuplicate \<and> signatureOf (tc_tool t) (tc_args t) = k) (lr_calls r)) \<le> DUPLICATE_LIMITS (fst k) \<and>
     (lr_conclusion r \<noteq> None \<longleftrightarrow> lr_end r = LensDone) \<and> (lr_failure r = None \<longleftrightarrow> lr_end r = LensDone)"
proof -
  obtain r s w' where e: "runLensLoop lw tiers label ctx q w = (r, s, w')" by (metis prod_cases3)
  obtain lg :: "('w, 'c) lens_setting" where lg: "lg_label lg = label" "run_ok lg r s" using runLensLoop_ok[OF e] .
  then have "dedup.consistent (map lens_entry (lr_calls r)) (le_guard s)" by (simp add: run_ok_def lens_ok_def)
  from dedup.consistent_cap[OF this, of k]
  have "length (filter (\<lambda>t. tc_status t \<noteq> BlockedDuplicate \<and> signatureOf (tc_tool t) (tc_args t) = k) (lr_calls r)) \<le>
      DUPLICATE_LIMITS (fst k)"
    by (simp add: dedup.taken_def lens_entry_def filter_map o_def)
  moreover have "distinct (map tc_id (lr_calls r))" using lg distinct_lens_ids by (simp add: run_ok_def lens_ok_def)
  ultimately show ?thesis
    using lg by (auto simp: e run_ok_def lens_ok_def LENS_MAX_TOOL_CALLS_def LENS_MAX_ROUNDS_def)
qed

end
