(* ===== verification/Challenge.thy ===== *)
theory Challenge
  imports Lens Decide
begin

text \<open>
  The challenge of a verdict: the four lenses of \<open>grading/investigator/lenses/\<close>, and
  \<open>investigator/challenge.ts\<close>, \<open>case-lens.ts\<close> and \<open>challenge-phase.ts\<close>.

  The reviews of one phase run concurrently in the code and share nothing but the sandbox and the clock. A
  phase is therefore modelled over the outcomes of its reviews: \<open>challenger\<close> and \<open>case_lens\<close> carry a function
  from the question (and its position) to what the review ended with, whatever the order they ran in. A
  thrown error is \<open>Inl\<close> with its message. The tokens of a phase are not part of its result here.
\<close>

section \<open>Questions\<close>

text \<open>The rules the machine checks and the rules concluded in words, the data of \<open>caseLensContext\<close>.\<close>

definition machine_keys :: "investigation_context \<Rightarrow> key list" where
  "machine_keys ctx = map rn_ruleKey (filter (\<lambda>r. rn_checkedBy r = ByMachine) (ic_rules ctx))"

definition case_context :: "investigation_context \<Rightarrow> verdict \<Rightarrow> key list \<times> (key \<times> string) list" where
  "case_context ctx v =
     (filter (\<lambda>k. k \<notin> set (machine_keys ctx)) (uniq (map ve_ruleKey (v_errors v))),
      map (\<lambda>r. (rn_ruleKey r, case rn_machineNote r of None \<Rightarrow> rn_title r | Some n \<Rightarrow> n))
        (filter (\<lambda>r. rn_checkedBy r = ByMachine) (ic_rules ctx)))"

definition EVIDENCE_VIEW_BYTES :: nat where "EVIDENCE_VIEW_BYTES = 2000"

definition renderEvidence :: "tool_call list \<Rightarrow> (string \<times> tool \<times> call_status \<times> string) list" where
  "renderEvidence evidence =
     map (\<lambda>t. (tc_id t, tc_tool t, tc_status t,
       map (\<lambda>b. char_of (unat b)) (truncateOutput (map of_char (tc_output t)) EVIDENCE_VIEW_BYTES))) evidence"

text \<open>The calls of a run that succeeded, and whether one of them ran the program.\<close>

definition ok_ids :: "tool_call list \<Rightarrow> string list" where
  "ok_ids calls = map tc_id (filter (\<lambda>t. tc_status t = CallOk) calls)"

definition ran_something :: "tool_call list \<Rightarrow> bool" where
  "ran_something calls = list_ex (\<lambda>t. tc_status t = CallOk \<and> (tc_tool t = Run \<or> tc_tool t = RunTests)) calls"

section \<open>Lenses on one error\<close>

record challenge_input =
  chi_ruleKey :: key
  chi_toolCallIds :: "string list"
  chi_ctx :: investigation_context
  chi_evidence :: "tool_call list"

record review =
  rv_refuted :: bool
  rv_toolCallIds :: "string list"
  rv_reason :: "utext option"

datatype review_error = LensInconclusive "lens_failure option" | LensNeverRan bool | LensThrew utext

type_synonym review_outcome = "review_error + review"

definition review_of :: "error_verdict \<Rightarrow> tool_call list \<Rightarrow> review" where
  "review_of c calls = \<lparr>rv_refuted = ev_refuted c, rv_toolCallIds = filter (\<lambda>i. i \<in> set (ok_ids calls)) (ev_toolCallIds c),
     rv_reason = ev_reason c\<rparr>"

definition correctness_review :: "error_verdict lens_run \<Rightarrow> review_outcome" where
  "correctness_review r =
     (case lr_conclusion r of
        None \<Rightarrow> Inl (LensInconclusive (lr_failure r))
      | Some c \<Rightarrow> if \<not> ran_something (lr_calls r) then Inl (LensNeverRan (ev_refuted c)) else Inr (review_of c (lr_calls r)))"

definition severity_review :: "error_verdict lens_run \<Rightarrow> review_outcome" where
  "severity_review r =
     (case lr_conclusion r of
        None \<Rightarrow> Inl (LensInconclusive (lr_failure r))
      | Some c \<Rightarrow> if ev_refuted c \<and> \<not> ran_something (lr_calls r) then Inl (LensNeverRan True) else Inr (review_of c (lr_calls r)))"

definition CorrectnessLens ::
  "('w, error_verdict) lens_world \<Rightarrow> model_tier list \<Rightarrow> challenge_input \<Rightarrow> 'w \<Rightarrow> review_outcome \<times> usage_by_model \<times> 'w" where
  "CorrectnessLens lw tiers i w =
     (case runLensLoop lw tiers ''tinh_dung'' (chi_ctx i) (AboutRule (chi_ruleKey i) (chi_toolCallIds i)) w of
        (r, s, w1) \<Rightarrow> (correctness_review r, le_usage s, w1))"

definition SeverityLens ::
  "('w, error_verdict) lens_world \<Rightarrow> model_tier list \<Rightarrow> challenge_input \<Rightarrow> 'w \<Rightarrow> review_outcome \<times> usage_by_model \<times> 'w" where
  "SeverityLens lw tiers i w =
     (case runLensLoop lw tiers ''qua_tay'' (chi_ctx i) (AboutEvidence (chi_ruleKey i) (renderEvidence (chi_evidence i))) w of
        (r, s, w1) \<Rightarrow> (severity_review r, le_usage s, w1))"

section \<open>Lenses on the whole case\<close>

datatype lens_text =
    NoConclusionText "lens_failure option"
  | CouldNotRunText utext
  | NothingOpenText
  | ChecklistText utext "key list"
  | UncheckedText utext "key list"
  | MissedText "key list" utext "key list"
  | UnreadableLensText

text \<open>\<open>say\<close> gives the sentence of a text.\<close>

definition cheating_note :: "(lens_text \<Rightarrow> utext) \<Rightarrow> case_verdict lens_run \<Rightarrow> case_lens_note" where
  "cheating_note say r =
     (case lr_conclusion r of
        None \<Rightarrow> \<lparr>cn_lens = ''gian_lan'', cn_suspected = False, cn_concluded = False, cn_note = clampNote (say (NoConclusionText (lr_failure r)))\<rparr>
      | Some c \<Rightarrow>
          if cv_suspected c \<and> \<not> list_ex (\<lambda>t. tc_status t = CallOk \<and> tc_tool t = Run) (lr_calls r) then
            \<lparr>cn_lens = ''gian_lan'', cn_suspected = False, cn_concluded = True, cn_note = clampNote (say (CouldNotRunText (cv_note c)))\<rparr>
          else \<lparr>cn_lens = ''gian_lan'', cn_suspected = cv_suspected c, cn_concluded = True, cn_note = cv_note c\<rparr>)"

definition CheatingLens ::
  "('w, case_verdict) lens_world \<Rightarrow> model_tier list \<Rightarrow> (lens_text \<Rightarrow> utext) \<Rightarrow> investigation_context \<Rightarrow> verdict \<Rightarrow> 'w \<Rightarrow>
   case_lens_note \<times> usage_by_model \<times> 'w" where
  "CheatingLens lw tiers say ctx v w =
     (case runLensLoop lw tiers ''gian_lan'' ctx (AboutCase (fst (case_context ctx v)) (snd (case_context ctx v))) w of
        (r, s, w1) \<Rightarrow> (cheating_note say r, le_usage s, w1))"

definition open_rules :: "investigation_context \<Rightarrow> verdict \<Rightarrow> rule_entry list" where
  "open_rules ctx v =
     filter (\<lambda>r. rn_checkedBy r = ByModel \<and> rn_ruleKey r \<notin> ve_ruleKey ` set (v_errors v)) (ic_rules ctx)"

definition missed_keys :: "key list \<Rightarrow> omission_verdict \<Rightarrow> key list" where
  "missed_keys open_keys c =
     filter (\<lambda>k. k \<in> set (map fst (filter (\<lambda>x. snd x = Violated) (ov_rules c)) @ ov_missed c)) (uniq open_keys)"

definition unanswered_keys :: "key list \<Rightarrow> omission_verdict \<Rightarrow> key list" where
  "unanswered_keys open_keys c = filter (\<lambda>k. k \<notin> set (map fst (ov_rules c) @ ov_missed c)) (uniq open_keys)"

definition omission_note :: "(lens_text \<Rightarrow> utext) \<Rightarrow> key list \<Rightarrow> omission_verdict lens_run \<Rightarrow> case_lens_note" where
  "omission_note say open_keys r =
     (case lr_conclusion r of
        None \<Rightarrow> \<lparr>cn_lens = ''bo_sot'', cn_suspected = False, cn_concluded = False, cn_note = clampNote (say (NoConclusionText (lr_failure r)))\<rparr>
      | Some c \<Rightarrow>
          (let missed = missed_keys open_keys c; unanswered = unanswered_keys open_keys c in
           if missed = [] then
             \<lparr>cn_lens = ''bo_sot'', cn_suspected = False, cn_concluded = True, cn_note = clampNote (say (ChecklistText (ov_note c) unanswered))\<rparr>
           else if \<not> list_ex (\<lambda>t. tc_status t = CallOk) (lr_calls r) then
             \<lparr>cn_lens = ''bo_sot'', cn_suspected = False, cn_concluded = True, cn_note = clampNote (say (UncheckedText (ov_note c) unanswered))\<rparr>
           else
             \<lparr>cn_lens = ''bo_sot'', cn_suspected = True, cn_concluded = True,
               cn_note = clampNote (say (MissedText missed (ov_note c) unanswered))\<rparr>))"

definition OmissionLens ::
  "('w, omission_verdict) lens_world \<Rightarrow> model_tier list \<Rightarrow> (lens_text \<Rightarrow> utext) \<Rightarrow> investigation_context \<Rightarrow> verdict \<Rightarrow> 'w \<Rightarrow>
   case_lens_note \<times> usage_by_model \<times> 'w" where
  "OmissionLens lw tiers say ctx v w =
     (let opened = open_rules ctx v in
      if opened = [] then
        (\<lparr>cn_lens = ''bo_sot'', cn_suspected = False, cn_concluded = True, cn_note = say NothingOpenText\<rparr>, [], w)
      else
        (case runLensLoop lw tiers ''bo_sot'' ctx
            (AboutOmissions (fst (case_context ctx v)) (snd (case_context ctx v))
              (map (\<lambda>r. (rn_ruleKey r, rn_title r, rn_description r)) opened)) w of
           (r, s, w1) \<Rightarrow> (omission_note say (map rn_ruleKey opened) r, le_usage s, w1)))"

section \<open>The challenge of every error\<close>

record challenger =
  cg_name :: string
  cg_review :: "nat \<Rightarrow> challenge_input \<Rightarrow> review_outcome"

definition REASON_MAX :: nat where "REASON_MAX = 300"

definition challenge_input_of :: "investigation_context \<Rightarrow> tool_call list \<Rightarrow> verdict_error \<Rightarrow> challenge_input" where
  "challenge_input_of ctx calls e =
     \<lparr>chi_ruleKey = ve_ruleKey e, chi_toolCallIds = ve_toolCallIds e, chi_ctx = ctx,
      chi_evidence = List.map_filter (index_by tc_id calls) (ve_toolCallIds e)\<rparr>"

text \<open>\<open>say_error\<close> is the message of a thrown error.\<close>

definition conclude_error :: "(review_error \<Rightarrow> utext) \<Rightarrow> key \<Rightarrow> review_outcome \<Rightarrow> error_conclusion" where
  "conclude_error say_error k r =
     (case r of
        Inr v \<Rightarrow> \<lparr>eco_ruleKey = k, eco_status = (if rv_refuted v then Refuted else Confirmed),
            eco_toolCallIds = rv_toolCallIds v, eco_reason = rv_reason v\<rparr>
      | Inl e \<Rightarrow> \<lparr>eco_ruleKey = k, eco_status = Unverified, eco_toolCallIds = [], eco_reason = Some (clamp REASON_MAX (say_error e))\<rparr>)"

definition challenge ::
  "(review_error \<Rightarrow> utext) \<Rightarrow> verdict \<Rightarrow> investigation_context \<Rightarrow> tool_call list \<Rightarrow> challenger \<Rightarrow> challenge_conclusion" where
  "challenge say_error v ctx calls c =
     \<lparr>chc_challenger = cg_name c,
      chc_perError = map (\<lambda>(n, e). conclude_error say_error (ve_ruleKey e) (cg_review c n (challenge_input_of ctx calls e)))
        (enumerate 0 (v_errors v))\<rparr>"

record case_lens =
  cl_name :: string
  cl_review :: "investigation_context \<Rightarrow> verdict \<Rightarrow> tool_call list \<Rightarrow> case_lens_note option"

text \<open>\<open>None\<close> is a lens that throws.\<close>

definition runCaseLens ::
  "(lens_text \<Rightarrow> utext) \<Rightarrow> investigation_context \<Rightarrow> verdict \<Rightarrow> tool_call list \<Rightarrow> case_lens \<Rightarrow> case_lens_note" where
  "runCaseLens say ctx v calls l =
     (case cl_review l ctx v calls of
        Some n \<Rightarrow> n
      | None \<Rightarrow> \<lparr>cn_lens = cl_name l, cn_suspected = False, cn_concluded = False, cn_note = say UnreadableLensText\<rparr>)"

definition challengeable :: "investigation_context \<Rightarrow> verdict \<Rightarrow> verdict" where
  "challengeable ctx v = v\<lparr>v_errors := filter (\<lambda>e. ve_ruleKey e \<notin> set (machine_keys ctx)) (v_errors v)\<rparr>"

definition runChallengePhase ::
  "(review_error \<Rightarrow> utext) \<Rightarrow> (lens_text \<Rightarrow> utext) \<Rightarrow> investigation_result \<Rightarrow> investigation_context \<Rightarrow>
   challenger list \<Rightarrow> case_lens list \<Rightarrow> stored_challenge option" where
  "runChallengePhase say_error say result ctx challengers lenses =
     (case ir_verdict result of
        None \<Rightarrow> None
      | Some v \<Rightarrow>
          if challengers = [] then None
          else Some \<lparr>sch_perError = map (challenge say_error (challengeable ctx v) ctx (inv_toolCalls (ir_investigation result))) challengers,
                     sch_caseNotes = map (runCaseLens say ctx v (inv_toolCalls (ir_investigation result))) lenses\<rparr>)"

section \<open>What a conclusion of a lens rests on\<close>

lemma ok_ids_subset: "set (ok_ids calls) \<subseteq> tc_id ` set calls"
  by (auto simp: ok_ids_def)

lemma lens_ids_mono: "m \<le> n \<Longrightarrow> set (lens_ids label m) \<subseteq> set (lens_ids label n)"
  by (auto simp: lens_ids_def simp del: upt_Suc)

lemma lens_run_ids:
  fixes lw :: "('w, 'c) lens_world"
  assumes "runLensLoop lw tiers label ctx q w = (r, s, w')"
  shows "set (ok_ids (lr_calls r)) \<subseteq> set (lens_ids label 8)"
proof -
  obtain lg :: "('w, 'c) lens_setting" where lg: "lg_label lg = label" "run_ok lg r s" using runLensLoop_ok[OF assms] .
  then have "map tc_id (lr_calls r) = lens_ids label (length (lr_calls r))" "length (lr_calls r) \<le> 8"
    by (simp_all add: run_ok_def lens_ok_def LENS_MAX_TOOL_CALLS_def)
  then have "tc_id ` set (lr_calls r) \<subseteq> set (lens_ids label 8)" using lens_ids_mono by (metis set_map)
  then show ?thesis using ok_ids_subset by blast
qed

text \<open>
  The lens on correctness believes nobody it did not check: it has an answer exactly when its run concluded
  and ran the program successfully at least once, the answer is the conclusion of that run, and it cites only
  successful calls of its own, never one of the investigation.
\<close>

theorem correctness_lens_ran:
  "case CorrectnessLens lw tiers i w of (out, usage, w') \<Rightarrow>
     (case runLensLoop lw tiers ''tinh_dung'' (chi_ctx i) (AboutRule (chi_ruleKey i) (chi_toolCallIds i)) w of (r, s, w'') \<Rightarrow>
        case out of
          Inl _ \<Rightarrow> \<not> (lr_conclusion r \<noteq> None \<and>
            (\<exists>t. t \<in> set (lr_calls r) \<and> tc_status t = CallOk \<and> tc_tool t \<in> {Run, RunTests}))
        | Inr v \<Rightarrow> map_option ev_refuted (lr_conclusion r) = Some (rv_refuted v) \<and>
            (\<exists>t. t \<in> set (lr_calls r) \<and> tc_status t = CallOk \<and> tc_tool t \<in> {Run, RunTests}) \<and>
            set (rv_toolCallIds v) \<subseteq> set (lens_ids ''tinh_dung'' 8))"
proof -
  let ?q = "AboutRule (chi_ruleKey i) (chi_toolCallIds i)"
  obtain r s w1 where e: "runLensLoop lw tiers ''tinh_dung'' (chi_ctx i) ?q w = (r, s, w1)" by (metis prod_cases3)
  show ?thesis using lens_run_ids[OF e]
    by (auto simp: CorrectnessLens_def e correctness_review_def review_of_def ran_something_def list_ex_iff split: option.split)
qed

text \<open>
  Accusations need a call of the lens itself: the lens on cheating suspects a case only after a successful
  \<open>run\<close> of its own, the lens on omissions only for a rule of the table that is judged in words and not yet
  concluded, after a successful call of its own; a lens without a conclusion suspects nothing and says that it
  did not conclude.
\<close>

theorem case_lens_suspects:
  "case CheatingLens lw tiers say ctx v w of (n, usage, w') \<Rightarrow>
     (case runLensLoop lw tiers ''gian_lan'' ctx (AboutCase (fst (case_context ctx v)) (snd (case_context ctx v))) w of (r, s, w'') \<Rightarrow>
        (cn_suspected n \<longleftrightarrow> map_option cv_suspected (lr_conclusion r) = Some True \<and>
           (\<exists>t. t \<in> set (lr_calls r) \<and> tc_status t = CallOk \<and> tc_tool t = Run)) \<and>
        (cn_concluded n \<longleftrightarrow> lr_conclusion r \<noteq> None))"
  by (auto simp: CheatingLens_def cheating_note_def list_ex_iff split: prod.split option.split)

text \<open>The rules an omission verdict says are violated.\<close>

definition says_violated :: "omission_verdict \<Rightarrow> key \<Rightarrow> bool" where
  "says_violated c k \<longleftrightarrow> (k, Violated) \<in> set (ov_rules c) \<or> k \<in> set (ov_missed c)"

lemma missed_keys_iff: "missed_keys ks c \<noteq> [] \<longleftrightarrow> (\<exists>k. k \<in> set ks \<and> says_violated c k)"
  by (force simp: missed_keys_def says_violated_def filter_empty_conv)

lemma omission_note_fields:
  "cn_suspected (omission_note say ks r) \<longleftrightarrow>
     (\<exists>c. lr_conclusion r = Some c \<and> missed_keys ks c \<noteq> []) \<and> list_ex (\<lambda>t. tc_status t = CallOk) (lr_calls r)"
  "cn_concluded (omission_note say ks r) \<longleftrightarrow> lr_conclusion r \<noteq> None"
  by (auto simp: omission_note_def Let_def split: option.split)

lemma open_rule_keys:
  "(\<exists>k. k \<in> set (map rn_ruleKey (open_rules ctx v)) \<and> P k) \<longleftrightarrow>
     (\<exists>e. e \<in> set (ic_rules ctx) \<and> rn_checkedBy e = ByModel \<and> rn_ruleKey e \<notin> ve_ruleKey ` set (v_errors v) \<and> P (rn_ruleKey e))"
  by (auto simp: open_rules_def)

text \<open>
  The lens on omissions suspects a case exactly when its run concluded that some rule of the table, judged
  in words and not among the errors already found, is violated, and one of its own calls succeeded; with no
  such rule left it does not ask the model at all.
\<close>

theorem omission_lens_suspects:
  "case OmissionLens lw tiers say ctx v w of (n, usage, w') \<Rightarrow>
     if open_rules ctx v = [] then \<not> cn_suspected n \<and> cn_concluded n \<and> w' = w
     else (case runLensLoop lw tiers ''bo_sot'' ctx
         (AboutOmissions (fst (case_context ctx v)) (snd (case_context ctx v))
            (map (\<lambda>r. (rn_ruleKey r, rn_title r, rn_description r)) (open_rules ctx v))) w of (r, s, w'') \<Rightarrow>
       (cn_suspected n \<longleftrightarrow> (\<exists>c e. lr_conclusion r = Some c \<and> e \<in> set (ic_rules ctx) \<and> rn_checkedBy e = ByModel \<and>
           rn_ruleKey e \<notin> ve_ruleKey ` set (v_errors v) \<and> says_violated c (rn_ruleKey e)) \<and>
         (\<exists>t. t \<in> set (lr_calls r) \<and> tc_status t = CallOk)) \<and>
       (cn_concluded n \<longleftrightarrow> lr_conclusion r \<noteq> None))"
proof (cases "open_rules ctx v = []")
  case False
  obtain r s w1 where e: "runLensLoop lw tiers ''bo_sot'' ctx
      (AboutOmissions (fst (case_context ctx v)) (snd (case_context ctx v))
        (map (\<lambda>r. (rn_ruleKey r, rn_title r, rn_description r)) (open_rules ctx v))) w = (r, s, w1)" by (rule prod_cases3)
  have sus: "cn_suspected (omission_note say (map rn_ruleKey (open_rules ctx v)) r) \<longleftrightarrow>
      (\<exists>c e. lr_conclusion r = Some c \<and> e \<in> set (ic_rules ctx) \<and> rn_checkedBy e = ByModel \<and>
         rn_ruleKey e \<notin> ve_ruleKey ` set (v_errors v) \<and> says_violated c (rn_ruleKey e)) \<and>
      (\<exists>t. t \<in> set (lr_calls r) \<and> tc_status t = CallOk)"
    unfolding omission_note_fields missed_keys_iff open_rule_keys list_ex_iff by blast
  have "OmissionLens lw tiers say ctx v w = (omission_note say (map rn_ruleKey (open_rules ctx v)) r, le_usage s, w1)"
    unfolding OmissionLens_def Let_def e if_not_P[OF False] prod.case ..
  then show ?thesis unfolding e by (simp only: prod.case if_not_P[OF False] sus omission_note_fields(2))
qed (simp add: OmissionLens_def)

end
