(* ===== verification/Challenge_Spec.thy ===== *)
theory Challenge_Spec
  imports Challenge Decision_Spec
begin

text \<open>
  What a challenge can do to a decision: each error gets the answer of its own review, only an answer
  \<open>refuted\<close> of a lens takes an error out of the score, and a challenge that breaks changes no score.
\<close>

section \<open>One challenger\<close>

lemma conclude_error_status:
  "eco_ruleKey (conclude_error se k r) = k"
  "eco_status (conclude_error se k r) = Refuted \<longleftrightarrow> (\<exists>x. r = Inr x \<and> rv_refuted x)"
  "eco_status (conclude_error se k r) = Unverified \<longleftrightarrow> (\<exists>e. r = Inl e)"
  by (auto simp: conclude_error_def split: sum.split)

text \<open>
  A challenger gives every error of the verdict its own conclusion, in order: \<open>refuted\<close> exactly when its
  review of that error said so, \<open>unverified\<close> exactly when the review failed.
\<close>

theorem challenge_per_error:
  "list_all2 (\<lambda>(n, e) c. eco_ruleKey c = ve_ruleKey e \<and>
       (eco_status c = Refuted \<longleftrightarrow> (\<exists>x. cg_review ch n (challenge_input_of ctx calls e) = Inr x \<and> rv_refuted x)) \<and>
       (eco_status c = Unverified \<longleftrightarrow> (\<exists>x. cg_review ch n (challenge_input_of ctx calls e) = Inl x)))
     (enumerate 0 (v_errors v)) (chc_perError (challenge se v ctx calls ch))"
  by (auto simp: challenge_def list_all2_conv_all_nth conclude_error_status split: prod.split)

section \<open>The phase in the decision\<close>

lemma conclusion_origin:
  assumes "x \<in> set (chc_perError (challenge se v ctx calls c))"
  obtains n e where "e \<in> set (v_errors v)" "x = conclude_error se (ve_ruleKey e) (cg_review c n (challenge_input_of ctx calls e))"
  using assms by (auto simp: challenge_def enumerate_eq_zip dest: set_zip_rightD)

lemma merged_refuted:
  assumes "mergedStatusOf k cs = Some Refuted"
  shows "\<exists>c x. c \<in> set cs \<and> x \<in> set (chc_perError c) \<and> eco_ruleKey x = k \<and> eco_status x = Refuted"
proof -
  have "Refuted \<in> set (concat (map (\<lambda>c. map eco_status (filter (\<lambda>e. eco_ruleKey e = k) (chc_perError c))) cs))"
    using assms unfolding mergedStatusOf_def Let_def by (rule contrapos_pp) (simp split: if_split)
  then obtain c x where "c \<in> set cs" "x \<in> set (chc_perError c)" "eco_ruleKey x = k" "eco_status x = Refuted" by auto
  then show ?thesis by blast
qed

lemma refuted_origin:
  assumes k: "k \<in> set (challenged_keys Refuted (runChallengePhase se say result ctx challengers lenses) errors)"
  obtains v e c n x where "ir_verdict result = Some v" "e \<in> set (v_errors v)" "ve_ruleKey e = k" "k \<notin> set (machine_keys ctx)"
    "c \<in> set challengers" "cg_review c n (challenge_input_of ctx (inv_toolCalls (ir_investigation result)) e) = Inr x" "rv_refuted x"
proof -
  obtain v where v: "ir_verdict result = Some v" "challengers \<noteq> []"
    using k by (auto simp: challenged_keys_def runChallengePhase_def split: option.splits if_splits)
  let ?calls = "inv_toolCalls (ir_investigation result)"
  have "mergedStatusOf k (map (challenge se (challengeable ctx v) ctx ?calls) challengers) = Some Refuted"
    using k v by (auto simp: challenged_keys_def runChallengePhase_def)
  from merged_refuted[OF this]
  obtain c x where c: "c \<in> set challengers" and x: "x \<in> set (chc_perError (challenge se (challengeable ctx v) ctx ?calls c))"
    and r: "eco_ruleKey x = k" "eco_status x = Refuted" by auto
  from x obtain n e where e: "e \<in> set (v_errors (challengeable ctx v))"
    "x = conclude_error se (ve_ruleKey e) (cg_review c n (challenge_input_of ctx ?calls e))" by (rule conclusion_origin)
  with r obtain y where y: "ve_ruleKey e = k" "cg_review c n (challenge_input_of ctx ?calls e) = Inr y" "rv_refuted y"
    by (auto simp: conclude_error_status)
  have "e \<in> set (v_errors v)" "ve_ruleKey e \<notin> set (machine_keys ctx)" using e(1) by (auto simp: challengeable_def)
  with v(1) c y show thesis by (intro that) auto
qed

text \<open>
  C6. An error leaves the score only when some lens, asked about that very error of the verdict, answered
  \<open>refuted\<close>, and only if no rule of that key is checked by the machine.
\<close>

theorem refuted_needs_review:
  "set (challenged_keys Refuted (runChallengePhase se say result ctx challengers lenses) errors) \<subseteq>
     {k. k \<notin> set (machine_keys ctx) \<and>
       (\<exists>v e c n x. ir_verdict result = Some v \<and> e \<in> set (v_errors v) \<and> ve_ruleKey e = k \<and> c \<in> set challengers \<and>
          cg_review c n (challenge_input_of ctx (inv_toolCalls (ir_investigation result)) e) = Inr x \<and> rv_refuted x)}"
proof
  fix k assume "k \<in> set (challenged_keys Refuted (runChallengePhase se say result ctx challengers lenses) errors)"
  then show "k \<in> {k. k \<notin> set (machine_keys ctx) \<and>
       (\<exists>v e c n x. ir_verdict result = Some v \<and> e \<in> set (v_errors v) \<and> ve_ruleKey e = k \<and> c \<in> set challengers \<and>
          cg_review c n (challenge_input_of ctx (inv_toolCalls (ir_investigation result)) e) = Inr x \<and> rv_refuted x)}"
    by (rule refuted_origin) blast
qed

section \<open>A challenge that breaks\<close>

definition all_break :: "challenger list \<Rightarrow> bool" where
  "all_break challengers \<longleftrightarrow> (\<forall>c n q. c \<in> set challengers \<longrightarrow> (\<exists>e. cg_review c n q = Inl e))"

lemma broken_refutes_nothing:
  assumes "all_break challengers"
  shows "challenged_keys Refuted (runChallengePhase se say result ctx challengers lenses) errors = []"
proof (rule ccontr)
  assume "\<not> ?thesis"
  then obtain k where "k \<in> set (challenged_keys Refuted (runChallengePhase se say result ctx challengers lenses) errors)"
    by (meson hd_in_set)
  then show False by (rule refuted_origin) (use assms in \<open>metis all_break_def Inr_Inl_False\<close>)
qed

text \<open>
  C7. A challenge in which every review fails (no model answers, no reply can be read) leaves the score of a
  decision what it is without a challenge.
\<close>

theorem broken_challenge_keeps_score:
  assumes "input_ok i" and "all_break challengers"
  shows "\<exists>d d0. decide (i\<lparr>di_challenge := runChallengePhase se say (di_result i) ctx challengers lenses\<rparr>) = Inr d \<and>
     decide (i\<lparr>di_challenge := None\<rparr>) = Inr d0 \<and> dc_score d = dc_score d0"
proof -
  let ?i = "i\<lparr>di_challenge := runChallengePhase se say (di_result i) ctx challengers lenses\<rparr>"
  let ?without = "i\<lparr>di_challenge := None\<rparr>"
  have ok: "input_ok ?i" "input_ok ?without" using assms(1) by simp_all
  have fl: "floors_passed ?i \<longleftrightarrow> floors_passed ?without" by (simp add: floors_passed_def)
  obtain d d0 where d: "decide ?i = Inr d" "decide ?without = Inr d0" using decide_total[OF ok(1)] decide_total[OF ok(2)] by blast
  have ck: "counted_keys ?i = counted_keys ?without"
    using broken_refutes_nothing[OF assms(2), of se say "di_result i" ctx lenses]
    by (simp add: counted_keys_def challenged_keys_def[of _ None])
  have "dc_score d = dc_score d0"
  proof (cases "floors_passed ?without")
    case True
    with decide_above_floor(1)[OF ok(1) _ d(1)] decide_above_floor(1)[OF ok(2) _ d(2)] fl ck show ?thesis by simp
  next
    case False
    with decide_below_floor[OF ok(1)] decide_below_floor[OF ok(2)] fl d show ?thesis
      by (auto simp: ungradable_decision_def)
  qed
  with d show ?thesis by blast
qed

definition broken_challenger :: challenger where
  "broken_challenger = \<lparr>cg_name = ''tinh_dung'', cg_review = (\<lambda>n q. Inl (LensInconclusive None))\<rparr>"

theorem broken_challenge_keeps_score_witness:
  "\<exists>d d0. decide ((sample_input [sample_claim] None)\<lparr>di_challenge :=
       runChallengePhase (\<lambda>_. []) (\<lambda>_. []) (di_result (sample_input [sample_claim] None)) sample_ctx [broken_challenger] []\<rparr>) = Inr d \<and>
     decide ((sample_input [sample_claim] None)\<lparr>di_challenge := None\<rparr>) = Inr d0 \<and> dc_score d = dc_score d0"
  by (rule broken_challenge_keeps_score[OF sample_input_ok]) (simp add: all_break_def broken_challenger_def)

end
