(* ===== verification/ReviewGroups.thy ===== *)
theory ReviewGroups
  imports Prelude "HOL-Library.AList"
begin

text \<open>
  Results grouped by error for a quick review: \<open>grading/review-group/review-group.ts\<close> with the types of
  \<open>review-group.types.ts\<close>, and the conditions under which one result of a group is confirmed,
  \<open>review-group-confirm.ts\<close>. A JavaScript \<open>Map\<close> that is iterated is an association list in insertion
  order, a \<open>Set\<close> is a list without repetitions. The labels of the groups are not modelled: \<open>groupResults\<close>
  fills the rule id in, or one of two constant texts.
\<close>

section \<open>Grouping\<close>

datatype review_group_kind = GroupSingle | GroupMulti | GroupNone

record group_input =
  gi_resultId :: key
  gi_rubricVersionId :: key
  gi_errors :: "(key \<times> string) list"

record review_group =
  rg_key :: key
  rg_sources :: "string list"
  rg_kind :: review_group_kind
  rg_ruleId :: "key option"
  rg_resultIds :: "key list"
  rg_sampleResultIds :: "key list"

definition REVIEW_GROUP_SAMPLE_SIZE :: nat where
  "REVIEW_GROUP_SAMPLE_SIZE = 3"

record bucket =
  bk_resultIds :: "key list"
  bk_sources :: "string list"

record single_bucket = bucket +
  bk_rubricVersionId :: key
  bk_ruleId :: key

definition toGroup :: "review_group_kind \<Rightarrow> key \<Rightarrow> key option \<Rightarrow> 'a bucket_scheme \<Rightarrow> review_group" where
  "toGroup kind k ruleId b =
     (let ids = js_sort str_le (bk_resultIds b) in
      \<lparr>rg_key = k, rg_sources = js_sort str_le (bk_sources b), rg_kind = kind, rg_ruleId = ruleId,
       rg_resultIds = ids, rg_sampleResultIds = take REVIEW_GROUP_SAMPLE_SIZE ids\<rparr>)"

definition singleGroupKey :: "key \<Rightarrow> key \<Rightarrow> key" where
  "singleGroupKey version rule = version @ '':'' @ rule"

definition add_to_bucket :: "group_input \<Rightarrow> 'a bucket_scheme \<Rightarrow> 'a bucket_scheme" where
  "add_to_bucket row b =
     b\<lparr>bk_resultIds := set_add (gi_resultId row) (bk_resultIds b),
       bk_sources := fold (\<lambda>e. set_add (snd e)) (gi_errors row) (bk_sources b)\<rparr>"

record grouping =
  gp_single :: "(key \<times> single_bucket) list"
  gp_multi :: bucket
  gp_none :: bucket

definition empty_grouping :: grouping where
  "empty_grouping = \<lparr>gp_single = [], gp_multi = \<lparr>bk_resultIds = [], bk_sources = []\<rparr>,
                     gp_none = \<lparr>bk_resultIds = [], bk_sources = []\<rparr>\<rparr>"

definition group_row :: "group_input \<Rightarrow> grouping \<Rightarrow> grouping" where
  "group_row row g =
     (case uniq (map fst (gi_errors row)) of
        [] \<Rightarrow> g\<lparr>gp_none := add_to_bucket row (gp_none g)\<rparr>
      | [ruleId] \<Rightarrow>
          (let k = singleGroupKey (gi_rubricVersionId row) ruleId;
               b = (case map_of (gp_single g) k of
                      Some b \<Rightarrow> b
                    | None \<Rightarrow> \<lparr>bk_resultIds = [], bk_sources = [], bk_rubricVersionId = gi_rubricVersionId row,
                               bk_ruleId = ruleId\<rparr>)
           in g\<lparr>gp_single := AList.update k (add_to_bucket row b) (gp_single g)\<rparr>)
      | _ \<Rightarrow> g\<lparr>gp_multi := add_to_bucket row (gp_multi g)\<rparr>)"

text \<open>The comparator of the single groups: by rule, then by version of the rubric.\<close>

definition single_le :: "key \<times> single_bucket \<Rightarrow> key \<times> single_bucket \<Rightarrow> bool" where
  "single_le a b =
     (if bk_ruleId (snd a) = bk_ruleId (snd b) then str_le (bk_rubricVersionId (snd a)) (bk_rubricVersionId (snd b))
      else str_le (bk_ruleId (snd a)) (bk_ruleId (snd b)))"

definition groupResults :: "group_input list \<Rightarrow> review_group list" where
  "groupResults rows =
     (let g = fold group_row rows empty_grouping in
      map (\<lambda>(k, b). toGroup GroupSingle k (Some (bk_ruleId b)) b) (js_sort single_le (gp_single g)) @
      (if bk_resultIds (gp_multi g) = [] then [] else [toGroup GroupMulti ''multi'' None (gp_multi g)]) @
      (if bk_resultIds (gp_none g) = [] then [] else [toGroup GroupNone ''none'' None (gp_none g)]))"

section \<open>Confirming one result of a group\<close>

datatype confirm_skip = NotFlagged | HasManual | UngradableResult | NoComputation | NotInvestigator

datatype confirm_verdict = ConfirmComputation nat | SkipResult confirm_skip | OtherGroup

record 's confirm_candidate =
  cc_flagged :: bool
  cc_investigator :: bool
  cc_ungradable :: bool
  cc_hasManualScore :: bool
  cc_latestComputation :: "(nat \<times> 's option) option"
  cc_inGroup :: bool

definition confirmVerdict :: "'s confirm_candidate \<Rightarrow> confirm_verdict" where
  "confirmVerdict c =
     (if \<not> cc_flagged c then SkipResult NotFlagged
      else if \<not> cc_investigator c then SkipResult NotInvestigator
      else if cc_hasManualScore c then SkipResult HasManual
      else if cc_ungradable c then SkipResult UngradableResult
      else case cc_latestComputation c of
          None \<Rightarrow> SkipResult NoComputation
        | Some (i, score) \<Rightarrow>
            if score = None then SkipResult UngradableResult
            else if \<not> cc_inGroup c then OtherGroup
            else ConfirmComputation i)"

lemma confirmVerdict_confirm_iff [simp]:
  "confirmVerdict c = ConfirmComputation i \<longleftrightarrow>
     cc_flagged c \<and> cc_investigator c \<and> \<not> cc_ungradable c \<and> \<not> cc_hasManualScore c \<and> cc_inGroup c \<and>
     (\<exists>s. cc_latestComputation c = Some (i, Some s))"
  by (auto simp: confirmVerdict_def split: option.splits if_splits)

section \<open>What a grouping holds\<close>

text \<open>The class of a row, and the bucket that an order-free description assigns to a class.\<close>

datatype row_class = ClassNone | ClassSingle key key | ClassMulti

definition class_of_row :: "group_input \<Rightarrow> row_class" where
  "class_of_row row =
     (case uniq (map fst (gi_errors row)) of
        [] \<Rightarrow> ClassNone | [r] \<Rightarrow> ClassSingle (gi_rubricVersionId row) r | _ \<Rightarrow> ClassMulti)"

definition ids_of_class :: "group_input list \<Rightarrow> row_class \<Rightarrow> key set" where
  "ids_of_class rows c = {gi_resultId r |r. r \<in> set rows \<and> class_of_row r = c}"

definition sources_of_class :: "group_input list \<Rightarrow> row_class \<Rightarrow> string set" where
  "sources_of_class rows c = {s. \<exists>r \<in> set rows. class_of_row r = c \<and> s \<in> snd ` set (gi_errors r)}"

text \<open>\<open>b\<close> holds exactly the rows of a class.\<close>

definition bucket_holds :: "group_input list \<Rightarrow> row_class \<Rightarrow> 'a bucket_scheme \<Rightarrow> bool" where
  "bucket_holds rows c b \<longleftrightarrow> distinct (bk_resultIds b) \<and> distinct (bk_sources b) \<and>
     set (bk_resultIds b) = ids_of_class rows c \<and> set (bk_sources b) = sources_of_class rows c"

definition versions_plain :: "group_input list \<Rightarrow> bool" where
  "versions_plain rows \<longleftrightarrow> list_all (\<lambda>r. CHR '':'' \<notin> set (gi_rubricVersionId r)) rows"

lemma singleGroupKey_inject:
  assumes "CHR '':'' \<notin> set v" and "CHR '':'' \<notin> set v'"
  shows "singleGroupKey v r = singleGroupKey v' r' \<longleftrightarrow> v = v' \<and> r = r'"
proof -
  have t: "takeWhile (\<lambda>c. c \<noteq> CHR '':'') (v @ CHR '':'' # r) = v" if "CHR '':'' \<notin> set v" for v r
    using that by (simp add: takeWhile_append2 takeWhile_tail) (metis takeWhile_append2 takeWhile.simps(2) append_Nil2)
  show ?thesis
    using t[OF assms(1), of r] t[OF assms(2), of r'] by (auto simp: singleGroupKey_def)
qed

lemma set_fold_set_add [simp]: "set (fold (\<lambda>e. set_add (f e)) xs a) = f ` set xs \<union> set a"
  by (induction xs arbitrary: a) auto

lemma distinct_fold_set_add [simp]: "distinct a \<Longrightarrow> distinct (fold (\<lambda>e. set_add (f e)) xs a)"
  by (induction xs arbitrary: a) auto

lemma ids_of_class_snoc:
  "ids_of_class (rows @ [r]) c = ids_of_class rows c \<union> (if class_of_row r = c then {gi_resultId r} else {})"
  by (auto simp: ids_of_class_def)

lemma sources_of_class_snoc:
  "sources_of_class (rows @ [r]) c =
     sources_of_class rows c \<union> (if class_of_row r = c then snd ` set (gi_errors r) else {})"
  by (auto simp: sources_of_class_def)

lemma bucket_holds_add:
  "bucket_holds rows (class_of_row r) b \<Longrightarrow> bucket_holds (rows @ [r]) (class_of_row r) (add_to_bucket r b)"
  by (auto simp: bucket_holds_def add_to_bucket_def ids_of_class_snoc sources_of_class_snoc)

lemma bucket_holds_other:
  "bucket_holds rows c b \<Longrightarrow> class_of_row r \<noteq> c \<Longrightarrow> bucket_holds (rows @ [r]) c b"
  by (auto simp: bucket_holds_def ids_of_class_snoc sources_of_class_snoc)

text \<open>The invariant of the loop of \<open>groupResults\<close>.\<close>

definition grouping_ok :: "group_input list \<Rightarrow> grouping \<Rightarrow> bool" where
  "grouping_ok rows g \<longleftrightarrow>
     bucket_holds rows ClassMulti (gp_multi g) \<and> bucket_holds rows ClassNone (gp_none g) \<and>
     distinct (map fst (gp_single g)) \<and>
     (\<forall>(k, b) \<in> set (gp_single g). k = singleGroupKey (bk_rubricVersionId b) (bk_ruleId b) \<and>
        CHR '':'' \<notin> set (bk_rubricVersionId b) \<and> bk_resultIds b \<noteq> [] \<and>
        bucket_holds rows (ClassSingle (bk_rubricVersionId b) (bk_ruleId b)) b) \<and>
     (\<forall>r v. ids_of_class rows (ClassSingle v r) \<noteq> {} \<longrightarrow> singleGroupKey v r \<in> fst ` set (gp_single g))"

lemma grouping_ok_empty: "grouping_ok [] empty_grouping"
  by (simp add: grouping_ok_def empty_grouping_def bucket_holds_def ids_of_class_def sources_of_class_def)

lemma set_update_iff:
  "distinct (map fst al) \<Longrightarrow>
     (k', b') \<in> set (AList.update k b al) \<longleftrightarrow> (if k' = k then b' = b else (k', b') \<in> set al)"
  by (metis distinct_update fun_upd_apply map_of_eq_Some_iff map_of_update option.inject)

lemma class_of_row_SingleD:
  "class_of_row row = ClassSingle v r \<Longrightarrow> v = gi_rubricVersionId row \<and> uniq (map fst (gi_errors row)) = [r]"
  unfolding class_of_row_def by (simp split: list.splits)

lemma class_of_row_single:
  "uniq (map fst (gi_errors row)) = [r] \<Longrightarrow> class_of_row row = ClassSingle (gi_rubricVersionId row) r"
  by (simp add: class_of_row_def)

lemma grouping_ok_single:
  assumes g: "grouping_ok rows g" and c: "class_of_row row = ClassSingle v r" and v: "CHR '':'' \<notin> set v"
    and b: "case map_of (gp_single g) (singleGroupKey v r) of
              Some b' \<Rightarrow> b = b'
            | None \<Rightarrow> b = \<lparr>bk_resultIds = [], bk_sources = [], bk_rubricVersionId = v, bk_ruleId = r\<rparr>"
  shows "grouping_ok (rows @ [row])
           (g\<lparr>gp_single := AList.update (singleGroupKey v r) (add_to_bucket row b) (gp_single g)\<rparr>)"
proof -
  let ?k = "singleGroupKey v r" and ?b = "add_to_bucket row b"
  have d: "distinct (map fst (gp_single g))" using g by (simp add: grouping_ok_def)
  have all: "k = singleGroupKey (bk_rubricVersionId b) (bk_ruleId b) \<and> CHR '':'' \<notin> set (bk_rubricVersionId b) \<and>
      bk_resultIds b \<noteq> [] \<and> bucket_holds rows (ClassSingle (bk_rubricVersionId b) (bk_ruleId b)) b"
    if "(k, b) \<in> set (gp_single g)" for k b using g that by (fastforce simp: grouping_ok_def)
  have old: "bk_rubricVersionId b = v \<and> bk_ruleId b = r \<and> bucket_holds rows (ClassSingle v r) b"
  proof (cases "map_of (gp_single g) ?k")
    case None
    then have "?k \<notin> fst ` set (gp_single g)" by (simp add: map_of_eq_None_iff)
    then have "ids_of_class rows (ClassSingle v r) = {}" using g unfolding grouping_ok_def by blast
    then show ?thesis using b None
      by (auto simp: bucket_holds_def ids_of_class_def sources_of_class_def)
  next
    case (Some b')
    then have "(?k, b') \<in> set (gp_single g)" by (rule map_of_SomeD)
    from all[OF this] show ?thesis using b Some v by (auto simp: singleGroupKey_inject)
  qed
  have new: "bucket_holds (rows @ [row]) (ClassSingle v r) ?b"
    using bucket_holds_add[of rows row b] old c by simp
  have fields: "bk_rubricVersionId ?b = v" "bk_ruleId ?b = r" "bk_resultIds ?b \<noteq> []"
    using old by (auto simp: add_to_bucket_def set_add_def)
  have keep: "bucket_holds (rows @ [row]) (ClassSingle (bk_rubricVersionId b') (bk_ruleId b')) b'"
    if "(k', b') \<in> set (gp_single g)" "k' \<noteq> ?k" for k' b'
    using all[OF that(1)] that(2) c by (intro bucket_holds_other) auto
  have "\<forall>(k', b') \<in> set (AList.update ?k ?b (gp_single g)).
      k' = singleGroupKey (bk_rubricVersionId b') (bk_ruleId b') \<and> CHR '':'' \<notin> set (bk_rubricVersionId b') \<and>
      bk_resultIds b' \<noteq> [] \<and> bucket_holds (rows @ [row]) (ClassSingle (bk_rubricVersionId b') (bk_ruleId b')) b'"
    using all keep new fields v by (auto simp: set_update_iff[OF d] split: if_splits)
  moreover have "\<forall>r' v'. ids_of_class (rows @ [row]) (ClassSingle v' r') \<noteq> {} \<longrightarrow>
      singleGroupKey v' r' \<in> fst ` set (AList.update ?k ?b (gp_single g))"
    using g c by (auto simp: set_fst_update ids_of_class_snoc grouping_ok_def split: if_splits)
  ultimately show ?thesis using g c d
    by (simp add: grouping_ok_def distinct_update bucket_holds_other)
qed

lemma grouping_ok_row:
  assumes "grouping_ok rows g" and "CHR '':'' \<notin> set (gi_rubricVersionId row)"
  shows "grouping_ok (rows @ [row]) (group_row row g)"
proof -
  consider (none) "uniq (map fst (gi_errors row)) = []" | (single) r where "uniq (map fst (gi_errors row)) = [r]"
    | (multi) r r' rs where "uniq (map fst (gi_errors row)) = r # r' # rs"
    by (metis list.exhaust)
  then show ?thesis
  proof cases
    case none
    then have c: "class_of_row row = ClassNone" by (simp add: class_of_row_def)
    have "bucket_holds (rows @ [row]) ClassNone (add_to_bucket row (gp_none g))"
      using bucket_holds_add[of rows row "gp_none g"] assms(1) c by (simp add: grouping_ok_def)
    then show ?thesis using assms(1) c none
      by (auto simp: grouping_ok_def group_row_def bucket_holds_other ids_of_class_snoc)
  next
    case single
    show ?thesis
      using grouping_ok_single[OF assms(1) class_of_row_single[OF single] assms(2)] single
      by (simp add: group_row_def Let_def split: option.split)
  next
    case multi
    then have c: "class_of_row row = ClassMulti" by (simp add: class_of_row_def)
    have "bucket_holds (rows @ [row]) ClassMulti (add_to_bucket row (gp_multi g))"
      using bucket_holds_add[of rows row "gp_multi g"] assms(1) c by (simp add: grouping_ok_def)
    then show ?thesis using assms(1) c multi
      by (auto simp: grouping_ok_def group_row_def bucket_holds_other ids_of_class_snoc)
  qed
qed

lemma grouping_ok_fold: "versions_plain rows \<Longrightarrow> grouping_ok rows (fold group_row rows empty_grouping)"
proof (induction rows rule: rev_induct)
  case Nil
  then show ?case by (simp add: grouping_ok_empty)
next
  case (snoc row rows)
  then show ?case using grouping_ok_row[of rows "fold group_row rows empty_grouping" row]
    by (simp add: versions_plain_def)
qed

lemma js_sort_Nil_iff: "js_sort le xs = [] \<longleftrightarrow> xs = []"
  by (metis length_0_conv length_js_sort)

lemma map_js_insert: "map f (js_insert (\<lambda>x y. le (f x) (f y)) x xs) = js_insert le (f x) (map f xs)"
  by (induction xs) auto

lemma map_js_sort: "map f (js_sort (\<lambda>x y. le (f x) (f y)) xs) = js_sort le (map f xs)"
  by (induction xs) (auto simp: map_js_insert)

lemma js_sort_set_cong:
  "total_preorder le \<Longrightarrow> antisymp_on (set xs) le \<Longrightarrow> distinct xs \<Longrightarrow> distinct ys \<Longrightarrow> set xs = set ys \<Longrightarrow>
   js_sort le xs = js_sort le ys"
  by (rule sorted_wrt_unique[where le = le]) (simp_all add: sorted_js_sort)

lemma toGroup_cong:
  assumes "bucket_holds rows c b" and "bucket_holds rows' c b'"
    and "ids_of_class rows c = ids_of_class rows' c" and "sources_of_class rows c = sources_of_class rows' c"
  shows "toGroup kind k rule b = toGroup kind k rule b'"
proof -
  have "js_sort str_le (bk_resultIds b) = js_sort str_le (bk_resultIds b')"
    "js_sort str_le (bk_sources b) = js_sort str_le (bk_sources b')"
    using assms by (auto intro!: js_sort_set_cong simp: bucket_holds_def)
  then show ?thesis by (simp add: toGroup_def)
qed

definition pair_le :: "key \<times> key \<Rightarrow> key \<times> key \<Rightarrow> bool" where
  "pair_le a b = (if snd a = snd b then str_le (fst a) (fst b) else str_le (snd a) (snd b))"

lemma total_preorder_pair_le [simp]: "total_preorder pair_le"
  unfolding total_preorder_def pair_le_def
  using str_le_total str_le_trans str_le_antisym by (auto split: if_splits; metis)

lemma antisymp_on_pair_le [simp]: "antisymp_on A pair_le"
  using str_le_antisym by (auto simp: antisymp_on_def pair_le_def split: if_splits)

definition bucket_pair :: "key \<times> single_bucket \<Rightarrow> key \<times> key" where
  "bucket_pair x = (bk_rubricVersionId (snd x), bk_ruleId (snd x))"

lemma single_le_pair: "single_le = (\<lambda>x y. pair_le (bucket_pair x) (bucket_pair y))"
  by (auto simp: fun_eq_iff single_le_def pair_le_def bucket_pair_def)

text \<open>The group of one rule within one version of the rubric, described without the loop.\<close>

definition single_group :: "group_input list \<Rightarrow> key \<times> key \<Rightarrow> review_group" where
  "single_group rows p = toGroup GroupSingle (singleGroupKey (fst p) (snd p)) (Some (snd p))
     (SOME b :: bucket. bucket_holds rows (ClassSingle (fst p) (snd p)) b)"

lemma grouping_okD:
  assumes "grouping_ok rows g" and "(k, b) \<in> set (gp_single g)"
  shows "k = singleGroupKey (bk_rubricVersionId b) (bk_ruleId b)" "CHR '':'' \<notin> set (bk_rubricVersionId b)"
    "bk_resultIds b \<noteq> []" "bucket_holds rows (ClassSingle (bk_rubricVersionId b) (bk_ruleId b)) b"
  using assms by (auto simp: grouping_ok_def)

lemma toGroup_single:
  assumes "grouping_ok rows g" and m: "(k, b) \<in> set (gp_single g)"
  shows "toGroup GroupSingle k (Some (bk_ruleId b)) b = single_group rows (bucket_pair (k, b))"
proof -
  note okb = grouping_okD[OF assms]
  let ?c = "ClassSingle (bk_rubricVersionId b) (bk_ruleId b)"
  have "bucket_holds rows ?c \<lparr>bk_resultIds = bk_resultIds b, bk_sources = bk_sources b\<rparr>"
    using okb(4) by (simp add: bucket_holds_def)
  then have "bucket_holds rows ?c (SOME b :: bucket. bucket_holds rows ?c b)" by (rule someI)
  from toGroup_cong[OF okb(4) this refl refl] okb(1) show ?thesis
    by (simp add: single_group_def bucket_pair_def)
qed

definition single_pairs :: "group_input list \<Rightarrow> (key \<times> key) set" where
  "single_pairs rows = {(v, r). ids_of_class rows (ClassSingle v r) \<noteq> {}}"

lemma grouping_pairs:
  assumes g: "grouping_ok rows g" and plain: "versions_plain rows"
  shows "set (map bucket_pair (gp_single g)) = single_pairs rows" and "distinct (map bucket_pair (gp_single g))"
proof -
  have fwd: "bucket_pair (k, b) \<in> single_pairs rows" if "(k, b) \<in> set (gp_single g)" for k b
  proof -
    have "ids_of_class rows (ClassSingle (bk_rubricVersionId b) (bk_ruleId b)) = set (bk_resultIds b)"
      using grouping_okD(4)[OF g that] by (simp add: bucket_holds_def)
    with grouping_okD(3)[OF g that] show ?thesis by (simp add: single_pairs_def bucket_pair_def)
  qed
  have bwd: "(v, r) \<in> bucket_pair ` set (gp_single g)" if "ids_of_class rows (ClassSingle v r) \<noteq> {}"
    "CHR '':'' \<notin> set v" for v r
  proof -
    from that(1) g have "singleGroupKey v r \<in> fst ` set (gp_single g)" by (auto simp: grouping_ok_def)
    then obtain b where m: "(singleGroupKey v r, b) \<in> set (gp_single g)" by auto
    from grouping_okD(1,2)[OF g m] that(2) show ?thesis
      using m by (force simp: singleGroupKey_inject bucket_pair_def)
  qed
  have colon: "CHR '':'' \<notin> set v" if "ids_of_class rows (ClassSingle v r) \<noteq> {}" for v r
    using that plain by (auto simp: ids_of_class_def versions_plain_def list_all_iff dest: class_of_row_SingleD)
  show "set (map bucket_pair (gp_single g)) = single_pairs rows"
  proof (intro equalityI subsetI)
    fix x assume "x \<in> set (map bucket_pair (gp_single g))"
    then obtain k b where "(k, b) \<in> set (gp_single g)" "x = bucket_pair (k, b)" by auto
    with fwd show "x \<in> single_pairs rows" by simp
  next
    fix x assume "x \<in> single_pairs rows"
    then obtain v r where "x = (v, r)" "ids_of_class rows (ClassSingle v r) \<noteq> {}" by (auto simp: single_pairs_def)
    with bwd[OF _ colon] show "x \<in> set (map bucket_pair (gp_single g))" by simp
  qed
  show "distinct (map bucket_pair (gp_single g))"
  proof -
    have "inj_on bucket_pair (set (gp_single g))"
    proof (rule inj_onI)
      fix x y assume m: "x \<in> set (gp_single g)" "y \<in> set (gp_single g)" and e: "bucket_pair x = bucket_pair y"
      then have "fst x = fst y"
        using grouping_okD(1)[OF g, of "fst x" "snd x"] grouping_okD(1)[OF g, of "fst y" "snd y"]
        by (auto simp: bucket_pair_def)
      moreover have "distinct (map fst (gp_single g))" using g by (simp add: grouping_ok_def)
      ultimately show "x = y" using m by (metis distinct_map inj_onD)
    qed
    moreover have "distinct (gp_single g)" using g by (auto simp: grouping_ok_def distinct_map)
    ultimately show ?thesis by (simp add: distinct_map)
  qed
qed

text \<open>The list with the one group of a class, or no group when the class is empty.\<close>

definition class_groups :: "group_input list \<Rightarrow> row_class \<Rightarrow> review_group_kind \<Rightarrow> key \<Rightarrow> review_group list" where
  "class_groups rows c kind k =
     (if ids_of_class rows c = {} then []
      else [toGroup kind k None (SOME b :: bucket. bucket_holds rows c b)])"

lemma class_groups_eq:
  fixes b :: bucket
  assumes h: "bucket_holds rows c b"
  shows "(if bk_resultIds b = [] then [] else [toGroup kind k None b]) = class_groups rows c kind k"
proof -
  have "bk_resultIds b = [] \<longleftrightarrow> ids_of_class rows c = {}" using h by (auto simp: bucket_holds_def)
  moreover have "toGroup kind k None b = toGroup kind k None (SOME b :: bucket. bucket_holds rows c b)"
    by (rule toGroup_cong[OF h someI[of "bucket_holds rows c", OF h] refl refl])
  ultimately show ?thesis by (simp add: class_groups_def)
qed

theorem groupResults_eq:
  assumes plain: "versions_plain rows"
  shows "\<exists>ps. groupResults rows = map (single_group rows) ps @ class_groups rows ClassMulti GroupMulti ''multi'' @
       class_groups rows ClassNone GroupNone ''none'' \<and>
     distinct ps \<and> set ps = single_pairs rows \<and> sorted_wrt pair_le ps"
proof -
  define g where "g = fold group_row rows empty_grouping"
  have g: "grouping_ok rows g" unfolding g_def by (rule grouping_ok_fold[OF plain])
  have "map (\<lambda>(k, b). toGroup GroupSingle k (Some (bk_ruleId b)) b) (js_sort single_le (gp_single g)) =
      map (\<lambda>x. single_group rows (bucket_pair x)) (js_sort single_le (gp_single g))"
    using toGroup_single[OF g] by (intro map_cong refl) auto
  also have "\<dots> = map (single_group rows) (map bucket_pair (js_sort single_le (gp_single g)))" by simp
  also have "map bucket_pair (js_sort single_le (gp_single g)) = js_sort pair_le (map bucket_pair (gp_single g))"
    by (simp add: single_le_pair map_js_sort)
  finally have single: "map (\<lambda>(k, b). toGroup GroupSingle k (Some (bk_ruleId b)) b) (js_sort single_le (gp_single g)) =
    map (single_group rows) (js_sort pair_le (map bucket_pair (gp_single g)))" .
  have b: "bucket_holds rows ClassMulti (gp_multi g)" "bucket_holds rows ClassNone (gp_none g)"
    using g by (simp_all add: grouping_ok_def)
  have "groupResults rows = map (single_group rows) (js_sort pair_le (map bucket_pair (gp_single g))) @
      class_groups rows ClassMulti GroupMulti ''multi'' @ class_groups rows ClassNone GroupNone ''none''"
    unfolding groupResults_def Let_def g_def[symmetric] single class_groups_eq[OF b(1)] class_groups_eq[OF b(2)] ..
  moreover have "distinct (js_sort pair_le (map bucket_pair (gp_single g)))"
    "set (js_sort pair_le (map bucket_pair (gp_single g))) = single_pairs rows"
    "sorted_wrt pair_le (js_sort pair_le (map bucket_pair (gp_single g)))"
    using grouping_pairs[OF g plain] by (simp_all add: sorted_js_sort del: set_map)
  ultimately show ?thesis by blast
qed

text \<open>
  C30. The groups do not depend on the order in which the database returns the rows, nor on repeated rows: what
  the teacher was shown and what a confirmation resolves again is the same list of groups.
\<close>

theorem groupResults_order_free:
  assumes plain: "versions_plain rows" and same: "set rows = set rows'"
  shows "groupResults rows = groupResults rows'"
proof -
  have plain': "versions_plain rows'" using plain same by (simp add: versions_plain_def list_all_iff)
  have ids: "ids_of_class rows = ids_of_class rows'" and srcs: "sources_of_class rows = sources_of_class rows'"
    using same by (auto simp: fun_eq_iff ids_of_class_def sources_of_class_def)
  have holds: "(bucket_holds rows c :: bucket \<Rightarrow> bool) = bucket_holds rows' c" for c
    by (simp add: fun_eq_iff bucket_holds_def ids srcs)
  have sg: "single_group rows = single_group rows'" by (simp add: fun_eq_iff single_group_def holds)
  have sp: "single_pairs rows = single_pairs rows'" by (simp add: single_pairs_def ids)
  have cg: "class_groups rows = class_groups rows'" by (simp add: fun_eq_iff class_groups_def ids holds)
  obtain ps where a: "groupResults rows = map (single_group rows') ps @ class_groups rows' ClassMulti GroupMulti ''multi'' @
      class_groups rows' ClassNone GroupNone ''none''" "distinct ps" "set ps = single_pairs rows'" "sorted_wrt pair_le ps"
    using groupResults_eq[OF plain] unfolding sg sp cg by blast
  obtain ps' where b: "groupResults rows' = map (single_group rows') ps' @
      class_groups rows' ClassMulti GroupMulti ''multi'' @ class_groups rows' ClassNone GroupNone ''none''"
    "distinct ps'" "set ps' = single_pairs rows'" "sorted_wrt pair_le ps'"
    using groupResults_eq[OF plain'] by blast
  have "ps = ps'" using a(2,3,4) b(2,3,4) by (intro sorted_wrt_unique[where le = pair_le]) auto
  then show ?thesis by (simp add: a(1) b(1))
qed

text \<open>The group of a class; the groups are those of the classes that have a row.\<close>

definition group_of :: "group_input list \<Rightarrow> row_class \<Rightarrow> review_group" where
  "group_of rows c =
     (case c of
        ClassSingle v r \<Rightarrow> single_group rows (v, r)
      | ClassMulti \<Rightarrow> toGroup GroupMulti ''multi'' None (SOME b :: bucket. bucket_holds rows ClassMulti b)
      | ClassNone \<Rightarrow> toGroup GroupNone ''none'' None (SOME b :: bucket. bucket_holds rows ClassNone b))"

lemma set_groups:
  assumes "versions_plain rows"
  shows "set (groupResults rows) = group_of rows ` {c. ids_of_class rows c \<noteq> {}}"
proof -
  obtain ps where e: "groupResults rows = map (single_group rows) ps @ class_groups rows ClassMulti GroupMulti ''multi'' @
      class_groups rows ClassNone GroupNone ''none''" "set ps = single_pairs rows"
    using groupResults_eq[OF assms] by blast
  have "{c. ids_of_class rows c \<noteq> {}} = (\<lambda>(v, r). ClassSingle v r) ` single_pairs rows \<union>
      (if ids_of_class rows ClassMulti = {} then {} else {ClassMulti}) \<union>
      (if ids_of_class rows ClassNone = {} then {} else {ClassNone})" (is "?A = ?B")
  proof (rule set_eqI)
    fix c show "c \<in> ?A \<longleftrightarrow> c \<in> ?B" by (cases c) (auto simp: single_pairs_def)
  qed
  moreover have "group_of rows ` (\<lambda>(v, r). ClassSingle v r) ` single_pairs rows = single_group rows ` single_pairs rows"
    by (simp add: image_image group_of_def split_def)
  moreover have "group_of rows ` (if ids_of_class rows ClassMulti = {} then {} else {ClassMulti}) =
      set (class_groups rows ClassMulti GroupMulti ''multi'')"
    "group_of rows ` (if ids_of_class rows ClassNone = {} then {} else {ClassNone}) =
      set (class_groups rows ClassNone GroupNone ''none'')"
    by (simp_all add: class_groups_def group_of_def)
  ultimately show ?thesis by (simp only: e set_append set_map image_Un Un_assoc)
qed

lemma ids_of_group:
  assumes "ids_of_class rows c \<noteq> {}"
  shows "set (rg_resultIds (group_of rows c)) = ids_of_class rows c \<and> distinct (rg_resultIds (group_of rows c))"
proof -
  have "finite (ids_of_class rows c)" "finite (sources_of_class rows c)"
    by (auto simp: ids_of_class_def sources_of_class_def)
  then obtain js ss where "set js = ids_of_class rows c" "distinct js" "set ss = sources_of_class rows c" "distinct ss"
    by (metis finite_distinct_list)
  then have "bucket_holds rows c \<lparr>bk_resultIds = js, bk_sources = ss\<rparr>" by (simp add: bucket_holds_def)
  then have "bucket_holds rows c (SOME b :: bucket. bucket_holds rows c b)" by (rule someI)
  moreover have "set (rg_resultIds (toGroup kind k r b)) = ids_of_class rows c \<and> distinct (rg_resultIds (toGroup kind k r b))"
    if "bucket_holds rows c b" for kind k r and b :: bucket
    using that by (simp add: toGroup_def Let_def bucket_holds_def)
  ultimately show ?thesis by (cases c) (simp_all add: group_of_def single_group_def)
qed

lemma class_unique:
  assumes "distinct (map gi_resultId rows)" and "row \<in> set rows" and "gi_resultId row \<in> ids_of_class rows c"
  shows "c = class_of_row row"
  using assms by (auto simp: ids_of_class_def distinct_map dest: inj_onD)

text \<open>
  The groups partition the results: every result of the list is in exactly one group, and a group holds its
  results once each.
\<close>

theorem groupResults_partition:
  assumes plain: "versions_plain rows" and d: "distinct (map gi_resultId rows)" and row: "row \<in> set rows"
  shows "\<exists>!g. g \<in> set (groupResults rows) \<and> gi_resultId row \<in> set (rg_resultIds g)"
proof (rule ex1I[of _ "group_of rows (class_of_row row)"])
  have m: "gi_resultId row \<in> ids_of_class rows (class_of_row row)" using row by (auto simp: ids_of_class_def)
  then have "ids_of_class rows (class_of_row row) \<noteq> {}" by blast
  then show "group_of rows (class_of_row row) \<in> set (groupResults rows) \<and>
      gi_resultId row \<in> set (rg_resultIds (group_of rows (class_of_row row)))"
    using m set_groups[OF plain] ids_of_group by simp
next
  fix g assume g: "g \<in> set (groupResults rows) \<and> gi_resultId row \<in> set (rg_resultIds g)"
  then obtain c where c: "g = group_of rows c" "ids_of_class rows c \<noteq> {}" using set_groups[OF plain] by auto
  with g ids_of_group[OF c(2)] have "gi_resultId row \<in> ids_of_class rows c" by simp
  from class_unique[OF d row this] c show "g = group_of rows (class_of_row row)" by simp
qed

definition sample_rows :: "group_input list" where
  "sample_rows =
     [\<lparr>gi_resultId = ''b'', gi_rubricVersionId = ''v1'', gi_errors = [(''r1'', ''llm'')]\<rparr>,
      \<lparr>gi_resultId = ''a'', gi_rubricVersionId = ''v1'', gi_errors = [(''r1'', ''test''), (''r1'', ''llm'')]\<rparr>,
      \<lparr>gi_resultId = ''c'', gi_rubricVersionId = ''v2'', gi_errors = [(''r1'', ''test''), (''r2'', ''llm'')]\<rparr>,
      \<lparr>gi_resultId = ''d'', gi_rubricVersionId = ''v1'', gi_errors = []\<rparr>]"

lemma sample_rows_groups: "map rg_resultIds (groupResults sample_rows) = [[''a'', ''b''], [''c''], [''d'']]"
  by code_simp

lemma groupResults_order_free_witness:
  "groupResults sample_rows = groupResults (rev sample_rows) \<and> groupResults sample_rows \<noteq> []"
proof
  show "groupResults sample_rows = groupResults (rev sample_rows)"
  proof (rule groupResults_order_free)
    show "versions_plain sample_rows" by code_simp
  qed (simp only: set_rev)
  show "groupResults sample_rows \<noteq> []" using sample_rows_groups by auto
qed

end
