(* ===== verification/AuditSampling.thy ===== *)
theory AuditSampling
  imports Threshold "HOL-Library.AList" "HOL-Library.Word"
begin

text \<open>
  Blind audits: which automatically decided results are drawn (\<open>grading/audit-sampling.ts\<close>) and how the
  teacher's label is compared with the system's errors (\<open>grading/audit/audit-compare.ts\<close>). SHA-256 is a
  parameter that returns the bytes of a digest; everything the code does with the bytes is modelled. The
  student numbers are ASCII texts, on which \<open>toLowerCase\<close> is \<open>map lower_char\<close>.
\<close>

section \<open>The settings\<close>

definition AUDIT_DEFAULT_PERCENT :: int where
  "AUDIT_DEFAULT_PERCENT = 20"

definition AUDIT_FLOOR_PERCENT :: int where
  "AUDIT_FLOOR_PERCENT = 5"

record audit_sampling =
  as_enabled :: bool
  as_percent :: int
  as_warning :: bool

text \<open>\<open>Number(raw)\<close> when \<open>Number.isInteger\<close> accepts it.\<close>

definition js_integer :: "string \<Rightarrow> int option" where
  "js_integer raw = (case js_number raw of
      Some x \<Rightarrow> if x = of_int \<lfloor>x\<rfloor> then Some \<lfloor>x\<rfloor> else None
    | None \<Rightarrow> None)"

definition readAuditSampling :: "env \<Rightarrow> audit_sampling" where
  "readAuditSampling env =
     (case (case env ''GRADING_AUDIT_SAMPLE_PERCENT'' of Some raw \<Rightarrow> if js_trim raw = [] then None else Some raw | None \<Rightarrow> None) of
        None \<Rightarrow> \<lparr>as_enabled = env ''NODE_ENV'' \<noteq> Some ''test'', as_percent = AUDIT_DEFAULT_PERCENT, as_warning = False\<rparr>
      | Some raw \<Rightarrow>
          (case js_integer raw of
             None \<Rightarrow> \<lparr>as_enabled = True, as_percent = AUDIT_DEFAULT_PERCENT, as_warning = True\<rparr>
           | Some v \<Rightarrow>
               if v < 1 then \<lparr>as_enabled = True, as_percent = AUDIT_DEFAULT_PERCENT, as_warning = True\<rparr>
               else if v < AUDIT_FLOOR_PERCENT then
                 \<lparr>as_enabled = True, as_percent = AUDIT_FLOOR_PERCENT, as_warning = True\<rparr>
               else if 100 < v then \<lparr>as_enabled = True, as_percent = 100, as_warning = True\<rparr>
               else \<lparr>as_enabled = True, as_percent = v, as_warning = False\<rparr>))"

definition AUDIT_MIN_PER_SESSION_DEFAULT :: int where
  "AUDIT_MIN_PER_SESSION_DEFAULT = 2"

definition readAuditMinPerSession :: "env \<Rightarrow> int" where
  "readAuditMinPerSession env =
     (case env ''AUDIT_MIN_PER_SESSION'' of
        None \<Rightarrow> AUDIT_MIN_PER_SESSION_DEFAULT
      | Some raw \<Rightarrow>
          if js_trim raw = [] then AUDIT_MIN_PER_SESSION_DEFAULT
          else (case js_integer raw of
                  Some v \<Rightarrow> if 0 \<le> v then v else AUDIT_MIN_PER_SESSION_DEFAULT
                | None \<Rightarrow> AUDIT_MIN_PER_SESSION_DEFAULT))"

section \<open>Drawing\<close>

type_synonym digest = "string \<Rightarrow> 8 word list"

definition readUInt32BE :: "8 word list \<Rightarrow> nat" where
  "readUInt32BE bytes = foldl (\<lambda>n b. n * 256 + unat b) 0 (take 4 bytes)"

definition auditBucket :: "digest \<Rightarrow> string \<Rightarrow> string \<Rightarrow> nat" where
  "auditBucket sha256 seed resultId = readUInt32BE (sha256 (seed @ '':'' @ resultId)) mod 10000"

definition drawnForAudit :: "digest \<Rightarrow> string \<Rightarrow> string \<Rightarrow> int \<Rightarrow> bool" where
  "drawnForAudit sha256 seed resultId percent \<longleftrightarrow> int (auditBucket sha256 seed resultId) < percent * 100"

definition js_lower :: "string \<Rightarrow> string" where
  "js_lower s = map lower_char s"

definition auditBucketByStudent :: "digest \<Rightarrow> string \<Rightarrow> string \<Rightarrow> nat" where
  "auditBucketByStudent sha256 seed mssv = readUInt32BE (sha256 (seed @ '':'' @ js_lower mssv)) mod 10000"

definition drawnForStudentAudit :: "digest \<Rightarrow> string \<Rightarrow> string \<Rightarrow> int \<Rightarrow> bool" where
  "drawnForStudentAudit sha256 seed mssv percent \<longleftrightarrow> int (auditBucketByStudent sha256 seed mssv) < percent * 100"

section \<open>The minimum per session\<close>

definition hex_digit :: "nat \<Rightarrow> char" where
  "hex_digit n = (if n < 10 then char_of (48 + n) else char_of (87 + n))"

definition hashOfMssv :: "digest \<Rightarrow> string \<Rightarrow> string" where
  "hashOfMssv sha256 s = concat (map (\<lambda>b. [hex_digit (unat b div 16), hex_digit (unat b mod 16)]) (sha256 s))"

text \<open>\<open>localeCompare\<close> on hexadecimal digests is the order by code unit.\<close>

definition by_hash :: "digest \<Rightarrow> string \<times> string \<Rightarrow> string \<times> string \<Rightarrow> bool" where
  "by_hash sha256 a b = str_le (hashOfMssv sha256 (fst a)) (hashOfMssv sha256 (fst b))"

definition students_by_code :: "string list \<Rightarrow> (string \<times> string) list" where
  "students_by_code ms = fold (\<lambda>m. AList.update (js_lower m) m) ms []"

fun top_up :: "int \<Rightarrow> (string \<times> string) list \<Rightarrow> (string \<times> string) list \<Rightarrow> (string \<times> string) list" where
  "top_up target [] chosen = chosen"
| "top_up target ((k, original) # pool) chosen =
     (if target \<le> int (length chosen) then chosen else top_up target pool (AList.update k original chosen))"

definition ensureSessionMinimum :: "digest \<Rightarrow> string list \<Rightarrow> string list \<Rightarrow> int \<Rightarrow> string list" where
  "ensureSessionMinimum sha256 sampled students least =
     (let chosen = students_by_code sampled; everyone = students_by_code students;
          target = min least (int (length everyone));
          pool = js_sort (by_hash sha256) (filter (\<lambda>e. fst e \<notin> fst ` set chosen) everyone)
      in map snd (top_up target pool chosen))"

section \<open>Comparing a label with the system\<close>

datatype audit_verdict = BothSaw | TeacherOnly | SystemOnly

datatype agreement = FullAgreement | PartialAgreement | NoAgreement

record audit_summary =
  au_both :: nat
  au_teacherOnly :: nat
  au_systemOnly :: nat
  au_neither :: nat
  au_extra :: nat
  au_agreement :: agreement

definition audit_verdict_of :: "key list \<Rightarrow> key list \<Rightarrow> key \<Rightarrow> audit_verdict" where
  "audit_verdict_of picked system r =
     (if r \<in> set picked \<and> r \<in> set system then BothSaw else if r \<in> set picked then TeacherOnly else SystemOnly)"

definition compareAudit :: "key list \<Rightarrow> key list \<Rightarrow> nat \<Rightarrow> nat \<Rightarrow> (key \<times> audit_verdict) list \<times> audit_summary" where
  "compareAudit picked systemRuleIds extraCount activeRuleCount =
     (let perRule = map (\<lambda>r. (r, audit_verdict_of picked systemRuleIds r)) (uniq (uniq picked @ uniq systemRuleIds));
          count = (\<lambda>v. length (filter (\<lambda>x. snd x = v) perRule));
          both = count BothSaw; teacherOnly = count TeacherOnly; systemOnly = count SystemOnly;
          disagreement = teacherOnly + systemOnly + extraCount
      in (perRule, \<lparr>au_both = both, au_teacherOnly = teacherOnly, au_systemOnly = systemOnly,
            au_neither = activeRuleCount - length perRule, au_extra = extraCount,
            au_agreement = (if disagreement = 0 then FullAgreement else if both = 0 then NoAgreement else PartialAgreement)\<rparr>))"

section \<open>What the settings and the draw guarantee\<close>

lemma readAuditSampling_bounds:
  "AUDIT_FLOOR_PERCENT \<le> as_percent (readAuditSampling env) \<and> as_percent (readAuditSampling env) \<le> 100"
  by (auto simp: readAuditSampling_def AUDIT_FLOOR_PERCENT_def AUDIT_DEFAULT_PERCENT_def split: option.split)

lemma readAuditMinPerSession_nonneg: "0 \<le> readAuditMinPerSession env"
  by (auto simp: readAuditMinPerSession_def AUDIT_MIN_PER_SESSION_DEFAULT_def split: option.split)

lemma auditBucketByStudent_bound: "auditBucketByStudent sha256 seed mssv < 10000"
  by (simp add: auditBucketByStudent_def)

lemma readUInt32BE_bound: "readUInt32BE bytes < 2 ^ 32"
proof -
  have step: "foldl (\<lambda>n b. n * 256 + unat b) n bs < (n + 1) * 256 ^ length bs" for n and bs :: "8 word list"
  proof (induction bs arbitrary: n)
    case (Cons b bs)
    have "unat b < 256" using unsigned_less[of b] by simp
    then have "n * 256 + unat b + 1 \<le> (n + 1) * 256" by simp
    then have "(n * 256 + unat b + 1) * 256 ^ length bs \<le> (n + 1) * 256 * 256 ^ length bs" by (rule mult_right_mono) simp
    moreover have "(n + 1) * 256 * 256 ^ length bs = (n + 1) * 256 ^ length (b # bs)" by (simp add: algebra_simps)
    ultimately show ?case using less_le_trans[OF Cons.IH] by (simp only: foldl_Cons)
  qed simp
  have "length (take 4 bytes) \<le> 4" by simp
  then have "(256::nat) ^ length (take 4 bytes) \<le> 256 ^ 4" by (rule power_increasing) simp
  with step[of 0 "take 4 bytes"] show ?thesis by (simp add: readUInt32BE_def)
qed

text \<open>
  The share of audits never falls to nothing, whatever the environment says; the draw of a student looks at
  nothing but the seed and the student number, so all results of one student are drawn together, whatever the
  case of the letters; and raising the percentage only adds students.
\<close>

theorem audit_draw:
  "AUDIT_FLOOR_PERCENT \<le> as_percent (readAuditSampling env) \<and> as_percent (readAuditSampling env) \<le> 100 \<and>
   drawnForStudentAudit sha256 seed (js_lower m) p = drawnForStudentAudit sha256 seed m p \<and>
   {m. drawnForStudentAudit sha256 seed m (min p q)} \<subseteq> {m. drawnForStudentAudit sha256 seed m q} \<and>
   {m. drawnForStudentAudit sha256 seed m (max 100 p)} = UNIV"
proof -
  have "lower_char (lower_char c) = lower_char c" for c
    by (cases c) (auto simp: lower_char_def Let_def)
  then have "js_lower (js_lower m) = js_lower m" by (simp add: js_lower_def)
  then show ?thesis
    using readAuditSampling_bounds[of env] auditBucketByStudent_bound[of sha256 seed]
    by (auto simp: drawnForStudentAudit_def auditBucketByStudent_def)
qed

section \<open>The minimum of a session\<close>

lemma fst_students_by_code [simp]: "fst ` set (students_by_code ms) = js_lower ` set ms"
proof -
  have "fst ` set (fold (\<lambda>m. AList.update (js_lower m) m) ms al) = js_lower ` set ms \<union> fst ` set al" for al
    by (induction ms arbitrary: al) (auto simp: set_fst_update)
  then show ?thesis by (simp add: students_by_code_def)
qed

lemma distinct_students_by_code [simp]: "distinct (map fst (students_by_code ms))"
  unfolding students_by_code_def by (rule distinct_fold_update[where f = js_lower]) simp

lemma length_students_by_code: "length (students_by_code ms) = card (js_lower ` set ms)"
  by (metis distinct_card distinct_students_by_code fst_students_by_code length_map list.set_map)

definition coded :: "(string \<times> string) list \<Rightarrow> bool" where
  "coded al \<longleftrightarrow> list_all (\<lambda>(k, m). k = js_lower m) al"

lemma coded_update: "coded al \<Longrightarrow> coded (AList.update (js_lower m) m al)"
  by (induction al) (auto simp: coded_def)

lemma coded_students [simp]: "coded (students_by_code ms)"
proof -
  have "coded al \<Longrightarrow> coded (fold (\<lambda>m. AList.update (js_lower m) m) ms al)" for al
    by (induction ms arbitrary: al) (simp_all add: coded_update)
  then show ?thesis by (simp add: students_by_code_def coded_def)
qed

lemma coded_map: "coded al \<Longrightarrow> map js_lower (map snd al) = map fst al"
  by (induction al) (auto simp: coded_def)

lemma update_new: "k \<notin> fst ` set al \<Longrightarrow> AList.update k v al = al @ [(k, v)]"
  by (induction al) auto

lemma top_up_spec:
  assumes "distinct (map fst pool)" and "fst ` set pool \<inter> fst ` set chosen = {}"
  shows "top_up target pool chosen = chosen @ take (nat (target - int (length chosen))) pool"
  using assms
proof (induction target pool chosen rule: top_up.induct)
  case (2 target k original pool chosen)
  show ?case
  proof (cases "target \<le> int (length chosen)")
    case False
    have "k \<notin> fst ` set chosen" using "2.prems" by auto
    then have u: "AList.update k original chosen = chosen @ [(k, original)]" by (rule update_new)
    have "nat (target - int (length chosen)) = Suc (nat (target - int (length (chosen @ [(k, original)]))))"
      using False by simp
    with False "2.IH" "2.prems" u show ?thesis by auto
  qed simp
qed simp

text \<open>A list that is filled up from a pool of the others.\<close>

lemma filled_up:
  assumes d: "distinct (map fst chosen)" "distinct (map fst everyone)" "distinct (map fst pool)"
    and sp: "set pool = {e \<in> set everyone. fst e \<notin> fst ` set chosen}"
    and r: "r = chosen @ take (nat (min least (int (length everyone)) - int (length chosen))) pool"
  shows "distinct (map fst r)" and "fst ` set chosen \<subseteq> fst ` set r" and "fst ` set r \<subseteq> fst ` set chosen \<union> fst ` set everyone"
    and "int (length r) = max (int (length chosen)) (min least (int (length everyone)))"
proof -
  define n where "n = nat (min least (int (length everyone)) - int (length chosen))"
  have rn: "r = chosen @ take n pool" by (simp add: r n_def)
  have sub: "set (take n pool) \<subseteq> {e \<in> set everyone. fst e \<notin> fst ` set chosen}"
    using set_take_subset[of n pool] sp by simp
  have m: "k \<in> fst ` set everyone \<and> k \<notin> fst ` set chosen" if k: "k \<in> fst ` set (take n pool)" for k
  proof -
    obtain e where "e \<in> set (take n pool)" "k = fst e" using k by (rule imageE)
    with subsetD[OF sub] show ?thesis by simp
  qed
  have x: "fst ` set chosen \<inter> fst ` set (take n pool) = {}" by (rule Int_emptyI) (simp add: m)
  have y: "fst ` set (take n pool) \<subseteq> fst ` set everyone" by (rule subsetI) (simp add: m)
  have "distinct (map fst (take n pool))" using d(3) by (simp add: take_map[symmetric])
  then show "distinct (map fst r)" using d(1) x by (simp add: rn)
  from y show "fst ` set chosen \<subseteq> fst ` set r" "fst ` set r \<subseteq> fst ` set chosen \<union> fst ` set everyone"
    unfolding rn set_append image_Un by blast+
  have "fst ` set everyone \<subseteq> fst ` set chosen \<union> fst ` set pool" using sp by auto
  then have "card (fst ` set everyone) \<le> card (fst ` set chosen \<union> fst ` set pool)" by (intro card_mono) auto
  also have "\<dots> \<le> card (fst ` set chosen) + card (fst ` set pool)" by (rule card_Un_le)
  finally have "length everyone \<le> length chosen + length pool"
    using distinct_card[OF d(1)] distinct_card[OF d(2)] distinct_card[OF d(3)] by simp
  then show "int (length r) = max (int (length chosen)) (min least (int (length everyone)))" by (auto simp: r)
qed

text \<open>
  A session gets its minimum of audited students, or all of its students when there are fewer: students are
  counted without regard to case, nobody drawn before is dropped, nobody is added twice, and no more students
  are added than the minimum asks for.
\<close>

theorem ensureSessionMinimum_spec:
  "distinct (map js_lower (ensureSessionMinimum sha256 sampled students least)) \<and>
   js_lower ` set sampled \<subseteq> js_lower ` set (ensureSessionMinimum sha256 sampled students least) \<and>
   js_lower ` set (ensureSessionMinimum sha256 sampled students least) \<subseteq> js_lower ` (set sampled \<union> set students) \<and>
   int (length (ensureSessionMinimum sha256 sampled students least)) =
     max (int (card (js_lower ` set sampled))) (min least (int (card (js_lower ` set students))))"
proof -
  define chosen everyone where ce: "chosen = students_by_code sampled" "everyone = students_by_code students"
  define pool where "pool = js_sort (by_hash sha256) (filter (\<lambda>e. fst e \<notin> fst ` set chosen) everyone)"
  have dc: "distinct (map fst chosen)" "distinct (map fst everyone)"
    using distinct_students_by_code[of sampled] distinct_students_by_code[of students] by (simp_all only: ce)
  have sp: "set pool = {e \<in> set everyone. fst e \<notin> fst ` set chosen}" by (simp add: pool_def)
  have dp: "distinct (map fst pool)"
    using dc(2) sp by (auto simp: distinct_map pool_def intro: inj_on_subset)
  define r where "r = chosen @ take (nat (min least (int (length everyone)) - int (length chosen))) pool"
  have e: "ensureSessionMinimum sha256 sampled students least = map snd r"
  proof -
    have "fst ` set pool \<inter> fst ` set chosen = {}" using sp by auto
    from top_up_spec[OF dp this, of "min least (int (length everyone))"] show ?thesis
      by (simp add: ensureSessionMinimum_def Let_def r_def pool_def ce)
  qed
  have cod: "coded r"
    using coded_students[of sampled] coded_students[of students]
      set_take_subset[of "nat (min least (int (length everyone)) - int (length chosen))" pool]
    by (auto simp: r_def coded_def list_all_iff ce pool_def)
  have rl: "map js_lower (map snd r) = map fst r" by (rule coded_map[OF cod])
  then have rs: "js_lower ` set (map snd r) = fst ` set r" by (metis list.set_map)
  have fc: "fst ` set chosen = js_lower ` set sampled" "fst ` set everyone = js_lower ` set students" by (simp_all add: ce)
  have len: "length chosen = card (js_lower ` set sampled)" "length everyone = card (js_lower ` set students)"
    by (simp_all only: ce length_students_by_code)
  show ?thesis
    using filled_up[OF dc dp sp r_def] unfolding e rl rs fc len length_map image_Un by blast
qed

section \<open>A label against the system\<close>

lemma length_filter_uniq: "length (filter P (uniq xs)) = card {x \<in> set xs. P x}"
  by (simp add: distinct_length_filter Int_def conj_commute)

lemma compareAudit_counts:
  "au_both (snd (compareAudit p s x n)) = card (set p \<inter> set s) \<and>
   au_teacherOnly (snd (compareAudit p s x n)) = card (set p - set s) \<and>
   au_systemOnly (snd (compareAudit p s x n)) = card (set s - set p)"
proof -
  have c: "length (filter (\<lambda>y. snd y = v) (map (\<lambda>r. (r, audit_verdict_of p s r)) rs)) =
      length (filter (\<lambda>r. audit_verdict_of p s r = v) rs)" for v rs
    by (simp add: filter_map comp_def)
  have "{r \<in> set p \<union> set s. audit_verdict_of p s r = BothSaw} = set p \<inter> set s"
    "{r \<in> set p \<union> set s. audit_verdict_of p s r = TeacherOnly} = set p - set s"
    "{r \<in> set p \<union> set s. audit_verdict_of p s r = SystemOnly} = set s - set p"
    by (auto simp: audit_verdict_of_def split: if_splits)
  then show ?thesis by (simp add: compareAudit_def Let_def c length_filter_uniq)
qed

text \<open>
  The summary of a label counts every rule once: the rules both saw, those only one side saw, and agreement is
  full exactly when both sides saw the same rules and the teacher added none of their own.
\<close>

theorem compareAudit_spec:
  "au_both (snd (compareAudit p s x n)) + au_teacherOnly (snd (compareAudit p s x n)) = card (set p) \<and>
   au_both (snd (compareAudit p s x n)) + au_systemOnly (snd (compareAudit p s x n)) = card (set s) \<and>
   (au_agreement (snd (compareAudit p s x n)) = FullAgreement \<longleftrightarrow> set p = set s \<and> x = 0) \<and>
   (au_agreement (snd (compareAudit p s x n)) = NoAgreement \<longleftrightarrow>
      set p \<inter> set s = {} \<and> \<not> (set p = {} \<and> set s = {} \<and> x = 0))"
proof -
  let ?c = "snd (compareAudit p s x n)"
  note k = compareAudit_counts[of p s x n]
  have a: "au_agreement ?c = (if au_teacherOnly ?c + au_systemOnly ?c + x = 0 then FullAgreement
      else if au_both ?c = 0 then NoAgreement else PartialAgreement)"
    unfolding compareAudit_def Let_def by (simp only: snd_conv audit_summary.select_convs)
  have "card (set p \<inter> set s) + card (set p - set s) = card (set p)" "card (set p \<inter> set s) + card (set s - set p) = card (set s)"
    using card_Int_Diff[of "set p" "set s"] card_Int_Diff[of "set s" "set p"] by (simp_all add: Int_commute)
  then show ?thesis using k a by auto
qed

end
