(* ===== verification/Transactions.thy ===== *)
theory Transactions
  imports Main
begin

text \<open>
  Database transactions as a state monad with errors, and the weakest preconditions of their programs. A
  program that returns \<open>Inl\<close> is rolled back by \<open>commit\<close>. \<open>wp ok m Q s\<close> says that \<open>m\<close> started in \<open>s\<close> either
  fails with an error that \<open>ok\<close> allows or ends in a result and a state that satisfy \<open>Q\<close>.

  The locale \<open>transition_system\<close> states what an invariant of a system of events must satisfy and gives that it
  holds after every history.
\<close>

type_synonym ('s, 'e, 'a) tx = "'s \<Rightarrow> 'e + 'a \<times> 's"

definition retT :: "'a \<Rightarrow> ('s, 'e, 'a) tx" where
  "retT a = (\<lambda>s. Inr (a, s))"

definition failT :: "'e \<Rightarrow> ('s, 'e, 'a) tx" where
  "failT e = (\<lambda>s. Inl e)"

definition getT :: "('s \<Rightarrow> 'a) \<Rightarrow> ('s, 'e, 'a) tx" where
  "getT f = (\<lambda>s. Inr (f s, s))"

definition modifyT :: "('s \<Rightarrow> 's) \<Rightarrow> ('s, 'e, unit) tx" where
  "modifyT f = (\<lambda>s. Inr ((), f s))"

definition bindT :: "('s, 'e, 'a) tx \<Rightarrow> ('a \<Rightarrow> ('s, 'e, 'b) tx) \<Rightarrow> ('s, 'e, 'b) tx" where
  "bindT m k = (\<lambda>s. case m s of Inl e \<Rightarrow> Inl e | Inr (a, s') \<Rightarrow> k a s')"

definition thenT :: "('s, 'e, unit) tx \<Rightarrow> ('s, 'e, 'b) tx \<Rightarrow> ('s, 'e, 'b) tx" where
  "thenT m k = bindT m (\<lambda>_. k)"

definition whenT :: "bool \<Rightarrow> ('s, 'e, unit) tx \<Rightarrow> ('s, 'e, unit) tx" where
  "whenT b m = (if b then m else retT ())"

definition unlessT :: "bool \<Rightarrow> 'e \<Rightarrow> ('s, 'e, unit) tx" where
  "unlessT b e = (if b then retT () else failT e)"

text \<open>\<open>liftT\<close> runs a pure computation that may throw.\<close>

definition liftT :: "('x \<Rightarrow> 'e) \<Rightarrow> 'x + 'a \<Rightarrow> ('s, 'e, 'a) tx" where
  "liftT err r = (case r of Inl x \<Rightarrow> failT (err x) | Inr a \<Rightarrow> retT a)"

text \<open>A loop \<open>for (const x of xs)\<close> that carries an accumulator.\<close>

fun foldT :: "('x \<Rightarrow> 'b \<Rightarrow> ('s, 'e, 'b) tx) \<Rightarrow> 'x list \<Rightarrow> 'b \<Rightarrow> ('s, 'e, 'b) tx" where
  "foldT f [] b = retT b"
| "foldT f (x # xs) b = bindT (f x b) (foldT f xs)"

definition forT :: "('x \<Rightarrow> ('s, 'e, unit) tx) \<Rightarrow> 'x list \<Rightarrow> ('s, 'e, unit) tx" where
  "forT f xs = foldT (\<lambda>x _. f x) xs ()"

definition commit :: "('s, 'e, 'a) tx \<Rightarrow> 's \<Rightarrow> ('e + 'a) \<times> 's" where
  "commit m s = (case m s of Inl e \<Rightarrow> (Inl e, s) | Inr (a, s') \<Rightarrow> (Inr a, s'))"

section \<open>Weakest preconditions\<close>

definition wp :: "('e \<Rightarrow> bool) \<Rightarrow> ('s, 'e, 'a) tx \<Rightarrow> ('a \<Rightarrow> 's \<Rightarrow> bool) \<Rightarrow> 's \<Rightarrow> bool" where
  "wp ok m Q s = (case m s of Inl e \<Rightarrow> ok e | Inr (a, s') \<Rightarrow> Q a s')"

named_theorems wp_simps \<open>weakest preconditions of the program constructs\<close>

lemma wp_ret [wp_simps]: "wp ok (retT a) Q s = Q a s"
  by (simp add: wp_def retT_def)

lemma wp_ret_fun [wp_simps]: "wp ok (retT a) Q = Q a"
  by (simp add: fun_eq_iff wp_ret)

lemma wp_fail [wp_simps]: "wp ok (failT e) Q s = ok e"
  by (simp add: wp_def failT_def)

lemma wp_get [wp_simps]: "wp ok (getT f) Q s = Q (f s) s"
  by (simp add: wp_def getT_def)

lemma wp_modify [wp_simps]: "wp ok (modifyT f) Q s = Q () (f s)"
  by (simp add: wp_def modifyT_def)

lemma wp_bind [wp_simps]: "wp ok (bindT m k) Q s = wp ok m (\<lambda>a. wp ok (k a) Q) s"
  by (simp add: wp_def bindT_def split: sum.split prod.split)

lemma wp_then [wp_simps]: "wp ok (thenT m k) Q s = wp ok m (\<lambda>_. wp ok k Q) s"
  by (simp add: thenT_def wp_bind)

lemma wp_when [wp_simps]: "wp ok (whenT b m) Q s = (if b then wp ok m Q s else Q () s)"
  by (simp add: whenT_def wp_ret)

lemma wp_unless [wp_simps]: "wp ok (unlessT b e) Q s = (if b then Q () s else ok e)"
  by (simp add: unlessT_def wp_ret wp_fail)

lemma wp_lift [wp_simps]: "wp ok (liftT err r) Q s = (case r of Inl x \<Rightarrow> ok (err x) | Inr a \<Rightarrow> Q a s)"
  by (cases r) (simp_all add: liftT_def wp_ret wp_fail)

lemma wp_if [wp_simps]: "wp ok (if b then m else n) Q s = (if b then wp ok m Q s else wp ok n Q s)"
  by simp

lemma wp_mono: "wp ok m Q s \<Longrightarrow> (\<And>a s'. Q a s' \<Longrightarrow> R a s') \<Longrightarrow> wp ok m R s"
  by (auto simp: wp_def split: sum.splits)

text \<open>A loop keeps what each of its rounds keeps.\<close>

lemma wp_foldT:
  assumes "I b s" and "\<And>x b s. x \<in> set xs \<Longrightarrow> I b s \<Longrightarrow> wp ok (f x b) I s"
    and "\<And>b s. I b s \<Longrightarrow> Q b s"
  shows "wp ok (foldT f xs b) Q s"
  using assms(1,2)
proof (induction xs arbitrary: b s)
  case Nil
  then show ?case using assms(3) by (simp add: wp_ret)
next
  case (Cons x xs)
  have "wp ok (f x b) (\<lambda>b. wp ok (foldT f xs b) Q) s"
    by (rule wp_mono[OF Cons.prems(2)[OF _ Cons.prems(1)]]) (auto intro!: Cons.IH Cons.prems(2))
  then show ?case by (simp add: wp_bind)
qed

lemma wp_forT:
  assumes "I s" and "\<And>x s. x \<in> set xs \<Longrightarrow> I s \<Longrightarrow> wp ok (f x) (\<lambda>_. I) s" and "\<And>s. I s \<Longrightarrow> Q () s"
  shows "wp ok (forT f xs) Q s"
  unfolding forT_def by (rule wp_foldT[where I = "\<lambda>_. I"]) (use assms in auto)

lemma wp_commit: "wp ok m (\<lambda>_. I) s \<Longrightarrow> I s \<Longrightarrow> I (snd (commit m s))"
  by (auto simp: wp_def commit_def split: sum.splits)

lemma commit_error: "fst (commit m s) = Inl e \<Longrightarrow> snd (commit m s) = s"
  by (auto simp: commit_def split: sum.splits prod.splits)

section \<open>Programs that keep a property\<close>

text \<open>\<open>I x\<close> is a family of properties of the state, such as those of the states that a state \<open>x\<close> can lead to.\<close>

definition keepsT :: "('e \<Rightarrow> bool) \<Rightarrow> ('x \<Rightarrow> 's \<Rightarrow> bool) \<Rightarrow> ('s, 'e, 'a) tx \<Rightarrow> bool" where
  "keepsT ok I m \<longleftrightarrow> (\<forall>x s. I x s \<longrightarrow> wp ok m (\<lambda>_. I x) s)"

lemma keepsTI: "(\<And>x s. I x s \<Longrightarrow> wp ok m (\<lambda>_. I x) s) \<Longrightarrow> keepsT ok I m"
  by (simp add: keepsT_def)

lemma keepsTD: "keepsT ok I m \<Longrightarrow> I x s \<Longrightarrow> wp ok m (\<lambda>_. I x) s"
  by (simp add: keepsT_def)

lemma keeps_ret [simp]: "keepsT ok I (retT a)"
  by (simp add: keepsT_def wp_ret)

lemma keeps_bind: "keepsT ok I m \<Longrightarrow> (\<And>a. keepsT ok I (k a)) \<Longrightarrow> keepsT ok I (bindT m k)"
  unfolding keepsT_def wp_bind by (blast intro: wp_mono)

lemma keeps_then: "keepsT ok I m \<Longrightarrow> keepsT ok I k \<Longrightarrow> keepsT ok I (thenT m k)"
  unfolding thenT_def by (rule keeps_bind)

lemma keeps_get: "(\<And>a. keepsT ok I (k a)) \<Longrightarrow> keepsT ok I (bindT (getT f) k)"
  by (simp add: keepsT_def wp_simps)

lemma keeps_when: "keepsT ok I m \<Longrightarrow> keepsT ok I (whenT b m)"
  by (simp add: keepsT_def wp_simps)

lemma keeps_unless: "ok e \<Longrightarrow> keepsT ok I (unlessT b e)"
  by (simp add: keepsT_def wp_simps)

lemma keeps_fail: "ok e \<Longrightarrow> keepsT ok I (failT e)"
  by (simp add: keepsT_def wp_simps)

lemma keeps_lift: "(\<And>x. ok (err x)) \<Longrightarrow> keepsT ok I (liftT err r)"
  by (cases r) (simp_all add: keepsT_def wp_simps)

lemma keeps_fold: "(\<And>x b. x \<in> set xs \<Longrightarrow> keepsT ok I (f x b)) \<Longrightarrow> keepsT ok I (foldT f xs b)"
  by (rule keepsTI, rule wp_foldT[where I = "\<lambda>_. I x" for x]) (auto dest: keepsTD)

lemma keeps_for: "(\<And>x. x \<in> set xs \<Longrightarrow> keepsT ok I (f x)) \<Longrightarrow> keepsT ok I (forT f xs)"
  unfolding forT_def by (rule keeps_fold)

lemmas keeps_intros = keeps_then keeps_get keeps_when keeps_unless keeps_fail keeps_lift keeps_ret

section \<open>Invariants of histories\<close>

locale transition_system =
  fixes run :: "'e \<Rightarrow> 's \<Rightarrow> 's" and invariant :: "'s \<Rightarrow> bool"
  assumes run_invariant: "invariant s \<Longrightarrow> invariant (run e s)"
begin

lemma history_invariant: "invariant s \<Longrightarrow> invariant (fold run es s)"
  by (induction es arbitrary: s) (simp_all add: run_invariant)

end

end
