(* ===== verification/BulkRules.thy ===== *)
theory BulkRules
  imports JsNumber
begin

text \<open>
  A review of one result by its criteria: \<open>grading/bulk-rules.ts\<close>, \<open>pointsFor\<close> of
  \<open>grading/ai-provider/ai-grading-provider.ts\<close> and \<open>validateAndTotal\<close> of \<open>grading/teacher-review.service.ts\<close>.
  Points are JavaScript numbers: rationals with the roundings written out. A total is returned in hundredths,
  the unit of the column it is written to.
\<close>

section \<open>Points of a verdict\<close>

datatype criterion_verdict = Met | PartiallyMet | NotMet

fun pointsFor :: "criterion_verdict \<Rightarrow> rat \<Rightarrow> rat" where
  "pointsFor Met maxPoints = maxPoints"
| "pointsFor PartiallyMet maxPoints = fl (of_int (js_round (fl (maxPoints * 50))) / 100)"
| "pointsFor NotMet maxPoints = 0"

section \<open>The rules for many results\<close>

datatype bulk_rule = KeepAi | ApplyAdvocate | CriterionFullMarks key | CriterionBonus key rat

record rule_criterion =
  rc_criterionId :: key
  rc_verdict :: criterion_verdict
  rc_points :: rat

record rule_input =
  ri_rubricCriteria :: "(key \<times> rat) list"
  ri_criterionResults :: "rule_criterion list"
  ri_advocateOpinion :: "(key \<times> criterion_verdict) list option"

datatype rule_refusal = NoAdvocate

definition verdictForPoints :: "rat \<Rightarrow> rat \<Rightarrow> criterion_verdict" where
  "verdictForPoints points maxPoints =
     (if maxPoints \<le> points then Met else if points \<le> 0 then NotMet else PartiallyMet)"

definition with_points :: "key \<Rightarrow> rat \<Rightarrow> rat \<Rightarrow> rule_criterion" where
  "with_points c points maxPoints =
     \<lparr>rc_criterionId = c, rc_verdict = verdictForPoints points maxPoints, rc_points = points\<rparr>"

definition apply_to_criterion :: "bulk_rule \<Rightarrow> rule_input \<Rightarrow> key \<times> rat \<Rightarrow> rule_criterion" where
  "apply_to_criterion rule i criterion =
     (let (c, maxPoints) = criterion;
          found = index_by rc_criterionId (ri_criterionResults i) c;
          aiPoints = (case found of Some r \<Rightarrow> rc_points r | None \<Rightarrow> 0);
          aiVerdict = (case found of Some r \<Rightarrow> rc_verdict r | None \<Rightarrow> NotMet);
          untouched = \<lparr>rc_criterionId = c, rc_verdict = aiVerdict, rc_points = aiPoints\<rparr>
      in case rule of
          KeepAi \<Rightarrow> untouched
        | ApplyAdvocate \<Rightarrow>
            (case js_map (case ri_advocateOpinion i of Some s \<Rightarrow> s | None \<Rightarrow> []) c of
               None \<Rightarrow> untouched
             | Some v \<Rightarrow> with_points c (max aiPoints (pointsFor v maxPoints)) maxPoints)
        | CriterionFullMarks k \<Rightarrow>
            if c \<noteq> k then untouched else \<lparr>rc_criterionId = c, rc_verdict = Met, rc_points = maxPoints\<rparr>
        | CriterionBonus k points \<Rightarrow>
            if c \<noteq> k then untouched else with_points c (min (fl (aiPoints + points)) maxPoints) maxPoints)"

definition applyRule :: "bulk_rule \<Rightarrow> rule_input \<Rightarrow> rule_refusal + rule_criterion list" where
  "applyRule rule i =
     (if rule = ApplyAdvocate \<and> ri_advocateOpinion i = None then Inl NoAdvocate
      else Inr (map (apply_to_criterion rule i) (ri_rubricCriteria i)))"

section \<open>The total of a review\<close>

datatype total_error = ForeignCriterion | CriterionTwice | PointsTooHigh rat | CriteriaMissing

fun total_entries ::
  "(key \<Rightarrow> rat option) \<Rightarrow> rule_criterion list \<Rightarrow> key list \<Rightarrow> rat \<Rightarrow> total_error + key list \<times> rat" where
  "total_entries byId [] seen acc = Inr (seen, acc)"
| "total_entries byId (e # es) seen acc =
     (case byId (rc_criterionId e) of
        None \<Rightarrow> Inl ForeignCriterion
      | Some maxPoints \<Rightarrow>
          if rc_criterionId e \<in> set seen then Inl CriterionTwice
          else if maxPoints < rc_points e then Inl (PointsTooHigh maxPoints)
          else total_entries byId es (set_add (rc_criterionId e) seen) (fl (acc + rc_points e)))"

definition validateAndTotal :: "(key \<times> rat) list \<Rightarrow> rule_criterion list \<Rightarrow> total_error + int" where
  "validateAndTotal criteria entries =
     (case total_entries (js_map criteria) entries [] 0 of
        Inl e \<Rightarrow> Inl e
      | Inr (seen, points) \<Rightarrow>
          if length seen \<noteq> length criteria then Inl CriteriaMissing else Inr (js_round (fl (points * 100))))"

section \<open>What a rule produces\<close>

lemma js_round_mono: "x \<le> y \<Longrightarrow> js_round x \<le> js_round y"
  by (simp add: js_round_def floor_mono)

text \<open>A column \<open>max_points numeric(6, 2)\<close> read with \<open>Number\<close>.\<close>

definition column_points :: "rat \<Rightarrow> bool" where
  "column_points x \<longleftrightarrow> (\<exists>k :: int. 0 \<le> k \<and> k < 1000000 \<and> x = fl (of_int k / 100))"

lemma pointsFor_le:
  assumes "column_points x"
  shows "0 \<le> pointsFor v x \<and> pointsFor v x \<le> x"
proof -
  obtain k :: int where k: "0 \<le> k" "k < 1000000" "x = fl (of_int k / 100)" using assms by (auto simp: column_points_def)
  have x0: "0 \<le> x" using k by (auto intro!: double.rnd_nonneg)
  show ?thesis
  proof (cases v)
    case PartiallyMet
    have r0: "0 \<le> js_round (fl (x * 50))"
      using double.rnd_nonneg[of "x * 50"] x0 by (simp add: js_round_def)
    have "js_round (fl (x * 50)) \<le> k"
    proof (cases "k = 0")
      case True
      then show ?thesis using k by (simp add: js_round_def)
    next
      case False
      then have k1: "(1::rat) \<le> of_int k" using k(1) by simp
      have "x \<le> of_int k / 100 * (1 + 1 / 2 ^ 53)" unfolding k(3) using k(1) by (intro double.rnd_upper) simp
      moreover have "fl (x * 50) \<le> x * 50 * (1 + 1 / 2 ^ 53)" using x0 by (intro double.rnd_upper) simp
      ultimately have "fl (x * 50) \<le> of_int k / 100 * (1 + 1 / 2 ^ 53) * 50 * (1 + 1 / 2 ^ 53)"
        by (elim order_trans) (intro mult_right_mono, auto)
      then have "fl (x * 50) \<le> of_int k * ((1 + 1 / 2 ^ 53) * (1 + 1 / 2 ^ 53) / 2)" by (simp add: mult_ac)
      also have "\<dots> \<le> of_int k * (3 / 4)" using k(1) by (intro mult_left_mono) (simp_all add: power2_eq_square field_simps)
      also have "\<dots> < of_int k + 1 / 2" using k1 by simp
      finally show ?thesis by (simp add: js_round_def floor_le_iff)
    qed
    then have "fl (of_int (js_round (fl (x * 50))) / 100) \<le> x" unfolding k(3) by (intro fl_mono divide_right_mono) simp_all
    moreover have "0 \<le> fl (of_int (js_round (fl (x * 50))) / 100)" using r0 by (intro double.rnd_nonneg) simp
    ultimately show ?thesis using PartiallyMet by simp
  qed (use x0 in simp_all)
qed

text \<open>The proposal of the model, as the code stores it: at most the maximum of each criterion.\<close>

definition proposal_ok :: "rule_input \<Rightarrow> bool" where
  "proposal_ok i \<longleftrightarrow> distinct (map fst (ri_rubricCriteria i)) \<and> list_all (\<lambda>(c, m). column_points m \<and>
     (case index_by rc_criterionId (ri_criterionResults i) c of Some r \<Rightarrow> rc_points r \<le> m | None \<Rightarrow> True)) (ri_rubricCriteria i)"

lemma apply_to_criterion_id [simp]: "rc_criterionId (apply_to_criterion rule i cm) = fst cm"
  by (cases cm; cases rule) (auto simp: apply_to_criterion_def with_points_def Let_def split: option.split)

lemma apply_to_criterion_le:
  assumes "proposal_ok i" and "(c, m) \<in> set (ri_rubricCriteria i)"
  shows "rc_points (apply_to_criterion rule i (c, m)) \<le> m"
proof -
  have m: "column_points m" "(case index_by rc_criterionId (ri_criterionResults i) c of Some r \<Rightarrow> rc_points r | None \<Rightarrow> 0) \<le> m"
    using assms pointsFor_le[of m NotMet]
    by (auto simp: proposal_ok_def list_all_iff split: option.splits)
  then show ?thesis
    using pointsFor_le[OF m(1)]
    by (cases rule) (auto simp: apply_to_criterion_def with_points_def Let_def split: option.splits)
qed

lemma total_entries_ok:
  assumes "distinct (map rc_criterionId es)" and "\<And>e. e \<in> set es \<Longrightarrow> \<exists>m. byId (rc_criterionId e) = Some m \<and> rc_points e \<le> m"
    and "rc_criterionId ` set es \<inter> set seen = {}"
  shows "\<exists>t. total_entries byId es seen acc = Inr (seen @ map rc_criterionId es, t)"
  using assms
proof (induction byId es seen acc rule: total_entries.induct)
  case (2 byId e es seen acc)
  obtain m where m: "byId (rc_criterionId e) = Some m" "rc_points e \<le> m" using "2.prems"(2)[of e] by auto
  have s: "rc_criterionId e \<notin> set seen" using "2.prems"(3) by auto
  have a: "set_add (rc_criterionId e) seen = seen @ [rc_criterionId e]" using s by (simp add: set_add_def)
  have "\<exists>t. total_entries byId es (seen @ [rc_criterionId e]) (fl (acc + rc_points e)) =
      Inr ((seen @ [rc_criterionId e]) @ map rc_criterionId es, t)"
    unfolding a[symmetric]
  proof (rule "2.IH"[OF m(1) s])
    show "\<not> m < rc_points e" using m(2) by simp
    show "distinct (map rc_criterionId es)" using "2.prems"(1) by simp
    show "\<exists>m. byId (rc_criterionId e') = Some m \<and> rc_points e' \<le> m" if "e' \<in> set es" for e'
      using "2.prems"(2) that by simp
    show "rc_criterionId ` set es \<inter> set (set_add (rc_criterionId e) seen) = {}"
      using "2.prems"(1,3) by (auto simp: set_set_add)
  qed
  then show ?case using m s a by auto
qed simp

text \<open>
  A rule applied to a whole group is never refused halfway: unless the advocate is missing, it gives every
  criterion of the rubric its points, in order and within its maximum, so the review is accepted.
\<close>

theorem bulk_rule_accepted:
  assumes ok: "proposal_ok i"
  shows "case applyRule rule i of
      Inl e \<Rightarrow> rule = ApplyAdvocate \<and> ri_advocateOpinion i = None
    | Inr cs \<Rightarrow> map rc_criterionId cs = map fst (ri_rubricCriteria i) \<and>
        (\<exists>t. validateAndTotal (ri_rubricCriteria i) cs = Inr t)"
proof (cases "applyRule rule i")
  case (Inl e)
  then show ?thesis by (auto simp: applyRule_def split: if_splits)
next
  case (Inr cs)
  then have cs: "cs = map (apply_to_criterion rule i) (ri_rubricCriteria i)" by (auto simp: applyRule_def split: if_splits)
  then have ids: "map rc_criterionId cs = map fst (ri_rubricCriteria i)" by simp
  have d: "distinct (map fst (ri_rubricCriteria i))" using ok by (simp add: proposal_ok_def)
  have "\<exists>m. js_map (ri_rubricCriteria i) (rc_criterionId e) = Some m \<and> rc_points e \<le> m" if "e \<in> set cs" for e
  proof -
    from that cs obtain c m where cm: "(c, m) \<in> set (ri_rubricCriteria i)" "e = apply_to_criterion rule i (c, m)" by auto
    then have "js_map (ri_rubricCriteria i) c = Some m" using d by (simp add: js_map_distinct_eq)
    with cm apply_to_criterion_le[OF ok cm(1)] show ?thesis by simp
  qed
  then obtain t where "total_entries (js_map (ri_rubricCriteria i)) cs [] 0 = Inr ([] @ map rc_criterionId cs, t)"
    using total_entries_ok[of cs "js_map (ri_rubricCriteria i)" "[]" 0] ids d by auto
  then have "validateAndTotal (ri_rubricCriteria i) cs = Inr (js_round (fl (t * 100)))"
    using arg_cong[OF ids, of length] by (simp add: validateAndTotal_def)
  then show ?thesis using Inr ids by simp
qed

definition sample_rule_input :: rule_input where
  "sample_rule_input = \<lparr>ri_rubricCriteria = [(''c'', 10), (''d'', 5)],
     ri_criterionResults = [\<lparr>rc_criterionId = ''c'', rc_verdict = PartiallyMet, rc_points = 4\<rparr>],
     ri_advocateOpinion = Some [(''d'', PartiallyMet)]\<rparr>"

theorem bulk_rule_accepted_witness:
  "proposal_ok sample_rule_input \<and>
   (case applyRule ApplyAdvocate sample_rule_input of
      Inl e \<Rightarrow> ApplyAdvocate = ApplyAdvocate \<and> ri_advocateOpinion sample_rule_input = None
    | Inr cs \<Rightarrow> map rc_criterionId cs = map fst (ri_rubricCriteria sample_rule_input) \<and>
        (\<exists>t. validateAndTotal (ri_rubricCriteria sample_rule_input) cs = Inr t))"
proof -
  have "column_points 10" unfolding column_points_def using fl_int[of 10] by (intro exI[of _ 1000]) simp
  moreover have "column_points 5" unfolding column_points_def using fl_int[of 5] by (intro exI[of _ 500]) simp
  ultimately have ok: "proposal_ok sample_rule_input"
    by (simp add: proposal_ok_def sample_rule_input_def index_by_def js_map_def)
  from bulk_rule_accepted[OF ok, of ApplyAdvocate] ok show ?thesis by simp
qed

text \<open>Applying the advocate's advice, or a bonus that is not negative, never lowers a criterion.\<close>

lemma advocate_never_lowers:
  assumes "index_by rc_criterionId (ri_criterionResults i) c = Some r"
  shows "rc_points r \<le> rc_points (apply_to_criterion ApplyAdvocate i (c, m))"
  using assms by (auto simp: apply_to_criterion_def with_points_def Let_def split: option.split)

end
