(* ===== verification/Lifecycle.thy ===== *)
theory Lifecycle
  imports ScoreCore BulkRules
begin

text \<open>
  The life of one grading result: \<open>grading/lifecycle/grading-transitions.ts\<close>, the trigger that the migration
  \<open>database/migrations/1789460000000-GradingLifecycleV2.ts\<close> installs, and \<open>grading/lifecycle/advance.ts\<close>.
  A row of \<open>grading_result\<close> keeps the columns that some operation reads back; scores are hundredths, since
  the columns are \<open>numeric(6, 2)\<close> (\<open>Hundredths\<close> has the texts).
\<close>

section \<open>The statuses and their transitions\<close>

datatype grading_status =
  AiGrading | AiGraded | AutoApproved | AuditPending | FlaggedForReview | TeacherReviewed | FinalizedStatus | Exported

definition GRADING_STATUSES :: "grading_status list" where
  "GRADING_STATUSES = [AiGrading, AiGraded, AutoApproved, AuditPending, FlaggedForReview, TeacherReviewed,
     FinalizedStatus, Exported]"

definition GRADING_TRANSITIONS :: "(grading_status \<times> grading_status) list" where
  "GRADING_TRANSITIONS =
     [(AiGrading, AiGraded), (AiGrading, FlaggedForReview), (AiGraded, AutoApproved), (AiGraded, FlaggedForReview),
      (AutoApproved, AuditPending), (AuditPending, TeacherReviewed), (AutoApproved, FlaggedForReview),
      (AuditPending, FlaggedForReview), (FlaggedForReview, AutoApproved), (FlaggedForReview, AiGrading),
      (AutoApproved, TeacherReviewed), (FlaggedForReview, TeacherReviewed), (AutoApproved, FinalizedStatus),
      (TeacherReviewed, FinalizedStatus), (FinalizedStatus, Exported)]"

definition canTransition :: "grading_status \<Rightarrow> grading_status \<Rightarrow> bool" where
  "canTransition old new \<longleftrightarrow> (old, new) \<in> set GRADING_TRANSITIONS"

definition BLOCKS_FINALIZE :: "grading_status list" where
  "BLOCKS_FINALIZE = [AiGrading, AiGraded, FlaggedForReview, AuditPending]"

section \<open>Rows\<close>

record grading_row =
  gr_id :: key
  gr_session :: key
  gr_submission :: key
  gr_mssv :: key
  gr_rubric :: key
  gr_pipeline :: pipeline
  gr_status :: grading_status
  gr_flag :: bool
  gr_aiTotal :: "int option"
  gr_criteria :: "rule_criterion list"
  gr_advocate :: "(key \<times> criterion_verdict) list option"
  gr_ungradable :: "ungradable_class option"
  gr_reason :: "utext option"
  gr_attempt :: "nat option"
  gr_finalizedBy :: "key option"
  gr_finalizedComputation :: "nat option"
  gr_auditSampled :: bool

section \<open>The trigger\<close>

datatype trigger_error =
  NotCreatedInGrading | PipelineChanged | InvalidTransition grading_status grading_status | FinalizerMissing key | NotRegradable key

definition trigger_insert :: "grading_row \<Rightarrow> trigger_error option" where
  "trigger_insert new = (if gr_status new \<noteq> AiGrading then Some NotCreatedInGrading else None)"

definition transition_allowed :: "grading_status \<Rightarrow> grading_status \<Rightarrow> bool" where
  "transition_allowed old new \<longleftrightarrow>
     old = AiGrading \<and> new \<in> {AiGraded, FlaggedForReview} \<or>
     old = AiGraded \<and> new \<in> {AutoApproved, FlaggedForReview} \<or>
     old = AutoApproved \<and> new \<in> {AuditPending, FlaggedForReview, TeacherReviewed, FinalizedStatus} \<or>
     old = AuditPending \<and> new \<in> {TeacherReviewed, FlaggedForReview} \<or>
     old = FlaggedForReview \<and> new \<in> {AutoApproved, AiGrading, TeacherReviewed} \<or>
     old = TeacherReviewed \<and> new = FinalizedStatus \<or>
     old = FinalizedStatus \<and> new = Exported"

definition validate_lifecycle :: "grading_row \<Rightarrow> grading_row \<Rightarrow> trigger_error option" where
  "validate_lifecycle old new =
     (if gr_pipeline new \<noteq> gr_pipeline old then Some PipelineChanged
      else if gr_status new = gr_status old then None
      else if \<not> transition_allowed (gr_status old) (gr_status new) then
        Some (InvalidTransition (gr_status old) (gr_status new))
      else if gr_status new = FinalizedStatus \<and> gr_finalizedBy new = None then Some (FinalizerMissing (gr_id old))
      else if gr_status old = FlaggedForReview \<and> gr_status new = AiGrading \<and>
              (gr_aiTotal old \<noteq> None \<or> gr_ungradable old \<noteq> Some SystemFault) then Some (NotRegradable (gr_id old))
      else None)"

text \<open>The two copies of the table agree, which is the promise of the comment on \<open>GRADING_TRANSITIONS\<close>.\<close>

lemma transition_allowed_iff: "transition_allowed old new \<longleftrightarrow> canTransition old new"
  by (cases old; cases new) (simp_all add: transition_allowed_def canTransition_def GRADING_TRANSITIONS_def)

lemma GRADING_STATUSES_all: "set GRADING_STATUSES = UNIV"
  by (auto simp: GRADING_STATUSES_def) (metis grading_status.exhaust)

section \<open>The step relation of a status\<close>

inductive status_path :: "grading_status \<Rightarrow> grading_status \<Rightarrow> bool" where
  here: "status_path s s"
| step: "status_path s t \<Longrightarrow> canTransition t u \<Longrightarrow> status_path s u"

inductive_cases status_pathE: "status_path s t"

lemma status_path_trans: "status_path t u \<Longrightarrow> status_path s t \<Longrightarrow> status_path s u"
  by (induction rule: status_path.induct) (auto intro: status_path.step)

lemma status_path_canTransition: "canTransition s t \<Longrightarrow> status_path s t"
  by (rule status_path.step[OF status_path.here])

definition published :: "grading_status \<Rightarrow> bool" where
  "published s \<longleftrightarrow> s = FinalizedStatus \<or> s = Exported"

lemma published_closed: "status_path s t \<Longrightarrow> published s \<Longrightarrow> published t"
  by (induction rule: status_path.induct) (auto simp: published_def canTransition_def GRADING_TRANSITIONS_def)

text \<open>
  C15. A published result stays published, a result that blocks finalizing never becomes final in one step, and
  every result can still become final: no status is a dead end.
\<close>

theorem lifecycle_table:
  "(transition_allowed old new \<longleftrightarrow> canTransition old new) \<and>
   {t. \<exists>s. published s \<and> status_path s t} = {FinalizedStatus, Exported} \<and>
   {s. canTransition s FinalizedStatus} = - set BLOCKS_FINALIZE - {FinalizedStatus, Exported} \<and>
   (status_path s FinalizedStatus \<longleftrightarrow> s \<noteq> Exported)"
proof (intro conjI)
  show "transition_allowed old new \<longleftrightarrow> canTransition old new" by (rule transition_allowed_iff)
  show "{t. \<exists>s. published s \<and> status_path s t} = {FinalizedStatus, Exported}"
    using published_closed by (auto simp: published_def intro: status_path.here)
  show "{s. canTransition s FinalizedStatus} = - set BLOCKS_FINALIZE - {FinalizedStatus, Exported}"
  proof (rule set_eqI)
    fix s show "s \<in> {s. canTransition s FinalizedStatus} \<longleftrightarrow> s \<in> - set BLOCKS_FINALIZE - {FinalizedStatus, Exported}"
      by (cases s) (simp_all add: canTransition_def GRADING_TRANSITIONS_def BLOCKS_FINALIZE_def)
  qed
  have t: "canTransition TeacherReviewed FinalizedStatus" "canTransition FlaggedForReview TeacherReviewed"
    "canTransition AuditPending TeacherReviewed" "canTransition AutoApproved FinalizedStatus"
    "canTransition AiGraded FlaggedForReview" "canTransition AiGrading FlaggedForReview"
    by (simp_all add: canTransition_def GRADING_TRANSITIONS_def)
  have f: "status_path TeacherReviewed FinalizedStatus" "status_path FlaggedForReview FinalizedStatus"
    using t by (blast intro: status_path.intros)+
  have "status_path s FinalizedStatus" if "s \<noteq> Exported"
    using that f t by (cases s) (auto intro: status_path.here status_path_canTransition status_path_trans)
  moreover have "t = Exported" if "status_path s t" "s = Exported" for t
    using that by (induction rule: status_path.induct) (auto simp: canTransition_def GRADING_TRANSITIONS_def)
  ultimately show "status_path s FinalizedStatus \<longleftrightarrow> s \<noteq> Exported" by blast
qed

end
