(* ===== verification/BreakerVerdict.thy ===== *)
theory BreakerVerdict
  imports JsNumber
begin

text \<open>
  \<open>auto-breaker/breaker-verdict.ts\<close>: the test that decides whether the disagreements of a blind audit open a
  breaker. Counts are natural numbers, which is what \<open>assertCount\<close> asks for. The results of \<open>Math.log\<close>,
  \<open>Math.log1p\<close>, \<open>Math.exp\<close> and \<open>**\<close> are implementation-approximated in ECMAScript, so they are a parameter;
  sums, products and quotients are rounded doubles.
\<close>

record js_math =
  jm_log :: "rat \<Rightarrow> rat"
  jm_log1p :: "rat \<Rightarrow> rat"
  jm_exp :: "rat \<Rightarrow> rat"
  jm_pow :: "rat \<Rightarrow> nat \<Rightarrow> rat"

datatype range_error = MoreThanCounted nat nat | NotAProbability rat

definition BREAKER_P0 :: rat where
  "BREAKER_P0 = fl (5 / 100)"

definition BREAKER_ALPHA :: rat where
  "BREAKER_ALPHA = fl (5 / 100)"

definition logChoose :: "js_math \<Rightarrow> nat \<Rightarrow> nat \<Rightarrow> rat" where
  "logChoose math n k =
     (let m = min k (n - k)
      in foldl (\<lambda>sum i. fl (sum + jm_log math (fl (of_nat (n - m + i) / of_nat i)))) 0 [1..<Suc m])"

text \<open>The logarithm of the next term of the tail.\<close>

definition next_term :: "js_math \<Rightarrow> nat \<Rightarrow> rat \<Rightarrow> rat \<Rightarrow> nat \<Rightarrow> rat" where
  "next_term math n logRatio current k =
     fl (current + fl (jm_log math (fl (of_nat (n - k) / of_nat (k + 1))) + logRatio))"

fun max_loop :: "js_math \<Rightarrow> nat \<Rightarrow> rat \<Rightarrow> nat list \<Rightarrow> rat \<Rightarrow> rat \<Rightarrow> rat" where
  "max_loop math n logRatio [] current biggest = biggest"
| "max_loop math n logRatio (k # ks) current biggest =
     (let next = next_term math n logRatio current k
      in max_loop math n logRatio ks next (if biggest < next then next else biggest))"

fun sum_loop :: "js_math \<Rightarrow> nat \<Rightarrow> rat \<Rightarrow> rat \<Rightarrow> nat list \<Rightarrow> rat \<Rightarrow> rat \<Rightarrow> rat" where
  "sum_loop math n logRatio biggest [] current acc = acc"
| "sum_loop math n logRatio biggest (k # ks) current acc =
     (let next = next_term math n logRatio current k
      in sum_loop math n logRatio biggest ks next (fl (acc + jm_exp math (fl (next - biggest)))))"

definition binomialTailAtLeast :: "js_math \<Rightarrow> nat \<Rightarrow> nat \<Rightarrow> rat \<Rightarrow> range_error + rat" where
  "binomialTailAtLeast math n d p =
     (if n < d then Inl (MoreThanCounted d n)
      else if \<not> (0 \<le> p \<and> p \<le> 1) then Inl (NotAProbability p)
      else if d = 0 then Inr 1
      else if p = 0 then Inr 0
      else if p = 1 then Inr 1
      else if d = n then Inr (jm_pow math p n)
      else
        (let logP = jm_log math p; logQ = jm_log1p math (- p); logRatio = fl (logP - logQ);
             first = fl (fl (logChoose math n d + fl (of_nat d * logP)) + fl (of_nat (n - d) * logQ));
             biggest = max_loop math n logRatio [d..<n] first first;
             total = sum_loop math n logRatio biggest [d..<n] first (jm_exp math (fl (first - biggest)))
         in Inr (min 1 (fl (jm_exp math biggest * total)))))"

definition breakerVerdict :: "js_math \<Rightarrow> nat \<Rightarrow> nat \<Rightarrow> range_error + bool \<times> rat" where
  "breakerVerdict math n disagreements =
     (case binomialTailAtLeast math n disagreements BREAKER_P0 of
        Inl e \<Rightarrow> Inl e
      | Inr pValue \<Rightarrow> Inr (pValue < BREAKER_ALPHA, pValue))"

section \<open>The verdict\<close>

lemma BREAKER_P0_range: "0 < BREAKER_P0" "BREAKER_P0 < 1"
proof -
  have "fl (1 / 100) \<le> BREAKER_P0" unfolding BREAKER_P0_def by (rule fl_mono) simp
  moreover have "(1 :: rat) / 100 * (1 - 1 / 2 ^ 53) \<le> fl (1 / 100)" by (rule double.rnd_lower) simp
  ultimately show "0 < BREAKER_P0" by simp
  have "BREAKER_P0 \<le> 5 / 100 * (1 + 1 / 2 ^ 53)" unfolding BREAKER_P0_def by (rule double.rnd_upper) simp
  then show "BREAKER_P0 < 1" by simp
qed

lemma breakerVerdict_total: "d \<le> n \<Longrightarrow> \<exists>v. breakerVerdict math n d = Inr v"
  using BREAKER_P0_range by (auto simp: breakerVerdict_def binomialTailAtLeast_def Let_def)

lemma BREAKER_ALPHA_P0: "BREAKER_ALPHA = BREAKER_P0"
  by (simp add: BREAKER_ALPHA_def BREAKER_P0_def)

lemma no_disagreement_no_trip: "breakerVerdict math n 0 = Inr (False, 1)"
  using BREAKER_P0_range by (simp add: breakerVerdict_def binomialTailAtLeast_def BREAKER_ALPHA_P0)

text \<open>The largest term is subtracted before the exponential, so its argument is never positive.\<close>

lemma max_loop_ge: "biggest \<le> max_loop math n r ks current biggest"
  by (induction ks arbitrary: current biggest) (auto simp: Let_def intro: order_trans less_imp_le)

lemma sum_loop_nonneg:
  assumes "\<And>x. 0 \<le> jm_exp math x" and "0 \<le> acc"
  shows "0 \<le> sum_loop math n r b ks current acc"
  using assms(2)
proof (induction ks arbitrary: current acc)
  case (Cons k ks)
  have "0 \<le> fl (acc + jm_exp math x)" for x
    using Cons.prems assms(1)[of x] by (intro double.rnd_nonneg) simp
  then show ?case by (simp add: Let_def Cons.IH)
qed simp

lemma breakerVerdict_range:
  assumes "\<And>x. 0 \<le> jm_exp math x" and "\<And>k. 0 \<le> jm_pow math BREAKER_P0 k \<and> jm_pow math BREAKER_P0 k \<le> 1"
    and "breakerVerdict math n d = Inr (trip, pValue)"
  shows "0 \<le> pValue \<and> pValue \<le> 1"
  using assms(3) sum_loop_nonneg[OF assms(1)] assms(1,2)
  by (auto simp: breakerVerdict_def binomialTailAtLeast_def Let_def min_def split: if_splits sum.splits
      intro!: double.rnd_nonneg mult_nonneg_nonneg)

end
