(* ===== verification/Ledger.thy ===== *)
theory Ledger
  imports Transactions Lifecycle ReviewGroups AuditSampling Envelope BreakerVerdict
begin

text \<open>
  The database of grading results as the services of \<open>grading/\<close> change it. One ledger is what the advisory
  lock of one teacher (\<open>scoring/teacher-lock.ts\<close>) protects: the results of all their sessions with their
  attempts, computations, reviews, labels and breakers, and the audit log. A service method is a transaction;
  its SQL reads and its writes are the reads and updates of the record.

  Rows are kept in the order of their ids, which is the order the queries ask for. A row of another table is
  referred to by its position: \<open>score_computation\<close>, \<open>teacher_review\<close> and \<open>grading_attempt\<close> are append-only
  and their timestamps (\<open>clock_timestamp()\<close> under the lock) are in the order of insertion, so \<open>ORDER BY
  created_at DESC LIMIT 1\<close> is the last one. Columns that nothing reads back (model names, tokens, times,
  confidence) are left out.
\<close>

section \<open>Tables\<close>

datatype attempt_outcome = AttemptGraded stored_investigation | AttemptUngradable ungradable_class utext

record attempt =
  at_result :: key
  at_outcome :: "attempt_outcome option"

datatype computation_reason =
  Initial | PriceChange | RuleRevision | Tier2Rule | Tier3Rule | CaseDropped | ErrorExceptionReason |
  FinalizedReapply | CriterionWaiver | SessionRuleSet | AutoRuleTripped

record computation =
  cm_result :: key
  cm_price :: "nat option"
  cm_reason :: computation_reason
  cm_score :: "int option"
  cm_breakdown :: score_breakdown
  cm_actor :: "key option"

datatype review_kind = ReviewKind | ErrorExceptionKind | ManualScoreKind | BulkAccept | SystemConfirm

record teacher_review =
  tr_result :: key
  tr_teacher :: key
  tr_kind :: review_kind
  tr_finalScore :: "int option"
  tr_errorRule :: "key option"
  tr_direction :: "rule_exception option"
  tr_confirmed :: "nat option"
  tr_criteria :: "rule_criterion list"
  tr_note :: "utext option"

datatype breaker_scope = RuleScope key | NoErrorScope

datatype label_event = LabelOf breaker_scope bool | ResetOf breaker_scope

datatype audit_action = ScoreEditedAfterFinalize | ManualScoreAfterFinalize | ScoreReappliedAfterFinalize

record audit_entry =
  ae_actor :: key
  ae_action :: audit_action
  ae_target :: key
  ae_old :: "int option"
  ae_new :: "int option"

record ledger =
  lg_rows :: "grading_row list"
  lg_attempts :: "attempt list"
  lg_computations :: "computation list"
  lg_reviews :: "teacher_review list"
  lg_sampleReviews :: "(key \<times> key list \<times> utext list) list"
  lg_labels :: "label_event list"
  lg_breakers :: "breaker_scope list"
  lg_audit :: "audit_entry list"
  lg_pins :: "key \<Rightarrow> nat option"

text \<open>
  What the transactions read besides: the tables of rules, prices and rubrics, the settings, and the
  functions of \<open>Math\<close>. \<open>io_input\<close> is the part of
  \<open>loadScoreContext\<close> and \<open>loadRuleSnapshots\<close> that reads those tables.
\<close>

record ledger_io =
  io_input :: "grading_row \<Rightarrow> stored_investigation \<Rightarrow> score_core_input"
  io_currentPrice :: "nat option"
  io_blockedKeys :: "key list"
  io_noErrorEnabled :: bool
  io_ruleKey :: "key \<Rightarrow> key"
  io_criteria :: "key \<Rightarrow> (key \<times> rat) list"
  io_rubric :: "key \<Rightarrow> scoring_criterion list"
  io_rubricName :: "key \<Rightarrow> key"
  io_prices :: "key \<Rightarrow> key \<Rightarrow> int option"
  io_sampling :: audit_sampling
  io_minPerSession :: int
  io_sha256 :: digest
  io_seed :: "key \<Rightarrow> string"
  io_activeRules :: "key list"
  io_math :: js_math
  io_say :: "reason \<Rightarrow> utext"
  io_belowFloor :: utext

datatype ledger_error =
    TriggerRejected trigger_error | DuplicateRow key | NoSuchResult key
  | NotInitial | InitialBelowFloor | NoGradedAttempt | CoreFailed core_error | NotRunning | LeftAiGrading
  | OnlyOneShot | NotYetGraded | BadTotal total_error
  | NotEditable grading_status | OnlyInvestigator | ErrorNotInComputation | NotADecimal | AboveMaximum int
  | NothingGraded | StillBlocking nat | WithoutScore nat | MovedMeanwhile
  | GroupGone | NotInSession | MovedToOtherGroup | ComputationMoved
  | BlankExtra | LongExtra | SampleLocked | NotSampled | ForeignRule
  | SeveralRubrics | CriterionNotInRubric
  | SessionNotFinalized | NowUnpriced nat | RepriceFailed score_error
  | BreakerAlreadyReset | BreakerRange range_error

type_synonym 'a ledger_tx = "(ledger, ledger_error, 'a) tx"

section \<open>Reads\<close>

definition find_row :: "ledger \<Rightarrow> key \<Rightarrow> grading_row option" where
  "find_row lg rid = find (\<lambda>r. gr_id r = rid) (lg_rows lg)"

definition rowT :: "key \<Rightarrow> grading_row ledger_tx" where
  "rowT rid = bindT (getT (\<lambda>lg. find_row lg rid)) (\<lambda>r. case r of None \<Rightarrow> failT (NoSuchResult rid) | Some r \<Rightarrow> retT r)"

definition attempt_at :: "ledger \<Rightarrow> nat \<Rightarrow> attempt option" where
  "attempt_at lg a = (if a < length (lg_attempts lg) then Some (lg_attempts lg ! a) else None)"

definition graded_attempt :: "ledger \<Rightarrow> grading_row \<Rightarrow> stored_investigation option" where
  "graded_attempt lg r =
     (case Option.bind (gr_attempt r) (attempt_at lg) of
        Some a \<Rightarrow> (case at_outcome a of Some (AttemptGraded s) \<Rightarrow> Some s | _ \<Rightarrow> None)
      | None \<Rightarrow> None)"

definition last_position :: "('a \<Rightarrow> bool) \<Rightarrow> 'a list \<Rightarrow> nat option" where
  "last_position P xs = (case filter (\<lambda>i. P (xs ! i)) (rev [0..<length xs]) of [] \<Rightarrow> None | i # _ \<Rightarrow> Some i)"

definition latestComputationRow :: "ledger \<Rightarrow> key \<Rightarrow> (nat \<times> computation) option" where
  "latestComputationRow lg rid =
     map_option (\<lambda>i. (i, lg_computations lg ! i)) (last_position (\<lambda>c. cm_result c = rid) (lg_computations lg))"

definition latest_review :: "(teacher_review \<Rightarrow> bool) \<Rightarrow> ledger \<Rightarrow> key \<Rightarrow> teacher_review option" where
  "latest_review P lg rid = find (\<lambda>t. tr_result t = rid \<and> P t) (rev (lg_reviews lg))"

definition has_manual :: "ledger \<Rightarrow> key \<Rightarrow> bool" where
  "has_manual lg rid \<longleftrightarrow> list_ex (\<lambda>t. tr_result t = rid \<and> tr_kind t = ManualScoreKind) (lg_reviews lg)"

definition session_rows :: "key \<Rightarrow> ledger \<Rightarrow> grading_row list" where
  "session_rows session lg = filter (\<lambda>r. gr_session r = session) (lg_rows lg)"

text \<open>\<open>loadCurrentScore\<close>, over hundredths instead of the texts of the columns.\<close>

definition current_input :: "ledger \<Rightarrow> grading_row \<Rightarrow> int current_score_input" where
  "current_input lg r =
     \<lparr>cs_pipeline = gr_pipeline r, cs_aiTotalScore = gr_aiTotal r,
      cs_latestScoredReview = Option.bind (latest_review (\<lambda>t. tr_finalScore t \<noteq> None) lg (gr_id r)) tr_finalScore,
      cs_latestManualScore = Option.bind (latest_review (\<lambda>t. tr_kind t = ManualScoreKind) lg (gr_id r)) tr_finalScore,
      cs_finalized = published (gr_status r),
      cs_finalizedComputationScore = Option.bind (gr_finalizedComputation r)
        (\<lambda>i. if i < length (lg_computations lg) then cm_score (lg_computations lg ! i) else None),
      cs_latestComputationScore = Option.bind (latestComputationRow lg (gr_id r)) (\<lambda>(i, c). cm_score c)\<rparr>"

definition loadCurrentScore :: "ledger \<Rightarrow> grading_row \<Rightarrow> int option \<times> score_source" where
  "loadCurrentScore lg r = currentScore id (current_input lg r)"

text \<open>\<open>DISTINCT ON (error_rule_id)\<close>: the newest exception of each rule.\<close>

definition exceptions_of :: "ledger \<Rightarrow> key \<Rightarrow> key \<Rightarrow> rule_exception option" where
  "exceptions_of lg rid =
     js_map (List.map_filter (\<lambda>t. if tr_result t = rid \<and> tr_kind t = ErrorExceptionKind then
         (case (tr_errorRule t, tr_direction t) of (Some r, Some d) \<Rightarrow> Some (r, d) | _ \<Rightarrow> None) else None)
       (lg_reviews lg))"

definition open_rule_keys :: "ledger_io \<Rightarrow> ledger \<Rightarrow> key list" where
  "open_rule_keys io lg = List.map_filter (\<lambda>s. case s of RuleScope r \<Rightarrow> Some (io_ruleKey io r) | NoErrorScope \<Rightarrow> None) (lg_breakers lg)"

section \<open>Updates\<close>

text \<open>\<open>UPDATE grading_result SET f WHERE cond\<close>, with the trigger; the number of rows it changed.\<close>

definition update_rows :: "(grading_row \<Rightarrow> bool) \<Rightarrow> (grading_row \<Rightarrow> grading_row) \<Rightarrow> nat ledger_tx" where
  "update_rows cond f lg =
     (case List.map_filter (\<lambda>r. validate_lifecycle r (f r)) (filter cond (lg_rows lg)) of
        e # _ \<Rightarrow> Inl (TriggerRejected e)
      | [] \<Rightarrow> Inr (length (filter cond (lg_rows lg)), lg\<lparr>lg_rows := map (\<lambda>r. if cond r then f r else r) (lg_rows lg)\<rparr>))"

record advance_extra =
  ax_finalizedBy :: "key option"
  ax_finalizedComputation :: "nat option option"
  ax_auditSampled :: "bool option"
  ax_flag :: "bool option"

definition no_extra :: advance_extra where
  "no_extra = \<lparr>ax_finalizedBy = None, ax_finalizedComputation = None, ax_auditSampled = None, ax_flag = None\<rparr>"

definition apply_extra :: "grading_status \<Rightarrow> advance_extra \<Rightarrow> grading_row \<Rightarrow> grading_row" where
  "apply_extra to x r =
     r\<lparr>gr_status := to,
       gr_finalizedBy := (case ax_finalizedBy x of Some k \<Rightarrow> Some k | None \<Rightarrow> gr_finalizedBy r),
       gr_finalizedComputation := (case ax_finalizedComputation x of Some c \<Rightarrow> c | None \<Rightarrow> gr_finalizedComputation r),
       gr_auditSampled := (case ax_auditSampled x of Some b \<Rightarrow> b | None \<Rightarrow> gr_auditSampled r),
       gr_flag := (case ax_flag x of Some b \<Rightarrow> b | None \<Rightarrow> gr_flag r)\<rparr>"

definition advanceStatus :: "key \<Rightarrow> grading_status list \<Rightarrow> grading_status \<Rightarrow> advance_extra \<Rightarrow> bool ledger_tx" where
  "advanceStatus rid from to extra =
     bindT (update_rows (\<lambda>r. gr_id r = rid \<and> gr_status r \<in> set from) (apply_extra to extra)) (\<lambda>n. retT (0 < n))"

definition add_review :: "teacher_review \<Rightarrow> unit ledger_tx" where
  "add_review t = modifyT (\<lambda>lg. lg\<lparr>lg_reviews := lg_reviews lg @ [t]\<rparr>)"

definition recordUserAction :: "audit_entry \<Rightarrow> unit ledger_tx" where
  "recordUserAction e = modifyT (\<lambda>lg. lg\<lparr>lg_audit := lg_audit lg @ [e]\<rparr>)"

definition insertComputation ::
  "ledger_io \<Rightarrow> key \<Rightarrow> computation_reason \<Rightarrow> key option \<Rightarrow> int option \<Rightarrow> score_breakdown \<Rightarrow> nat ledger_tx" where
  "insertComputation io rid reason actor score b =
     bindT (getT (\<lambda>lg. length (lg_computations lg))) (\<lambda>i.
     thenT (modifyT (\<lambda>lg. lg\<lparr>lg_computations := lg_computations lg @
         [\<lparr>cm_result = rid, cm_price = io_currentPrice io, cm_reason = reason, cm_score = score, cm_breakdown = b,
           cm_actor = actor\<rparr>]\<rparr>))
     (retT i))"

section \<open>score.service.ts\<close>

definition core_input :: "ledger_io \<Rightarrow> ledger \<Rightarrow> grading_row \<Rightarrow> stored_investigation \<Rightarrow> score_core_input" where
  "core_input io lg r stored =
     (io_input io r stored)\<lparr>sci_stored := stored, sci_exceptions := exceptions_of lg (gr_id r),
        sci_autoBlocked := Some (uniq (io_blockedKeys io @ open_rule_keys io lg)),
        sci_autoNoError := Some (io_noErrorEnabled io \<and> NoErrorScope \<notin> set (lg_breakers lg))\<rparr>"

definition compute :: "ledger_io \<Rightarrow> grading_row \<Rightarrow> stored_investigation option \<Rightarrow> score_core_output ledger_tx" where
  "compute io r stored =
     (case stored of
        None \<Rightarrow> failT NoGradedAttempt
      | Some s \<Rightarrow> bindT (getT (\<lambda>lg. computeScore (core_input io lg r s))) (liftT CoreFailed))"

definition finish_attempt :: "nat \<Rightarrow> attempt_outcome \<Rightarrow> unit ledger_tx" where
  "finish_attempt a out =
     modifyT (\<lambda>lg. lg\<lparr>lg_attempts := map (\<lambda>(i, t). if i = a \<and> at_outcome t = None then t\<lparr>at_outcome := Some out\<rparr> else t)
       (enumerate 0 (lg_attempts lg))\<rparr>)"

definition drawn_for_audit :: "ledger_io \<Rightarrow> grading_row \<Rightarrow> bool" where
  "drawn_for_audit io r \<longleftrightarrow> as_enabled (io_sampling io) \<and>
     drawnForStudentAudit (io_sha256 io) (io_seed io (gr_session r)) (gr_mssv r) (as_percent (io_sampling io))"

definition sampled_extra :: "bool \<Rightarrow> advance_extra" where
  "sampled_extra b = no_extra\<lparr>ax_auditSampled := Some b\<rparr>"

definition flag_extra :: "bool \<Rightarrow> advance_extra" where
  "flag_extra b = no_extra\<lparr>ax_flag := Some b\<rparr>"

definition topUpSessionAudit :: "ledger_io \<Rightarrow> key \<Rightarrow> unit ledger_tx" where
  "topUpSessionAudit io session =
     (if \<not> as_enabled (io_sampling io) \<or> io_minPerSession io = 0 then retT ()
      else bindT (getT (session_rows session)) (\<lambda>all.
        if list_ex (\<lambda>r. gr_status r \<in> {AiGrading, AiGraded}) all then retT ()
        else
          (let rows = filter (\<lambda>r. gr_status r \<in> {AutoApproved, AuditPending}) all;
               sampled = map gr_mssv (filter gr_auditSampled rows);
               wanted = map js_lower (ensureSessionMinimum (io_sha256 io) sampled (map gr_mssv rows) (io_minPerSession io))
           in forT (\<lambda>r.
                if gr_status r \<noteq> AutoApproved \<or> js_lower (gr_mssv r) \<in> set (map js_lower sampled) \<or>
                   js_lower (gr_mssv r) \<notin> set wanted then retT ()
                else bindT (advanceStatus (gr_id r) [AutoApproved] AuditPending (sampled_extra True)) (\<lambda>_. retT ())) rows)))"

text \<open>The second half of \<open>writeInitial\<close>: the first status, and the draw of the audit.\<close>

definition settleInitial :: "ledger_io \<Rightarrow> grading_row \<Rightarrow> bool \<Rightarrow> unit ledger_tx" where
  "settleInitial io ctx auto =
     bindT (advanceStatus (gr_id ctx) [AiGraded] (if auto then AutoApproved else FlaggedForReview) (flag_extra (\<not> auto))) (\<lambda>_.
     bindT (if auto \<and> drawn_for_audit io ctx
            then advanceStatus (gr_id ctx) [AutoApproved] AuditPending (sampled_extra True) else retT False) (\<lambda>_.
     topUpSessionAudit io (gr_session ctx)))"

definition graded_update :: "int \<Rightarrow> grading_row \<Rightarrow> grading_row" where
  "graded_update score r = r\<lparr>gr_status := AiGraded, gr_aiTotal := Some score, gr_ungradable := None, gr_reason := None\<rparr>"

definition writeInitial ::
  "ledger_io \<Rightarrow> grading_row \<Rightarrow> score_core_output \<Rightarrow> int \<Rightarrow> (decision_outcome \<times> nat \<times> int) ledger_tx" where
  "writeInitial io ctx out score =
     bindT (insertComputation io (gr_id ctx) Initial None (sco_score out) (sco_breakdown out)) (\<lambda>c.
     bindT (update_rows (\<lambda>r. gr_id r = gr_id ctx \<and> gr_status r = AiGrading) (graded_update score)) (\<lambda>wrote.
     thenT (unlessT (0 < wrote) LeftAiGrading)
     (thenT (settleInitial io ctx (sco_outcome out = Auto))
      (retT (if sco_outcome out = Auto then Auto else Flagged, c, score)))))"

definition lockRunning :: "key \<Rightarrow> nat \<Rightarrow> grading_row ledger_tx" where
  "lockRunning rid a =
     bindT (getT (\<lambda>lg. (find_row lg rid, Option.bind (attempt_at lg a) at_outcome))) (\<lambda>(row, outcome).
     case row of
       None \<Rightarrow> failT NotRunning
     | Some r \<Rightarrow>
         if gr_pipeline r \<noteq> Investigator \<or> gr_status r \<noteq> AiGrading \<or> gr_attempt r \<noteq> Some a \<or> outcome \<noteq> None
         then failT NotRunning else retT r)"

definition ungradable_update :: "ungradable_class \<Rightarrow> utext \<Rightarrow> grading_row \<Rightarrow> grading_row" where
  "ungradable_update c why r =
     r\<lparr>gr_status := FlaggedForReview, gr_flag := True, gr_ungradable := Some c, gr_reason := Some why\<rparr>"

definition closeUngradable :: "key \<Rightarrow> nat \<Rightarrow> ungradable_class \<Rightarrow> utext \<Rightarrow> unit ledger_tx" where
  "closeUngradable rid a c why =
     thenT (finish_attempt a (AttemptUngradable c why))
     (bindT (update_rows (\<lambda>r. gr_id r = rid \<and> gr_status r = AiGrading) (ungradable_update c why)) (\<lambda>n.
      unlessT (0 < n) LeftAiGrading))"

definition computeInitial :: "ledger_io \<Rightarrow> key \<Rightarrow> (decision_outcome \<times> nat \<times> int) ledger_tx" where
  "computeInitial io rid =
     bindT (rowT rid) (\<lambda>r.
     bindT (getT (\<lambda>lg. graded_attempt lg r)) (\<lambda>stored.
     if gr_pipeline r \<noteq> Investigator \<or> gr_status r \<noteq> AiGrading \<or> stored = None then failT NotInitial
     else bindT (compute io r stored) (\<lambda>out.
       (case sco_score out of
          None \<Rightarrow> failT InitialBelowFloor
        | Some score \<Rightarrow> if sco_outcome out = Ungradable then failT InitialBelowFloor else writeInitial io r out score))))"

datatype finish_outcome = FinishScored decision_outcome nat int | FinishUngradable ungradable_class utext

definition finishAttempt :: "ledger_io \<Rightarrow> key \<Rightarrow> nat \<Rightarrow> stored_investigation \<Rightarrow> finish_outcome ledger_tx" where
  "finishAttempt io rid a stored =
     bindT (lockRunning rid a) (\<lambda>r.
     let close = (\<lambda>c why. thenT (closeUngradable rid a c why) (retT (FinishUngradable c why)));
         result = si_result stored
     in if ir_kind result = KUngradable then
          (case ir_ungradable result of
             Some u \<Rightarrow> close (ug_class u) (io_say io (ug_reason u))
           | None \<Rightarrow> close SystemFault (io_say io NoConclusion))
        else bindT (compute io r (Some stored)) (\<lambda>out.
          case (if sco_outcome out = Ungradable then None else sco_score out) of
            None \<Rightarrow>
              (case sco_ungradable out of
                 Some u \<Rightarrow> close (ug_class u) (io_say io (ug_reason u))
               | None \<Rightarrow> close SystemFault (io_belowFloor io))
          | Some score \<Rightarrow>
              thenT (finish_attempt a (AttemptGraded stored))
              (bindT (writeInitial io r out score) (\<lambda>(o1, c, s). retT (FinishScored o1 c s)))))"

definition finishUngradable :: "key \<Rightarrow> nat \<Rightarrow> ungradable_class \<Rightarrow> utext \<Rightarrow> unit ledger_tx" where
  "finishUngradable rid a c why = bindT (lockRunning rid a) (\<lambda>_. closeUngradable rid a c why)"

definition recomputeOne ::
  "ledger_io \<Rightarrow> key \<Rightarrow> computation_reason \<Rightarrow> key option \<Rightarrow> score_core_output ledger_tx" where
  "recomputeOne io rid reason actor =
     bindT (rowT rid) (\<lambda>r.
     bindT (getT (\<lambda>lg. graded_attempt lg r)) (\<lambda>stored.
     bindT (compute io r stored) (\<lambda>out.
     bindT (insertComputation io rid reason actor (sco_score out) (sco_breakdown out)) (\<lambda>_. retT out))))"

datatype moved = Promoted | Demoted

definition ruleLayerTransition :: "key \<Rightarrow> score_core_output \<Rightarrow> moved option ledger_tx" where
  "ruleLayerTransition rid out =
     (if sco_outcome out = Auto then
        bindT (rowT rid) (\<lambda>r.
          if gr_ungradable r \<noteq> None then retT None
          else bindT (advanceStatus rid [FlaggedForReview] AutoApproved (flag_extra False)) (\<lambda>promoted.
            retT (if promoted then Some Promoted else None)))
      else
        bindT (advanceStatus rid [AutoApproved] FlaggedForReview (flag_extra True)) (\<lambda>demoted.
          if demoted then retT (Some Demoted)
          else bindT (advanceStatus rid [AuditPending] FlaggedForReview
                 (no_extra\<lparr>ax_flag := Some True, ax_auditSampled := Some False\<rparr>)) (\<lambda>unsampled.
            retT (if unsampled then Some Demoted else None))))"

record recompute_scope =
  sp_rule :: "key option"
  sp_rubric :: "key option"
  sp_rubricName :: "key option"
  sp_session :: "key option"
  sp_except :: "key option"
  sp_noErrors :: bool

definition in_scope :: "ledger_io \<Rightarrow> recompute_scope \<Rightarrow> ledger \<Rightarrow> grading_row \<Rightarrow> bool" where
  "in_scope io sp lg r \<longleftrightarrow>
     graded_attempt lg r \<noteq> None \<and> gr_pipeline r = Investigator \<and>
     gr_status r \<in> {AutoApproved, AuditPending, FlaggedForReview, TeacherReviewed} \<and>
     \<not> has_manual lg (gr_id r) \<and>
     (case sp_rubric sp of Some k \<Rightarrow> gr_rubric r = k | None \<Rightarrow> True) \<and>
     (case sp_session sp of Some k \<Rightarrow> gr_session r = k | None \<Rightarrow> True) \<and>
     (case sp_except sp of Some k \<Rightarrow> gr_id r \<noteq> k | None \<Rightarrow> True) \<and>
     (case sp_rubricName sp of Some n \<Rightarrow> io_rubricName io (gr_rubric r) = n | None \<Rightarrow> True) \<and>
     (case sp_rule sp of
        Some k \<Rightarrow> (case latestComputationRow lg (gr_id r) of
                    Some (_, c) \<Rightarrow> list_ex (\<lambda>e. be_ruleId e = k) (sb_errors (cm_breakdown c)) | None \<Rightarrow> False)
      | None \<Rightarrow> True) \<and>
     (if sp_noErrors sp then (case latestComputationRow lg (gr_id r) of
         Some (_, c) \<Rightarrow> sb_errors (cm_breakdown c) = [] | None \<Rightarrow> False) else True)"

record recompute_summary =
  rs_recomputed :: nat
  rs_promoted :: nat
  rs_demoted :: nat
  rs_belowFloor :: nat

definition recomputeForTeacher ::
  "ledger_io \<Rightarrow> computation_reason \<Rightarrow> key option \<Rightarrow> recompute_scope \<Rightarrow> recompute_summary ledger_tx" where
  "recomputeForTeacher io reason actor sp =
     bindT (getT (\<lambda>lg. map gr_id (filter (in_scope io sp lg) (lg_rows lg)))) (\<lambda>ids.
     foldT (\<lambda>rid sum.
       bindT (recomputeOne io rid reason actor) (\<lambda>out.
       bindT (ruleLayerTransition rid out) (\<lambda>moved.
       retT (sum\<lparr>rs_recomputed := rs_recomputed sum + 1,
              rs_belowFloor := rs_belowFloor sum + (if sco_score out = None then 1 else 0),
              rs_promoted := rs_promoted sum + (if moved = Some Promoted then 1 else 0),
              rs_demoted := rs_demoted sum + (if moved = Some Demoted then 1 else 0)\<rparr>))))
       ids \<lparr>rs_recomputed = 0, rs_promoted = 0, rs_demoted = 0, rs_belowFloor = 0\<rparr>)"

record reapply_item =
  rp_result :: key
  rp_old :: int
  rp_new :: int
  rp_breakdown :: score_breakdown

definition plan_rows :: "key \<Rightarrow> ledger \<Rightarrow> (grading_row \<times> computation \<times> int) list" where
  "plan_rows session lg = List.map_filter (\<lambda>r.
     (case gr_finalizedComputation r of
        Some i \<Rightarrow>
          if i < length (lg_computations lg) \<and> gr_pipeline r = Investigator \<and> \<not> has_manual lg (gr_id r)
          then map_option (\<lambda>s. (r, lg_computations lg ! i, s)) (cm_score (lg_computations lg ! i)) else None
      | None \<Rightarrow> None)) (session_rows session lg)"

text \<open>One round of the loop of \<open>planReapply\<close>: an item, a refusal with the rules that lost their price, or nothing.\<close>

definition plan_one :: "ledger_io \<Rightarrow> grading_row \<times> computation \<times> int \<Rightarrow>
    ledger_error + (reapply_item option \<times> (key \<times> key list) option)" where
  "plan_one io x =
     (case x of (r, c, s) \<Rightarrow>
        (case repriceBreakdown (cm_breakdown c) (io_rubric io (gr_rubric r)) (io_prices io (io_rubricName io (gr_rubric r))) of
           Inl e \<Rightarrow> Inl (RepriceFailed e)
         | Inr re \<Rightarrow>
             if rr_newlyUnpriced re \<noteq> [] then Inr (None, Some (gr_id r, map snd (rr_newlyUnpriced re)))
             else if s = rr_score re then Inr (None, None)
             else Inr (Some \<lparr>rp_result = gr_id r, rp_old = s, rp_new = rr_score re, rp_breakdown = rr_breakdown re\<rparr>, None)))"

definition planReapply ::
  "ledger_io \<Rightarrow> key \<Rightarrow> (reapply_item list \<times> (key \<times> key list) list) ledger_tx" where
  "planReapply io session =
     bindT (getT (session_rows session)) (\<lambda>rows.
     if rows = [] \<or> \<not> list_all (\<lambda>r. published (gr_status r)) rows then failT SessionNotFinalized
     else bindT (getT (\<lambda>lg. traverse (plan_one io) (plan_rows session lg))) (\<lambda>p.
       bindT (liftT id p) (\<lambda>xs. retT (List.map_filter fst xs, List.map_filter snd xs))))"

definition reapplyFinalizedSession :: "ledger_io \<Rightarrow> key \<Rightarrow> key \<Rightarrow> nat ledger_tx" where
  "reapplyFinalizedSession io session teacher =
     bindT (planReapply io session) (\<lambda>(items, skipped).
     if skipped \<noteq> [] then failT (NowUnpriced (length skipped))
     else thenT (forT (\<lambda>it.
         bindT (insertComputation io (rp_result it) FinalizedReapply (Some teacher) (Some (rp_new it)) (rp_breakdown it)) (\<lambda>c.
         bindT (update_rows (\<lambda>r. gr_id r = rp_result it) (\<lambda>r. r\<lparr>gr_finalizedComputation := Some c\<rparr>)) (\<lambda>_.
         recordUserAction \<lparr>ae_actor = teacher, ae_action = ScoreReappliedAfterFinalize, ae_target = rp_result it,
           ae_old = Some (rp_old it), ae_new = Some (rp_new it)\<rparr>))) items)
       (thenT (modifyT (\<lambda>lg. lg\<lparr>lg_pins := (lg_pins lg)(session := io_currentPrice io)\<rparr>))
        (retT (length items))))"

section \<open>Starting and ending an attempt\<close>

text \<open>
  The rows \<open>startGrading\<close> creates for the collected submissions that have none yet (\<open>grading-run.service.ts\<close>);
  the ids are the ones the database generates. The primary key and the index \<open>uq_grading_result_submission\<close>
  refuse a second row.
\<close>

definition insert_row :: "grading_row \<Rightarrow> unit ledger_tx" where
  "insert_row r lg =
     (if gr_id r \<in> gr_id ` set (lg_rows lg) \<or> gr_submission r \<in> gr_submission ` set (lg_rows lg)
      then Inl (DuplicateRow (gr_id r))
      else case trigger_insert r of
          Some e \<Rightarrow> Inl (TriggerRejected e)
        | None \<Rightarrow> Inr ((), lg\<lparr>lg_rows := js_insert (\<lambda>a b. str_le (gr_id a) (gr_id b)) r (lg_rows lg)\<rparr>))"

record collected =
  cl_id :: key
  cl_session :: key
  cl_submission :: key
  cl_mssv :: key
  cl_rubric :: key
  cl_pipeline :: pipeline

definition new_row :: "collected \<Rightarrow> grading_row" where
  "new_row c = \<lparr>gr_id = cl_id c, gr_session = cl_session c, gr_submission = cl_submission c, gr_mssv = cl_mssv c,
     gr_rubric = cl_rubric c, gr_pipeline = cl_pipeline c, gr_status = AiGrading, gr_flag = False, gr_aiTotal = None,
     gr_criteria = [], gr_advocate = None, gr_ungradable = None, gr_reason = None, gr_attempt = None,
     gr_finalizedBy = None, gr_finalizedComputation = None, gr_auditSampled = False\<rparr>"

definition startGrading :: "collected list \<Rightarrow> nat ledger_tx" where
  "startGrading cs =
     bindT (getT (\<lambda>lg. filter (\<lambda>c. cl_submission c \<notin> gr_submission ` set (lg_rows lg)) cs)) (\<lambda>todo.
     thenT (forT (\<lambda>c. insert_row (new_row c)) todo) (retT (length todo)))"

definition startAttempt :: "key \<Rightarrow> (nat \<times> bool) option ledger_tx" where
  "startAttempt rid =
     bindT (getT (\<lambda>lg. find_row lg rid)) (\<lambda>row.
     case row of
       None \<Rightarrow> retT None
     | Some r \<Rightarrow>
         if gr_status r \<noteq> AiGrading then retT None
         else bindT (getT (\<lambda>lg. map_option at_outcome (Option.bind (gr_attempt r) (attempt_at lg)))) (\<lambda>current.
           case (gr_attempt r, current) of
             (Some a, Some None) \<Rightarrow> retT (Some (a, True))
           | _ \<Rightarrow>
             bindT (getT (\<lambda>lg. length (lg_attempts lg))) (\<lambda>a.
             thenT (modifyT (\<lambda>lg. lg\<lparr>lg_attempts := lg_attempts lg @ [\<lparr>at_result = rid, at_outcome = None\<rparr>]\<rparr>))
             (bindT (update_rows (\<lambda>r. gr_id r = rid) (\<lambda>r. r\<lparr>gr_attempt := Some a\<rparr>)) (\<lambda>_.
              retT (Some (a, False)))))))"

definition markUngradable :: "key \<Rightarrow> utext \<Rightarrow> bool ledger_tx" where
  "markUngradable submission why =
     bindT (update_rows (\<lambda>r. gr_submission r = submission \<and> gr_status r = AiGrading) (ungradable_update SystemFault why)) (\<lambda>n.
     if n = 0 then retT False
     else bindT (getT (\<lambda>lg. find (\<lambda>r. gr_submission r = submission) (lg_rows lg))) (\<lambda>row.
       case row of
         None \<Rightarrow> failT (NoSuchResult submission)
       | Some r \<Rightarrow>
           bindT (getT (\<lambda>lg. map_option at_outcome (Option.bind (gr_attempt r) (attempt_at lg)))) (\<lambda>current.
           case (gr_attempt r, current) of
             (Some a, Some None) \<Rightarrow> thenT (finish_attempt a (AttemptUngradable SystemFault why)) (retT True)
           | _ \<Rightarrow>
             bindT (getT (\<lambda>lg. length (lg_attempts lg))) (\<lambda>a.
             thenT (modifyT (\<lambda>lg. lg\<lparr>lg_attempts := lg_attempts lg @
                 [\<lparr>at_result = gr_id r, at_outcome = Some (AttemptUngradable SystemFault why)\<rparr>]\<rparr>))
             (bindT (update_rows (\<lambda>r'. gr_id r' = gr_id r) (\<lambda>r. r\<lparr>gr_attempt := Some a\<rparr>)) (\<lambda>_. retT True))))))"

text \<open>The two updates that end the grading of a written answer; they are not one transaction.\<close>

definition oneShotWrite ::
  "key \<Rightarrow> int \<Rightarrow> rule_criterion list \<Rightarrow> (key \<times> criterion_verdict) list option \<Rightarrow> bool ledger_tx" where
  "oneShotWrite rid score criteria advocate =
     bindT (update_rows (\<lambda>r. gr_id r = rid \<and> gr_status r = AiGrading)
       (\<lambda>r. r\<lparr>gr_status := AiGraded, gr_criteria := criteria, gr_aiTotal := Some score, gr_advocate := advocate\<rparr>))
     (\<lambda>n. retT (0 < n))"

definition oneShotFlag :: "key \<Rightarrow> bool \<Rightarrow> unit ledger_tx" where
  "oneShotFlag rid confident =
     bindT (update_rows (\<lambda>r. gr_id r = rid \<and> gr_status r = AiGraded)
       (\<lambda>r. r\<lparr>gr_status := FlaggedForReview, gr_flag := \<not> confident\<rparr>)) (\<lambda>_. retT ())"

section \<open>Reviews of one result\<close>

definition REVIEWABLE :: "grading_status list" where
  "REVIEWABLE = [AutoApproved, FlaggedForReview, TeacherReviewed, FinalizedStatus, Exported]"

definition EDITABLE :: "grading_status list" where
  "EDITABLE = [AutoApproved, FlaggedForReview, TeacherReviewed]"

definition isReviewable :: "grading_row \<Rightarrow> bool" where
  "isReviewable r \<longleftrightarrow> gr_pipeline r \<noteq> Investigator \<and> gr_status r \<in> set REVIEWABLE"

definition currentFinalScore :: "ledger \<Rightarrow> grading_row \<Rightarrow> int option" where
  "currentFinalScore lg r =
     (case latest_review (\<lambda>t. tr_finalScore t \<noteq> None) lg (gr_id r) of
        Some t \<Rightarrow> tr_finalScore t
      | None \<Rightarrow> gr_aiTotal r)"

text \<open>
  \<open>reviewWithin\<close>. The row is the entity the caller read, possibly before the transaction began; only the
  updates look at the table.
\<close>

definition reviewWithin ::
  "ledger_io \<Rightarrow> grading_row \<Rightarrow> key \<Rightarrow> rule_criterion list \<Rightarrow> utext option \<Rightarrow> bulk_rule option \<Rightarrow> (int \<times> bool) ledger_tx" where
  "reviewWithin io result teacher criteria note applied =
     bindT (liftT BadTotal (validateAndTotal (io_criteria io (gr_rubric result)) criteria)) (\<lambda>finalScore.
     let isPublished = published (gr_status result) in
     bindT (getT (\<lambda>lg. if isPublished then currentFinalScore lg result else None)) (\<lambda>previous.
     thenT (add_review \<lparr>tr_result = gr_id result, tr_teacher = teacher,
         tr_kind = (if applied = None then ReviewKind else BulkAccept), tr_finalScore = Some finalScore,
         tr_errorRule = None, tr_direction = None, tr_confirmed = None, tr_criteria = criteria, tr_note = note\<rparr>)
     (bindT (advanceStatus (gr_id result) [AutoApproved, FlaggedForReview] TeacherReviewed no_extra) (\<lambda>_.
      thenT (whenT isPublished (recordUserAction \<lparr>ae_actor = teacher, ae_action = ScoreEditedAfterFinalize,
          ae_target = gr_id result, ae_old = previous, ae_new = Some finalScore\<rparr>))
      (retT (finalScore, isPublished))))))"

definition review ::
  "ledger_io \<Rightarrow> grading_row \<Rightarrow> key \<Rightarrow> rule_criterion list \<Rightarrow> utext option \<Rightarrow> int ledger_tx" where
  "review io result teacher criteria note =
     (if gr_pipeline result = Investigator then failT OnlyOneShot
      else if \<not> isReviewable result then failT NotYetGraded
      else bindT (reviewWithin io result teacher criteria note None) (\<lambda>(s, _). retT s))"

datatype bulk_skip = NotReviewable | NoAdvocateGiven | Unchanged

definition same_review :: "teacher_review \<Rightarrow> rule_criterion list \<Rightarrow> utext option \<Rightarrow> bool" where
  "same_review latest criteria note \<longleftrightarrow>
     length (tr_criteria latest) = length criteria \<and>
     list_all (\<lambda>c. case index_by rc_criterionId (tr_criteria latest) (rc_criterionId c) of
         Some was \<Rightarrow> rc_points was = rc_points c \<and> rc_verdict was = rc_verdict c | None \<Rightarrow> False) criteria \<and>
     tr_note latest = note"

definition isUnchanged :: "ledger \<Rightarrow> key \<Rightarrow> rule_criterion list \<Rightarrow> utext option \<Rightarrow> bool" where
  "isUnchanged lg rid criteria note =
     (case latest_review (\<lambda>_. True) lg rid of None \<Rightarrow> False | Some t \<Rightarrow> same_review t criteria note)"

definition named_criterion :: "bulk_rule \<Rightarrow> key option" where
  "named_criterion rule = (case rule of CriterionFullMarks k \<Rightarrow> Some k | CriterionBonus k _ \<Rightarrow> Some k | _ \<Rightarrow> None)"

definition bulk_one ::
  "ledger_io \<Rightarrow> (key \<times> rat) list \<Rightarrow> key \<Rightarrow> bulk_rule \<Rightarrow> utext option \<Rightarrow> grading_row \<Rightarrow>
   nat \<times> (key \<times> bulk_skip) list \<times> nat \<Rightarrow> (nat \<times> (key \<times> bulk_skip) list \<times> nat) ledger_tx" where
  "bulk_one io rubric teacher rule note r acc =
     (case acc of (applied, skipped, audited) \<Rightarrow>
        let skip = (\<lambda>why. retT (applied, skipped @ [(gr_id r, why)], audited)) in
        if \<not> isReviewable r then skip NotReviewable
        else (case applyRule rule \<lparr>ri_rubricCriteria = rubric, ri_criterionResults = gr_criteria r,
                ri_advocateOpinion = gr_advocate r\<rparr> of
            Inl NoAdvocate \<Rightarrow> skip NoAdvocateGiven
          | Inr criteria \<Rightarrow>
              bindT (getT (\<lambda>lg. isUnchanged lg (gr_id r) criteria note)) (\<lambda>same.
              if same then skip Unchanged
              else bindT (reviewWithin io r teacher criteria note (Some rule)) (\<lambda>(_, logged).
                retT (applied + 1, skipped, audited + (if logged then 1 else 0))))))"

definition bulkReview ::
  "ledger_io \<Rightarrow> key \<Rightarrow> key \<Rightarrow> key list \<Rightarrow> bulk_rule \<Rightarrow> utext option \<Rightarrow> (nat \<times> (key \<times> bulk_skip) list \<times> nat) ledger_tx" where
  "bulkReview io session teacher ids rule note =
     bindT (getT (\<lambda>lg. filter (\<lambda>r. gr_id r \<in> set ids) (session_rows session lg))) (\<lambda>rows.
     if length rows \<noteq> length ids then failT NotInSession
     else if length (uniq (map gr_rubric rows)) \<noteq> 1 then failT SeveralRubrics
     else (let rubric = io_criteria io (gr_rubric (hd rows)) in
       if (case named_criterion rule of Some k \<Rightarrow> k \<notin> fst ` set rubric | None \<Rightarrow> False) then failT CriterionNotInRubric
       else foldT (bulk_one io rubric teacher rule note) rows (0, [], 0)))"

definition lockEditable :: "key \<Rightarrow> grading_status list \<Rightarrow> grading_row ledger_tx" where
  "lockEditable rid alsoAllowed =
     bindT (rowT rid) (\<lambda>r.
     if gr_status r \<notin> set EDITABLE \<and> gr_status r \<notin> set alsoAllowed then failT (NotEditable (gr_status r)) else retT r)"

definition setErrorException ::
  "ledger_io \<Rightarrow> key \<Rightarrow> key \<Rightarrow> key \<Rightarrow> rule_exception \<Rightarrow> int option ledger_tx" where
  "setErrorException io teacher rid rule direction =
     bindT (lockEditable rid []) (\<lambda>r.
     if gr_pipeline r \<noteq> Investigator then failT OnlyInvestigator
     else bindT (getT (\<lambda>lg. latestComputationRow lg rid)) (\<lambda>last.
       if (case last of None \<Rightarrow> True | Some (_, c) \<Rightarrow> \<not> list_ex (\<lambda>e. be_ruleId e = rule) (sb_errors (cm_breakdown c)))
       then failT ErrorNotInComputation
       else
         thenT (add_review \<lparr>tr_result = rid, tr_teacher = teacher, tr_kind = ErrorExceptionKind, tr_finalScore = None,
             tr_errorRule = Some rule, tr_direction = Some direction, tr_confirmed = None, tr_criteria = [], tr_note = None\<rparr>)
         (bindT (recomputeOne io rid ErrorExceptionReason (Some teacher)) (\<lambda>out.
          bindT (advanceStatus rid [AutoApproved, FlaggedForReview] TeacherReviewed (flag_extra False)) (\<lambda>_.
          retT (sco_score out))))))"

text \<open>\<open>readScore\<close>: \<open>None\<close> is a value that is not a string.\<close>

definition readScore :: "string option \<Rightarrow> ledger_error + int" where
  "readScore score =
     (case score of None \<Rightarrow> Inl NotADecimal
      | Some s \<Rightarrow> (case parseHundredths s of Inl _ \<Rightarrow> Inl NotADecimal | Inr h \<Rightarrow> Inr h))"

definition setManualScore :: "ledger_io \<Rightarrow> key \<Rightarrow> key \<Rightarrow> string option \<Rightarrow> (int \<times> grading_status) ledger_tx" where
  "setManualScore io teacher rid score =
     bindT (liftT id (readScore score)) (\<lambda>hundredths.
     bindT (lockEditable rid [FinalizedStatus, Exported]) (\<lambda>r.
     let highest = (\<Sum>c\<leftarrow>io_rubric io (gr_rubric r). sc_max c) in
     if highest < hundredths then failT (AboveMaximum highest)
     else
       bindT (getT (\<lambda>lg. if published (gr_status r) then fst (loadCurrentScore lg r) else None)) (\<lambda>before.
       thenT (add_review \<lparr>tr_result = rid, tr_teacher = teacher, tr_kind = ManualScoreKind, tr_finalScore = Some hundredths,
           tr_errorRule = None, tr_direction = None, tr_confirmed = None, tr_criteria = [], tr_note = None\<rparr>)
       (if published (gr_status r) then
          thenT (recordUserAction \<lparr>ae_actor = teacher, ae_action = ManualScoreAfterFinalize, ae_target = rid,
              ae_old = before, ae_new = Some hundredths\<rparr>)
          (retT (hundredths, gr_status r))
        else bindT (advanceStatus rid [AutoApproved, FlaggedForReview] TeacherReviewed (flag_extra False)) (\<lambda>_.
          retT (hundredths, TeacherReviewed))))))"

section \<open>Confirming a group\<close>

fun show_source :: "verdict_source \<Rightarrow> string" where
  "show_source Deterministic = ''deterministic''"
| "show_source LlmWithTools = ''llm_with_tools''"
| "show_source LlmOnly = ''llm_only''"

definition loadGroupedRows :: "key \<Rightarrow> ledger \<Rightarrow> group_input list" where
  "loadGroupedRows session lg = List.map_filter (\<lambda>r.
     if gr_status r = FlaggedForReview \<and> gr_pipeline r = Investigator \<and> gr_ungradable r = None then
       (case latestComputationRow lg (gr_id r) of
          Some (_, c) \<Rightarrow> if cm_score c = None then None else
            Some \<lparr>gi_resultId = gr_id r, gi_rubricVersionId = gr_rubric r,
                  gi_errors = map (\<lambda>e. (be_ruleId e, show_source (be_source e))) (sb_errors (cm_breakdown c))\<rparr>
        | None \<Rightarrow> None)
     else None) (session_rows session lg)"

definition candidate_of :: "ledger \<Rightarrow> key list \<Rightarrow> grading_row \<Rightarrow> int confirm_candidate" where
  "candidate_of lg members r =
     \<lparr>cc_flagged = (gr_status r = FlaggedForReview), cc_investigator = (gr_pipeline r = Investigator),
      cc_ungradable = (gr_ungradable r \<noteq> None), cc_hasManualScore = has_manual lg (gr_id r),
      cc_latestComputation = map_option (\<lambda>(i, c). (i, cm_score c)) (latestComputationRow lg (gr_id r)),
      cc_inGroup = (gr_id r \<in> set members)\<rparr>"

definition writeConfirm :: "key \<Rightarrow> nat \<Rightarrow> key \<Rightarrow> unit ledger_tx" where
  "writeConfirm rid computation teacher =
     bindT (getT (\<lambda>lg. if computation < length (lg_computations lg) \<and> cm_result (lg_computations lg ! computation) = rid
         then cm_score (lg_computations lg ! computation) else None)) (\<lambda>score.
     case score of
       None \<Rightarrow> failT ComputationMoved
     | Some s \<Rightarrow> add_review \<lparr>tr_result = rid, tr_teacher = teacher, tr_kind = SystemConfirm, tr_finalScore = Some s,
         tr_errorRule = None, tr_direction = None, tr_confirmed = Some computation, tr_criteria = [], tr_note = None\<rparr>)"

definition confirmGroup ::
  "key \<Rightarrow> key \<Rightarrow> key \<Rightarrow> key list option \<Rightarrow> (nat \<times> (key \<times> confirm_skip) list) ledger_tx" where
  "confirmGroup session teacher k resultIds =
     bindT (getT (\<lambda>lg. find (\<lambda>g. rg_key g = k) (groupResults (loadGroupedRows session lg)))) (\<lambda>group.
     case group of
       None \<Rightarrow> failT GroupGone
     | Some g \<Rightarrow>
         (let requested = (case resultIds of Some ids \<Rightarrow> uniq ids | None \<Rightarrow> rg_resultIds g) in
          bindT (getT (\<lambda>lg. filter (\<lambda>r. gr_id r \<in> set requested) (session_rows session lg))) (\<lambda>rows.
          if length rows \<noteq> length requested then failT NotInSession
          else bindT (getT (\<lambda>lg. map (\<lambda>r. (gr_id r, confirmVerdict (candidate_of lg (rg_resultIds g) r))) rows)) (\<lambda>verdicts.
            if list_ex (\<lambda>v. snd v = OtherGroup) verdicts then failT MovedToOtherGroup
            else
              (let toConfirm = List.map_filter (\<lambda>(i, v). case v of ConfirmComputation c \<Rightarrow> Some (i, c) | _ \<Rightarrow> None) verdicts;
                   skipped = List.map_filter (\<lambda>(i, v). case v of SkipResult why \<Rightarrow> Some (i, why) | _ \<Rightarrow> None) verdicts
               in thenT (forT (\<lambda>(i, c).
                    thenT (writeConfirm i c teacher)
                    (bindT (advanceStatus i [FlaggedForReview] TeacherReviewed (flag_extra False)) (\<lambda>ok.
                     unlessT ok MovedMeanwhile))) toConfirm)
                  (retT (length toConfirm, skipped)))))))"

section \<open>Blind audits and breakers\<close>

definition count_labels :: "breaker_scope \<Rightarrow> label_event list \<Rightarrow> nat \<times> nat" where
  "count_labels scope es = foldl (\<lambda>(n, d) e. case e of
       LabelOf s x \<Rightarrow> if s = scope then (n + 1, if x then d + 1 else d) else (n, d)
     | ResetOf s \<Rightarrow> if s = scope then (0, 0) else (n, d)) (0, 0) es"

definition breaker_round :: "ledger_io \<Rightarrow> key \<Rightarrow> breaker_scope \<Rightarrow> unit ledger_tx" where
  "breaker_round io rid scope =
     bindT (getT (\<lambda>lg. (scope \<in> set (lg_breakers lg), count_labels scope (lg_labels lg)))) (\<lambda>(open1, n, d).
     if open1 then retT ()
     else bindT (liftT BreakerRange (breakerVerdict (io_math io) n d)) (\<lambda>(trip, pValue).
       if \<not> trip then retT ()
       else thenT (modifyT (\<lambda>lg. lg\<lparr>lg_breakers := lg_breakers lg @ [scope]\<rparr>))
         (bindT (recomputeForTeacher io AutoRuleTripped None
            \<lparr>sp_rule = (case scope of RuleScope k \<Rightarrow> Some k | NoErrorScope \<Rightarrow> None), sp_rubric = None, sp_rubricName = None,
             sp_session = None, sp_except = Some rid, sp_noErrors = (scope = NoErrorScope)\<rparr>) (\<lambda>_. retT ()))))"

definition recordLabelsAndEvaluate ::
  "ledger_io \<Rightarrow> key \<Rightarrow> (key \<times> audit_verdict) list \<Rightarrow> audit_summary \<Rightarrow> unit ledger_tx" where
  "recordLabelsAndEvaluate io rid perRule summary =
     bindT (getT (\<lambda>lg. case latestComputationRow lg rid of Some (_, c) \<Rightarrow> sb_errors (cm_breakdown c) = [] | None \<Rightarrow> False)) (\<lambda>clean.
     thenT (modifyT (\<lambda>lg. lg\<lparr>lg_labels := lg_labels lg @ map (\<lambda>(r, v). LabelOf (RuleScope r) (v \<noteq> BothSaw)) perRule @
         (if clean then [LabelOf NoErrorScope (au_agreement summary \<noteq> FullAgreement)] else [])\<rparr>))
     (thenT (forT (\<lambda>(r, _). breaker_round io rid (RuleScope r)) perRule)
      (whenT clean (breaker_round io rid NoErrorScope))))"

definition resetBreaker :: "breaker_scope \<Rightarrow> unit ledger_tx" where
  "resetBreaker scope =
     bindT (getT (\<lambda>lg. scope \<in> set (lg_breakers lg))) (\<lambda>open1.
     if \<not> open1 then failT BreakerAlreadyReset
     else modifyT (\<lambda>lg. lg\<lparr>lg_breakers := filter (\<lambda>s. s \<noteq> scope) (lg_breakers lg), lg_labels := lg_labels lg @ [ResetOf scope]\<rparr>))"

definition kept_rules :: "score_breakdown option \<Rightarrow> key list" where
  "kept_rules b = (case b of None \<Rightarrow> []
     | Some b \<Rightarrow> map be_ruleId (filter (\<lambda>e. be_counted e = Counted \<or> be_counted e = Unpriced) (sb_errors b)))"

definition AUDIT_EXTRA_MAX_LENGTH :: nat where
  "AUDIT_EXTRA_MAX_LENGTH = 500"

definition recordAudit ::
  "ledger_io \<Rightarrow> key \<Rightarrow> key list \<Rightarrow> utext list \<Rightarrow> ((key \<times> audit_verdict) list \<times> audit_summary) ledger_tx" where
  "recordAudit io rid pickedIds extraErrors =
     (let picked = uniq pickedIds; extras = map (trim_by is_ws) extraErrors in
      if [] \<in> set extras then failT BlankExtra
      else if list_ex (\<lambda>x. AUDIT_EXTRA_MAX_LENGTH < length x) extras then failT LongExtra
      else bindT (getT (\<lambda>lg. (find_row lg rid, rid \<in> fst ` set (lg_sampleReviews lg)))) (\<lambda>(row, done1).
      case row of
        None \<Rightarrow> failT NotSampled
      | Some r \<Rightarrow>
          if done1 then failT SampleLocked
          else if gr_status r \<noteq> AuditPending then failT NotSampled
          else if \<not> set picked \<subseteq> set (io_activeRules io) then failT ForeignRule
          else
            thenT (modifyT (\<lambda>lg. lg\<lparr>lg_sampleReviews := lg_sampleReviews lg @ [(rid, picked, extras)]\<rparr>))
            (bindT (advanceStatus rid [AuditPending] TeacherReviewed (flag_extra False)) (\<lambda>moved1.
             if \<not> moved1 then failT NotSampled
             else bindT (getT (\<lambda>lg. map_option (\<lambda>(_, c). cm_breakdown c) (latestComputationRow lg rid))) (\<lambda>b.
               let reveal = compareAudit picked (kept_rules b) (length extras) (length (io_activeRules io)) in
               thenT (recordLabelsAndEvaluate io rid (fst reveal) (snd reveal)) (retT reveal))))))"

section \<open>Grading again\<close>

datatype regrade_refusal = InProgress | HasScore | SubmissionClass | NotUngradable

definition regradeRefusal :: "grading_row \<Rightarrow> regrade_refusal option" where
  "regradeRefusal r =
     (if gr_status r = AiGrading \<or> gr_status r = AiGraded then Some InProgress
      else if gr_status r \<noteq> FlaggedForReview \<or> gr_aiTotal r \<noteq> None then Some HasScore
      else if gr_ungradable r = Some SubmissionFault then Some SubmissionClass
      else if gr_ungradable r \<noteq> Some SystemFault then Some NotUngradable
      else None)"

definition requeue :: "key \<Rightarrow> bool ledger_tx" where
  "requeue rid =
     bindT (update_rows (\<lambda>r. gr_id r = rid \<and> gr_status r = FlaggedForReview \<and> gr_ungradable r = Some SystemFault \<and>
         gr_aiTotal r = None)
       (\<lambda>r. r\<lparr>gr_status := AiGrading, gr_ungradable := None, gr_reason := None, gr_flag := False\<rparr>)) (\<lambda>n. retT (0 < n))"

definition regrade_candidates :: "key \<Rightarrow> utext option \<Rightarrow> ledger \<Rightarrow> key list" where
  "regrade_candidates session why lg = map gr_id (filter (\<lambda>r. gr_status r = FlaggedForReview \<and>
     gr_ungradable r = Some SystemFault \<and> gr_aiTotal r = None \<and>
     (case why of None \<Rightarrow> True | Some w \<Rightarrow> gr_reason r = Some w)) (session_rows session lg))"

section \<open>Finalizing a session\<close>

record finalize_outcome =
  fo_reviewedByHand :: nat
  fo_acceptedAsProposed :: nat
  fo_finalizedDirectly :: nat

definition without_score :: "ledger \<Rightarrow> grading_row \<Rightarrow> bool" where
  "without_score lg r \<longleftrightarrow> gr_pipeline r = Investigator \<and> gr_status r \<in> {AutoApproved, TeacherReviewed} \<and>
     (case latestComputationRow lg (gr_id r) of Some (_, c) \<Rightarrow> cm_score c = None | None \<Rightarrow> True) \<and> \<not> has_manual lg (gr_id r)"

definition finalized_extra :: "key \<Rightarrow> nat option option \<Rightarrow> advance_extra" where
  "finalized_extra teacher c = no_extra\<lparr>ax_finalizedBy := Some teacher, ax_finalizedComputation := c\<rparr>"

definition finalize_one :: "key \<Rightarrow> (key \<Rightarrow> nat option) \<Rightarrow> grading_row \<Rightarrow> finalize_outcome \<Rightarrow> finalize_outcome ledger_tx" where
  "finalize_one teacher scored r out =
     (if gr_pipeline r = Investigator then
        if gr_status r \<noteq> AutoApproved \<and> gr_status r \<noteq> TeacherReviewed then retT out
        else bindT (advanceStatus (gr_id r) [gr_status r] FinalizedStatus (finalized_extra teacher (Some (scored (gr_id r))))) (\<lambda>moved1.
          if \<not> moved1 then failT MovedMeanwhile
          else retT (if gr_status r = AutoApproved then out\<lparr>fo_finalizedDirectly := fo_finalizedDirectly out + 1\<rparr>
                     else out\<lparr>fo_reviewedByHand := fo_reviewedByHand out + 1\<rparr>))
      else
        let last_step = (\<lambda>out. bindT (advanceStatus (gr_id r) [TeacherReviewed] FinalizedStatus (finalized_extra teacher None)) (\<lambda>moved1.
              if moved1 then retT out else failT MovedMeanwhile))
        in if gr_status r = AutoApproved then
             thenT (add_review \<lparr>tr_result = gr_id r, tr_teacher = teacher, tr_kind = BulkAccept,
                 tr_finalScore = Some (case gr_aiTotal r of Some s \<Rightarrow> s | None \<Rightarrow> 0), tr_errorRule = None, tr_direction = None,
                 tr_confirmed = None, tr_criteria = gr_criteria r, tr_note = None\<rparr>)
             (bindT (advanceStatus (gr_id r) [AutoApproved] TeacherReviewed no_extra) (\<lambda>moved1.
              if \<not> moved1 then failT MovedMeanwhile
              else last_step (out\<lparr>fo_acceptedAsProposed := fo_acceptedAsProposed out + 1\<rparr>)))
           else if gr_status r = TeacherReviewed then last_step (out\<lparr>fo_reviewedByHand := fo_reviewedByHand out + 1\<rparr>)
           else retT out)"

text \<open>The computation that carries the published score: the latest one, when it has a score.\<close>

definition scored_latest :: "ledger \<Rightarrow> key \<Rightarrow> nat option" where
  "scored_latest lg rid =
     (case latestComputationRow lg rid of Some (i, c) \<Rightarrow> if cm_score c = None then None else Some i | None \<Rightarrow> None)"

definition finalizeGrades :: "ledger_io \<Rightarrow> key \<Rightarrow> key \<Rightarrow> finalize_outcome ledger_tx" where
  "finalizeGrades io session teacher =
     bindT (getT (session_rows session)) (\<lambda>all.
     if all = [] then failT NothingGraded
     else
       (let blocking = filter (\<lambda>r. gr_status r \<in> set BLOCKS_FINALIZE) all in
        if blocking \<noteq> [] then failT (StillBlocking (length blocking))
        else bindT (getT (\<lambda>lg. length (filter (without_score lg) all))) (\<lambda>withoutScore.
          if 0 < withoutScore then failT (WithoutScore withoutScore)
          else bindT (getT scored_latest) (\<lambda>scored.
            bindT (foldT (finalize_one teacher scored) all
                \<lparr>fo_reviewedByHand = 0, fo_acceptedAsProposed = 0, fo_finalizedDirectly = 0\<rparr>) (\<lambda>out.
            thenT (whenT (0 < fo_reviewedByHand out + fo_acceptedAsProposed out + fo_finalizedDirectly out)
                (modifyT (\<lambda>lg. lg\<lparr>lg_pins := (lg_pins lg)(session := io_currentPrice io)\<rparr>)))
            (retT out))))))"

section \<open>Events\<close>

text \<open>
  Every transaction of the services, as an event. \<open>ReviewEvent\<close> carries the status and the proposed total that
  the controller read before the transaction: \<open>review\<close> decides on them, and they may be out of date.
\<close>

datatype ledger_event =
    StartGradingEvent "collected list"
  | StartAttemptEvent key
  | ComputeInitialEvent key
  | FinishAttemptEvent key nat stored_investigation
  | FinishUngradableEvent key nat ungradable_class utext
  | MarkUngradableEvent key utext
  | OneShotWriteEvent key int "rule_criterion list" "(key \<times> criterion_verdict) list option"
  | OneShotFlagEvent key bool
  | RecomputeEvent computation_reason "key option" recompute_scope
  | ReapplyEvent key key
  | ReviewEvent key grading_status "int option" key "rule_criterion list" "utext option"
  | BulkReviewEvent key key "key list" bulk_rule "utext option"
  | ErrorExceptionEvent key key key rule_exception
  | ManualScoreEvent key key "string option"
  | ConfirmGroupEvent key key key "key list option"
  | RecordAuditEvent key "key list" "utext list"
  | ResetBreakerEvent breaker_scope
  | RequeueEvent key
  | FinalizeGradesEvent key key

definition ignoreT :: "'a ledger_tx \<Rightarrow> unit ledger_tx" where
  "ignoreT m = bindT m (\<lambda>_. retT ())"

primrec event_tx :: "ledger_io \<Rightarrow> ledger_event \<Rightarrow> unit ledger_tx" where
  "event_tx io (StartGradingEvent cs) = ignoreT (startGrading cs)"
| "event_tx io (StartAttemptEvent rid) = ignoreT (startAttempt rid)"
| "event_tx io (ComputeInitialEvent rid) = ignoreT (computeInitial io rid)"
| "event_tx io (FinishAttemptEvent rid a stored) = ignoreT (finishAttempt io rid a stored)"
| "event_tx io (FinishUngradableEvent rid a c why) = finishUngradable rid a c why"
| "event_tx io (MarkUngradableEvent sub why) = ignoreT (markUngradable sub why)"
| "event_tx io (OneShotWriteEvent rid score criteria advocate) =
     bindT (rowT rid) (\<lambda>r. if gr_pipeline r = OneShot then ignoreT (oneShotWrite rid score criteria advocate) else retT ())"
| "event_tx io (OneShotFlagEvent rid confident) =
     bindT (rowT rid) (\<lambda>r. if gr_pipeline r = OneShot then oneShotFlag rid confident else retT ())"
| "event_tx io (RecomputeEvent reason actor sp) = ignoreT (recomputeForTeacher io reason actor sp)"
| "event_tx io (ReapplyEvent session teacher) = ignoreT (reapplyFinalizedSession io session teacher)"
| "event_tx io (ReviewEvent rid status proposed teacher criteria note) =
     bindT (rowT rid) (\<lambda>r. ignoreT (review io (r\<lparr>gr_status := status, gr_aiTotal := proposed\<rparr>) teacher criteria note))"
| "event_tx io (BulkReviewEvent session teacher ids rule note) = ignoreT (bulkReview io session teacher ids rule note)"
| "event_tx io (ErrorExceptionEvent teacher rid rule d) = ignoreT (setErrorException io teacher rid rule d)"
| "event_tx io (ManualScoreEvent teacher rid score) = ignoreT (setManualScore io teacher rid score)"
| "event_tx io (ConfirmGroupEvent session teacher k ids) = ignoreT (confirmGroup session teacher k ids)"
| "event_tx io (RecordAuditEvent rid picked extras) = ignoreT (recordAudit io rid picked extras)"
| "event_tx io (ResetBreakerEvent scope) = resetBreaker scope"
| "event_tx io (RequeueEvent rid) = ignoreT (requeue rid)"
| "event_tx io (FinalizeGradesEvent session teacher) = ignoreT (finalizeGrades io session teacher)"

definition ledger_run :: "ledger_io \<times> ledger_event \<Rightarrow> ledger \<Rightarrow> ledger" where
  "ledger_run x lg = snd (commit (event_tx (fst x) (snd x)) lg)"

definition empty_ledger :: ledger where
  "empty_ledger = \<lparr>lg_rows = [], lg_attempts = [], lg_computations = [], lg_reviews = [], lg_sampleReviews = [],
     lg_labels = [], lg_breakers = [], lg_audit = [], lg_pins = (\<lambda>_. None)\<rparr>"

definition ledger_after :: "(ledger_io \<times> ledger_event) list \<Rightarrow> ledger" where
  "ledger_after h = fold ledger_run h empty_ledger"

end
