(* ===== verification/Ledger_Spec.thy ===== *)
theory Ledger_Spec
  imports Ledger
begin

text \<open>
  The invariant of the ledger. Every transaction keeps it, and under it the trigger of the database never has to
  reject an update: each service checks enough before it writes. What follows: every published result has a
  score, which is the point of the checks of \<open>finalizeGrades\<close>.
\<close>

section \<open>The invariant\<close>

definition scored_review :: "ledger \<Rightarrow> key \<Rightarrow> bool" where
  "scored_review lg rid \<longleftrightarrow> (\<exists>t \<in> set (lg_reviews lg). tr_result t = rid \<and> tr_finalScore t \<noteq> None)"

definition scored_computation :: "ledger \<Rightarrow> key \<Rightarrow> nat \<Rightarrow> bool" where
  "scored_computation lg rid i \<longleftrightarrow> i < length (lg_computations lg) \<and> cm_result (lg_computations lg ! i) = rid \<and>
     cm_score (lg_computations lg ! i) \<noteq> None"

definition row_ok :: "ledger \<Rightarrow> grading_row \<Rightarrow> bool" where
  "row_ok lg r \<longleftrightarrow>
     (gr_status r = AiGrading \<longrightarrow> gr_aiTotal r = None \<and> gr_ungradable r = None) \<and>
     (gr_ungradable r \<noteq> None \<longrightarrow> gr_aiTotal r = None \<and> gr_status r \<in> {FlaggedForReview, TeacherReviewed, FinalizedStatus}) \<and>
     (gr_pipeline r = OneShot \<longrightarrow> gr_status r \<noteq> AutoApproved \<and> gr_status r \<noteq> AuditPending) \<and>
     (gr_status r = FinalizedStatus \<longrightarrow> gr_finalizedBy r \<noteq> None) \<and>
     (gr_pipeline r = OneShot \<longrightarrow> gr_status r \<in> {TeacherReviewed, FinalizedStatus} \<longrightarrow> scored_review lg (gr_id r)) \<and>
     (gr_pipeline r = Investigator \<longrightarrow> gr_status r = FinalizedStatus \<longrightarrow>
        has_manual lg (gr_id r) \<or> (\<exists>i. gr_finalizedComputation r = Some i \<and> scored_computation lg (gr_id r) i)) \<and>
     (gr_status r = AuditPending \<longrightarrow> gr_auditSampled r) \<and>
     gr_status r \<noteq> Exported"

definition ledger_ok :: "ledger \<Rightarrow> bool" where
  "ledger_ok lg \<longleftrightarrow> distinct (map gr_id (lg_rows lg)) \<and> (\<forall>r \<in> set (lg_rows lg). row_ok lg r) \<and>
     (\<forall>t \<in> set (lg_reviews lg). tr_kind t = ManualScoreKind \<longrightarrow> tr_finalScore t \<noteq> None)"

text \<open>What no transaction undoes: append-only tables, and the identity of a row.\<close>

definition grown :: "ledger \<Rightarrow> ledger \<Rightarrow> bool" where
  "grown lg lg' \<longleftrightarrow>
     (\<exists>cs. lg_computations lg' = lg_computations lg @ cs) \<and> (\<exists>ts. lg_reviews lg' = lg_reviews lg @ ts) \<and>
     map (\<lambda>r. (gr_id r, gr_pipeline r)) (lg_rows lg') = map (\<lambda>r. (gr_id r, gr_pipeline r)) (lg_rows lg)"

definition since :: "ledger \<Rightarrow> ledger \<Rightarrow> bool" where
  "since lg0 lg \<longleftrightarrow> ledger_ok lg \<and> grown lg0 lg"

definition quiet :: "ledger_error \<Rightarrow> bool" where
  "quiet e \<longleftrightarrow> (\<forall>t. e \<noteq> TriggerRejected t) \<and> (\<forall>x. e \<noteq> BreakerRange x)"

lemma quiet_simps [simp]:
  "quiet (DuplicateRow k)" "quiet (NoSuchResult k)" "quiet NotInitial" "quiet InitialBelowFloor" "quiet NoGradedAttempt"
  "quiet (CoreFailed c)" "quiet NotRunning" "quiet LeftAiGrading" "quiet OnlyOneShot" "quiet NotYetGraded"
  "quiet (BadTotal b)" "quiet (NotEditable s)" "quiet OnlyInvestigator" "quiet ErrorNotInComputation" "quiet NotADecimal"
  "quiet (AboveMaximum m)" "quiet NothingGraded" "quiet (StillBlocking n)" "quiet (WithoutScore n)" "quiet MovedMeanwhile"
  "quiet GroupGone" "quiet NotInSession" "quiet MovedToOtherGroup" "quiet ComputationMoved" "quiet BlankExtra"
  "quiet LongExtra" "quiet SampleLocked" "quiet NotSampled" "quiet ForeignRule" "quiet SeveralRubrics"
  "quiet CriterionNotInRubric" "quiet SessionNotFinalized" "quiet (NowUnpriced n)" "quiet (RepriceFailed r)"
  "quiet BreakerAlreadyReset"
  by (simp_all add: quiet_def)

lemma grown_refl [simp]: "grown lg lg"
  by (simp add: grown_def)

lemma grown_trans: "grown a b \<Longrightarrow> grown b c \<Longrightarrow> grown a c"
  by (auto simp: grown_def)

lemma sinceI: "ledger_ok lg \<Longrightarrow> since lg lg"
  by (simp add: since_def)

lemma since_step: "since lg0 lg \<Longrightarrow> since lg lg' \<Longrightarrow> since lg0 lg'"
  by (auto simp: since_def intro: grown_trans)

lemma since_ok: "since lg0 lg \<Longrightarrow> ledger_ok lg"
  by (simp add: since_def)

lemma scored_review_mono: "grown lg lg' \<Longrightarrow> scored_review lg k \<Longrightarrow> scored_review lg' k"
  by (auto simp: grown_def scored_review_def)

lemma has_manual_mono: "grown lg lg' \<Longrightarrow> has_manual lg k \<Longrightarrow> has_manual lg' k"
  by (auto simp: grown_def has_manual_def list_ex_iff)

lemma scored_computation_mono: "grown lg lg' \<Longrightarrow> scored_computation lg k i \<Longrightarrow> scored_computation lg' k i"
  by (auto simp: grown_def scored_computation_def nth_append)

lemma row_ok_mono: "grown lg lg' \<Longrightarrow> row_ok lg r \<Longrightarrow> row_ok lg' r"
  unfolding row_ok_def using scored_review_mono has_manual_mono scored_computation_mono by blast

text \<open>The pipeline of a row, which never changes.\<close>

definition pipe_is :: "ledger \<Rightarrow> key \<Rightarrow> pipeline \<Rightarrow> bool" where
  "pipe_is lg rid p \<longleftrightarrow> (\<forall>r \<in> set (lg_rows lg). gr_id r = rid \<longrightarrow> gr_pipeline r = p)"

lemma pipe_is_mono: "grown lg lg' \<Longrightarrow> pipe_is lg rid p \<Longrightarrow> pipe_is lg' rid p"
proof -
  assume g: "grown lg lg'" and p: "pipe_is lg rid p"
  have "set (map (\<lambda>r. (gr_id r, gr_pipeline r)) (lg_rows lg')) = set (map (\<lambda>r. (gr_id r, gr_pipeline r)) (lg_rows lg))"
    using g by (simp add: grown_def)
  then have "(gr_id r, gr_pipeline r) \<in> (\<lambda>r. (gr_id r, gr_pipeline r)) ` set (lg_rows lg)" if "r \<in> set (lg_rows lg')" for r
    using that by (metis (no_types, lifting) image_eqI list.set_map)
  with p show ?thesis by (fastforce simp: pipe_is_def)
qed

lemma find_rowD: "find_row lg rid = Some r \<Longrightarrow> r \<in> set (lg_rows lg) \<and> gr_id r = rid"
  by (auto simp: find_row_def find_Some_iff)

lemma pipe_is_row: "ledger_ok lg \<Longrightarrow> r \<in> set (lg_rows lg) \<Longrightarrow> pipe_is lg (gr_id r) (gr_pipeline r)"
  unfolding pipe_is_def ledger_ok_def by (auto simp: distinct_map dest: inj_onD)

lemma pipe_is_find: "ledger_ok lg \<Longrightarrow> find_row lg rid = Some r \<Longrightarrow> pipe_is lg rid (gr_pipeline r)"
  using pipe_is_row find_rowD by blast

section \<open>The primitives\<close>

lemma wp_update_rows:
  assumes s: "since lg0 lg"
    and f: "\<And>r. r \<in> set (lg_rows lg) \<Longrightarrow> cond r \<Longrightarrow> row_ok lg r \<Longrightarrow>
        validate_lifecycle r (f r) = None \<and> gr_id (f r) = gr_id r \<and> gr_pipeline (f r) = gr_pipeline r \<and> row_ok lg (f r)"
    and Q: "\<And>n lg'. since lg0 lg' \<Longrightarrow> grown lg lg' \<Longrightarrow> lg_computations lg' = lg_computations lg \<Longrightarrow>
        lg_reviews lg' = lg_reviews lg \<Longrightarrow> Q n lg'"
  shows "wp quiet (update_rows cond f) Q lg"
proof -
  let ?lg = "lg\<lparr>lg_rows := map (\<lambda>r. if cond r then f r else r) (lg_rows lg)\<rparr>"
  have ok: "ledger_ok lg" using s by (rule since_ok)
  then have rows: "\<And>r. r \<in> set (lg_rows lg) \<Longrightarrow> row_ok lg r" by (simp add: ledger_ok_def)
  have same: "row_ok ?lg r = row_ok lg r" for r
    by (simp add: row_ok_def scored_review_def has_manual_def scored_computation_def)
  have none: "List.map_filter (\<lambda>r. validate_lifecycle r (f r)) (filter cond (lg_rows lg)) = []"
    using f rows by (auto simp: map_filter_Nil_iff)
  have g: "grown lg ?lg" using f rows by (auto simp: grown_def)
  have ids: "map gr_id (lg_rows ?lg) = map gr_id (lg_rows lg)" using f rows by auto
  have "\<forall>r \<in> set (lg_rows ?lg). row_ok lg r" using f rows by auto
  then have "ledger_ok ?lg" using ok unfolding ledger_ok_def same ids by simp
  then have "since lg ?lg" using g by (simp add: since_def)
  from Q[OF since_step[OF s this] g] show ?thesis by (simp add: wp_def update_rows_def none)
qed

lemma wp_advance:
  assumes s: "since lg0 lg"
    and f: "\<And>r. r \<in> set (lg_rows lg) \<Longrightarrow> gr_id r = rid \<Longrightarrow> gr_status r \<in> set from \<Longrightarrow> row_ok lg r \<Longrightarrow>
        canTransition (gr_status r) to \<and> (to = FinalizedStatus \<longrightarrow> ax_finalizedBy x \<noteq> None) \<and> to \<noteq> AiGrading \<and>
        row_ok lg (apply_extra to x r)"
    and Q: "\<And>b lg'. since lg0 lg' \<Longrightarrow> grown lg lg' \<Longrightarrow> lg_computations lg' = lg_computations lg \<Longrightarrow>
        lg_reviews lg' = lg_reviews lg \<Longrightarrow> Q b lg'"
  shows "wp quiet (advanceStatus rid from to x) Q lg"
proof -
  have "validate_lifecycle r (apply_extra to x r) = None"
    if "r \<in> set (lg_rows lg)" "gr_id r = rid \<and> gr_status r \<in> set from" "row_ok lg r" for r
    using f[OF that(1) _ _ that(3)] that(2)
    by (auto simp: validate_lifecycle_def apply_extra_def transition_allowed_iff)
  then show ?thesis
    unfolding advanceStatus_def wp_bind wp_ret
    using f by (intro wp_update_rows[OF s]) (auto simp: apply_extra_def intro: Q)
qed

text \<open>Appending to a table, and fields that the invariant does not read.\<close>

lemma wp_modify_since:
  assumes "since lg0 lg" and "grown lg (f lg)" and "lg_rows (f lg) = lg_rows lg"
    and "\<And>t. t \<in> set (lg_reviews (f lg)) \<Longrightarrow> t \<notin> set (lg_reviews lg) \<Longrightarrow> tr_kind t = ManualScoreKind \<Longrightarrow> tr_finalScore t \<noteq> None"
    and Q: "\<And>lg'. since lg0 lg' \<Longrightarrow> lg' = f lg \<Longrightarrow> grown lg lg' \<Longrightarrow> Q () lg'"
  shows "wp quiet (modifyT f) Q lg"
proof -
  have ok: "ledger_ok lg" using assms(1) by (rule since_ok)
  have "ledger_ok (f lg)"
    using ok assms(3,4) row_ok_mono[OF assms(2)] unfolding ledger_ok_def by metis
  then have "since lg (f lg)" using assms(2) by (simp add: since_def)
  then show ?thesis using Q[OF since_step[OF assms(1)]] assms(2) by (simp add: wp_modify)
qed

lemma wp_add_review:
  assumes "since lg0 lg" and "tr_kind t = ManualScoreKind \<Longrightarrow> tr_finalScore t \<noteq> None"
    and Q: "\<And>lg'. since lg0 lg' \<Longrightarrow> grown lg lg' \<Longrightarrow> t \<in> set (lg_reviews lg') \<Longrightarrow> Q () lg'"
  shows "wp quiet (add_review t) Q lg"
  unfolding add_review_def using assms(2)
  by (intro wp_modify_since[OF assms(1)]) (auto simp: grown_def intro!: Q)

lemma wp_insertComputation:
  assumes "since lg0 lg"
    and Q: "\<And>i lg'. since lg0 lg' \<Longrightarrow> grown lg lg' \<Longrightarrow> (sc \<noteq> None \<Longrightarrow> scored_computation lg' rid i) \<Longrightarrow> Q i lg'"
  shows "wp quiet (insertComputation io rid reason actor sc b) Q lg"
  unfolding insertComputation_def wp_simps
  by (rule wp_modify_since[OF assms(1), unfolded wp_modify])
     (auto simp: grown_def scored_computation_def intro!: Q)

text \<open>A modification of fields the invariant does not mention.\<close>

lemma wp_modify_other:
  assumes "since lg0 lg" and "lg_rows (f lg) = lg_rows lg" "lg_reviews (f lg) = lg_reviews lg"
    "lg_computations (f lg) = lg_computations lg"
    and Q: "\<And>lg'. since lg0 lg' \<Longrightarrow> grown lg lg' \<Longrightarrow> Q () lg'"
  shows "wp quiet (modifyT f) Q lg"
  by (rule wp_modify_since[OF assms(1)]) (use assms(2-4) in \<open>auto simp: grown_def intro: Q\<close>)

lemma wp_rowT:
  assumes "\<And>r. find_row lg rid = Some r \<Longrightarrow> Q r lg"
  shows "wp quiet (rowT rid) Q lg"
  using assms by (auto simp: rowT_def wp_simps split: option.split)

lemma wp_ignore: "wp ok (ignoreT m) Q s = wp ok m (\<lambda>_. Q ()) s"
  by (simp add: ignoreT_def wp_simps)

text \<open>A transaction that keeps the invariant and never meets the trigger.\<close>

abbreviation keeps :: "'a ledger_tx \<Rightarrow> bool" where
  "keeps m \<equiv> keepsT quiet since m"

lemma keepsI:
  assumes "\<And>lg. ledger_ok lg \<Longrightarrow> since lg lg \<Longrightarrow> wp quiet m (\<lambda>_. since lg) lg"
  shows "keeps m"
proof (rule keepsTI)
  fix lg0 lg assume s: "since lg0 lg"
  show "wp quiet m (\<lambda>_. since lg0) lg"
    by (rule wp_mono[OF assms[OF since_ok[OF s] sinceI[OF since_ok[OF s]]]]) (rule since_step[OF s])
qed

lemma wp_keeps:
  assumes "keeps m" and "since lg0 lg" and "\<And>a lg'. since lg0 lg' \<Longrightarrow> grown lg lg' \<Longrightarrow> Q a lg'"
  shows "wp quiet m Q lg"
proof (rule wp_mono)
  show "wp quiet m (\<lambda>_. since lg) lg" by (rule keepsTD[OF assms(1) sinceI[OF since_ok[OF assms(2)]]])
next
  fix a lg' assume "since lg lg'"
  then show "Q a lg'" using assms(2,3) since_step by (auto simp: since_def)
qed

lemma keeps_ignore: "keeps m \<Longrightarrow> keeps (ignoreT m)"
  unfolding ignoreT_def by (rule keeps_bind) simp_all

section \<open>Rows after a step\<close>

lemma row_ok_gradable:
  assumes "row_ok lg r" and "gr_status r \<in> {AiGrading, AiGraded, AutoApproved, AuditPending}"
  shows "gr_ungradable r = None"
proof -
  have "gr_ungradable r \<noteq> None \<longrightarrow> gr_status r \<in> {FlaggedForReview, TeacherReviewed, FinalizedStatus}"
    using assms(1) by (simp add: row_ok_def)
  with assms(2) show ?thesis by auto
qed

lemma row_ok_flagged:
  assumes "row_ok lg r" and "gr_status r \<in> {AiGraded, AutoApproved, AuditPending}"
  shows "row_ok lg (apply_extra FlaggedForReview x r)"
proof -
  have "gr_ungradable r = None" using row_ok_gradable[OF assms(1)] assms(2) by auto
  then show ?thesis unfolding row_ok_def apply_extra_def by simp
qed

lemma row_ok_reviewed:
  assumes r: "row_ok lg r" and p: "gr_pipeline r = Investigator \<or> scored_review lg (gr_id r)"
    and st: "gr_status r \<in> {AutoApproved, FlaggedForReview, AuditPending}"
  shows "row_ok lg (apply_extra TeacherReviewed x r)"
proof -
  have "gr_ungradable r \<noteq> None \<longrightarrow> gr_aiTotal r = None" "gr_pipeline r = OneShot \<longrightarrow> scored_review lg (gr_id r)"
    using r p by (auto simp: row_ok_def)
  then show ?thesis unfolding row_ok_def apply_extra_def by simp
qed

lemma row_ok_approved:
  "row_ok lg r \<Longrightarrow> gr_pipeline r = Investigator \<Longrightarrow> gr_ungradable r = None \<Longrightarrow> row_ok lg (apply_extra AutoApproved x r)"
  by (auto simp: row_ok_def apply_extra_def)

lemma row_ok_sampled:
  "row_ok lg r \<Longrightarrow> gr_status r = AutoApproved \<Longrightarrow> row_ok lg (apply_extra AuditPending (sampled_extra True) r)"
  by (auto simp: row_ok_def apply_extra_def sampled_extra_def no_extra_def)

lemma row_ok_finalized:
  assumes r: "row_ok lg r" "gr_status r \<in> {AutoApproved, TeacherReviewed}" and x: "ax_finalizedBy x \<noteq> None"
    and c: "gr_pipeline r = Investigator \<Longrightarrow> has_manual lg (gr_id r) \<or>
      (\<exists>i. ax_finalizedComputation x = Some (Some i) \<and> scored_computation lg (gr_id r) i)"
  shows "row_ok lg (apply_extra FinalizedStatus x r)"
proof -
  have "gr_pipeline r = OneShot \<longrightarrow> scored_review lg (gr_id r)" "gr_ungradable r \<noteq> None \<longrightarrow> gr_aiTotal r = None"
    using r by (auto simp: row_ok_def)
  then show ?thesis using x c unfolding row_ok_def apply_extra_def by (cases "gr_pipeline r") (simp, force, force)
qed

text \<open>The transitions the services use are in the table.\<close>

lemma used_transitions [simp]:
  "canTransition AiGrading AiGraded" "canTransition AiGrading FlaggedForReview" "canTransition AiGraded AutoApproved"
  "canTransition AiGraded FlaggedForReview" "canTransition AutoApproved AuditPending"
  "canTransition AuditPending TeacherReviewed" "canTransition AutoApproved FlaggedForReview"
  "canTransition AuditPending FlaggedForReview" "canTransition FlaggedForReview AutoApproved"
  "canTransition FlaggedForReview AiGrading" "canTransition AutoApproved TeacherReviewed"
  "canTransition FlaggedForReview TeacherReviewed" "canTransition AutoApproved FinalizedStatus"
  "canTransition TeacherReviewed FinalizedStatus"
  by (simp_all add: canTransition_def GRADING_TRANSITIONS_def)

lemma keeps_advance_reviewed_audit: "keeps (advanceStatus rid [AuditPending] TeacherReviewed x)"
proof (rule keepsI)
  fix lg assume "since lg lg"
  then show "wp quiet (advanceStatus rid [AuditPending] TeacherReviewed x) (\<lambda>_. since lg) lg"
  proof (rule wp_advance)
    fix r assume r: "gr_status r \<in> set [AuditPending]" "row_ok lg r"
    then have "gr_pipeline r = Investigator" by (cases "gr_pipeline r") (auto simp: row_ok_def)
    with r show "canTransition (gr_status r) TeacherReviewed \<and> (TeacherReviewed = FinalizedStatus \<longrightarrow> ax_finalizedBy x \<noteq> None) \<and>
        TeacherReviewed \<noteq> AiGrading \<and> row_ok lg (apply_extra TeacherReviewed x r)"
      by (auto intro: row_ok_reviewed)
  qed simp
qed

lemma wp_advance_reviewed:
  assumes "since lg0 lg" and p: "pipe_is lg rid Investigator \<or> scored_review lg rid"
    and q: "\<And>b lg'. since lg0 lg' \<Longrightarrow> grown lg lg' \<Longrightarrow> Q b lg'" and fr: "set from \<subseteq> {AutoApproved, FlaggedForReview}"
  shows "wp quiet (advanceStatus rid from TeacherReviewed x) Q lg"
proof (rule wp_advance[OF assms(1)])
  fix r assume r: "r \<in> set (lg_rows lg)" "gr_id r = rid" "gr_status r \<in> set from" "row_ok lg r"
  then have "gr_pipeline r = Investigator \<or> scored_review lg (gr_id r)" using p by (auto simp: pipe_is_def)
  with r fr show "canTransition (gr_status r) TeacherReviewed \<and>
      (TeacherReviewed = FinalizedStatus \<longrightarrow> ax_finalizedBy x \<noteq> None) \<and> TeacherReviewed \<noteq> AiGrading \<and>
      row_ok lg (apply_extra TeacherReviewed x r)"
    using row_ok_reviewed[of lg r x] by auto
qed (rule q)

lemma keeps_advance_flagged:
  assumes "set from \<subseteq> {AiGraded, AutoApproved, AuditPending}"
  shows "keeps (advanceStatus rid from FlaggedForReview x)"
proof (rule keepsI)
  fix lg assume "since lg lg"
  then show "wp quiet (advanceStatus rid from FlaggedForReview x) (\<lambda>_. since lg) lg"
    by (rule wp_advance) (use assms in \<open>auto intro!: row_ok_flagged\<close>)
qed

lemma keeps_advance_sampled: "keeps (advanceStatus rid [AutoApproved] AuditPending (sampled_extra True))"
proof (rule keepsI)
  fix lg assume "since lg lg"
  then show "wp quiet (advanceStatus rid [AutoApproved] AuditPending (sampled_extra True)) (\<lambda>_. since lg) lg"
    by (rule wp_advance) (auto intro!: row_ok_sampled)
qed

lemma wp_advance_approved:
  assumes "since lg0 lg" and p: "pipe_is lg rid Investigator"
    and fr: "set from \<subseteq> {AiGraded, FlaggedForReview}"
    and none: "\<And>r. r \<in> set (lg_rows lg) \<Longrightarrow> gr_id r = rid \<Longrightarrow> gr_status r \<in> set from \<Longrightarrow> gr_ungradable r = None"
    and q: "\<And>b lg'. since lg0 lg' \<Longrightarrow> grown lg lg' \<Longrightarrow> Q b lg'"
  shows "wp quiet (advanceStatus rid from AutoApproved x) Q lg"
proof (rule wp_advance[OF assms(1)])
  fix r assume r: "r \<in> set (lg_rows lg)" "gr_id r = rid" "gr_status r \<in> set from" "row_ok lg r"
  have "row_ok lg (apply_extra AutoApproved x r)"
    using row_ok_approved[OF r(4)] none[OF r(1-3)] p r(1,2) by (auto simp: pipe_is_def)
  with r(3) fr show "canTransition (gr_status r) AutoApproved \<and>
      (AutoApproved = FinalizedStatus \<longrightarrow> ax_finalizedBy x \<noteq> None) \<and> AutoApproved \<noteq> AiGrading \<and>
      row_ok lg (apply_extra AutoApproved x r)"
    by auto
qed (rule q)

section \<open>The services keep the invariant\<close>

lemma keeps_topUp: "keeps (topUpSessionAudit io session)"
proof (rule keepsI)
  fix lg assume s: "since lg lg"
  show "wp quiet (topUpSessionAudit io session) (\<lambda>_. since lg) lg"
    using s by (auto simp: topUpSessionAudit_def wp_simps Let_def
        intro!: wp_keeps[OF keeps_for, OF _ s] keeps_bind keeps_advance_sampled)
qed

lemma keeps_finish_attempt: "keeps (finish_attempt a out)"
  by (rule keepsI) (simp add: finish_attempt_def, rule wp_modify_other, auto)

lemma wp_settleInitial:
  assumes s: "since lg0 lg" and p: "pipe_is lg (gr_id ctx) Investigator"
  shows "wp quiet (settleInitial io ctx auto) (\<lambda>_. since lg0) lg"
proof -
  define k where "k = (\<lambda>_ :: bool. bindT (if auto \<and> drawn_for_audit io ctx
      then advanceStatus (gr_id ctx) [AutoApproved] AuditPending (sampled_extra True) else retT False)
    (\<lambda>_. topUpSessionAudit io (gr_session ctx)))"
  have none: "gr_ungradable r = None" if "r \<in> set (lg_rows lg)" "gr_status r = AiGraded" for r
    using since_ok[OF s] that row_ok_gradable[of lg r] by (simp add: ledger_ok_def)
  have rest: "wp quiet (k a) (\<lambda>_. since lg0) lg1" if "since lg0 lg1" for a lg1
    unfolding k_def by (rule wp_keeps[OF keeps_bind that]) (auto intro: keeps_advance_sampled keeps_topUp)
  have app: "wp quiet (advanceStatus (gr_id ctx) [AiGraded] AutoApproved x) (\<lambda>a. wp quiet (k a) (\<lambda>_. since lg0)) lg" for x
    by (rule wp_advance_approved[OF s p]) (auto intro: none rest)
  have flag: "wp quiet (advanceStatus (gr_id ctx) [AiGraded] FlaggedForReview x) (\<lambda>a. wp quiet (k a) (\<lambda>_. since lg0)) lg" for x
    by (rule wp_keeps[OF keeps_advance_flagged s]) (auto intro: rest)
  show ?thesis unfolding settleInitial_def k_def[symmetric] wp_bind using app flag by simp
qed

lemma wp_writeInitial:
  assumes s: "since lg0 lg" and p: "pipe_is lg (gr_id ctx) Investigator"
  shows "wp quiet (writeInitial io ctx out score) (\<lambda>_. since lg0) lg"
  unfolding writeInitial_def wp_bind
proof (rule wp_insertComputation[OF s])
  fix c lg1 assume s1: "since lg0 lg1" and g1: "grown lg lg1"
  show "wp quiet (update_rows (\<lambda>r. gr_id r = gr_id ctx \<and> gr_status r = AiGrading) (graded_update score))
     (\<lambda>wrote. wp quiet (thenT (unlessT (0 < wrote) LeftAiGrading)
       (thenT (settleInitial io ctx (sco_outcome out = Auto))
        (retT (if sco_outcome out = Auto then Auto else Flagged, c, score)))) (\<lambda>_. since lg0)) lg1"
  proof (rule wp_update_rows[OF s1])
    fix r assume "gr_id r = gr_id ctx \<and> gr_status r = AiGrading" "row_ok lg1 r"
    then show "validate_lifecycle r (graded_update score r) = None \<and> gr_id (graded_update score r) = gr_id r \<and>
        gr_pipeline (graded_update score r) = gr_pipeline r \<and> row_ok lg1 (graded_update score r)"
      by (auto simp: validate_lifecycle_def transition_allowed_iff row_ok_def graded_update_def)
  next
    fix n lg2 assume s2: "since lg0 lg2" and g2: "grown lg1 lg2"
    have "pipe_is lg2 (gr_id ctx) Investigator" by (rule pipe_is_mono[OF g2 pipe_is_mono[OF g1 p]])
    from wp_settleInitial[OF s2 this] show "wp quiet (thenT (unlessT (0 < n) LeftAiGrading)
       (thenT (settleInitial io ctx (sco_outcome out = Auto))
        (retT (if sco_outcome out = Auto then Auto else Flagged, c, score)))) (\<lambda>_. since lg0) lg2"
      by (simp add: wp_simps)
  qed
qed

text \<open>Reads of the database.\<close>

lemma wp_compute:
  "(\<And>out. Q out lg) \<Longrightarrow> wp quiet (compute io r stored) Q lg"
  by (auto simp: compute_def wp_simps split: option.split sum.split)

lemma wp_lockRunning:
  assumes "\<And>r. find_row lg rid = Some r \<Longrightarrow> gr_pipeline r = Investigator \<Longrightarrow> Q r lg"
  shows "wp quiet (lockRunning rid a) Q lg"
  using assms by (auto simp: lockRunning_def wp_simps split: option.split)

lemma find_row_unique:
  "ledger_ok lg \<Longrightarrow> find_row lg rid = Some r \<Longrightarrow> r' \<in> set (lg_rows lg) \<Longrightarrow> gr_id r' = rid \<Longrightarrow> r' = r"
  using find_rowD[of lg rid r] by (auto simp: ledger_ok_def distinct_map dest: inj_onD)

lemma keeps_update:
  assumes "\<And>lg r. cond r \<Longrightarrow> row_ok lg r \<Longrightarrow>
        validate_lifecycle r (f r) = None \<and> gr_id (f r) = gr_id r \<and> gr_pipeline (f r) = gr_pipeline r \<and> row_ok lg (f r)"
  shows "keeps (update_rows cond f)"
proof (rule keepsI)
  fix lg assume "since lg lg"
  then show "wp quiet (update_rows cond f) (\<lambda>_. since lg) lg"
    by (rule wp_update_rows) (rule assms)
qed

lemma keeps_other:
  "(\<And>lg. lg_rows (f lg) = lg_rows lg \<and> lg_reviews (f lg) = lg_reviews lg \<and> lg_computations (f lg) = lg_computations lg) \<Longrightarrow>
   keeps (modifyT f)"
  by (rule keepsI) (rule wp_modify_other, auto)

lemmas ledger_intros = keeps_intros keeps_other

lemma keeps_closeUngradable: "keeps (closeUngradable rid a c why)"
  unfolding closeUngradable_def
proof (intro ledger_intros keeps_bind keeps_finish_attempt keeps_update)
  fix lg r assume "gr_id r = rid \<and> gr_status r = AiGrading" "row_ok lg r"
  then show "validate_lifecycle r (ungradable_update c why r) = None \<and> gr_id (ungradable_update c why r) = gr_id r \<and>
      gr_pipeline (ungradable_update c why r) = gr_pipeline r \<and> row_ok lg (ungradable_update c why r)"
    by (auto simp: validate_lifecycle_def transition_allowed_iff row_ok_def ungradable_update_def)
qed simp

lemma keeps_finishUngradable: "keeps (finishUngradable rid a c why)"
  unfolding finishUngradable_def
  by (rule keepsI) (auto simp: wp_bind intro!: wp_lockRunning wp_keeps[OF keeps_closeUngradable])

lemma keeps_computeInitial: "keeps (computeInitial io rid)"
  unfolding computeInitial_def
proof (rule keepsI)
  fix lg assume s: "since lg lg" and ok: "ledger_ok lg"
  show "wp quiet (bindT (rowT rid) (\<lambda>r. bindT (getT (\<lambda>lg. graded_attempt lg r)) (\<lambda>stored.
     if gr_pipeline r \<noteq> Investigator \<or> gr_status r \<noteq> AiGrading \<or> stored = None then failT NotInitial
     else bindT (compute io r stored) (\<lambda>out.
       (case sco_score out of
          None \<Rightarrow> failT InitialBelowFloor
        | Some score \<Rightarrow> if sco_outcome out = Ungradable then failT InitialBelowFloor else writeInitial io r out score)))))
     (\<lambda>_. since lg) lg"
    unfolding wp_bind[of _ "rowT rid"]
  proof (rule wp_rowT)
    fix r assume r: "find_row lg rid = Some r"
    have "pipe_is lg (gr_id r) Investigator" if "gr_pipeline r = Investigator"
      using pipe_is_row[OF ok, of r] find_rowD[OF r] that by simp
    then have w: "wp quiet (writeInitial io r out score) (\<lambda>_. since lg) lg" if "gr_pipeline r = Investigator" for out score
      using wp_writeInitial[OF s] that by blast
    show "wp quiet (bindT (getT (\<lambda>lg. graded_attempt lg r)) (\<lambda>stored.
     if gr_pipeline r \<noteq> Investigator \<or> gr_status r \<noteq> AiGrading \<or> stored = None then failT NotInitial
     else bindT (compute io r stored) (\<lambda>out.
       (case sco_score out of
          None \<Rightarrow> failT InitialBelowFloor
        | Some score \<Rightarrow> if sco_outcome out = Ungradable then failT InitialBelowFloor else writeInitial io r out score))))
     (\<lambda>_. since lg) lg"
      using w by (auto simp: wp_simps split: option.split intro!: wp_compute)
  qed
qed

lemma wp_close:
  assumes "since lg0 lg"
  shows "wp quiet (thenT (closeUngradable rid a c why) (retT x)) (\<lambda>_. since lg0) lg"
  by (rule wp_keeps[OF keeps_then[OF keeps_closeUngradable keeps_ret] assms])

lemma keeps_finishAttempt: "keeps (finishAttempt io rid a stored)"
  unfolding finishAttempt_def Let_def
proof (rule keepsI, unfold wp_bind[of _ "lockRunning rid a"], rule wp_lockRunning)
  fix lg r assume s: "since lg lg" and ok: "ledger_ok lg" and r: "find_row lg rid = Some r" "gr_pipeline r = Investigator"
  have p: "pipe_is lg (gr_id r) Investigator" using pipe_is_row[OF ok, of r] find_rowD[OF r(1)] r(2) by simp
  have w: "wp quiet (thenT (finish_attempt a (AttemptGraded stored))
      (bindT (writeInitial io r out score) (\<lambda>(o1, c, s). retT (FinishScored o1 c s)))) (\<lambda>_. since lg) lg" for out score
    unfolding wp_then
  proof (rule wp_keeps[OF keeps_finish_attempt s])
    fix lg' assume s': "since lg lg'" and g: "grown lg lg'"
    show "wp quiet (bindT (writeInitial io r out score) (\<lambda>(o1, c, s). retT (FinishScored o1 c s))) (\<lambda>_. since lg) lg'"
      unfolding wp_bind by (rule wp_mono[OF wp_writeInitial[OF s' pipe_is_mono[OF g p]]]) (auto simp: wp_simps split: prod.split)
  qed
  show "wp quiet (if ir_kind (si_result stored) = KUngradable
         then case ir_ungradable (si_result stored) of
                None \<Rightarrow> thenT (closeUngradable rid a SystemFault (io_say io NoConclusion)) (retT (FinishUngradable SystemFault (io_say io NoConclusion)))
              | Some u \<Rightarrow> thenT (closeUngradable rid a (ug_class u) (io_say io (ug_reason u)))
                           (retT (FinishUngradable (ug_class u) (io_say io (ug_reason u))))
         else bindT (compute io r (Some stored)) (\<lambda>out.
             case if sco_outcome out = Ungradable then None else sco_score out of
               None \<Rightarrow> (case sco_ungradable out of
                   None \<Rightarrow> thenT (closeUngradable rid a SystemFault (io_belowFloor io)) (retT (FinishUngradable SystemFault (io_belowFloor io)))
                 | Some u \<Rightarrow> thenT (closeUngradable rid a (ug_class u) (io_say io (ug_reason u)))
                              (retT (FinishUngradable (ug_class u) (io_say io (ug_reason u)))))
             | Some score \<Rightarrow> thenT (finish_attempt a (AttemptGraded stored))
                 (bindT (writeInitial io r out score) (\<lambda>(o1, c, s). retT (FinishScored o1 c s))))) (\<lambda>_. since lg) lg"
    by (auto simp only: wp_if wp_bind[of _ "compute _ _ _"] split: option.split if_split intro!: wp_compute wp_close s w)
qed

section \<open>Recomputations\<close>

lemma keeps_recomputeOne: "keeps (recomputeOne io rid reason actor)"
  unfolding recomputeOne_def
proof (rule keepsI, unfold wp_bind[of _ "rowT rid"], rule wp_rowT, unfold wp_bind wp_get, rule wp_compute)
  fix lg r out assume s: "since lg lg"
  show "wp quiet (insertComputation io rid reason actor (sco_score out) (sco_breakdown out))
     (\<lambda>_. wp quiet (retT out) (\<lambda>_. since lg)) lg"
    by (rule wp_insertComputation[OF s]) (simp add: wp_simps)
qed

lemma wp_ruleLayerTransition:
  assumes s: "since lg0 lg" and p: "pipe_is lg rid Investigator"
  shows "wp quiet (ruleLayerTransition rid out) (\<lambda>_. since lg0) lg"
proof (cases "sco_outcome out = Auto")
  case True
  have "wp quiet (if gr_ungradable r \<noteq> None then retT None
          else bindT (advanceStatus rid [FlaggedForReview] AutoApproved (flag_extra False)) (\<lambda>promoted.
            retT (if promoted then Some Promoted else None))) (\<lambda>_. since lg0) lg" if r: "find_row lg rid = Some r" for r
  proof (cases "gr_ungradable r = None")
    case True
    have "wp quiet (advanceStatus rid [FlaggedForReview] AutoApproved (flag_extra False)) (\<lambda>_. since lg0) lg"
      using find_row_unique[OF since_ok[OF s] r] True by (intro wp_advance_approved[OF s p]) auto
    with True show ?thesis by (simp add: wp_simps)
  next
    case False
    with s show ?thesis by (simp add: wp_simps)
  qed
  with True show ?thesis by (auto simp: ruleLayerTransition_def wp_bind[of _ "rowT rid"] intro!: wp_rowT)
next
  case False
  have "keeps (bindT (advanceStatus rid [AutoApproved] FlaggedForReview (flag_extra True)) (\<lambda>demoted.
          if demoted then retT (Some Demoted)
          else bindT (advanceStatus rid [AuditPending] FlaggedForReview
                 (no_extra\<lparr>ax_flag := Some True, ax_auditSampled := Some False\<rparr>)) (\<lambda>unsampled.
            retT (if unsampled then Some Demoted else None))))"
    by (intro keeps_bind keeps_advance_flagged) (auto intro!: keeps_bind keeps_advance_flagged)
  from wp_keeps[OF this s] False show ?thesis by (simp add: ruleLayerTransition_def)
qed

lemma in_scope_pipeline: "in_scope io sp lg r \<Longrightarrow> gr_pipeline r = Investigator"
  by (simp add: in_scope_def)

lemma keeps_recomputeForTeacher: "keeps (recomputeForTeacher io reason actor sp)"
  unfolding recomputeForTeacher_def
proof (rule keepsI, unfold wp_bind[of _ "getT _"] wp_get)
  fix lg assume ok: "ledger_ok lg" and s0: "since lg lg"
  show "wp quiet (foldT (\<lambda>rid sum.
       bindT (recomputeOne io rid reason actor) (\<lambda>out.
       bindT (ruleLayerTransition rid out) (\<lambda>moved.
       retT (sum\<lparr>rs_recomputed := rs_recomputed sum + 1,
              rs_belowFloor := rs_belowFloor sum + (if sco_score out = None then 1 else 0),
              rs_promoted := rs_promoted sum + (if moved = Some Promoted then 1 else 0),
              rs_demoted := rs_demoted sum + (if moved = Some Demoted then 1 else 0)\<rparr>))))
     (map gr_id (filter (in_scope io sp lg) (lg_rows lg))) \<lparr>rs_recomputed = 0, rs_promoted = 0, rs_demoted = 0, rs_belowFloor = 0\<rparr>)
     (\<lambda>_. since lg) lg"
  proof (rule wp_foldT[where I = "\<lambda>_. since lg"])
    fix rid sum s assume "rid \<in> set (map gr_id (filter (in_scope io sp lg) (lg_rows lg)))" and s: "since lg s"
    then have "pipe_is lg rid Investigator" using pipe_is_row[OF ok] in_scope_pipeline[of io sp lg] by fastforce
    with s have p: "pipe_is s rid Investigator" by (auto simp: since_def intro: pipe_is_mono)
    have "wp quiet (ruleLayerTransition rid out) Q s'"
      if "since lg s'" "grown s s'" "\<And>m s'. since lg s' \<Longrightarrow> Q m s'" for out s' Q
      by (rule wp_mono[OF wp_ruleLayerTransition[OF that(1) pipe_is_mono[OF that(2) p]]]) (rule that(3))
    then show "wp quiet (bindT (recomputeOne io rid reason actor) (\<lambda>out.
         bindT (ruleLayerTransition rid out) (\<lambda>moved.
         retT (sum\<lparr>rs_recomputed := rs_recomputed sum + 1,
                rs_belowFloor := rs_belowFloor sum + (if sco_score out = None then 1 else 0),
                rs_promoted := rs_promoted sum + (if moved = Some Promoted then 1 else 0),
                rs_demoted := rs_demoted sum + (if moved = Some Demoted then 1 else 0)\<rparr>)))) (\<lambda>_. since lg) s"
      unfolding wp_bind by (intro wp_keeps[OF keeps_recomputeOne s]) (simp add: wp_ret)
  qed (use s0 in simp_all)
qed

section \<open>Prices of a published session\<close>

lemma keeps_reapply_item:
  "keeps (bindT (insertComputation io (rp_result it) FinalizedReapply (Some teacher) (Some (rp_new it)) (rp_breakdown it)) (\<lambda>c.
         bindT (update_rows (\<lambda>r. gr_id r = rp_result it) (\<lambda>r. r\<lparr>gr_finalizedComputation := Some c\<rparr>)) (\<lambda>_.
         recordUserAction e)))"
proof (rule keepsI, unfold wp_bind, rule wp_insertComputation, assumption)
  fix lg c lg1 assume s1: "since lg lg1" and sc: "Some (rp_new it) \<noteq> None \<Longrightarrow> scored_computation lg1 (rp_result it) c"
  show "wp quiet (update_rows (\<lambda>r. gr_id r = rp_result it) (\<lambda>r. r\<lparr>gr_finalizedComputation := Some c\<rparr>))
     (\<lambda>_. wp quiet (recordUserAction e) (\<lambda>_. since lg)) lg1"
  proof (rule wp_update_rows[OF s1])
    fix r assume "gr_id r = rp_result it" "row_ok lg1 r"
    then show "validate_lifecycle r (r\<lparr>gr_finalizedComputation := Some c\<rparr>) = None \<and>
        gr_id (r\<lparr>gr_finalizedComputation := Some c\<rparr>) = gr_id r \<and>
        gr_pipeline (r\<lparr>gr_finalizedComputation := Some c\<rparr>) = gr_pipeline r \<and> row_ok lg1 (r\<lparr>gr_finalizedComputation := Some c\<rparr>)"
      using sc by (auto simp: validate_lifecycle_def row_ok_def)
  next
    fix lg2 assume "since lg lg2"
    then show "wp quiet (recordUserAction e) (\<lambda>_. since lg) lg2"
      unfolding recordUserAction_def by (rule wp_modify_other) simp_all
  qed
qed

lemma plan_one_quiet: "traverse (plan_one io) xs = Inl e \<Longrightarrow> quiet e"
  by (induction xs) (auto simp: plan_one_def Let_def split: prod.splits sum.splits if_splits)

lemma keeps_planReapply: "keeps (planReapply io session)"
  by (rule keepsTI) (auto simp: planReapply_def id_def wp_simps plan_one_quiet split: sum.split)

lemma keeps_reapply: "keeps (reapplyFinalizedSession io session teacher)"
  unfolding reapplyFinalizedSession_def
  by (intro keeps_bind keeps_planReapply)
     (auto split: prod.split intro!: ledger_intros keeps_for keeps_reapply_item keeps_other)

section \<open>Beginning and end of an attempt\<close>

lemma keeps_set_attempt: "keeps (update_rows (\<lambda>r. gr_id r = rid) (\<lambda>r. r\<lparr>gr_attempt := a\<rparr>))"
  by (rule keeps_update) (auto simp: validate_lifecycle_def row_ok_def)

lemma keeps_startAttempt: "keeps (startAttempt rid)"
  unfolding startAttempt_def
  by (auto split: option.split intro!: ledger_intros keeps_bind keeps_set_attempt)

lemma keeps_markUngradable: "keeps (markUngradable submission why)"
proof -
  have "keeps (update_rows (\<lambda>r. gr_submission r = submission \<and> gr_status r = AiGrading) (ungradable_update SystemFault why))"
    by (rule keeps_update) (auto simp: validate_lifecycle_def transition_allowed_iff row_ok_def ungradable_update_def)
  then show ?thesis unfolding markUngradable_def
    by (rule keeps_bind) (auto split: option.split intro!: ledger_intros keeps_bind keeps_set_attempt keeps_finish_attempt)
qed

lemma keeps_oneShotFlag: "keeps (oneShotFlag rid confident)"
  unfolding oneShotFlag_def
  by (intro keeps_bind keeps_update) (auto simp: validate_lifecycle_def transition_allowed_iff row_ok_def)

lemma keeps_oneShotWrite: "keeps (oneShotWrite rid score criteria advocate)"
  unfolding oneShotWrite_def
  by (intro keeps_bind keeps_update) (auto simp: validate_lifecycle_def transition_allowed_iff row_ok_def)

lemma keeps_requeue: "keeps (requeue rid)"
  unfolding requeue_def
  by (intro keeps_bind keeps_update) (auto simp: validate_lifecycle_def transition_allowed_iff row_ok_def)

section \<open>Reviews\<close>

lemma wp_review_step:
  assumes s: "since lg0 lg" and t: "tr_result t = rid" "tr_finalScore t \<noteq> None"
    and Q: "\<And>b lg'. since lg0 lg' \<Longrightarrow> Q b lg'"
  shows "wp quiet (add_review t) (\<lambda>_. wp quiet (advanceStatus rid [AutoApproved, FlaggedForReview] TeacherReviewed x) Q) lg"
proof (rule wp_add_review[OF s])
  fix lg' assume s': "since lg0 lg'" and m: "t \<in> set (lg_reviews lg')"
  have "scored_review lg' rid" using m t by (auto simp: scored_review_def)
  then show "wp quiet (advanceStatus rid [AutoApproved, FlaggedForReview] TeacherReviewed x) Q lg'"
    by (intro wp_advance_reviewed[OF s']) (auto intro: Q)
qed (simp add: t)

lemma keeps_recordUserAction: "keeps (recordUserAction e)"
  unfolding recordUserAction_def by (rule keeps_other) simp

lemma keeps_review_step:
  assumes "tr_result t = rid" "tr_finalScore t \<noteq> None" and "\<And>b. keeps (k b)"
  shows "keeps (thenT (add_review t) (bindT (advanceStatus rid [AutoApproved, FlaggedForReview] TeacherReviewed x) k))"
proof (rule keepsI)
  fix lg assume s: "since lg lg"
  show "wp quiet (thenT (add_review t) (bindT (advanceStatus rid [AutoApproved, FlaggedForReview] TeacherReviewed x) k)) (\<lambda>_. since lg) lg"
    unfolding wp_then wp_bind by (rule wp_review_step[OF s assms(1,2)], rule wp_keeps[OF assms(3)])
qed

lemma keeps_reviewWithin: "keeps (reviewWithin io r teacher criteria note applied)"
  unfolding reviewWithin_def Let_def
  by (intro keeps_bind[OF keeps_lift] keeps_get keeps_review_step keeps_then keeps_when keeps_recordUserAction keeps_ret) simp_all

lemma keeps_review: "keeps (review io r teacher criteria note)"
  unfolding review_def by (auto split: prod.split intro!: keeps_fail keeps_bind keeps_reviewWithin)

lemma keeps_bulk_one: "keeps (bulk_one io rubric teacher rule note r acc)"
proof -
  have "keeps (bindT (getT (\<lambda>lg. isUnchanged lg (gr_id r) criteria note)) (\<lambda>same.
       if same then retT x else bindT (reviewWithin io r teacher criteria note (Some rule)) k))"
    if "\<And>a. keeps (k a)" for criteria k and x :: "nat \<times> (key \<times> bulk_skip) list \<times> nat"
    using that by (auto intro!: keeps_get keeps_bind keeps_reviewWithin)
  then show ?thesis unfolding bulk_one_def Let_def
    by (auto split: prod.split sum.split rule_refusal.split)
qed

lemma keeps_bulkReview: "keeps (bulkReview io session teacher ids rule note)"
  unfolding bulkReview_def Let_def by (auto intro!: ledger_intros keeps_fold keeps_bulk_one)

lemma wp_lockEditable:
  assumes "\<And>r. find_row lg rid = Some r \<Longrightarrow> gr_status r \<in> set EDITABLE \<or> gr_status r \<in> set also \<Longrightarrow> Q r lg"
  shows "wp quiet (lockEditable rid also) Q lg"
  using assms by (auto simp: lockEditable_def wp_bind wp_if wp_fail wp_ret intro!: wp_rowT)

lemma keeps_setErrorException: "keeps (setErrorException io teacher rid rule direction)"
  unfolding setErrorException_def
proof (rule keepsI, unfold wp_bind[of _ "lockEditable rid []"], rule wp_lockEditable)
  fix lg r assume s: "since lg lg" and ok: "ledger_ok lg" and r: "find_row lg rid = Some r"
  have p: "gr_pipeline r = Investigator \<Longrightarrow> pipe_is lg rid Investigator" using pipe_is_find[OF ok r] by simp
  have "wp quiet (thenT (add_review t)
         (bindT (recomputeOne io rid ErrorExceptionReason (Some teacher)) (\<lambda>out.
          bindT (advanceStatus rid [AutoApproved, FlaggedForReview] TeacherReviewed (flag_extra False)) (\<lambda>_.
          retT (sco_score out))))) (\<lambda>_. since lg) lg"
    if i: "gr_pipeline r = Investigator" and t: "tr_kind t = ErrorExceptionKind" for t
    unfolding wp_then wp_bind
  proof (rule wp_add_review[OF s])
    fix lg1 assume s1: "since lg lg1" and g1: "grown lg lg1"
    show "wp quiet (recomputeOne io rid ErrorExceptionReason (Some teacher)) (\<lambda>out.
        wp quiet (advanceStatus rid [AutoApproved, FlaggedForReview] TeacherReviewed (flag_extra False))
          (\<lambda>_. wp quiet (retT (sco_score out)) (\<lambda>_. since lg))) lg1"
    proof (rule wp_keeps[OF keeps_recomputeOne s1])
      fix out lg2 assume s2: "since lg lg2" and g2: "grown lg1 lg2"
      have "pipe_is lg2 rid Investigator" by (rule pipe_is_mono[OF g2 pipe_is_mono[OF g1 p[OF i]]])
      then show "wp quiet (advanceStatus rid [AutoApproved, FlaggedForReview] TeacherReviewed (flag_extra False))
          (\<lambda>_. wp quiet (retT (sco_score out)) (\<lambda>_. since lg)) lg2"
        by (intro wp_advance_reviewed[OF s2]) (simp_all add: wp_ret)
    qed
  qed (simp add: t)
  then show "wp quiet (if gr_pipeline r \<noteq> Investigator then failT OnlyInvestigator
     else bindT (getT (\<lambda>lg. latestComputationRow lg rid)) (\<lambda>last.
       if (case last of None \<Rightarrow> True | Some (_, c) \<Rightarrow> \<not> list_ex (\<lambda>e. be_ruleId e = rule) (sb_errors (cm_breakdown c)))
       then failT ErrorNotInComputation
       else
         thenT (add_review \<lparr>tr_result = rid, tr_teacher = teacher, tr_kind = ErrorExceptionKind, tr_finalScore = None,
             tr_errorRule = Some rule, tr_direction = Some direction, tr_confirmed = None, tr_criteria = [], tr_note = None\<rparr>)
         (bindT (recomputeOne io rid ErrorExceptionReason (Some teacher)) (\<lambda>out.
          bindT (advanceStatus rid [AutoApproved, FlaggedForReview] TeacherReviewed (flag_extra False)) (\<lambda>_.
          retT (sco_score out)))))) (\<lambda>_. since lg) lg"
    by (auto simp: wp_if wp_fail wp_bind[of _ "getT _"] wp_get)
qed

lemma keeps_add_manual: "tr_finalScore t \<noteq> None \<Longrightarrow> keeps (add_review t)"
  by (rule keepsI) (rule wp_add_review, auto)

lemma keeps_manual_step:
  assumes "tr_result t = rid" "tr_finalScore t \<noteq> None" and "keeps m" and "\<And>b. keeps (k b)"
  shows "keeps (thenT (add_review t) (if b then m
     else bindT (advanceStatus rid [AutoApproved, FlaggedForReview] TeacherReviewed x) k))"
  using assms by (cases b) (auto intro: keeps_then keeps_add_manual keeps_review_step)

lemma keeps_setManualScore: "keeps (setManualScore io teacher rid score)"
proof -
  have q: "readScore score = Inl e \<Longrightarrow> quiet e" for e by (auto simp: readScore_def split: option.splits sum.splits)
  have l: "keeps (bindT (liftT id (readScore score)) k)" if "\<And>a. keeps (k a)" for k :: "int \<Rightarrow> (int \<times> grading_status) ledger_tx"
    using that q by (cases "readScore score") (auto simp: keepsT_def wp_simps)
  have e: "keeps (bindT (lockEditable rid [FinalizedStatus, Exported]) k)"
    if "\<And>a. keeps (k a)" for k :: "grading_row \<Rightarrow> (int \<times> grading_status) ledger_tx"
    using that by (intro keepsTI) (auto simp: wp_bind intro!: wp_lockEditable keepsTD[of _ _ "k _"])
  show ?thesis unfolding setManualScore_def Let_def
    by (auto intro!: l e keeps_fail keeps_get keeps_manual_step keeps_recordUserAction
        keeps_then[OF keeps_recordUserAction keeps_ret])
qed

section \<open>Groups, audits and breakers\<close>

lemma wp_bind_fun: "wp ok (bindT m k) Q = wp ok m (\<lambda>a. wp ok (k a) Q)"
  by (simp add: fun_eq_iff wp_bind)

lemma keeps_confirm_one:
  "keeps (thenT (writeConfirm i c teacher)
     (bindT (advanceStatus i [FlaggedForReview] TeacherReviewed (flag_extra False)) (\<lambda>ok. unlessT ok MovedMeanwhile)))"
proof (rule keepsI)
  fix lg assume s: "since lg lg"
  have "wp quiet (add_review t) (\<lambda>_. wp quiet (advanceStatus i [FlaggedForReview] TeacherReviewed (flag_extra False))
      (\<lambda>ok. wp quiet (unlessT ok MovedMeanwhile) (\<lambda>_. since lg))) lg"
    if "tr_result t = i" "tr_finalScore t \<noteq> None" for t
  proof (rule wp_add_review[OF s])
    fix lg' assume s': "since lg lg'" and m: "t \<in> set (lg_reviews lg')"
    have "scored_review lg' i" using m that by (auto simp: scored_review_def)
    then show "wp quiet (advanceStatus i [FlaggedForReview] TeacherReviewed (flag_extra False))
      (\<lambda>ok. wp quiet (unlessT ok MovedMeanwhile) (\<lambda>_. since lg)) lg'"
      by (intro wp_advance_reviewed[OF s']) (auto simp: wp_unless)
  qed (simp add: that)
  then show "wp quiet (thenT (writeConfirm i c teacher)
     (bindT (advanceStatus i [FlaggedForReview] TeacherReviewed (flag_extra False)) (\<lambda>ok. unlessT ok MovedMeanwhile))) (\<lambda>_. since lg) lg"
    by (auto simp: writeConfirm_def wp_then wp_bind wp_bind_fun wp_get wp_fail split: option.split)
qed

lemma keeps_confirmGroup: "keeps (confirmGroup session teacher k ids)"
  unfolding confirmGroup_def Let_def
  by (auto split: option.split prod.split intro!: ledger_intros keeps_for keeps_confirm_one)

lemma count_labels_le: "snd (count_labels scope es) \<le> fst (count_labels scope es)"
proof -
  let ?f = "\<lambda>(n, d) e. case e of LabelOf s x \<Rightarrow> if s = scope then (n + 1, if x then d + 1 else d) else (n, d)
     | ResetOf s \<Rightarrow> if s = scope then (0, 0) else (n, d)"
  have "d \<le> n \<Longrightarrow> snd (foldl ?f (n, d) es) \<le> fst (foldl ?f (n, d) es)" for n d :: nat
    by (induction es arbitrary: n d) (auto split: label_event.split)
  then show ?thesis by (simp add: count_labels_def)
qed

lemma keeps_breaker_round: "keeps (breaker_round io rid scope)"
proof (rule keepsI)
  fix lg assume s: "since lg lg"
  obtain n d where nd: "count_labels scope (lg_labels lg) = (n, d)" by fastforce
  have "d \<le> n" using count_labels_le[of scope "lg_labels lg"] nd by simp
  then obtain v where v: "breakerVerdict (io_math io) n d = Inr v" using breakerVerdict_total by blast
  have "keeps (if \<not> trip then retT ()
       else thenT (modifyT (\<lambda>lg. lg\<lparr>lg_breakers := lg_breakers lg @ [scope]\<rparr>))
         (bindT (recomputeForTeacher io AutoRuleTripped None sp) (\<lambda>_. retT ())))" for trip sp
    by (auto intro!: keeps_then keeps_other keeps_bind[OF keeps_recomputeForTeacher])
  from wp_keeps[OF this s] show "wp quiet (breaker_round io rid scope) (\<lambda>_. since lg) lg"
    using s by (cases v) (simp add: breaker_round_def wp_bind wp_get nd wp_lift v wp_ret)
qed

lemma keeps_recordLabels: "keeps (recordLabelsAndEvaluate io rid perRule summary)"
  unfolding recordLabelsAndEvaluate_def
  by (intro keeps_get keeps_then keeps_when keeps_for keeps_other) (auto split: prod.split intro: keeps_breaker_round)

lemma keeps_recordAudit: "keeps (recordAudit io rid picked extras)"
  unfolding recordAudit_def Let_def
  by (auto split: option.split prod.split intro!: ledger_intros keeps_bind[OF keeps_advance_reviewed_audit] keeps_recordLabels)

lemma keeps_resetBreaker: "keeps (resetBreaker scope)"
  unfolding resetBreaker_def by (auto intro!: ledger_intros)

section \<open>Finalizing\<close>

lemma last_position_SomeD:
  assumes "last_position P xs = Some i"
  shows "i < length xs \<and> P (xs ! i)"
proof -
  have "i \<in> set (filter (\<lambda>i. P (xs ! i)) (rev [0..<length xs]))"
    using assms by (auto simp: last_position_def split: list.splits simp del: set_filter)
  then show ?thesis by simp
qed

lemma scored_latest_scored: "scored_latest lg rid = Some i \<Longrightarrow> scored_computation lg rid i"
  by (auto simp: scored_latest_def latestComputationRow_def scored_computation_def
      split: option.splits if_splits dest!: last_position_SomeD)

lemma not_without_score:
  assumes "\<not> without_score lg r" and "gr_pipeline r = Investigator" and "gr_status r \<in> {AutoApproved, TeacherReviewed}"
  shows "has_manual lg (gr_id r) \<or> (\<exists>i. scored_latest lg (gr_id r) = Some i)"
  using assms by (auto simp: without_score_def scored_latest_def split: option.splits)

lemma wp_advance_finalized:
  assumes s: "since lg0 lg" and c: "lg_computations lg = lg_computations lg0" and x: "ax_finalizedBy x \<noteq> None"
    and fr: "from \<in> {AutoApproved, TeacherReviewed}"
    and sc: "pipe_is lg rid OneShot \<or> has_manual lg0 rid \<or>
      (\<exists>i. ax_finalizedComputation x = Some (Some i) \<and> scored_computation lg0 rid i)"
    and Q: "\<And>b lg'. since lg0 lg' \<Longrightarrow> lg_computations lg' = lg_computations lg0 \<Longrightarrow> Q b lg'"
  shows "wp quiet (advanceStatus rid [from] FinalizedStatus x) Q lg"
proof (rule wp_advance[OF s])
  fix r assume r: "r \<in> set (lg_rows lg)" "gr_id r = rid" "gr_status r \<in> set [from]" "row_ok lg r"
  have g: "grown lg0 lg" using s by (simp add: since_def)
  have "row_ok lg (apply_extra FinalizedStatus x r)"
  proof (rule row_ok_finalized[OF r(4) _ x])
    show "gr_status r \<in> {AutoApproved, TeacherReviewed}" using r(3) fr by auto
    assume "gr_pipeline r = Investigator"
    then show "has_manual lg (gr_id r) \<or> (\<exists>i. ax_finalizedComputation x = Some (Some i) \<and> scored_computation lg (gr_id r) i)"
      using sc r(1,2) has_manual_mono[OF g] scored_computation_mono[OF g] by (auto simp: pipe_is_def)
  qed
  with r(3) fr x show "canTransition (gr_status r) FinalizedStatus \<and> (FinalizedStatus = FinalizedStatus \<longrightarrow> ax_finalizedBy x \<noteq> None) \<and>
      FinalizedStatus \<noteq> AiGrading \<and> row_ok lg (apply_extra FinalizedStatus x r)"
    by auto
qed (simp add: Q c)

lemma wp_finalize_one:
  assumes s: "since lg0 lg" and c: "lg_computations lg = lg_computations lg0"
    and led: "ledger_ok lg0" and r: "r \<in> set (lg_rows lg0)" and w: "\<not> without_score lg0 r"
  shows "wp quiet (finalize_one teacher (scored_latest lg0) r out) (\<lambda>_ lg. since lg0 lg \<and> lg_computations lg = lg_computations lg0) lg"
proof -
  have g: "grown lg0 lg" using s by (simp add: since_def)
  have ok0: "row_ok lg0 r" using led r by (simp add: ledger_ok_def)
  show ?thesis
  proof (cases "gr_pipeline r")
    case Investigator
    have "wp quiet (advanceStatus (gr_id r) [gr_status r] FinalizedStatus (finalized_extra teacher (Some (scored_latest lg0 (gr_id r)))))
       (\<lambda>moved1. wp quiet (if \<not> moved1 then failT MovedMeanwhile else retT (k moved1)) (\<lambda>_ lg. since lg0 lg \<and> lg_computations lg = lg_computations lg0)) lg"
      if "gr_status r \<in> {AutoApproved, TeacherReviewed}" for k
    proof (rule wp_advance_finalized[OF s c _ that])
      show "pipe_is lg (gr_id r) OneShot \<or> has_manual lg0 (gr_id r) \<or>
        (\<exists>i. ax_finalizedComputation (finalized_extra teacher (Some (scored_latest lg0 (gr_id r)))) = Some (Some i) \<and>
           scored_computation lg0 (gr_id r) i)"
        using not_without_score[OF w Investigator that] scored_latest_scored by (auto simp: finalized_extra_def)
    qed (auto simp: finalized_extra_def wp_simps)
    with Investigator s c show ?thesis by (auto simp: finalize_one_def wp_bind wp_ret)
  next
    case OneShot
    have p: "pipe_is lg (gr_id r) OneShot" using pipe_is_mono[OF g pipe_is_row[OF led r]] OneShot by simp
    have na: "gr_status r \<noteq> AutoApproved" using ok0 OneShot by (simp add: row_ok_def)
    have "wp quiet (advanceStatus (gr_id r) [TeacherReviewed] FinalizedStatus (finalized_extra teacher None))
       (\<lambda>moved1. wp quiet (if moved1 then retT x else failT MovedMeanwhile) (\<lambda>_ lg. since lg0 lg \<and> lg_computations lg = lg_computations lg0)) lg" for x
      by (rule wp_advance_finalized[OF s c]) (auto simp: p finalized_extra_def wp_simps)
    with OneShot na s c show ?thesis by (auto simp: finalize_one_def Let_def wp_bind wp_ret)
  qed
qed

lemma keeps_finalizeGrades: "keeps (finalizeGrades io session teacher)"
proof (rule keepsI)
  fix lg assume s: "since lg lg" and ok: "ledger_ok lg"
  have loop: "wp quiet (foldT (finalize_one teacher (scored_latest lg)) (session_rows session lg) out0)
      (\<lambda>out. wp quiet (thenT (whenT (0 < fo_reviewedByHand out + fo_acceptedAsProposed out + fo_finalizedDirectly out)
                (modifyT (\<lambda>lg. lg\<lparr>lg_pins := (lg_pins lg)(session := io_currentPrice io)\<rparr>))) (retT out)) (\<lambda>_. since lg)) lg"
    if w: "filter (without_score lg) (session_rows session lg) = []" for out0
  proof (rule wp_foldT[where I = "\<lambda>_ lg'. since lg lg' \<and> lg_computations lg' = lg_computations lg"])
    fix r out lg' assume r: "r \<in> set (session_rows session lg)" and i: "since lg lg' \<and> lg_computations lg' = lg_computations lg"
    have "\<not> without_score lg r" using w r by (auto simp: filter_empty_conv)
    moreover have "r \<in> set (lg_rows lg)" using r by (simp add: session_rows_def)
    ultimately show "wp quiet (finalize_one teacher (scored_latest lg) r out)
        (\<lambda>_ lg'. since lg lg' \<and> lg_computations lg' = lg_computations lg) lg'"
      using i ok by (intro wp_finalize_one) auto
  next
    fix out lg' assume "since lg lg' \<and> lg_computations lg' = lg_computations lg"
    then show "wp quiet (thenT (whenT (0 < fo_reviewedByHand out + fo_acceptedAsProposed out + fo_finalizedDirectly out)
                (modifyT (\<lambda>lg. lg\<lparr>lg_pins := (lg_pins lg)(session := io_currentPrice io)\<rparr>))) (retT out)) (\<lambda>_. since lg) lg'"
      by (intro wp_keeps[OF keeps_then[OF keeps_when[OF keeps_other] keeps_ret]]) auto
  qed (simp add: s)
  show "wp quiet (finalizeGrades io session teacher) (\<lambda>_. since lg) lg"
    unfolding finalizeGrades_def Let_def using loop by (simp add: wp_bind wp_get wp_if wp_fail)
qed

section \<open>Every event keeps the invariant\<close>

lemma distinct_map_js_insert:
  "distinct (map f (js_insert le x xs)) \<longleftrightarrow> f x \<notin> f ` set xs \<and> distinct (map f xs)"
  by (induction xs) auto

lemma row_ok_new: "row_ok lg (new_row c)"
  by (simp add: row_ok_def new_row_def)

lemma wp_insert_row:
  assumes ok: "ledger_ok lg"
  shows "wp quiet (insert_row (new_row c)) (\<lambda>_ lg'. ledger_ok lg') lg"
proof -
  have same: "row_ok (lg\<lparr>lg_rows := rs\<rparr>) r = row_ok lg r" for rs r
    by (simp add: row_ok_def scored_review_def has_manual_def scored_computation_def)
  have "ledger_ok (lg\<lparr>lg_rows := js_insert le (new_row c) (lg_rows lg)\<rparr>)"
    if "gr_id (new_row c) \<notin> gr_id ` set (lg_rows lg)" for le
    using ok that row_ok_new by (auto simp: ledger_ok_def same distinct_map_js_insert)
  then show ?thesis by (auto simp: insert_row_def wp_def trigger_insert_def quiet_def new_row_def)
qed

lemma wp_startGrading: "ledger_ok lg \<Longrightarrow> wp quiet (startGrading cs) (\<lambda>_ lg'. ledger_ok lg') lg"
  unfolding startGrading_def by (auto simp: wp_simps intro!: wp_forT[where I = ledger_ok] wp_insert_row)

lemma keeps_event:
  assumes "\<And>cs. e \<noteq> StartGradingEvent cs"
  shows "keeps (event_tx io e)"
proof -
  have row: "keeps (bindT (rowT rid) k)" if "\<And>r. keeps (k r)" for rid and k :: "grading_row \<Rightarrow> unit ledger_tx"
    using that by (intro keepsTI) (auto simp: wp_bind intro!: wp_rowT keepsTD[of _ _ "k _"])
  show ?thesis using assms
    by (cases e) (auto intro!: keeps_ignore row keeps_startAttempt keeps_computeInitial keeps_finishAttempt keeps_finishUngradable
        keeps_markUngradable keeps_oneShotWrite keeps_oneShotFlag keeps_recomputeForTeacher keeps_reapply keeps_review keeps_bulkReview
        keeps_setErrorException keeps_setManualScore keeps_confirmGroup keeps_recordAudit keeps_resetBreaker keeps_requeue
        keeps_finalizeGrades)
qed

lemma wp_event: "ledger_ok lg \<Longrightarrow> wp quiet (event_tx io e) (\<lambda>_ lg'. ledger_ok lg') lg"
proof (cases "\<exists>cs. e = StartGradingEvent cs")
  case True
  then show "ledger_ok lg \<Longrightarrow> ?thesis" by (auto simp: wp_ignore wp_startGrading)
next
  case False
  assume "ledger_ok lg"
  with keepsTD[OF keeps_event[of e io] sinceI] False have "wp quiet (event_tx io e) (\<lambda>_. since lg) lg" by blast
  then show ?thesis by (rule wp_mono) (rule since_ok)
qed

interpretation ledger: transition_system ledger_run ledger_ok
proof
  fix x lg assume ok: "ledger_ok lg"
  show "ledger_ok (ledger_run x lg)"
    unfolding ledger_run_def by (rule wp_commit[where ok = quiet]) (use wp_event[OF ok] ok in simp_all)
qed

lemma ledger_ok_empty: "ledger_ok empty_ledger"
  by (simp add: ledger_ok_def empty_ledger_def)

lemma ledger_ok_after: "ledger_ok (ledger_after h)"
  unfolding ledger_after_def by (rule ledger.history_invariant[OF ledger_ok_empty])

section \<open>What it gives\<close>

lemma find_SomeD: "find P xs = Some x \<Longrightarrow> x \<in> set xs \<and> P x"
  by (induction xs) (auto split: if_splits)

lemma latest_review_Some:
  assumes "\<exists>t \<in> set (lg_reviews lg). tr_result t = rid \<and> P t"
  shows "\<exists>t. latest_review P lg rid = Some t \<and> t \<in> set (lg_reviews lg) \<and> P t"
proof -
  have "find (\<lambda>t. tr_result t = rid \<and> P t) (rev (lg_reviews lg)) \<noteq> None"
    using assms by (auto simp: find_None_iff)
  then obtain t where t: "find (\<lambda>t. tr_result t = rid \<and> P t) (rev (lg_reviews lg)) = Some t" by auto
  with find_SomeD[OF t] show ?thesis by (auto simp: latest_review_def)
qed

lemma published_row_score:
  assumes ok: "ledger_ok lg" and r: "r \<in> set (lg_rows lg)" "published (gr_status r)"
  shows "fst (loadCurrentScore lg r) \<noteq> None"
proof -
  have ro: "row_ok lg r" and man: "\<And>t. t \<in> set (lg_reviews lg) \<Longrightarrow> tr_kind t = ManualScoreKind \<Longrightarrow> tr_finalScore t \<noteq> None"
    using ok r(1) by (auto simp: ledger_ok_def)
  have fin: "gr_status r = FinalizedStatus" using ro r(2) by (auto simp: row_ok_def published_def)
  show ?thesis
  proof (cases "gr_pipeline r")
    case OneShot
    then have "scored_review lg (gr_id r)" using ro fin by (simp add: row_ok_def)
    then obtain t where "latest_review (\<lambda>t. tr_finalScore t \<noteq> None) lg (gr_id r) = Some t" "tr_finalScore t \<noteq> None"
      using latest_review_Some[of lg "gr_id r" "\<lambda>t. tr_finalScore t \<noteq> None"] by (auto simp: scored_review_def)
    with OneShot show ?thesis by (auto simp: loadCurrentScore_def current_input_def currentScore_def)
  next
    case Investigator
    show ?thesis
    proof (cases "has_manual lg (gr_id r)")
      case True
      then obtain t where "latest_review (\<lambda>t. tr_kind t = ManualScoreKind) lg (gr_id r) = Some t" "tr_finalScore t \<noteq> None"
        using latest_review_Some[of lg "gr_id r" "\<lambda>t. tr_kind t = ManualScoreKind"] man by (auto simp: has_manual_def list_ex_iff)
      with Investigator show ?thesis by (auto simp: loadCurrentScore_def current_input_def currentScore_def)
    next
      case False
      then obtain i where "gr_finalizedComputation r = Some i" "scored_computation lg (gr_id r) i"
        using ro fin Investigator by (auto simp: row_ok_def)
      with Investigator r(2) show ?thesis
        by (auto simp: loadCurrentScore_def current_input_def currentScore_def scored_computation_def split: option.split)
    qed
  qed
qed

text \<open>
  C10. Whatever happened to the ledger, a published result has a score: the count of results without a score in
  \<open>finalizeGrades\<close> and the checks of the services are enough.
\<close>

theorem published_has_score:
  "filter (\<lambda>r. published (gr_status r) \<and> fst (loadCurrentScore (ledger_after h) r) = None) (lg_rows (ledger_after h)) = []"
  using published_row_score[OF ledger_ok_after] by (auto simp: filter_empty_conv)

text \<open>
  C11. The services never ask for a transition that the database forbids: on no ledger that events can produce does
  the trigger reject an update. And the test of a breaker is never called with counts it throws on.
\<close>

theorem trigger_never_rejects:
  "event_tx io e (ledger_after h) \<noteq> Inl (TriggerRejected t) \<and> event_tx io e (ledger_after h) \<noteq> Inl (BreakerRange x)"
  using wp_event[OF ledger_ok_after, of io e h] by (auto simp: wp_def quiet_def)

definition row_shape :: "grading_row \<Rightarrow> bool" where
  "row_shape r =
     ((gr_ungradable r = None \<or> gr_aiTotal r = None) \<and>
      (case gr_status r of
         AiGrading \<Rightarrow> gr_aiTotal r = None \<and> gr_ungradable r = None
       | AiGraded \<Rightarrow> gr_ungradable r = None
       | AutoApproved \<Rightarrow> gr_pipeline r = Investigator \<and> gr_ungradable r = None
       | AuditPending \<Rightarrow> gr_pipeline r = Investigator \<and> gr_ungradable r = None \<and> gr_auditSampled r
       | FinalizedStatus \<Rightarrow> gr_finalizedBy r \<noteq> None
       | Exported \<Rightarrow> False
       | _ \<Rightarrow> True))"

lemma row_ok_shape: "row_ok lg r \<Longrightarrow> row_shape r"
proof -
  assume r: "row_ok lg r"
  have "gr_status r \<in> {AiGrading, AiGraded, AutoApproved, AuditPending} \<Longrightarrow> gr_ungradable r = None"
    by (rule row_ok_gradable[OF r])
  moreover have "gr_status r \<in> {AutoApproved, AuditPending} \<Longrightarrow> gr_pipeline r = Investigator"
    using r by (cases "gr_pipeline r") (auto simp: row_ok_def)
  ultimately show ?thesis using r unfolding row_ok_def row_shape_def
    by (cases "gr_status r") auto
qed

text \<open>
  C14. Every row is well formed, as the constraints of the table ask: the status fixes which columns are set, a result
  that could not be graded has no score, and a written answer is never decided automatically.
\<close>

theorem rows_well_formed:
  "distinct (map gr_id (lg_rows (ledger_after h))) \<and> list_all row_shape (lg_rows (ledger_after h))"
  using ledger_ok_after[of h] row_ok_shape by (auto simp: ledger_ok_def list_all_iff)

end
