(* ===== verification/Ledger_Publish.thy ===== *)
theory Ledger_Publish
  imports Ledger_Spec
begin

text \<open>
  Published scores and the audit log: what an event leaves of the results that were published before it. A
  published score changes only together with an entry of the audit log, provided \<open>review\<close> decides on the
  current status of the result; \<open>review\<close> on a status read too early breaks this.
\<close>

section \<open>What stays of a published result\<close>

definition score_columns :: "grading_row \<Rightarrow> key \<times> pipeline \<times> grading_status \<times> int option \<times> nat option" where
  "score_columns r = (gr_id r, gr_pipeline r, gr_status r, gr_aiTotal r, gr_finalizedComputation r)"

definition reviews_of :: "ledger \<Rightarrow> key \<Rightarrow> teacher_review list" where
  "reviews_of lg rid = filter (\<lambda>t. tr_result t = rid) (lg_reviews lg)"

definition audited :: "ledger \<Rightarrow> ledger \<Rightarrow> key set" where
  "audited lg0 lg = ae_target ` set (drop (length (lg_audit lg0)) (lg_audit lg))"

definition kept_row :: "ledger \<Rightarrow> ledger \<Rightarrow> grading_row \<Rightarrow> bool" where
  "kept_row lg0 lg r \<longleftrightarrow> score_columns r \<in> score_columns ` set (lg_rows lg) \<and> reviews_of lg (gr_id r) = reviews_of lg0 (gr_id r)"

definition calm_since :: "ledger \<Rightarrow> key set \<Rightarrow> ledger \<Rightarrow> bool" where
  "calm_since lg0 X lg \<longleftrightarrow>
     (\<exists>cs. lg_computations lg = lg_computations lg0 @ cs) \<and> (\<exists>es. lg_audit lg = lg_audit lg0 @ es) \<and>
     (\<forall>r \<in> set (lg_rows lg0). published (gr_status r) \<longrightarrow> gr_id r \<in> X \<or> gr_id r \<in> audited lg0 lg \<or> kept_row lg0 lg r)"

abbreviation calm :: "ledger \<Rightarrow> 'a ledger_tx \<Rightarrow> bool" where
  "calm lg0 m \<equiv> keepsT (\<lambda>_. True) (calm_since lg0) m"

lemma calm_since_refl: "calm_since lg {} lg"
  by (auto simp: calm_since_def kept_row_def)

lemma audited_append: "(\<exists>es. lg_audit lg = lg_audit lg0 @ es) \<Longrightarrow> lg_audit lg' = lg_audit lg @ es' \<Longrightarrow>
  audited lg0 lg' = audited lg0 lg \<union> ae_target ` set es'"
  by (auto simp: audited_def)

section \<open>The primitives\<close>

lemma calm_modify:
  assumes "\<And>lg. (\<exists>cs. lg_computations (f lg) = lg_computations lg @ cs) \<and> (\<exists>es. lg_audit (f lg) = lg_audit lg @ es) \<and>
    lg_rows (f lg) = lg_rows lg \<and> lg_reviews (f lg) = lg_reviews lg"
  shows "calm lg0 (modifyT f)"
proof (rule keepsTI)
  fix X lg assume c: "calm_since lg0 X lg"
  obtain es where es: "lg_audit (f lg) = lg_audit lg @ es" using assms by blast
  have "audited lg0 lg \<subseteq> audited lg0 (f lg)" using audited_append[OF _ es] c by (auto simp: calm_since_def)
  with c assms[of lg] show "wp (\<lambda>_. True) (modifyT f) (\<lambda>_. calm_since lg0 X) lg"
    by (auto simp: wp_modify calm_since_def kept_row_def reviews_of_def)
qed

lemma calm_update_rows:
  assumes "\<And>r. cond r \<Longrightarrow> published (gr_status r) \<Longrightarrow> score_columns (f r) = score_columns r"
  shows "calm lg0 (update_rows cond f)"
proof (rule keepsTI)
  fix X lg assume c: "calm_since lg0 X lg"
  let ?lg = "lg\<lparr>lg_rows := map (\<lambda>r. if cond r then f r else r) (lg_rows lg)\<rparr>"
  have "kept_row lg0 ?lg r" if p: "published (gr_status r)" and k: "kept_row lg0 lg r" for r
  proof -
    obtain r' where r': "r' \<in> set (lg_rows lg)" "score_columns r = score_columns r'" using k by (auto simp: kept_row_def)
    have "published (gr_status r')" using r'(2) p by (simp add: score_columns_def)
    then have "score_columns (if cond r' then f r' else r') = score_columns r" using assms r'(2) by auto
    with imageI[OF imageI[OF r'(1)], of score_columns "\<lambda>r. if cond r then f r else r"] k
    show ?thesis by (simp add: kept_row_def reviews_of_def)
  qed
  with c have "calm_since lg0 X ?lg" by (auto simp: calm_since_def audited_def)
  then show "wp (\<lambda>_. True) (update_rows cond f) (\<lambda>_. calm_since lg0 X) lg"
    by (auto simp: wp_def update_rows_def split: list.split)
qed

lemma calm_advance: "set from \<inter> {FinalizedStatus, Exported} = {} \<Longrightarrow> calm lg0 (advanceStatus rid from to x)"
  unfolding advanceStatus_def by (intro keeps_bind calm_update_rows keeps_ret) (auto simp: published_def)

definition unpublished :: "ledger \<Rightarrow> key \<Rightarrow> bool" where
  "unpublished lg rid \<longleftrightarrow> (\<forall>r \<in> set (lg_rows lg). gr_id r = rid \<longrightarrow> \<not> published (gr_status r))"

lemma calm_add_review:
  assumes "unpublished lg0 (tr_result t)"
  shows "calm lg0 (add_review t)"
proof (rule keepsTI)
  fix X lg assume c: "calm_since lg0 X lg"
  let ?lg = "lg\<lparr>lg_reviews := lg_reviews lg @ [t]\<rparr>"
  have "kept_row lg0 ?lg r" if "r \<in> set (lg_rows lg0)" "published (gr_status r)" "kept_row lg0 lg r" for r
    using that assms by (auto simp: kept_row_def reviews_of_def unpublished_def)
  with c have "calm_since lg0 X ?lg" by (auto simp: calm_since_def audited_def)
  then show "wp (\<lambda>_. True) (add_review t) (\<lambda>_. calm_since lg0 X) lg" by (simp add: add_review_def wp_modify)
qed

text \<open>A change to one result, exempt until the audit log names it.\<close>

lemma wp_exempt_review:
  "calm_since lg0 X lg \<Longrightarrow> (\<And>lg'. calm_since lg0 (insert (tr_result t) X) lg' \<Longrightarrow> Q () lg') \<Longrightarrow>
   wp (\<lambda>_. True) (add_review t) Q lg"
  by (auto simp: add_review_def wp_modify calm_since_def audited_def kept_row_def reviews_of_def)

lemma wp_record:
  assumes "calm_since lg0 (insert (ae_target e) X) lg" and "\<And>lg'. calm_since lg0 X lg' \<Longrightarrow> Q () lg'"
  shows "wp (\<lambda>_. True) (recordUserAction e) Q lg"
proof -
  let ?lg = "lg\<lparr>lg_audit := lg_audit lg @ [e]\<rparr>"
  have "audited lg0 ?lg = insert (ae_target e) (audited lg0 lg)"
    using audited_append[of lg lg0 ?lg "[e]"] assms(1) by (auto simp: calm_since_def)
  then have "calm_since lg0 X ?lg"
    using assms(1) by (auto simp: calm_since_def kept_row_def reviews_of_def)
  then show ?thesis using assms(2) by (simp add: recordUserAction_def wp_modify)
qed

lemma calm_recordUserAction: "calm lg0 (recordUserAction e)"
  unfolding recordUserAction_def by (rule calm_modify) simp

lemma calm_insertComputation: "calm lg0 (insertComputation io rid reason actor sc b)"
  unfolding insertComputation_def by (intro keeps_intros calm_modify) simp

lemma calm_rowT: "(\<And>r. calm lg0 (k r)) \<Longrightarrow> calm lg0 (bindT (rowT rid) k)"
  by (rule keepsTI) (auto simp: rowT_def wp_simps dest: keepsTD split: option.split)

lemmas calm_intros = keeps_intros keeps_bind calm_modify calm_advance calm_insertComputation calm_recordUserAction calm_rowT

section \<open>The services\<close>

lemma calm_compute: "calm lg0 (compute io r stored)"
  unfolding compute_def by (auto split: option.split intro!: calm_intros)

lemma calm_finish_attempt: "calm lg0 (finish_attempt a out)"
  unfolding finish_attempt_def by (rule calm_modify) simp

lemma calm_topUp: "calm lg0 (topUpSessionAudit io session)"
  unfolding topUpSessionAudit_def Let_def by (auto intro!: calm_intros keeps_for)

lemma calm_writeInitial: "calm lg0 (writeInitial io ctx out score)"
  unfolding writeInitial_def settleInitial_def
  by (intro calm_intros calm_topUp calm_update_rows) (auto simp: published_def intro!: calm_intros)

lemma calm_lockRunning: "calm lg0 (lockRunning rid a)"
  unfolding lockRunning_def by (auto split: option.split prod.split intro!: calm_intros)

lemma calm_closeUngradable: "calm lg0 (closeUngradable rid a c why)"
  unfolding closeUngradable_def
  by (intro calm_intros calm_finish_attempt calm_update_rows) (auto simp: published_def)

lemma calm_computeInitial: "calm lg0 (computeInitial io rid)"
  unfolding computeInitial_def by (auto split: option.split intro!: calm_intros calm_compute calm_writeInitial)

lemma calm_finishAttempt: "calm lg0 (finishAttempt io rid a stored)"
  unfolding finishAttempt_def Let_def
  by (auto split: option.split prod.split intro!: calm_intros calm_lockRunning calm_closeUngradable calm_compute
      calm_finish_attempt calm_writeInitial)

lemma calm_finishUngradable: "calm lg0 (finishUngradable rid a c why)"
  unfolding finishUngradable_def by (intro calm_intros calm_lockRunning calm_closeUngradable)

lemma calm_recomputeOne: "calm lg0 (recomputeOne io rid reason actor)"
  unfolding recomputeOne_def by (intro calm_intros calm_compute)

lemma calm_ruleLayerTransition: "calm lg0 (ruleLayerTransition rid out)"
  unfolding ruleLayerTransition_def by (auto intro!: calm_intros)

lemma calm_recomputeForTeacher: "calm lg0 (recomputeForTeacher io reason actor sp)"
  unfolding recomputeForTeacher_def by (intro keeps_get keeps_fold calm_intros calm_recomputeOne calm_ruleLayerTransition)

lemma calm_set_attempt: "calm lg0 (update_rows cond (\<lambda>r. r\<lparr>gr_attempt := a\<rparr>))"
  by (rule calm_update_rows) (simp add: score_columns_def)

lemma calm_startAttempt: "calm lg0 (startAttempt rid)"
  unfolding startAttempt_def by (auto split: option.split intro!: calm_intros calm_set_attempt)

lemma calm_markUngradable: "calm lg0 (markUngradable submission why)"
proof -
  have "calm lg0 (update_rows (\<lambda>r. gr_submission r = submission \<and> gr_status r = AiGrading) (ungradable_update SystemFault why))"
    by (rule calm_update_rows) (auto simp: published_def)
  then show ?thesis unfolding markUngradable_def
    by (rule keeps_bind) (auto split: option.split intro!: calm_intros calm_set_attempt calm_finish_attempt)
qed

lemma calm_oneShot: "calm lg0 (oneShotWrite rid score criteria advocate)" "calm lg0 (oneShotFlag rid confident)" "calm lg0 (requeue rid)"
  unfolding oneShotWrite_def oneShotFlag_def requeue_def
  by (intro calm_intros calm_update_rows; force simp: published_def)+

lemma calm_reapply_item:
  "calm lg0 (bindT (insertComputation io (rp_result it) FinalizedReapply (Some teacher) (Some (rp_new it)) (rp_breakdown it)) (\<lambda>c.
         bindT (update_rows (\<lambda>r. gr_id r = rp_result it) (\<lambda>r. r\<lparr>gr_finalizedComputation := Some c\<rparr>)) (\<lambda>_.
         recordUserAction \<lparr>ae_actor = teacher, ae_action = ScoreReappliedAfterFinalize, ae_target = rp_result it,
           ae_old = Some (rp_old it), ae_new = Some (rp_new it)\<rparr>)))"
proof (rule keeps_bind[OF calm_insertComputation], rule keepsTI)
  fix c X lg assume c: "calm_since lg0 X lg"
  let ?lg = "lg\<lparr>lg_rows := map (\<lambda>r. if gr_id r = rp_result it then r\<lparr>gr_finalizedComputation := Some c\<rparr> else r) (lg_rows lg)\<rparr>"
  have "kept_row lg0 ?lg r" if "kept_row lg0 lg r" "gr_id r \<noteq> rp_result it" for r
    using that by (force simp: kept_row_def reviews_of_def score_columns_def)
  with c have "calm_since lg0 (insert (rp_result it) X) ?lg" by (auto simp: calm_since_def audited_def)
  then show "wp (\<lambda>_. True) (bindT (update_rows (\<lambda>r. gr_id r = rp_result it) (\<lambda>r. r\<lparr>gr_finalizedComputation := Some c\<rparr>)) (\<lambda>_.
         recordUserAction \<lparr>ae_actor = teacher, ae_action = ScoreReappliedAfterFinalize, ae_target = rp_result it,
           ae_old = Some (rp_old it), ae_new = Some (rp_new it)\<rparr>)) (\<lambda>_. calm_since lg0 X) lg"
    unfolding wp_bind by (auto simp: wp_def[of _ "update_rows _ _"] update_rows_def split: list.split intro!: wp_record)
qed

lemma calm_reapply: "calm lg0 (reapplyFinalizedSession io session teacher)"
  unfolding reapplyFinalizedSession_def planReapply_def
  by (auto split: prod.split intro!: calm_intros keeps_for calm_reapply_item)

section \<open>Reviews of the teacher\<close>

lemma unpublished_row: "ledger_ok lg \<Longrightarrow> find_row lg rid = Some r \<Longrightarrow> \<not> published (gr_status r) \<Longrightarrow> unpublished lg rid"
  unfolding unpublished_def using find_row_unique by blast

lemma unpublished_member:
  "ledger_ok lg \<Longrightarrow> r \<in> set (lg_rows lg) \<Longrightarrow> \<not> published (gr_status r) \<Longrightarrow> unpublished lg (gr_id r)"
  by (auto simp: unpublished_def ledger_ok_def distinct_map dest: inj_onD)

text \<open>A score written for a published result, with its entry in the log.\<close>

lemma calm_logged_review:
  assumes "tr_result t = rid" and "ae_target e = rid" and "\<And>lg0. calm lg0 m" and "\<And>lg0. calm lg0 k"
  shows "calm lg0 (thenT (add_review t) (bindT m (\<lambda>_. thenT (recordUserAction e) k)))"
proof (rule keepsTI, unfold wp_then wp_bind, rule wp_exempt_review, assumption)
  fix X lg lg' assume "calm_since lg0 (insert (tr_result t) X) lg'"
  then have c: "calm_since lg0 (insert rid X) lg'" using assms(1) by simp
  show "wp (\<lambda>_. True) m (\<lambda>_. wp (\<lambda>_. True) (recordUserAction e) (\<lambda>_. wp (\<lambda>_. True) k (\<lambda>_. calm_since lg0 X))) lg'"
    by (rule wp_mono[OF keepsTD[OF assms(3) c]]) (auto intro!: wp_record keepsTD[OF assms(4)] simp: assms(2))
qed

lemma calm_reviewWithin:
  assumes "published (gr_status r) \<or> unpublished lg0 (gr_id r)"
  shows "calm lg0 (reviewWithin io r teacher criteria note applied)"
proof (cases "published (gr_status r)")
  case True
  have a: "calm lg1 (advanceStatus (gr_id r) [AutoApproved, FlaggedForReview] TeacherReviewed no_extra)" for lg1
    by (rule calm_advance) simp
  have "calm lg0 (thenT (add_review t) (bindT (advanceStatus (gr_id r) [AutoApproved, FlaggedForReview] TeacherReviewed no_extra)
      (\<lambda>_. thenT (recordUserAction e) (retT x))))" if "tr_result t = gr_id r" "ae_target e = gr_id r" for t e and x :: "int \<times> bool"
    using that a by (rule calm_logged_review) simp
  with True show ?thesis unfolding reviewWithin_def Let_def whenT_def
    by (intro keeps_bind[OF keeps_lift] keeps_get) simp_all
next
  case False
  with assms show ?thesis unfolding reviewWithin_def Let_def
    by (intro calm_intros calm_add_review) simp_all
qed

lemma calm_bulk_one:
  assumes "published (gr_status r) \<or> unpublished lg0 (gr_id r)"
  shows "calm lg0 (bulk_one io rubric teacher rule note r acc)"
proof -
  have "calm lg0 (bindT (getT (\<lambda>lg. isUnchanged lg (gr_id r) criteria note)) (\<lambda>same.
       if same then retT x else bindT (reviewWithin io r teacher criteria note (Some rule)) k))"
    if "\<And>a. calm lg0 (k a)" for criteria k and x :: "nat \<times> (key \<times> bulk_skip) list \<times> nat"
    using that by (auto intro!: keeps_get keeps_bind calm_reviewWithin[OF assms])
  then show ?thesis unfolding bulk_one_def Let_def by (auto split: prod.split sum.split rule_refusal.split)
qed

lemma wp_calm: "calm lg0 m \<Longrightarrow> calm_since lg0 {} lg \<Longrightarrow> wp (\<lambda>_. True) m (\<lambda>_. calm_since lg0 {}) lg"
  by (rule keepsTD)

lemma calm_bulkReview:
  assumes ok: "ledger_ok lg"
  shows "wp (\<lambda>_. True) (bulkReview io session teacher ids rule note) (\<lambda>_. calm_since lg {}) lg"
proof -
  let ?rows = "filter (\<lambda>r. gr_id r \<in> set ids) (session_rows session lg)"
  have "published (gr_status r) \<or> unpublished lg (gr_id r)" if "r \<in> set ?rows" for r
    using that unpublished_member[OF ok] by (auto simp: session_rows_def)
  then have "calm lg (foldT (bulk_one io rubric teacher rule note) ?rows acc)" for rubric acc
    by (intro keeps_fold calm_bulk_one) blast
  then show ?thesis unfolding bulkReview_def Let_def
    by (auto simp: wp_simps intro!: wp_calm calm_since_refl)
qed

lemma calm_setErrorException:
  assumes ok: "ledger_ok lg"
  shows "wp (\<lambda>_. True) (setErrorException io teacher rid rule d) (\<lambda>_. calm_since lg {}) lg"
proof -
  have "calm lg (thenT (add_review t) (bindT (recomputeOne io rid ErrorExceptionReason (Some teacher)) (\<lambda>out.
          bindT (advanceStatus rid [AutoApproved, FlaggedForReview] TeacherReviewed (flag_extra False)) (\<lambda>_. retT (sco_score out)))))"
    if "find_row lg rid = Some r" "gr_status r \<in> set EDITABLE" "tr_result t = rid" for r t
    using that unpublished_row[OF ok that(1)]
    by (intro calm_intros calm_add_review calm_recomputeOne) (auto simp: EDITABLE_def published_def)
  then show ?thesis unfolding setErrorException_def lockEditable_def rowT_def
    by (auto simp: wp_bind wp_get wp_if wp_fail wp_ret split: option.split intro!: wp_calm calm_since_refl)
qed

lemma bindT_ret: "bindT (retT a) k = k a"
  by (simp add: bindT_def retT_def fun_eq_iff)

lemma calm_setManualScore:
  assumes ok: "ledger_ok lg"
  shows "wp (\<lambda>_. True) (setManualScore io teacher rid score) (\<lambda>_. calm_since lg {}) lg"
proof -
  have pub: "calm lg (thenT (add_review t) (thenT (recordUserAction e) (retT x)))"
    if "tr_result t = rid" "ae_target e = rid" for t e and x :: "int \<times> grading_status"
    using calm_logged_review[OF that, of "retT ()" "retT x" lg] by (simp add: bindT_ret)
  have new: "calm lg (thenT (add_review t) (bindT (advanceStatus rid [AutoApproved, FlaggedForReview] TeacherReviewed (flag_extra False))
      (\<lambda>_. retT x)))"
    if "find_row lg rid = Some r" "\<not> published (gr_status r)" "tr_result t = rid" for r t and x :: "int \<times> grading_status"
    using that unpublished_row[OF ok that(1)] by (intro calm_intros calm_add_review) auto
  show ?thesis unfolding setManualScore_def lockEditable_def rowT_def Let_def
    by (auto simp: wp_bind wp_get wp_if wp_fail wp_ret wp_lift split: option.split sum.split
        intro!: wp_calm calm_since_refl pub new)
qed

section \<open>Groups, audits, finalizing\<close>

lemma calm_confirmGroup:
  assumes ok: "ledger_ok lg"
  shows "wp (\<lambda>_. True) (confirmGroup session teacher k ids) (\<lambda>_. calm_since lg {}) lg"
proof -
  have one: "calm lg (thenT (writeConfirm i c teacher)
     (bindT (advanceStatus i [FlaggedForReview] TeacherReviewed (flag_extra False)) (\<lambda>ok. unlessT ok MovedMeanwhile)))"
    if "unpublished lg i" for i c
    using that unfolding writeConfirm_def by (auto split: option.split intro!: calm_intros calm_add_review)
  have up: "unpublished lg (gr_id r)" if "r \<in> set (session_rows session lg)" "confirmVerdict (candidate_of lg g r) = ConfirmComputation c" for r g c
    using that unpublished_member[OF ok, of r]
    by (auto simp: session_rows_def confirmVerdict_def candidate_of_def published_def split: if_splits)
  have un: "unpublished lg i"
    if ic: "(i, c) \<in> set (List.map_filter (\<lambda>(i, v). case v of ConfirmComputation c \<Rightarrow> Some (i, c) | _ \<Rightarrow> None)
       (map (\<lambda>r. (gr_id r, confirmVerdict (candidate_of lg g r))) (filter P (session_rows session lg))))" for i c g P
  proof -
    obtain r where r: "r \<in> set (session_rows session lg)"
      "(case confirmVerdict (candidate_of lg g r) of ConfirmComputation c \<Rightarrow> Some (gr_id r, c) | _ \<Rightarrow> None) = Some (i, c)"
      using ic by (auto simp: set_map_filter)
    then have "confirmVerdict (candidate_of lg g r) = ConfirmComputation c" "i = gr_id r"
      by (auto split: confirm_verdict.splits)
    with up[OF r(1)] show ?thesis by simp
  qed
  have "calm lg (forT (\<lambda>(i, c). thenT (writeConfirm i c teacher)
     (bindT (advanceStatus i [FlaggedForReview] TeacherReviewed (flag_extra False)) (\<lambda>ok. unlessT ok MovedMeanwhile)))
     (List.map_filter (\<lambda>(i, v). case v of ConfirmComputation c \<Rightarrow> Some (i, c) | _ \<Rightarrow> None)
       (map (\<lambda>r. (gr_id r, confirmVerdict (candidate_of lg g r))) (filter P (session_rows session lg)))))" for g P
  proof (rule keeps_for)
    fix x assume x: "x \<in> set (List.map_filter (\<lambda>(i, v). case v of ConfirmComputation c \<Rightarrow> Some (i, c) | _ \<Rightarrow> None)
       (map (\<lambda>r. (gr_id r, confirmVerdict (candidate_of lg g r))) (filter P (session_rows session lg))))"
    obtain i c where ic: "x = (i, c)" by fastforce
    show "calm lg (case x of (i, c) \<Rightarrow> thenT (writeConfirm i c teacher)
       (bindT (advanceStatus i [FlaggedForReview] TeacherReviewed (flag_extra False)) (\<lambda>ok. unlessT ok MovedMeanwhile)))"
      unfolding ic prod.case by (rule one, rule un, rule x[unfolded ic])
  qed
  then show ?thesis unfolding confirmGroup_def Let_def
    by (auto simp: wp_bind wp_get wp_if wp_fail split: option.split intro!: wp_calm keeps_then keeps_ret calm_since_refl)
qed

lemma calm_breaker_round: "calm lg0 (breaker_round io rid scope)"
  unfolding breaker_round_def by (auto split: prod.split intro!: calm_intros calm_recomputeForTeacher)

lemma calm_recordAudit: "calm lg0 (recordAudit io rid picked extras)"
  unfolding recordAudit_def recordLabelsAndEvaluate_def Let_def
  by (auto split: option.split prod.split intro!: calm_intros keeps_for calm_breaker_round)

lemma calm_resetBreaker: "calm lg0 (resetBreaker scope)"
  unfolding resetBreaker_def by (auto intro!: calm_intros)

lemma calm_finalize_one:
  assumes "gr_status r = AutoApproved \<Longrightarrow> unpublished lg0 (gr_id r)"
  shows "calm lg0 (finalize_one teacher scored r out)"
  using assms unfolding finalize_one_def Let_def
  by (auto intro!: calm_intros calm_add_review)

lemma calm_finalizeGrades:
  assumes ok: "ledger_ok lg"
  shows "wp (\<lambda>_. True) (finalizeGrades io session teacher) (\<lambda>_. calm_since lg {}) lg"
proof -
  have "unpublished lg (gr_id r)" if "r \<in> set (session_rows session lg)" "gr_status r = AutoApproved" for r
    using that unpublished_member[OF ok, of r] by (auto simp: session_rows_def published_def)
  then have "calm lg (bindT (foldT (finalize_one teacher scored) (session_rows session lg) out0) (\<lambda>out.
      thenT (whenT (b out) (modifyT (\<lambda>lg. lg\<lparr>lg_pins := (lg_pins lg)(session := io_currentPrice io)\<rparr>))) (retT out)))" for scored out0 b
    by (intro keeps_bind keeps_fold calm_finalize_one calm_intros) auto
  then show ?thesis unfolding finalizeGrades_def Let_def
    by (auto simp: wp_bind[of _ "getT _"] wp_get wp_if wp_fail intro!: wp_calm calm_since_refl)
qed

section \<open>The score of a published result\<close>

lemma latest_review_of: "latest_review P lg rid = find P (rev (reviews_of lg rid))"
proof -
  have "find (\<lambda>t. A t \<and> P t) xs = find P (filter A xs)" for A and xs :: "teacher_review list"
    by (induction xs) auto
  then show ?thesis by (simp add: latest_review_def reviews_of_def rev_filter)
qed

lemma has_manual_of: "has_manual lg rid \<longleftrightarrow> latest_review (\<lambda>t. tr_kind t = ManualScoreKind) lg rid \<noteq> None"
  by (auto simp: has_manual_def latest_review_def list_ex_iff find_None_iff)

lemma kept_row_score:
  assumes ok: "ledger_ok lg" and r: "r \<in> set (lg_rows lg)" "published (gr_status r)"
    and c: "\<exists>cs. lg_computations lg' = lg_computations lg @ cs" and k: "kept_row lg lg' r"
  shows "\<exists>r' \<in> set (lg_rows lg'). gr_id r' = gr_id r \<and> gr_status r' = gr_status r \<and> loadCurrentScore lg' r' = loadCurrentScore lg r"
proof -
  obtain r' where r': "r' \<in> set (lg_rows lg')" "score_columns r = score_columns r'" using k by (auto simp: kept_row_def)
  then have col: "gr_id r' = gr_id r" "gr_pipeline r' = gr_pipeline r" "gr_status r' = gr_status r" "gr_aiTotal r' = gr_aiTotal r"
    "gr_finalizedComputation r' = gr_finalizedComputation r" by (simp_all add: score_columns_def)
  have lat: "latest_review P lg' (gr_id r) = latest_review P lg (gr_id r)" for P
    using k by (simp add: latest_review_of kept_row_def)
  have ro: "row_ok lg r" and man: "\<And>t. t \<in> set (lg_reviews lg) \<Longrightarrow> tr_kind t = ManualScoreKind \<Longrightarrow> tr_finalScore t \<noteq> None"
    using ok r(1) by (auto simp: ledger_ok_def)
  have fin: "gr_status r = FinalizedStatus" using ro r(2) by (auto simp: row_ok_def published_def)
  have "loadCurrentScore lg' r' = loadCurrentScore lg r"
  proof (cases "gr_pipeline r")
    case OneShot
    then show ?thesis by (simp add: loadCurrentScore_def current_input_def currentScore_def col lat split: option.split)
  next
    case Investigator
    show ?thesis
    proof (cases "has_manual lg (gr_id r)")
      case True
      then obtain t where "latest_review (\<lambda>t. tr_kind t = ManualScoreKind) lg (gr_id r) = Some t" "tr_finalScore t \<noteq> None"
        using latest_review_Some[of lg "gr_id r" "\<lambda>t. tr_kind t = ManualScoreKind"] man by (auto simp: has_manual_def list_ex_iff)
      with Investigator show ?thesis by (auto simp: loadCurrentScore_def current_input_def currentScore_def col lat)
    next
      case False
      then obtain i where i: "gr_finalizedComputation r = Some i" "scored_computation lg (gr_id r) i"
        using ro fin Investigator by (auto simp: row_ok_def)
      obtain s where "cm_score (lg_computations lg ! i) = Some s" "i < length (lg_computations lg)"
        "cm_score (lg_computations lg' ! i) = Some s" "i < length (lg_computations lg')"
        using i(2) c by (auto simp: scored_computation_def nth_append)
      with Investigator i(1) r(2) show ?thesis
        by (simp add: loadCurrentScore_def current_input_def currentScore_def col lat split: option.split)
    qed
  qed
  with r'(1) col show ?thesis by blast
qed

section \<open>Every event is logged\<close>

definition decided_on_current :: "ledger_event \<Rightarrow> ledger \<Rightarrow> bool" where
  "decided_on_current e lg =
     (case e of ReviewEvent rid status proposed teacher criteria remark \<Rightarrow>
        (case find_row lg rid of Some r \<Rightarrow> gr_status r = status | None \<Rightarrow> True)
      | _ \<Rightarrow> True)"

lemma calm_insert_row: "calm lg0 (insert_row r)"
proof (rule keepsTI)
  fix X lg assume c: "calm_since lg0 X lg"
  have "calm_since lg0 X (lg\<lparr>lg_rows := js_insert le r (lg_rows lg)\<rparr>)" for le
    using c by (auto simp: calm_since_def audited_def kept_row_def reviews_of_def)
  then show "wp (\<lambda>_. True) (insert_row r) (\<lambda>_. calm_since lg0 X) lg"
    by (auto simp: wp_def insert_row_def split: option.split)
qed

lemma calm_ignore: "wp ok m (\<lambda>_. P) lg \<Longrightarrow> wp ok (ignoreT m) (\<lambda>_. P) lg"
  by (simp add: wp_ignore)

lemma calm_ignored: "calm lg0 m \<Longrightarrow> calm lg0 (ignoreT m)"
  unfolding ignoreT_def by (intro keeps_bind keeps_ret)

lemma calm_event:
  assumes ok: "ledger_ok lg" and cur: "decided_on_current e lg"
  shows "wp (\<lambda>_. True) (event_tx io e) (\<lambda>_. calm_since lg {}) lg"
proof -
  have q: "calm lg m \<Longrightarrow> wp (\<lambda>_. True) m (\<lambda>_. calm_since lg {}) lg" for m :: "'a ledger_tx"
    by (rule wp_calm[OF _ calm_since_refl])
  have start: "calm lg (startGrading cs)" for cs
    unfolding startGrading_def by (intro calm_intros keeps_for calm_insert_row)
  have rev: "calm lg (review io (r\<lparr>gr_status := st, gr_aiTotal := proposed\<rparr>) teacher criteria remark)"
    if fr: "find_row lg rid = Some r" and st: "gr_status r = st" for rid r st proposed teacher criteria remark
  proof -
    have "published st \<or> unpublished lg (gr_id r)"
      using unpublished_row[OF ok fr] find_rowD[OF fr] st by blast
    then show ?thesis unfolding review_def
      by (auto split: prod.split intro!: keeps_intros keeps_bind calm_reviewWithin)
  qed
  show ?thesis
  proof (cases e)
    case (ReviewEvent rid status proposed teacher criteria remark)
    have "wp (\<lambda>_. True) (ignoreT (review io (r\<lparr>gr_status := status, gr_aiTotal := proposed\<rparr>) teacher criteria remark))
        (\<lambda>_. calm_since lg {}) lg" if "find_row lg rid = Some r" for r
      using rev[OF that, of status] cur that unfolding ReviewEvent decided_on_current_def
      by (intro q) (simp add: ignoreT_def keeps_bind)
    then show ?thesis unfolding ReviewEvent
      by (cases "find_row lg rid") (simp_all add: rowT_def wp_bind wp_get wp_fail wp_ret)
  qed (auto intro!: calm_ignore q[OF start] q[OF calm_startAttempt] q[OF calm_computeInitial] q[OF calm_finishAttempt]
      q[OF calm_finishUngradable] q[OF calm_markUngradable] q[OF calm_recomputeForTeacher] q[OF calm_reapply] q[OF calm_recordAudit]
      q[OF calm_resetBreaker] q[OF calm_oneShot(3)] q[OF calm_rowT] calm_ignored calm_oneShot(1,2)
      calm_bulkReview[OF ok] calm_setErrorException[OF ok] calm_setManualScore[OF ok] calm_confirmGroup[OF ok]
      calm_finalizeGrades[OF ok])
qed

text \<open>
  C12. An edit of a published score always leaves an entry in the audit log, in the same transaction: whatever an
  event does, each result that was published keeps its status and score unless the log gains an entry for it.
\<close>

theorem published_score_logged:
  assumes "decided_on_current e (ledger_after h)" and "r \<in> set (lg_rows (ledger_after h))" and "published (gr_status r)"
  shows "let lg = ledger_after h; lg' = ledger_run (io, e) lg in
    gr_id r \<in> ae_target ` set (drop (length (lg_audit lg)) (lg_audit lg')) \<or>
    (\<exists>r' \<in> set (lg_rows lg'). gr_id r' = gr_id r \<and> gr_status r' = gr_status r \<and> loadCurrentScore lg' r' = loadCurrentScore lg r)"
proof -
  let ?lg = "ledger_after h"
  have ok: "ledger_ok ?lg" by (rule ledger_ok_after)
  have "calm_since ?lg {} (ledger_run (io, e) ?lg)"
    unfolding ledger_run_def
    by (rule wp_commit[where I = "calm_since ?lg {}" and ok = "\<lambda>_. True"])
       (use calm_event[OF ok assms(1)] calm_since_refl in simp_all)
  then have "gr_id r \<in> audited ?lg (ledger_run (io, e) ?lg) \<or> kept_row ?lg (ledger_run (io, e) ?lg) r"
    and c: "\<exists>cs. lg_computations (ledger_run (io, e) ?lg) = lg_computations ?lg @ cs"
    using assms(2,3) by (auto simp: calm_since_def)
  then show ?thesis using kept_row_score[OF ok assms(2,3) c] by (auto simp: Let_def audited_def)
qed

section \<open>A score that changes without an entry\<close>

definition sample_io :: ledger_io where
  "sample_io = \<lparr>io_input = (\<lambda>_ _. sample_core (\<lambda>_. None)), io_currentPrice = Some 1, io_blockedKeys = [], io_noErrorEnabled = True,
     io_ruleKey = id, io_criteria = (\<lambda>_. [(''c'', 10)]), io_rubric = (\<lambda>_. [\<lparr>sc_key = ''c'', sc_max = 1000\<rparr>]), io_rubricName = id,
     io_prices = (\<lambda>_ _. Some 100), io_sampling = \<lparr>as_enabled = False, as_percent = 0, as_warning = False\<rparr>, io_minPerSession = 0, io_sha256 = (\<lambda>_. []),
     io_seed = id, io_activeRules = [], io_math = \<lparr>jm_log = id, jm_log1p = id, jm_exp = id, jm_pow = (\<lambda>x n. x ^ n)\<rparr>,
     io_say = (\<lambda>_. []), io_belowFloor = []\<rparr>"

definition sample_row :: collected where
  "sample_row = \<lparr>cl_id = ''r'', cl_session = ''s'', cl_submission = ''b'', cl_mssv = ''m'', cl_rubric = ''v'', cl_pipeline = OneShot\<rparr>"

definition with_total :: "rat \<Rightarrow> rule_criterion list" where
  "with_total x = [\<lparr>rc_criterionId = ''c'', rc_verdict = NotMet, rc_points = x\<rparr>]"

definition published_history :: "(ledger_io \<times> ledger_event) list" where
  "published_history = map (Pair sample_io)
     [StartGradingEvent [sample_row], OneShotWriteEvent ''r'' 0 [] None, OneShotFlagEvent ''r'' True,
      ReviewEvent ''r'' FlaggedForReview (Some 0) ''t'' (with_total 0) None, FinalizeGradesEvent ''s'' ''t'']"

lemmas ledger_eval = ledger_run_def commit_def ignoreT_def bindT_def thenT_def getT_def modifyT_def retT_def failT_def
  whenT_def unlessT_def liftT_def forT_def startGrading_def insert_row_def new_row_def trigger_insert_def rowT_def find_row_def
  oneShotWrite_def oneShotFlag_def update_rows_def validate_lifecycle_def transition_allowed_def review_def isReviewable_def
  REVIEWABLE_def reviewWithin_def advanceStatus_def add_review_def apply_extra_def no_extra_def
  finalizeGrades_def session_rows_def BLOCKS_FINALIZE_def without_score_def finalize_one_def finalized_extra_def
  published_def sample_row_def List.map_filter_simps

lemma sample_io_sel [simp]: "io_criteria sample_io = (\<lambda>_. [(''c'', 10)])" "io_currentPrice sample_io = Some 1"
  by (simp_all add: sample_io_def)

lemma sample_totals [simp]:
  "validateAndTotal [(''c'', 10)] (with_total 0) = Inr 0" "validateAndTotal [(''c'', 10)] (with_total 5) = Inr 500"
proof -
  have "js_round 0 = 0" "js_round 500 = 500" unfolding js_round_def by (rule floor_unique; simp)+
  then show "validateAndTotal [(''c'', 10)] (with_total 0) = Inr 0" "validateAndTotal [(''c'', 10)] (with_total 5) = Inr 500"
    using fl_int[of 5] fl_int[of 500]
    by (simp_all add: validateAndTotal_def with_total_def js_map_distinct_eq set_add_def)
qed

definition sample_final_row :: grading_row where
  "sample_final_row = (new_row sample_row)\<lparr>gr_status := FinalizedStatus, gr_aiTotal := Some 0, gr_finalizedBy := Some ''t''\<rparr>"

definition sample_review :: teacher_review where
  "sample_review = \<lparr>tr_result = ''r'', tr_teacher = ''t'', tr_kind = ReviewKind, tr_finalScore = Some 0, tr_errorRule = None,
     tr_direction = None, tr_confirmed = None, tr_criteria = with_total 0, tr_note = None\<rparr>"

lemma published_ledger:
  "ledger_after published_history =
     empty_ledger\<lparr>lg_rows := [sample_final_row], lg_reviews := [sample_review], lg_pins := [''s'' \<mapsto> 1]\<rparr>"
  by (simp add: ledger_after_def published_history_def empty_ledger_def sample_final_row_def sample_review_def ledger_eval)

definition stale_review :: ledger_event where
  "stale_review = ReviewEvent ''r'' TeacherReviewed (Some 0) ''t'' (with_total 5) None"

lemmas score_eval = loadCurrentScore_def current_input_def currentScore_def latest_review_def latestComputationRow_def
  last_position_def

text \<open>
  C13. The controller reads the result before \<open>review\<close> opens its transaction, and nothing locks it: a session that is
  finalized in between leaves a review decided on \<open>teacher_reviewed\<close>. It changes the published score from 0 to 5
  without an entry in the audit log, the path to a score edit that the comment of \<open>review\<close> says does not exist.
\<close>

theorem stale_review_unlogged:
  "let lg = ledger_after published_history; lg' = ledger_run (sample_io, stale_review) lg in
    decided_on_current stale_review (ledger_after (take 4 published_history)) \<and> \<not> decided_on_current stale_review lg \<and>
    lg_audit lg' = lg_audit lg \<and>
    map (\<lambda>r. (gr_status r, fst (loadCurrentScore lg r))) (lg_rows lg) = [(FinalizedStatus, Some 0)] \<and>
    map (\<lambda>r. (gr_status r, fst (loadCurrentScore lg' r))) (lg_rows lg') = [(FinalizedStatus, Some 500)]"
proof -
  have "decided_on_current stale_review (ledger_after (take 4 published_history))"
    by (simp add: ledger_after_def published_history_def empty_ledger_def stale_review_def decided_on_current_def ledger_eval)
  then show ?thesis unfolding Let_def published_ledger
    by (simp add: stale_review_def sample_final_row_def sample_review_def empty_ledger_def decided_on_current_def ledger_eval score_eval)
qed

theorem published_score_logged_witness:
  "let e = ReviewEvent ''r'' FinalizedStatus (Some 0) ''t'' (with_total 5) None; lg = ledger_after published_history;
       lg' = ledger_run (sample_io, e) lg in
    published (gr_status sample_final_row) \<and>
    (gr_id sample_final_row \<in> ae_target ` set (drop (length (lg_audit lg)) (lg_audit lg')) \<or>
     (\<exists>r' \<in> set (lg_rows lg'). gr_id r' = gr_id sample_final_row \<and> gr_status r' = gr_status sample_final_row \<and>
        loadCurrentScore lg' r' = loadCurrentScore lg sample_final_row))"
proof -
  have "decided_on_current (ReviewEvent ''r'' FinalizedStatus (Some 0) ''t'' (with_total 5) None) (ledger_after published_history)"
    unfolding published_ledger by (simp add: decided_on_current_def find_row_def sample_final_row_def new_row_def sample_row_def)
  moreover have "sample_final_row \<in> set (lg_rows (ledger_after published_history))" unfolding published_ledger by simp
  moreover have "published (gr_status sample_final_row)" by (simp add: sample_final_row_def published_def)
  ultimately show ?thesis
    using published_score_logged[of "ReviewEvent ''r'' FinalizedStatus (Some 0) ''t'' (with_total 5) None" published_history
        sample_final_row sample_io]
    by (simp add: Let_def)
qed

end
