(* ===== verification/AuditLog.thy ===== *)
theory AuditLog
  imports Prelude
begin

text \<open>
  The audit log and its pages: \<open>admin/audit-log.service.ts\<close>. \<open>occurredAt\<close> is a number of milliseconds, since
  \<open>stampOccurredAt\<close> of the entity takes it from a JavaScript \<open>Date\<close>. Of the two \<open>jsonb\<close> values only the keys are
  kept, in the order of \<open>Object.keys\<close>: a page shows nothing else of them. The name of an actor comes from the
  joined account and is a parameter.
\<close>

datatype actor_type = UserActor | SystemActor

record log_entry =
  le_id :: key
  le_occurredAt :: nat
  le_actorType :: actor_type
  le_actorId :: "key option"
  le_action :: key
  le_targetType :: key
  le_targetId :: key
  le_oldKeys :: "key list"
  le_newKeys :: "key list"

record audit_log_item =
  ai_id :: key
  ai_occurredAt :: nat
  ai_actorType :: actor_type
  ai_actorName :: "string option"
  ai_action :: key
  ai_targetType :: key
  ai_targetId :: key
  ai_changedFields :: "key list"

record audit_log_page =
  pg_items :: "audit_log_item list"
  pg_nextBefore :: "nat option"

record log_filter =
  lf_actions :: "key list option"
  lf_actorId :: "key option"
  lf_targetType :: "key option"
  lf_from :: "nat option"
  lf_before :: "nat option"
  lf_limit :: nat

section \<open>Writing\<close>

record user_action =
  ua_actorId :: key
  ua_action :: key
  ua_targetType :: key
  ua_targetId :: key
  ua_oldKeys :: "key list option"
  ua_newKeys :: "key list option"

definition recordUserAction :: "key \<Rightarrow> nat \<Rightarrow> user_action \<Rightarrow> log_entry list \<Rightarrow> log_entry list" where
  "recordUserAction new_id now i log =
     log @ [\<lparr>le_id = new_id, le_occurredAt = now, le_actorType = UserActor, le_actorId = Some (ua_actorId i),
       le_action = ua_action i, le_targetType = ua_targetType i, le_targetId = ua_targetId i,
       le_oldKeys = (case ua_oldKeys i of Some ks \<Rightarrow> ks | None \<Rightarrow> []),
       le_newKeys = (case ua_newKeys i of Some ks \<Rightarrow> ks | None \<Rightarrow> [])\<rparr>]"

section \<open>Reading\<close>

definition passes :: "('a \<Rightarrow> bool) \<Rightarrow> 'a option \<Rightarrow> bool" where
  "passes P x = (case x of None \<Rightarrow> True | Some v \<Rightarrow> P v)"

definition log_matches :: "log_filter \<Rightarrow> log_entry \<Rightarrow> bool" where
  "log_matches f e \<longleftrightarrow>
     (case lf_actions f of Some as \<Rightarrow> as = [] \<or> le_action e \<in> set as | None \<Rightarrow> True) \<and>
     passes (\<lambda>a. le_actorId e = Some a) (lf_actorId f) \<and>
     passes (\<lambda>t. le_targetType e = t) (lf_targetType f) \<and>
     passes (\<lambda>t. t \<le> le_occurredAt e) (lf_from f) \<and>
     passes (\<lambda>t. le_occurredAt e < t) (lf_before f)"

text \<open>\<open>ORDER BY occurred_at DESC, id DESC\<close>.\<close>

definition newer :: "log_entry \<Rightarrow> log_entry \<Rightarrow> bool" where
  "newer a b \<longleftrightarrow> le_occurredAt b < le_occurredAt a \<or> le_occurredAt a = le_occurredAt b \<and> str_le (le_id b) (le_id a)"

definition log_item :: "(key \<Rightarrow> string option) \<Rightarrow> log_entry \<Rightarrow> audit_log_item" where
  "log_item actor_name e =
     \<lparr>ai_id = le_id e, ai_occurredAt = le_occurredAt e, ai_actorType = le_actorType e,
      ai_actorName = Option.bind (le_actorId e) actor_name, ai_action = le_action e, ai_targetType = le_targetType e,
      ai_targetId = le_targetId e, ai_changedFields = js_sort str_le (uniq (le_oldKeys e @ le_newKeys e))\<rparr>"

definition list_page :: "(key \<Rightarrow> string option) \<Rightarrow> log_filter \<Rightarrow> log_entry list \<Rightarrow> audit_log_page" where
  "list_page actor_name f log =
     (let rows = take (lf_limit f + 1) (js_sort newer (filter (log_matches f) log));
          items = map (log_item actor_name) (take (lf_limit f) rows);
          hasMore = lf_limit f < length rows
      in \<lparr>pg_items = items, pg_nextBefore = (if hasMore \<and> items \<noteq> [] then Some (ai_occurredAt (last items)) else None)\<rparr>)"

text \<open>What a reader sees who follows \<open>nextBefore\<close> for at most \<open>n\<close> pages.\<close>

fun read_pages :: "nat \<Rightarrow> (key \<Rightarrow> string option) \<Rightarrow> log_filter \<Rightarrow> log_entry list \<Rightarrow> audit_log_item list" where
  "read_pages 0 actor_name f log = []"
| "read_pages (Suc n) actor_name f log =
     (let page = list_page actor_name f log
      in pg_items page @ (case pg_nextBefore page of
           None \<Rightarrow> [] | Some t \<Rightarrow> read_pages n actor_name (f\<lparr>lf_before := Some t\<rparr>) log))"

section \<open>The order\<close>

lemma newer_preorder: "total_preorder newer"
  unfolding total_preorder_def
proof (intro conjI allI impI)
  show "newer a b \<or> newer b a" for a b using str_le_total[of "le_id a" "le_id b"] by (auto simp: newer_def)
  show "newer a c" if "newer a b" "newer b c" for a b c
    using that str_le_trans[of "le_id c" "le_id b" "le_id a"] by (auto simp: newer_def)
qed

text \<open>Entries of different times, newest first.\<close>

definition descending :: "log_entry list \<Rightarrow> bool" where
  "descending es \<longleftrightarrow> sorted_wrt (\<lambda>a b. le_occurredAt b < le_occurredAt a) es"

lemma descending_sort:
  assumes "distinct (map le_occurredAt es)"
  shows "descending (js_sort newer es)"
proof -
  have "sorted_wrt newer (js_sort newer es)" by (rule sorted_js_sort[OF newer_preorder])
  moreover have "inj_on le_occurredAt (set es)" "distinct es" using assms by (simp_all add: distinct_map)
  ultimately show ?thesis
    unfolding descending_def sorted_wrt_iff_nth_less
    by (metis (no_types, lifting) distinct_js_sort inj_onD length_js_sort less_trans newer_def nat_neq_iff nth_eq_iff_index_eq
        nth_mem set_js_sort)
qed

lemma descending_filter: "descending es \<Longrightarrow> descending (filter P es)"
  by (simp add: descending_def sorted_wrt_filter)

lemma descending_unique: "descending es \<Longrightarrow> descending es' \<Longrightarrow> set es = set es' \<Longrightarrow> es = es'"
proof (induction es arbitrary: es')
  case (Cons e es)
  then obtain e' es'' where es': "es' = e' # es''" by (cases es') auto
  have lt: "le_occurredAt x < le_occurredAt e" if "x \<in> set es" for x using Cons.prems(1) that by (simp add: descending_def)
  have lt': "le_occurredAt x < le_occurredAt e'" if "x \<in> set es''" for x using Cons.prems(2) that es' by (simp add: descending_def)
  have "e = e'" using Cons.prems(3) lt lt' unfolding es' by (metis insert_iff less_asym list.set(2))
  moreover have "set es = set es''" using Cons.prems(3) lt lt' unfolding es' \<open>e = e'\<close> by (metis insert_ident less_irrefl list.set(2))
  ultimately show ?case using Cons.IH[of es''] Cons.prems(1,2) unfolding es' by (simp add: descending_def)
qed simp

lemma older_than_last:
  "descending es \<Longrightarrow> 0 < k \<Longrightarrow> k \<le> length es \<Longrightarrow> filter (\<lambda>e. le_occurredAt e < le_occurredAt (es ! (k - 1))) es = drop k es"
proof (induction es arbitrary: k)
  case (Cons e es)
  have lt: "le_occurredAt x < le_occurredAt e" if "x \<in> set es" for x using Cons.prems(1) that by (simp add: descending_def)
  show ?case
  proof (cases "k = 1")
    case True
    then show ?thesis using lt by (auto simp: filter_id_conv)
  next
    case False
    then obtain j where j: "k = Suc j" "0 < j" "j \<le> length es" using Cons.prems(2,3) by (cases k) auto
    have "es ! (j - 1) \<in> set es" using j by (intro nth_mem) simp
    then have "\<not> le_occurredAt e < le_occurredAt (es ! (j - 1))" using lt by fastforce
    moreover have "descending es" using Cons.prems(1) by (simp add: descending_def)
    ultimately show ?thesis using Cons.IH[of j] j by (simp add: nth_Cons')
  qed
qed simp

section \<open>Pages\<close>

lemma matches_before:
  assumes "log_matches f e'"
  shows "filter (log_matches (f\<lparr>lf_before := Some (le_occurredAt e')\<rparr>)) log =
    filter (\<lambda>e. le_occurredAt e < le_occurredAt e') (filter (log_matches f) log)"
proof -
  have "log_matches (f\<lparr>lf_before := Some (le_occurredAt e')\<rparr>) e \<longleftrightarrow> log_matches f e \<and> le_occurredAt e < le_occurredAt e'" for e
    using assms unfolding log_matches_def passes_def by (cases "lf_before f") auto
  then have "log_matches (f\<lparr>lf_before := Some (le_occurredAt e')\<rparr>) = (\<lambda>e. log_matches f e \<and> le_occurredAt e < le_occurredAt e')"
    by (rule ext)
  then show ?thesis by simp
qed

lemma sort_before:
  assumes d: "distinct (map le_occurredAt (filter (log_matches f) log))"
    and es: "es = js_sort newer (filter (log_matches f) log)" and k: "0 < k" "k \<le> length es"
    and t: "t = le_occurredAt (es ! (k - 1))"
  shows "js_sort newer (filter (log_matches (f\<lparr>lf_before := Some t\<rparr>)) log) = drop k es"
proof -
  have "log_matches f (es ! (k - 1))" using nth_mem[of "k - 1" es] k unfolding es by simp
  note eq = matches_before[OF this, of log, folded t]
  have de: "descending es" unfolding es by (rule descending_sort[OF d])
  have "js_sort newer (filter (\<lambda>e. le_occurredAt e < t) (filter (log_matches f) log)) = filter (\<lambda>e. le_occurredAt e < t) es"
  proof (rule descending_unique)
    have "distinct (map le_occurredAt (filter P (filter (log_matches f) log)))" for P
      using d by (rule distinct_map_filter)
    then show "descending (js_sort newer (filter (\<lambda>e. le_occurredAt e < t) (filter (log_matches f) log)))"
      by (rule descending_sort)
    show "descending (filter (\<lambda>e. le_occurredAt e < t) es)" by (rule descending_filter[OF de])
  qed (auto simp: es)
  also have "\<dots> = drop k es" unfolding t by (rule older_than_last[OF de k])
  finally show ?thesis by (simp only: eq)
qed

lemma read_pages_all:
  assumes "0 < lf_limit f" and "distinct (map le_occurredAt (filter (log_matches f) log))"
    and "es = js_sort newer (filter (log_matches f) log)" and "length es < n"
  shows "read_pages n names f log = map (log_item names) es"
  using assms
proof (induction n arbitrary: f es)
  case (Suc n)
  let ?k = "lf_limit f"
  show ?case
  proof (cases "?k < length es")
    case True
    define t where "t = le_occurredAt (es ! (?k - 1))"
    let ?f = "f\<lparr>lf_before := Some t\<rparr>"
    have "es \<noteq> []" "?k \<le> length es" using True by auto
    then have "last (take ?k es) = es ! (?k - 1)" using Suc.prems(1) by (simp add: last_conv_nth)
    then have page: "list_page names f log = \<lparr>pg_items = map (log_item names) (take ?k es), pg_nextBefore = Some t\<rparr>"
      using True Suc.prems(1) \<open>es \<noteq> []\<close> unfolding list_page_def Suc.prems(3)[symmetric] Let_def t_def
      by (simp add: last_map log_item_def)
    have rest: "js_sort newer (filter (log_matches ?f) log) = drop ?k es"
      using True Suc.prems(1) by (intro sort_before[OF Suc.prems(2,3)]) (simp_all add: t_def)
    have "log_matches f (es ! (?k - 1))" using nth_mem[of "?k - 1" es] True unfolding Suc.prems(3) by simp
    then have "distinct (map le_occurredAt (filter (log_matches ?f) log))"
      unfolding t_def matches_before[OF \<open>log_matches f (es ! (?k - 1))\<close>] by (intro distinct_map_filter Suc.prems(2))
    then have "read_pages n names ?f log = map (log_item names) (drop ?k es)"
      using Suc.prems True by (intro Suc.IH[OF _ _ rest[symmetric]]) auto
    then have "read_pages (Suc n) names f log = map (log_item names) (take ?k es) @ map (log_item names) (drop ?k es)"
      using page by (simp add: Let_def)
    also have "\<dots> = map (log_item names) es" by (metis append_take_drop_id map_append)
    finally show ?thesis .
  next
    case False
    then have "list_page names f log = \<lparr>pg_items = map (log_item names) es, pg_nextBefore = None\<rparr>"
      unfolding list_page_def Suc.prems(3)[symmetric] Let_def by simp
    then show ?thesis by (simp add: Let_def)
  qed
qed simp

text \<open>
  Following \<open>nextBefore\<close> shows every matching entry once, newest first, as long as no two matching entries carry
  the same millisecond.
\<close>

theorem audit_pages_complete:
  assumes "0 < lf_limit f" and "distinct (map le_occurredAt (filter (log_matches f) log))"
  shows "read_pages (Suc (length log)) names f log = map (log_item names) (js_sort newer (filter (log_matches f) log))"
  using assms by (intro read_pages_all) (auto simp: less_Suc_eq_le)

section \<open>Entries of the same millisecond\<close>

definition sample_entry :: "key \<Rightarrow> nat \<Rightarrow> log_entry" where
  "sample_entry i t = \<lparr>le_id = i, le_occurredAt = t, le_actorType = UserActor, le_actorId = Some ''t'', le_action = ''score'',
     le_targetType = ''grading_result'', le_targetId = i, le_oldKeys = [''finalScore''], le_newKeys = [''finalScore'', ''note'']\<rparr>"

definition sample_filter :: log_filter where
  "sample_filter = \<lparr>lf_actions = None, lf_actorId = None, lf_targetType = None, lf_from = None, lf_before = None, lf_limit = 2\<rparr>"

theorem audit_pages_complete_witness:
  "0 < lf_limit sample_filter \<and>
   map ai_id (read_pages 4 (\<lambda>_. None) sample_filter [sample_entry ''a'' 1, sample_entry ''b'' 3, sample_entry ''c'' 2]) = [''b'', ''c'', ''a'']"
proof -
  have "read_pages (Suc (length [sample_entry ''a'' 1, sample_entry ''b'' 3, sample_entry ''c'' 2])) (\<lambda>_. None) sample_filter
      [sample_entry ''a'' 1, sample_entry ''b'' 3, sample_entry ''c'' 2] =
    map (log_item (\<lambda>_. None)) (js_sort newer (filter (log_matches sample_filter)
      [sample_entry ''a'' 1, sample_entry ''b'' 3, sample_entry ''c'' 2]))"
    by (rule audit_pages_complete) (simp_all add: sample_filter_def sample_entry_def log_matches_def passes_def)
  then show ?thesis
    by (simp add: eval_nat_numeral sample_filter_def sample_entry_def log_matches_def passes_def newer_def log_item_def)
qed

text \<open>
  C31. The cursor is a time, not a key: of three entries of one millisecond, as the loop that reapplies the prices of a
  session can write them, a reader with pages of two never sees the last one, however many pages they ask for.
\<close>

theorem audit_pages_lose_entry:
  "map ai_id (read_pages n (\<lambda>_. None) sample_filter [sample_entry ''a'' 1, sample_entry ''b'' 1, sample_entry ''c'' 1]) =
   (if n = 0 then [] else [''c'', ''b''])"
proof (cases n)
  case (Suc m)
  have "read_pages m (\<lambda>_. None) (sample_filter\<lparr>lf_before := Some 1\<rparr>)
      [sample_entry ''a'' 1, sample_entry ''b'' 1, sample_entry ''c'' 1] = []"
    by (cases m) (simp_all add: list_page_def sample_filter_def sample_entry_def log_matches_def passes_def Let_def)
  with Suc show ?thesis
    by (simp add: list_page_def sample_filter_def sample_entry_def log_matches_def passes_def newer_def log_item_def Let_def)
qed simp

end
