(* ===== verification/Slots.thy ===== *)
theory Slots
  imports Prelude Hundredths Transactions "HOL-Library.Multiset"
begin

text \<open>
  \<open>sandbox-worker/slots.ts\<close>: the syntax of a cpuset, and the pool of slots that the jobs of the sandbox
  share. A slot is a cpuset reserved for measurements, or a ticket of the general pool. The promises of the
  pool are events: a job arrives and takes a slot or waits, and a job ends and gives its slot to the first
  one waiting, unless its container leaked.
\<close>

section \<open>Cpusets\<close>

datatype cpuset_error = BadCpuset string

text \<open>One part between commas: \<open>\d+(-\d+)?\<close>.\<close>

definition cpuset_part_ok :: "string \<Rightarrow> bool" where
  "cpuset_part_ok p = (case split_on CHR ''-'' p of
       [a] \<Rightarrow> a \<noteq> [] \<and> list_all is_digit a
     | [a, b] \<Rightarrow> a \<noteq> [] \<and> list_all is_digit a \<and> b \<noteq> [] \<and> list_all is_digit b
     | _ \<Rightarrow> False)"

text \<open>\<open>const [a, b] = part.split('-').map(Number)\<close> and the loop from \<open>a\<close> to \<open>b ?? a\<close>.\<close>

definition part_cores :: "string \<Rightarrow> nat list" where
  "part_cores p = (case map number_of_digits (split_on CHR ''-'' p) of
       [a] \<Rightarrow> [a]
     | a # b # _ \<Rightarrow> [a..<Suc b]
     | [] \<Rightarrow> [])"

definition cpusetCores :: "string \<Rightarrow> cpuset_error + nat list" where
  "cpusetCores set_text =
     (if \<not> list_all cpuset_part_ok (split_on CHR '','' set_text) then Inl (BadCpuset set_text)
      else Inr (sort (uniq (concat (map part_cores (split_on CHR '','' set_text))))))"

definition cpusetSize :: "string \<Rightarrow> cpuset_error + nat" where
  "cpusetSize set_text = (case cpusetCores set_text of Inl e \<Rightarrow> Inl e | Inr cs \<Rightarrow> Inr (length cs))"

lemma cpusetCores_sorted: "cpusetCores s = Inr cs \<Longrightarrow> sorted cs \<and> distinct cs"
  by (auto simp: cpusetCores_def split: if_splits)

text \<open>Text made of the numbers themselves is read back.\<close>

lemma split_on_none: "c \<notin> set xs \<Longrightarrow> split_on c xs = [xs]"
  by (induction xs) auto

lemma split_on_join:
  assumes "ps \<noteq> []" and "\<forall>p \<in> set ps. c \<notin> set p"
  shows "split_on c (join_with [c] ps) = ps"
  using assms
proof (induction ps rule: induct_list012)
  case (3 p q ps)
  have "split_on c (p @ c # r) = p # split_on c r" if "c \<notin> set p" for r
    using that by (induction p) auto
  with 3 show ?case by simp
qed (simp_all add: split_on_none)

lemma show_nat_no_sep: "\<not> is_digit c \<Longrightarrow> c \<notin> set (show_nat n)"
  using show_nat_digits[of n] by (auto simp: list_all_iff)

lemma cpuset_part_show [simp]: "cpuset_part_ok (show_nat n)" "part_cores (show_nat n) = [n]"
  using show_nat_digits[of n]
  by (simp_all add: cpuset_part_ok_def part_cores_def split_on_none show_nat_no_sep is_digit_def)

lemma cpusetCores_join:
  assumes "ns \<noteq> []"
  shows "cpusetCores (join_with '','' (map show_nat ns)) = Inr (sort (uniq ns))"
proof -
  have "split_on CHR '','' (join_with '','' (map show_nat ns)) = map show_nat ns"
    using assms by (intro split_on_join) (auto simp: show_nat_no_sep is_digit_def)
  then show ?thesis by (simp add: cpusetCores_def list_all_iff o_def)
qed

section \<open>The pool\<close>

text \<open>A lease remembers for whom it was made; \<open>le_released\<close> is the flag of its closure.\<close>

record 'a lease =
  le_item :: 'a
  le_job :: nat
  le_released :: bool

record 'a slot_pool =
  sp_free :: "'a list"
  sp_waiters :: "nat list"
  sp_leases :: "'a lease list"

definition new_pool :: "'a list \<Rightarrow> 'a slot_pool option" where
  "new_pool items = (if items = [] then None else Some \<lparr>sp_free = items, sp_waiters = [], sp_leases = []\<rparr>)"

definition lease_to :: "'a \<Rightarrow> nat \<Rightarrow> 'a slot_pool \<Rightarrow> 'a slot_pool" where
  "lease_to x j p = p\<lparr>sp_leases := sp_leases p @ [\<lparr>le_item = x, le_job = j, le_released = False\<rparr>]\<rparr>"

definition acquire :: "nat \<Rightarrow> 'a slot_pool \<Rightarrow> 'a slot_pool" where
  "acquire j p = (case sp_free p of
       x # xs \<Rightarrow> lease_to x j (p\<lparr>sp_free := xs\<rparr>)
     | [] \<Rightarrow> p\<lparr>sp_waiters := sp_waiters p @ [j]\<rparr>)"

definition release :: "nat \<Rightarrow> 'a slot_pool \<Rightarrow> 'a slot_pool" where
  "release l p =
     (if le_released (sp_leases p ! l) then p
      else let x = le_item (sp_leases p ! l);
               p' = p\<lparr>sp_leases := (sp_leases p)[l := (sp_leases p ! l)\<lparr>le_released := True\<rparr>]\<rparr>
           in (case sp_waiters p' of
                 j # js \<Rightarrow> lease_to x j (p'\<lparr>sp_waiters := js\<rparr>)
               | [] \<Rightarrow> p'\<lparr>sp_free := sp_free p' @ [x]\<rparr>))"

text \<open>
  \<open>withSlot\<close> as events. \<open>Arrive j\<close> is the call, \<open>Finish l names\<close> the end of the run that holds lease \<open>l\<close>, with
  the containers it could not remove. \<open>sw_ended\<close> are the leases whose run has ended and \<open>sw_warned\<close> the
  warnings of a slot put aside.
\<close>

record 'a slot_work =
  sw_pool :: "'a slot_pool"
  sw_arrived :: "nat list"
  sw_ended :: "nat list"
  sw_warned :: "('a \<times> string list) list"

datatype slot_event = Arrive nat | Finish nat "string list"

fun withSlot :: "slot_event \<Rightarrow> 'a slot_work \<Rightarrow> 'a slot_work" where
  "withSlot (Arrive j) w = w\<lparr>sw_pool := acquire j (sw_pool w), sw_arrived := sw_arrived w @ [j]\<rparr>"
| "withSlot (Finish l names) w =
     (if l < length (sp_leases (sw_pool w)) \<and> l \<notin> set (sw_ended w)
      then let w' = w\<lparr>sw_ended := sw_ended w @ [l]\<rparr>
           in if names = [] then w'\<lparr>sw_pool := release l (sw_pool w')\<rparr>
              else w'\<lparr>sw_warned := sw_warned w' @ [(le_item (sp_leases (sw_pool w') ! l), names)]\<rparr>
      else w)"

definition start_work :: "'a slot_pool \<Rightarrow> 'a slot_work" where
  "start_work p = \<lparr>sw_pool = p, sw_arrived = [], sw_ended = [], sw_warned = []\<rparr>"

section \<open>The invariant\<close>

definition held :: "'a slot_pool \<Rightarrow> 'a lease list" where
  "held p = filter (\<lambda>e. \<not> le_released e) (sp_leases p)"

text \<open>No slot is lost or duplicated, and no job waits while a slot is free.\<close>

definition pool_ok :: "'a list \<Rightarrow> 'a slot_pool \<Rightarrow> bool" where
  "pool_ok items p \<longleftrightarrow> mset (sp_free p) + mset (map le_item (held p)) = mset items \<and>
     (sp_waiters p \<noteq> [] \<longrightarrow> sp_free p = [])"

lemma filter_update_mset:
  assumes "l < length xs" and "P (xs ! l)" and "\<not> P y"
  shows "add_mset (xs ! l) (mset (filter P (xs[l := y]))) = mset (filter P xs)"
  using assms
proof (induction xs arbitrary: l)
  case (Cons x xs)
  then show ?case by (cases l) (auto simp: add_mset_commute)
qed simp

lemma release_held:
  assumes "l < length (sp_leases p)" and "\<not> le_released (sp_leases p ! l)"
  shows "add_mset (sp_leases p ! l) (mset (filter (\<lambda>e. \<not> le_released e)
      ((sp_leases p)[l := (sp_leases p ! l)\<lparr>le_released := True\<rparr>]))) = mset (held p)"
  unfolding held_def by (rule filter_update_mset) (use assms in simp_all)

lemma acquire_pool_ok: "pool_ok items p \<Longrightarrow> pool_ok items (acquire j p)"
  by (auto simp: pool_ok_def acquire_def lease_to_def held_def split: list.splits)

lemma release_pool_ok:
  assumes ok: "pool_ok items p" and l: "l < length (sp_leases p)"
  shows "pool_ok items (release l p)"
proof (cases "le_released (sp_leases p ! l)")
  case False
  let ?rest = "filter (\<lambda>e. \<not> le_released e) ((sp_leases p)[l := (sp_leases p ! l)\<lparr>le_released := True\<rparr>])"
  have "image_mset le_item (add_mset (sp_leases p ! l) (mset ?rest)) = image_mset le_item (mset (held p))"
    by (simp only: release_held[OF l False])
  then have "mset (sp_free p) + add_mset (le_item (sp_leases p ! l)) (mset (map le_item ?rest)) = mset items"
    using ok by (simp add: pool_ok_def)
  with ok False show ?thesis
    by (cases "sp_waiters p") (simp_all add: pool_ok_def release_def Let_def lease_to_def held_def)
qed (simp add: release_def ok)

text \<open>Releasing a lease twice is releasing it once.\<close>

lemma release_twice:
  assumes "l < length (sp_leases p)"
  shows "release l (release l p) = release l p"
  using assms by (auto simp: release_def Let_def lease_to_def nth_append split: list.split)


section \<open>Jobs on the pool\<close>

text \<open>The slots of the runs that have not ended.\<close>

definition running_leases :: "'a slot_work \<Rightarrow> nat list" where
  "running_leases w = filter (\<lambda>l. l \<notin> set (sw_ended w)) [0..<length (sp_leases (sw_pool w))]"

definition running_slots :: "'a slot_work \<Rightarrow> 'a list" where
  "running_slots w = map (\<lambda>l. le_item (sp_leases (sw_pool w) ! l)) (running_leases w)"

text \<open>
  Each slot is free, in use by one run or put aside; nobody waits while a slot is free; the leases are given
  in the order of arrival; a lease is released only by its own run.
\<close>

definition work_ok :: "'a list \<Rightarrow> 'a slot_work \<Rightarrow> bool" where
  "work_ok items w \<longleftrightarrow>
     mset (sp_free (sw_pool w)) + mset (running_slots w) + mset (map fst (sw_warned w)) = mset items \<and>
     (sp_waiters (sw_pool w) \<noteq> [] \<longrightarrow> sp_free (sw_pool w) = []) \<and>
     map le_job (sp_leases (sw_pool w)) @ sp_waiters (sw_pool w) = sw_arrived w \<and>
     (\<forall>l < length (sp_leases (sw_pool w)). le_released (sp_leases (sw_pool w) ! l) \<longrightarrow> l \<in> set (sw_ended w)) \<and>
     (\<forall>l \<in> set (sw_ended w). l < length (sp_leases (sw_pool w)))"

lemma start_ok: "new_pool items = Some p \<Longrightarrow> work_ok items (start_work p)"
  by (auto simp: new_pool_def start_work_def work_ok_def running_slots_def running_leases_def split: if_splits)

lemma lease_to_running:
  assumes "\<forall>l \<in> set (sw_ended w). l < length (sp_leases (sw_pool w))" and "sw_pool w' = lease_to x j p"
    and "sp_leases p = sp_leases (sw_pool w)" and "sw_ended w' = sw_ended w"
  shows "running_slots w' = running_slots w @ [x]"
proof -
  have "length (sp_leases (sw_pool w)) \<notin> set (sw_ended w)" using assms(1) by blast
  then show ?thesis using assms(2-)
    by (auto simp: running_slots_def running_leases_def lease_to_def nth_append)
qed

lemma arrive_ok:
  assumes "work_ok items w"
  shows "work_ok items (withSlot (Arrive j) w)"
proof (cases "sp_free (sw_pool w)")
  case Nil
  then show ?thesis using assms
    by (auto simp: work_ok_def acquire_def running_slots_def running_leases_def)
next
  case (Cons x xs)
  have b: "\<forall>l \<in> set (sw_ended w). l < length (sp_leases (sw_pool w))" using assms by (simp add: work_ok_def)
  have "running_slots (withSlot (Arrive j) w) = running_slots w @ [x]"
    by (rule lease_to_running[OF b, where p = "(sw_pool w)\<lparr>sp_free := xs\<rparr>" and j = j])
      (simp_all add: acquire_def Cons)
  with assms Cons show ?thesis
    by (auto simp: work_ok_def acquire_def lease_to_def nth_append split: if_splits)
qed

text \<open>The run of lease \<open>l\<close> ends: its slot leaves those in use.\<close>

lemma running_without:
  assumes "l < n" and "l \<notin> E"
  shows "mset (filter (\<lambda>k. k \<notin> E) [0..<n]) = add_mset l (mset (filter (\<lambda>k. k \<noteq> l \<and> k \<notin> E) [0..<n]))"
  using assms by (induction n) auto

lemma end_running:
  assumes "l < length (sp_leases (sw_pool w))" and "l \<notin> set (sw_ended w)"
  shows "mset (running_slots w) = add_mset (le_item (sp_leases (sw_pool w) ! l)) (mset (running_slots (w\<lparr>sw_ended := sw_ended w @ [l]\<rparr>)))"
proof -
  have "mset (running_leases w) = add_mset l (mset (running_leases (w\<lparr>sw_ended := sw_ended w @ [l]\<rparr>)))"
    using running_without[OF assms] by (simp add: running_leases_def)
  then show ?thesis by (simp add: running_slots_def mset_map)
qed

lemma map_job_released [simp]: "map le_job (xs[l := (xs ! l)\<lparr>le_released := b\<rparr>]) = map le_job xs"
  by (cases "l < length xs") (auto intro!: nth_equalityI simp: nth_list_update)

lemma finish_ok:
  assumes ok: "work_ok items w"
  shows "work_ok items (withSlot (Finish l names) w)"
proof (cases "l < length (sp_leases (sw_pool w)) \<and> l \<notin> set (sw_ended w)")
  case True
  let ?w = "w\<lparr>sw_ended := sw_ended w @ [l]\<rparr>" and ?x = "le_item (sp_leases (sw_pool w) ! l)"
  note run = end_running[OF True[THEN conjunct1] True[THEN conjunct2]]
  show ?thesis
  proof (cases "names = []")
    case False
    have "work_ok items (?w\<lparr>sw_warned := sw_warned w @ [(?x, names)]\<rparr>)"
      using ok True run by (auto simp: work_ok_def running_slots_def running_leases_def)
    then show ?thesis using True False by (simp add: Let_def)
  next
    case empty: True
    have unreleased: "\<not> le_released (sp_leases (sw_pool w) ! l)" using ok True by (auto simp: work_ok_def)
    let ?p = "(sw_pool w)\<lparr>sp_leases := (sp_leases (sw_pool w))[l := (sp_leases (sw_pool w) ! l)\<lparr>le_released := True\<rparr>]\<rparr>"
    let ?v = "?w\<lparr>sw_pool := ?p\<rparr>"
    have same: "running_slots ?v = running_slots ?w"
      by (auto simp: running_slots_def running_leases_def nth_list_update)
    show ?thesis
    proof (cases "sp_waiters (sw_pool w)")
      case Nil
      let ?u = "?v\<lparr>sw_pool := ?p\<lparr>sp_free := sp_free (sw_pool w) @ [?x]\<rparr>\<rparr>"
      have "running_slots ?u = running_slots ?v" by (simp add: running_slots_def running_leases_def)
      then have "work_ok items ?u"
        using ok True run same Nil by (auto simp: work_ok_def nth_list_update split: if_splits)
      then show ?thesis using True empty unreleased Nil by (simp add: Let_def release_def)
    next
      case (Cons j js)
      let ?u = "?v\<lparr>sw_pool := lease_to ?x j (?p\<lparr>sp_waiters := js\<rparr>)\<rparr>"
      have "running_slots ?u = running_slots ?v @ [?x]"
        by (rule lease_to_running[where p = "?p\<lparr>sp_waiters := js\<rparr>" and j = j]) (use ok True in \<open>auto simp: work_ok_def\<close>)
      then have "work_ok items ?u"
        using ok True run same Cons
        by (auto simp: work_ok_def lease_to_def nth_append nth_list_update split: if_splits)
      then show ?thesis using True empty unreleased Cons by (simp add: Let_def release_def)
    qed
  qed
next
  case False
  show ?thesis unfolding withSlot.simps if_not_P[OF False] by (rule ok)
qed

interpretation slots: transition_system withSlot "work_ok items"
proof
  fix w :: "'a slot_work" and e
  assume "work_ok items w"
  then show "work_ok items (withSlot e w)" by (cases e) (simp_all only: arrive_ok finish_ok)
qed

definition after_events :: "'a list \<Rightarrow> slot_event list \<Rightarrow> 'a slot_work option" where
  "after_events items es = map_option (\<lambda>p. fold withSlot es (start_work p)) (new_pool items)"

lemma after_events_ok: "after_events items es = Some w \<Longrightarrow> work_ok items w"
  using slots.history_invariant start_ok by (fastforce simp: after_events_def)


section \<open>What the pool promises\<close>

text \<open>
  C22. When the slots are different, no two runs in progress share one, none of them uses a slot put aside, and
  none of these is free: the slot of a leaked container is never given out again.
\<close>

theorem slots_exclusive:
  assumes "after_events items es = Some w" and "distinct items"
  shows "distinct (running_slots w @ map fst (sw_warned w) @ sp_free (sw_pool w))"
proof -
  have "mset (sp_free (sw_pool w)) + mset (running_slots w) + mset (map fst (sw_warned w)) = mset items"
    using after_events_ok[OF assms(1)] unfolding work_ok_def by (rule conjunct1)
  then have "mset (running_slots w @ map fst (sw_warned w) @ sp_free (sw_pool w)) = mset items"
    by (simp only: mset_append ac_simps)
  then show ?thesis using assms(2) by (rule mset_eq_imp_distinct_iff[THEN iffD2])
qed

theorem slots_exclusive_witness:
  "\<exists>w. after_events [''2'', ''3''] [Arrive 7, Arrive 8, Arrive 9, Finish 0 [''cine-a''], Finish 1 []] = Some w \<and>
     distinct [''2'', ''3''] \<and> running_slots w = [''3''] \<and>
     distinct (running_slots w @ map fst (sw_warned w) @ sp_free (sw_pool w))"
proof -
  let ?r = "after_events [''2'', ''3''] [Arrive 7, Arrive 8, Arrive 9, Finish 0 [''cine-a''], Finish 1 []]"
  obtain w where w: "?r = Some w" by (simp add: after_events_def new_pool_def)
  have "map_option running_slots ?r = Some [''3'']" by code_simp
  then have "running_slots w = [''3'']" using w by simp
  with w slots_exclusive[OF w] show ?thesis by simp
qed

text \<open>
  C23. Jobs get their slots in the order of arrival. A job waits only while every slot is in use or put aside,
  so when every run has ended and no container leaked nobody waits.
\<close>

theorem slots_fair:
  assumes "after_events items es = Some w"
  shows "map le_job (sp_leases (sw_pool w)) @ sp_waiters (sw_pool w) = sw_arrived w \<and>
    (sp_waiters (sw_pool w) \<noteq> [] \<longrightarrow> mset (running_slots w) + mset (map fst (sw_warned w)) = mset items) \<and>
    (running_leases w = [] \<and> sw_warned w = [] \<longrightarrow> sp_waiters (sw_pool w) = [])"
proof -
  have "items \<noteq> []" using assms by (auto simp: after_events_def new_pool_def)
  then show ?thesis using after_events_ok[OF assms] by (auto simp: work_ok_def running_slots_def)
qed

theorem slots_fair_witness:
  "\<exists>w. after_events [()] [Arrive 1, Arrive 2, Finish 0 []] = Some w \<and> map le_job (sp_leases (sw_pool w)) = [1, 2] \<and>
     map le_job (sp_leases (sw_pool w)) @ sp_waiters (sw_pool w) = sw_arrived w"
proof -
  let ?r = "after_events [()] [Arrive 1, Arrive 2, Finish 0 []]"
  obtain w where w: "?r = Some w" by (simp add: after_events_def new_pool_def)
  have "map_option (\<lambda>w. map le_job (sp_leases (sw_pool w))) ?r = Some [1, 2]" by code_simp
  then have "map le_job (sp_leases (sw_pool w)) = [1, 2]" using w by simp
  with w slots_fair[OF w] show ?thesis by simp
qed

end
