(* ===== verification/WorkerConfig.thy ===== *)
theory WorkerConfig
  imports Slots Threshold "HOL-Library.AList"
begin

text \<open>
  \<open>sandbox-worker/config.ts\<close>: the settings of the worker, read from its environment. The number of cores and the
  temporary directory of the machine are arguments. The environment is a partial function from names to texts,
  for \<open>forbiddenEnvKeys\<close> the list of its entries.
\<close>

section \<open>Forbidden variables\<close>

definition ends_with :: "string \<Rightarrow> string \<Rightarrow> bool" where
  "ends_with suffix s \<longleftrightarrow> starts_with (rev suffix) (rev s)"

text \<open>\<open>/^GRADING_TIER\d+_API_KEY$/\<close>\<close>

definition is_tier_key :: "string \<Rightarrow> bool" where
  "is_tier_key k \<longleftrightarrow> starts_with ''GRADING_TIER'' k \<and>
     (let rest = drop 12 k; ds = takeWhile is_digit rest in ds \<noteq> [] \<and> drop (length ds) rest = ''_API_KEY'')"

definition forbidden_key :: "string \<Rightarrow> bool" where
  "forbidden_key k \<longleftrightarrow> starts_with ''ANTHROPIC_'' k \<or> starts_with ''OPENAI_'' k \<or> is_tier_key k \<or> starts_with ''DATABASE_'' k \<or>
     k \<in> {''STORAGE_ACCESS_KEY'', ''STORAGE_SECRET_KEY'', ''AWS_SECRET_ACCESS_KEY'', ''MINIO_ROOT_PASSWORD''} \<or>
     ends_with ''_TOKEN_SECRET'' k \<or>
     k \<in> {''REDIS_URL'', ''REDIS_HOST'', ''REDIS_PASSWORD'', ''REDIS_USERNAME'', ''GITHUB_TOKEN'', ''GH_TOKEN''}"

definition forbiddenEnvKeys :: "(string \<times> string) list \<Rightarrow> string list" where
  "forbiddenEnvKeys env = js_sort str_le (map fst (filter (\<lambda>(k, v). js_trim v \<noteq> [] \<and> forbidden_key k) env))"

section \<open>Settings\<close>

datatype source_name = RealSource | EvalSource

record source =
  so_name :: source_name
  so_redisUrl :: string
  so_prefix :: string

datatype config_problem =
    NoRedisUrl | SameQueue | BadRuntime string | NoSuchCore nat string nat | CoreShared nat string string
  | BadSet cpuset_error | NoCoreLeft | BadConcurrency "string option" | NoSlot

datatype config_warning = NotPinned | GeneralFrom string

record worker_config =
  wg_sources :: "source list"
  wg_runtime :: string
  wg_imageCpp :: string
  wg_imagePython :: string
  wg_timingCpusets :: "string option list"
  wg_generalCpuset :: "string option"
  wg_execConcurrency :: int
  wg_workRoot :: string
  wg_allowedDownloadHosts :: "string list"
  wg_allowHttpDownloads :: bool
  wg_version :: string
  wg_warnings :: "config_warning list"

text \<open>\<open>env[key]?.trim() || undefined\<close> and \<open>get(key) ?? text\<close>.\<close>

definition get_env :: "env \<Rightarrow> string \<Rightarrow> string option" where
  "get_env env key = (case env key of Some v \<Rightarrow> if js_trim v = [] then None else Some (js_trim v) | None \<Rightarrow> None)"

definition get_or :: "env \<Rightarrow> string \<Rightarrow> string \<Rightarrow> string" where
  "get_or env key d = (case get_env env key of Some v \<Rightarrow> v | None \<Rightarrow> d)"

definition SANDBOX_PREFIX_DEFAULT :: string where
  "SANDBOX_PREFIX_DEFAULT = ''cine-sbx''"

definition config_sources :: "env \<Rightarrow> source list \<times> config_problem list" where
  "config_sources env =
     (let real = get_env env ''SANDBOX_REDIS_URL'';
          realSource = (case real of
              Some url \<Rightarrow> [\<lparr>so_name = RealSource, so_redisUrl = url, so_prefix = get_or env ''SANDBOX_PREFIX'' SANDBOX_PREFIX_DEFAULT\<rparr>]
            | None \<Rightarrow> []);
          missing = (if real = None then [NoRedisUrl] else [])
      in (case get_env env ''SANDBOX_EVAL_REDIS_URL'' of
            None \<Rightarrow> (realSource, missing)
          | Some url \<Rightarrow>
              (let prefix = get_or env ''SANDBOX_EVAL_PREFIX'' SANDBOX_PREFIX_DEFAULT;
                   same = (Some url = real \<and> map so_prefix realSource = [prefix])
               in (realSource @ [\<lparr>so_name = EvalSource, so_redisUrl = url, so_prefix = prefix\<rparr>],
                   missing @ (if same then [SameQueue] else [])))))"

text \<open>
  The loop over the cores of one set: \<open>owner\<close> says which set a core was seen in last. The value collects the
  problems found.
\<close>

definition own_core :: "nat \<Rightarrow> string \<Rightarrow> nat \<Rightarrow> (nat \<times> string) list \<times> config_problem list \<Rightarrow>
    (nat \<times> string) list \<times> config_problem list" where
  "own_core nproc set_text core = (\<lambda>(owner, problems).
     (AList.update core set_text owner,
      problems @ (if nproc \<le> core then [NoSuchCore core set_text nproc] else []) @
      (case map_of owner core of Some prev \<Rightarrow> [CoreShared core prev set_text] | None \<Rightarrow> [])))"

text \<open>The state of the loop over the sets: the owners, the problems and the size of the general set.\<close>

record own_state =
  os_owner :: "(nat \<times> string) list"
  os_problems :: "config_problem list"
  os_generalSize :: nat

definition own_set :: "nat \<Rightarrow> string option \<Rightarrow> string option \<Rightarrow> own_state \<Rightarrow> own_state" where
  "own_set nproc general cpuset st =
     (case cpuset of
        None \<Rightarrow> st
      | Some text \<Rightarrow>
          (case cpusetCores text of
             Inl e \<Rightarrow> st\<lparr>os_problems := os_problems st @ [BadSet e]\<rparr>
           | Inr cores \<Rightarrow>
               (case fold (own_core nproc text) cores (os_owner st, os_problems st) of
                  (owner, problems) \<Rightarrow>
                    \<lparr>os_owner = owner, os_problems = problems,
                     os_generalSize = (if cpuset = general then length cores else os_generalSize st)\<rparr>)))"

definition config_timing :: "env \<Rightarrow> string option list \<times> config_warning list" where
  "config_timing env =
     (case get_env env ''SANDBOX_TIMING_CPUSETS'' of
        Some raw \<Rightarrow> (map (\<lambda>s. Some (js_trim s)) (split_on CHR ''|'' raw), [])
      | None \<Rightarrow> ([None], [NotPinned]))"

text \<open>\<open>rest\<close>: the cores that no set has.\<close>

definition cores_left :: "nat \<Rightarrow> (nat \<times> string) list \<Rightarrow> nat list" where
  "cores_left nproc owner = filter (\<lambda>c. map_of owner c = None) [0..<nproc]"

definition config_general ::
  "env \<Rightarrow> nat \<Rightarrow> own_state \<Rightarrow> string option \<times> nat \<times> config_problem list \<times> config_warning list" where
  "config_general env nproc st =
     (let general = get_env env ''SANDBOX_GENERAL_CPUSET'' in
      if get_env env ''SANDBOX_TIMING_CPUSETS'' \<noteq> None \<and> general = None \<and> os_problems st = []
      then (let rest = cores_left nproc (os_owner st) in
            if rest = [] then (general, os_generalSize st, [NoCoreLeft], [])
            else (let text = join_with '','' (map show_nat rest) in (Some text, length rest, [], [GeneralFrom text])))
      else (general, os_generalSize st, [], []))"

definition config_concurrency :: "env \<Rightarrow> nat \<Rightarrow> nat \<Rightarrow> int + config_problem" where
  "config_concurrency env cpu_count generalSize =
     (case get_env env ''SANDBOX_CONCURRENCY'' of
        None \<Rightarrow> Inl (max 1 (if generalSize \<noteq> 0 then int generalSize else int cpu_count - 1))
      | Some raw \<Rightarrow>
          (case js_number raw of
             Some x \<Rightarrow> if x = of_int \<lfloor>x\<rfloor> \<and> 1 \<le> \<lfloor>x\<rfloor> \<and> x < 2 ^ 1024 then Inl \<lfloor>x\<rfloor> else Inr (BadConcurrency (Some raw))
           | None \<Rightarrow> Inr (BadConcurrency (Some raw))))"

text \<open>\<open>nproc\<close> is \<open>opts.nproc ?? cpus().length\<close>.\<close>

definition readWorkerConfig :: "env \<Rightarrow> nat option \<Rightarrow> nat \<Rightarrow> string \<Rightarrow> config_problem list + worker_config" where
  "readWorkerConfig env opt_nproc cpu_count tmpdir =
     (let nproc = (case opt_nproc of Some n \<Rightarrow> n | None \<Rightarrow> cpu_count);
          (sources, p1) = config_sources env;
          runtime = get_or env ''SANDBOX_RUNTIME'' ''runc'';
          p2 = (if runtime \<noteq> ''runc'' \<and> runtime \<noteq> ''runsc'' then [BadRuntime runtime] else []);
          (timing, w1) = config_timing env;
          st = fold (own_set nproc (get_env env ''SANDBOX_GENERAL_CPUSET''))
                 (timing @ [get_env env ''SANDBOX_GENERAL_CPUSET''])
                 \<lparr>os_owner = [], os_problems = p1 @ p2, os_generalSize = 0\<rparr>;
          (general, generalSize, p3, w2) = config_general env nproc st;
          (concurrency, p4) = (case config_concurrency env cpu_count generalSize of Inl n \<Rightarrow> (n, []) | Inr p \<Rightarrow> (0, [p]));
          problems = os_problems st @ p3 @ p4
      in if problems \<noteq> [] then Inl problems
         else Inr \<lparr>wg_sources = sources, wg_runtime = runtime,
           wg_imageCpp = get_or env ''SANDBOX_IMAGE_CPP'' ''cine-sandbox-cpp:1'',
           wg_imagePython = get_or env ''SANDBOX_IMAGE_PYTHON'' ''cine-sandbox-python:1'',
           wg_timingCpusets = timing, wg_generalCpuset = general, wg_execConcurrency = concurrency,
           wg_workRoot = get_or env ''SANDBOX_WORK_DIR'' (tmpdir @ ''/cine-sandbox''),
           wg_allowedDownloadHosts = filter (\<lambda>h. h \<noteq> []) (map js_trim (split_on CHR '','' (get_or env ''SANDBOX_ALLOWED_DOWNLOAD_HOSTS'' []))),
           wg_allowHttpDownloads = (get_env env ''SANDBOX_ALLOW_HTTP_DOWNLOADS'' = Some ''true''),
           wg_version = get_or env ''SANDBOX_WORKER_VERSION'' ''dev'',
           wg_warnings = w1 @ w2\<rparr>)"

section \<open>The sets are apart\<close>

text \<open>The cores of a list of sets, in order.\<close>

definition cores_of :: "string option \<Rightarrow> nat list" where
  "cores_of s = (case s of None \<Rightarrow> [] | Some t \<Rightarrow> (case cpusetCores t of Inr cs \<Rightarrow> cs | Inl _ \<Rightarrow> []))"

definition valid_set :: "string option \<Rightarrow> bool" where
  "valid_set s \<longleftrightarrow> (case s of None \<Rightarrow> True | Some t \<Rightarrow> (\<exists>cs. cpusetCores t = Inr cs))"

lemma own_core_fold:
  "fold (own_core nproc t) cs (owner, ps) = (owner', ps') \<Longrightarrow>
     (\<exists>new. ps' = ps @ new \<and> (new = [] \<longrightarrow> distinct cs \<and> set cs \<inter> fst ` set owner = {} \<and> (\<forall>c \<in> set cs. c < nproc))) \<and>
     fst ` set owner' = fst ` set owner \<union> set cs"
proof (induction cs arbitrary: owner ps)
  case (Cons c cs)
  let ?new = "(if nproc \<le> c then [NoSuchCore c t nproc] else []) @
      (case map_of owner c of Some prev \<Rightarrow> [CoreShared c prev t] | None \<Rightarrow> [])"
  have "own_core nproc t c (owner, ps) = (AList.update c t owner, ps @ ?new)" by (simp add: own_core_def)
  then have "fold (own_core nproc t) cs (AList.update c t owner, ps @ ?new) = (owner', ps')"
    using Cons.prems by (simp only: fold_simps)
  from Cons.IH[OF this] obtain new where new: "ps' = ps @ ?new @ new"
      "new = [] \<longrightarrow> distinct cs \<and> set cs \<inter> insert c (fst ` set owner) = {} \<and> (\<forall>c \<in> set cs. c < nproc)"
      and own: "fst ` set owner' = insert c (fst ` set owner) \<union> set cs"
    by (auto simp: set_fst_update)
  have "?new = [] \<Longrightarrow> c \<notin> fst ` set owner \<and> c < nproc"
    by (auto simp: map_of_eq_None_iff split: option.splits if_splits)
  then have "?new @ new = [] \<longrightarrow> distinct (c # cs) \<and> set (c # cs) \<inter> fst ` set owner = {} \<and> (\<forall>c \<in> set (c # cs). c < nproc)"
    using new(2) by auto
  with new(1) own show ?case by (intro conjI exI[of _ "?new @ new"]) auto
qed simp

lemma own_set_step:
  "\<exists>new. os_problems (own_set nproc g s st) = os_problems st @ new \<and>
     (new = [] \<longrightarrow> valid_set s \<and> distinct (cores_of s) \<and> set (cores_of s) \<inter> fst ` set (os_owner st) = {} \<and>
        (\<forall>c \<in> set (cores_of s). c < nproc) \<and>
        fst ` set (os_owner (own_set nproc g s st)) = fst ` set (os_owner st) \<union> set (cores_of s))"
proof (cases s)
  case None
  then show ?thesis by (auto simp: own_set_def valid_set_def cores_of_def)
next
  case (Some t)
  show ?thesis
  proof (cases "cpusetCores t")
    case (Inl e)
    then show ?thesis using Some by (auto simp: own_set_def)
  next
    case (Inr cs)
    obtain owner' ps' where f: "fold (own_core nproc t) cs (os_owner st, os_problems st) = (owner', ps')" by fastforce
    from own_core_fold[OF f] show ?thesis using Some Inr f by (auto simp: own_set_def valid_set_def cores_of_def)
  qed
qed

text \<open>When the loop over the sets finds no problem, their cores exist and no core is in two of them.\<close>

lemma own_sets_fold:
  "\<exists>new. os_problems (fold (own_set nproc g) ss st) = os_problems st @ new \<and>
     (new = [] \<longrightarrow> (\<forall>s \<in> set ss. valid_set s) \<and> distinct (concat (map cores_of ss)) \<and>
        set (concat (map cores_of ss)) \<inter> fst ` set (os_owner st) = {} \<and> (\<forall>c \<in> set (concat (map cores_of ss)). c < nproc) \<and>
        fst ` set (os_owner (fold (own_set nproc g) ss st)) = fst ` set (os_owner st) \<union> set (concat (map cores_of ss)))"
proof (induction ss arbitrary: st)
  case (Cons s ss)
  obtain n1 where n1: "os_problems (own_set nproc g s st) = os_problems st @ n1"
    "n1 = [] \<longrightarrow> valid_set s \<and> distinct (cores_of s) \<and> set (cores_of s) \<inter> fst ` set (os_owner st) = {} \<and>
        (\<forall>c \<in> set (cores_of s). c < nproc) \<and>
        fst ` set (os_owner (own_set nproc g s st)) = fst ` set (os_owner st) \<union> set (cores_of s)"
    using own_set_step[of nproc g s st] by blast
  obtain n2 where n2: "os_problems (fold (own_set nproc g) ss (own_set nproc g s st)) = os_problems (own_set nproc g s st) @ n2"
    "n2 = [] \<longrightarrow> (\<forall>s \<in> set ss. valid_set s) \<and> distinct (concat (map cores_of ss)) \<and>
        set (concat (map cores_of ss)) \<inter> fst ` set (os_owner (own_set nproc g s st)) = {} \<and>
        (\<forall>c \<in> set (concat (map cores_of ss)). c < nproc) \<and>
        fst ` set (os_owner (fold (own_set nproc g) ss (own_set nproc g s st))) =
          fst ` set (os_owner (own_set nproc g s st)) \<union> set (concat (map cores_of ss))"
    using Cons.IH[of "own_set nproc g s st"] by blast
  have all: "(\<forall>x \<in> set (s # ss). valid_set x) \<and> distinct (concat (map cores_of (s # ss))) \<and>
      set (concat (map cores_of (s # ss))) \<inter> fst ` set (os_owner st) = {} \<and> (\<forall>c \<in> set (concat (map cores_of (s # ss))). c < nproc) \<and>
      fst ` set (os_owner (fold (own_set nproc g) (s # ss) st)) = fst ` set (os_owner st) \<union> set (concat (map cores_of (s # ss)))"
    if "n1 @ n2 = []"
  proof -
    let ?A = "cores_of s" and ?B = "concat (map cores_of ss)" and ?O = "fst ` set (os_owner st)"
    have empty: "n1 = []" "n2 = []" using that by simp_all
    from mp[OF n1(2) empty(1)] have one: "valid_set s" "distinct ?A" "set ?A \<inter> ?O = {}" "\<forall>c \<in> set ?A. c < nproc"
        "fst ` set (os_owner (own_set nproc g s st)) = ?O \<union> set ?A" by blast+
    from mp[OF n2(2) empty(2)] have two: "\<forall>x \<in> set ss. valid_set x" "distinct ?B" "set ?B \<inter> (?O \<union> set ?A) = {}" "\<forall>c \<in> set ?B. c < nproc"
        "fst ` set (os_owner (fold (own_set nproc g) ss (own_set nproc g s st))) = ?O \<union> set ?A \<union> set ?B"
      unfolding one(5) by blast+
    have "distinct (?A @ ?B)" using one(2) two(2,3) by (simp only: distinct_append) blast
    moreover have "set (?A @ ?B) \<inter> ?O = {}" using one(3) two(3) by (simp only: set_append) blast
    moreover have "\<forall>c \<in> set (?A @ ?B). c < nproc" using one(4) two(4) by (simp only: set_append) blast
    moreover have "fst ` set (os_owner (fold (own_set nproc g) (s # ss) st)) = ?O \<union> set (?A @ ?B)"
      using two(5) by (simp only: fold_simps set_append Un_assoc)
    ultimately show ?thesis using one(1) two(1) by simp
  qed
  show ?case
  proof (intro exI[of _ "n1 @ n2"] conjI impI)
    show "os_problems (fold (own_set nproc g) (s # ss) st) = os_problems st @ n1 @ n2" using n1(1) n2(1) by simp
  qed (use all in blast)+
qed auto

text \<open>The general set made of the cores that are left is read back as these cores.\<close>

lemma cores_of_left:
  assumes "rest = cores_left nproc owner" and "rest \<noteq> []"
  shows "cores_of (Some (join_with '','' (map show_nat rest))) = rest"
    and "valid_set (Some (join_with '','' (map show_nat rest)))"
proof -
  have "distinct rest" "sorted rest" using assms(1) by (simp_all add: cores_left_def sorted_wrt_filter)
  then have "cpusetCores (join_with '','' (map show_nat rest)) = Inr rest"
    using cpusetCores_join[OF assms(2)] by (simp add: uniq_distinct sort_key_id_if_sorted[where f = "\<lambda>x. x"])
  then show "cores_of (Some (join_with '','' (map show_nat rest))) = rest"
    and "valid_set (Some (join_with '','' (map show_nat rest)))" by (simp_all add: cores_of_def valid_set_def)
qed


lemma config_timing_nonempty: "fst (config_timing env) \<noteq> []"
  by (simp add: config_timing_def split: option.split)

lemma config_general_cases:
  assumes "config_general env nproc st = (general, k, [], w)"
  shows "general = get_env env ''SANDBOX_GENERAL_CPUSET'' \<and>
      (fst (config_timing env) = [None] \<or> (\<exists>t. general = Some t) \<or> os_problems st \<noteq> []) \<or>
    get_env env ''SANDBOX_GENERAL_CPUSET'' = None \<and>
      (\<exists>rest. rest = cores_left nproc (os_owner st) \<and> rest \<noteq> [] \<and> general = Some (join_with '','' (map show_nat rest)))"
  using assms by (auto simp: config_general_def config_timing_def Let_def split: if_splits option.splits)

definition machine_cores :: "nat option \<Rightarrow> nat \<Rightarrow> nat" where
  "machine_cores opt_nproc cpu_count = (case opt_nproc of Some n \<Rightarrow> n | None \<Rightarrow> cpu_count)"

text \<open>
  C21. When the worker starts, the cores of its slots exist on the machine, no core belongs to two slots nor to a slot
  and the general set, measurements that are pinned leave the other jobs a set of their own, and both pools of
  slots can be made.
\<close>

theorem config_isolates:
  "case readWorkerConfig env opt_nproc cpu_count tmpdir of
     Inl problems \<Rightarrow> problems \<noteq> []
   | Inr cfg \<Rightarrow>
       (let sets = wg_timingCpusets cfg @ [wg_generalCpuset cfg]; cores = concat (map cores_of sets) in
        list_all valid_set sets \<and> distinct cores \<and> list_all (\<lambda>c. c < machine_cores opt_nproc cpu_count) cores \<and>
        (wg_timingCpusets cfg = [None] \<or> (\<exists>t. wg_generalCpuset cfg = Some t)) \<and>
        new_pool (wg_timingCpusets cfg) \<noteq> None \<and> 1 \<le> wg_execConcurrency cfg)"
proof (cases "readWorkerConfig env opt_nproc cpu_count tmpdir")
  case (Inl problems)
  then show ?thesis by (auto simp: readWorkerConfig_def Let_def split: prod.splits if_splits)
next
  case (Inr cfg)
  define nproc where "nproc = machine_cores opt_nproc cpu_count"
  define timing where "timing = fst (config_timing env)"
  define g where "g = get_env env ''SANDBOX_GENERAL_CPUSET''"
  obtain init general k w n where
    st: "os_problems (fold (own_set nproc g) (timing @ [g]) init) = []" and init: "os_owner init = []"
    and gen: "config_general env nproc (fold (own_set nproc g) (timing @ [g]) init) = (general, k, [], w)"
    and cfg: "wg_timingCpusets cfg = timing" "wg_generalCpuset cfg = general" "wg_execConcurrency cfg = n"
    and n: "config_concurrency env cpu_count k = Inl n"
    using Inr unfolding nproc_def timing_def g_def machine_cores_def
    by (fastforce simp: readWorkerConfig_def Let_def split: prod.splits if_splits sum.splits)
  let ?st = "fold (own_set nproc g) (timing @ [g]) init"
  obtain new where new: "os_problems ?st = os_problems init @ new"
    "new = [] \<longrightarrow> (\<forall>s \<in> set (timing @ [g]). valid_set s) \<and> distinct (concat (map cores_of (timing @ [g]))) \<and>
        set (concat (map cores_of (timing @ [g]))) \<inter> fst ` set (os_owner init) = {} \<and>
        (\<forall>c \<in> set (concat (map cores_of (timing @ [g]))). c < nproc) \<and>
        fst ` set (os_owner ?st) = fst ` set (os_owner init) \<union> set (concat (map cores_of (timing @ [g])))"
    using own_sets_fold[of nproc g "timing @ [g]" init] by blast
  have "new = []" using new(1) st by simp
  from mp[OF new(2) this] have sets: "\<forall>s \<in> set (timing @ [g]). valid_set s" "distinct (concat (map cores_of (timing @ [g])))"
      "\<forall>c \<in> set (concat (map cores_of (timing @ [g]))). c < nproc"
      "fst ` set (os_owner ?st) = set (concat (map cores_of (timing @ [g])))"
    using init by auto
  have conc: "1 \<le> n" using n by (auto simp: config_concurrency_def split: option.splits if_splits)
  have pool: "new_pool timing \<noteq> None" using config_timing_nonempty[of env] by (simp add: new_pool_def timing_def)
  have "list_all valid_set (timing @ [general]) \<and> distinct (concat (map cores_of (timing @ [general]))) \<and>
      list_all (\<lambda>c. c < nproc) (concat (map cores_of (timing @ [general]))) \<and> (timing = [None] \<or> (\<exists>t. general = Some t))"
    using config_general_cases[OF gen]
  proof (elim disjE conjE exE)
    fix rest assume g0: "get_env env ''SANDBOX_GENERAL_CPUSET'' = None" and rest: "rest = cores_left nproc (os_owner ?st)"
      "rest \<noteq> []" and general: "general = Some (join_with '','' (map show_nat rest))"
    have cores: "cores_of general = rest" "valid_set general" using cores_of_left[OF rest] general by simp_all
    have "g = None" using g0 g_def by simp
    then have "cores_of g = []" by (simp add: cores_of_def)
    moreover have "set rest \<inter> fst ` set (os_owner ?st) = {}" "\<forall>c \<in> set rest. c < nproc" "distinct rest"
      unfolding rest(1) by (auto simp: cores_left_def map_of_eq_None_iff)
    ultimately show ?thesis using sets cores general by (auto simp: list_all_iff)
  qed (use sets st g_def timing_def in \<open>auto simp: list_all_iff\<close>)
  then show ?thesis using Inr cfg conc pool by (simp add: Let_def nproc_def)
qed

end
