(* ===== verification/Effects.thy ===== *)
theory Effects
  imports Main
begin

text \<open>
  Code that calls the outside and may throw. Unlike a transaction, what was done before an error stays done: an
  effect returns its error or value together with the state. \<open>wpE m Q R s\<close> says that \<open>m\<close> started in \<open>s\<close> returns
  a value and a state that satisfy \<open>Q\<close> or throws an error in a state that satisfies \<open>R\<close>.
\<close>

type_synonym ('s, 'e, 'a) eff = "'s \<Rightarrow> ('e + 'a) \<times> 's"

definition retE :: "'a \<Rightarrow> ('s, 'e, 'a) eff" where
  "retE a = (\<lambda>s. (Inr a, s))"

definition throwE :: "'e \<Rightarrow> ('s, 'e, 'a) eff" where
  "throwE e = (\<lambda>s. (Inl e, s))"

definition bindE :: "('s, 'e, 'a) eff \<Rightarrow> ('a \<Rightarrow> ('s, 'e, 'b) eff) \<Rightarrow> ('s, 'e, 'b) eff" where
  "bindE m k = (\<lambda>s. case m s of (Inl e, s') \<Rightarrow> (Inl e, s') | (Inr a, s') \<Rightarrow> k a s')"

definition thenE :: "('s, 'e, 'a) eff \<Rightarrow> ('s, 'e, 'b) eff \<Rightarrow> ('s, 'e, 'b) eff" where
  "thenE m k = bindE m (\<lambda>_. k)"

definition whenE :: "bool \<Rightarrow> ('s, 'e, unit) eff \<Rightarrow> ('s, 'e, unit) eff" where
  "whenE b m = (if b then m else retE ())"

text \<open>\<open>if (!b) throw e\<close>\<close>

definition requireE :: "bool \<Rightarrow> 'e \<Rightarrow> ('s, 'e, unit) eff" where
  "requireE b e = (if b then retE () else throwE e)"

text \<open>\<open>try { m } catch (e) { h(e) }\<close> and \<open>try { m } finally { f }\<close>; an error of \<open>f\<close> replaces the outcome.\<close>

definition catchE :: "('s, 'e, 'a) eff \<Rightarrow> ('e \<Rightarrow> ('s, 'd, 'a) eff) \<Rightarrow> ('s, 'd, 'a) eff" where
  "catchE m h = (\<lambda>s. case m s of (Inl e, s') \<Rightarrow> h e s' | (Inr a, s') \<Rightarrow> (Inr a, s'))"

definition finallyE :: "('s, 'e, 'a) eff \<Rightarrow> ('s, 'e, unit) eff \<Rightarrow> ('s, 'e, 'a) eff" where
  "finallyE m f = (\<lambda>s. case m s of (r, s') \<Rightarrow> (case f s' of (Inl e, s'') \<Rightarrow> (Inl e, s'') | (Inr _, s'') \<Rightarrow> (r, s'')))"

fun foldE :: "('x \<Rightarrow> 'b \<Rightarrow> ('s, 'e, 'b) eff) \<Rightarrow> 'x list \<Rightarrow> 'b \<Rightarrow> ('s, 'e, 'b) eff" where
  "foldE f [] b = retE b"
| "foldE f (x # xs) b = bindE (f x b) (foldE f xs)"

definition forE :: "('x \<Rightarrow> ('s, 'e, unit) eff) \<Rightarrow> 'x list \<Rightarrow> ('s, 'e, unit) eff" where
  "forE f xs = foldE (\<lambda>x _. f x) xs ()"

section \<open>Weakest preconditions\<close>

definition wpE :: "('s, 'e, 'a) eff \<Rightarrow> ('a \<Rightarrow> 's \<Rightarrow> bool) \<Rightarrow> ('e \<Rightarrow> 's \<Rightarrow> bool) \<Rightarrow> 's \<Rightarrow> bool" where
  "wpE m Q R s = (case m s of (Inl e, s') \<Rightarrow> R e s' | (Inr a, s') \<Rightarrow> Q a s')"

named_theorems wpE_simps \<open>weakest preconditions of the effects\<close>

lemma wpE_ret [wpE_simps]: "wpE (retE a) Q R s = Q a s"
  by (simp add: wpE_def retE_def)

lemma wpE_throw [wpE_simps]: "wpE (throwE e) Q R s = R e s"
  by (simp add: wpE_def throwE_def)

lemma wpE_bind [wpE_simps]: "wpE (bindE m k) Q R s = wpE m (\<lambda>a. wpE (k a) Q R) R s"
  by (simp add: wpE_def bindE_def split: prod.split sum.split)

lemma wpE_then [wpE_simps]: "wpE (thenE m k) Q R s = wpE m (\<lambda>_. wpE k Q R) R s"
  by (simp add: thenE_def wpE_bind)

lemma wpE_when [wpE_simps]: "wpE (whenE b m) Q R s = (if b then wpE m Q R s else Q () s)"
  by (simp add: whenE_def wpE_ret)

lemma wpE_require [wpE_simps]: "wpE (requireE b e) Q R s = (if b then Q () s else R e s)"
  by (simp add: requireE_def wpE_ret wpE_throw)

lemma wpE_catch [wpE_simps]: "wpE (catchE m h) Q R s = wpE m Q (\<lambda>e. wpE (h e) Q R) s"
  by (simp add: wpE_def catchE_def split: prod.split sum.split)

lemma wpE_finally [wpE_simps]:
  "wpE (finallyE m f) Q R s = wpE m (\<lambda>a. wpE f (\<lambda>_. Q a) R) (\<lambda>e. wpE f (\<lambda>_. R e) R) s"
  by (simp add: wpE_def finallyE_def split: prod.split sum.split)

lemma wpE_mono:
  "wpE m Q R s \<Longrightarrow> (\<And>a s'. Q a s' \<Longrightarrow> Q' a s') \<Longrightarrow> (\<And>e s'. R e s' \<Longrightarrow> R' e s') \<Longrightarrow> wpE m Q' R' s"
  by (auto simp: wpE_def split: prod.splits sum.splits)

lemma wpE_conj: "wpE m Q R s \<Longrightarrow> wpE m Q' R' s \<Longrightarrow> wpE m (\<lambda>a s. Q a s \<and> Q' a s) (\<lambda>e s. R e s \<and> R' e s) s"
  by (auto simp: wpE_def split: prod.splits sum.splits)

text \<open>A loop keeps what each of its rounds keeps.\<close>

lemma wpE_fold:
  assumes "I b s" and "\<And>x b s. x \<in> set xs \<Longrightarrow> I b s \<Longrightarrow> wpE (f x b) I R s" and "\<And>b s. I b s \<Longrightarrow> Q b s"
  shows "wpE (foldE f xs b) Q R s"
  using assms(1,2)
proof (induction xs arbitrary: b s)
  case Nil
  then show ?case using assms(3) by (simp add: wpE_ret)
next
  case (Cons x xs)
  have "wpE (f x b) (\<lambda>b. wpE (foldE f xs b) Q R) R s"
    by (rule wpE_mono[OF Cons.prems(2)[OF _ Cons.prems(1)]]) (auto intro!: Cons.IH Cons.prems(2))
  then show ?case by (simp add: wpE_bind)
qed

section \<open>Effects that keep a property of the state\<close>

text \<open>\<open>keepsE I m\<close>: \<open>m\<close> keeps \<open>I\<close>, whether it returns or throws.\<close>

definition keepsE :: "('s \<Rightarrow> bool) \<Rightarrow> ('s, 'e, 'a) eff \<Rightarrow> bool" where
  "keepsE I m \<longleftrightarrow> (\<forall>s. I s \<longrightarrow> wpE m (\<lambda>_. I) (\<lambda>_. I) s)"

lemma keepsE_D: "keepsE I m \<Longrightarrow> I s \<Longrightarrow> wpE m (\<lambda>_. I) (\<lambda>_. I) s"
  by (simp add: keepsE_def)

lemma keepsE_end: "keepsE I m \<Longrightarrow> I s \<Longrightarrow> I (snd (m s))"
  by (cases "m s"; cases "fst (m s)") (auto simp: keepsE_def wpE_def)

named_theorems keepsE_intros \<open>rules for effects that keep a property\<close>

lemma keepsE_ret [keepsE_intros]: "keepsE I (retE a)"
  and keepsE_throw [keepsE_intros]: "keepsE I (throwE e)"
  and keepsE_require [keepsE_intros]: "keepsE I (requireE b e)"
  by (simp_all add: keepsE_def wpE_simps)

lemma keepsE_bind [keepsE_intros]: "keepsE I m \<Longrightarrow> (\<And>a. keepsE I (k a)) \<Longrightarrow> keepsE I (bindE m k)"
  unfolding keepsE_def wpE_bind by (blast intro: wpE_mono)

lemma keepsE_then [keepsE_intros]: "keepsE I m \<Longrightarrow> keepsE I k \<Longrightarrow> keepsE I (thenE m k)"
  unfolding thenE_def by (rule keepsE_bind)

lemma keepsE_when [keepsE_intros]: "keepsE I m \<Longrightarrow> keepsE I (whenE b m)"
  by (simp add: keepsE_def wpE_simps)

lemma keepsE_catch [keepsE_intros]: "keepsE I m \<Longrightarrow> (\<And>e. keepsE I (h e)) \<Longrightarrow> keepsE I (catchE m h)"
  unfolding keepsE_def wpE_catch by (blast intro: wpE_mono)

lemma keepsE_finally [keepsE_intros]: "keepsE I m \<Longrightarrow> keepsE I f \<Longrightarrow> keepsE I (finallyE m f)"
  unfolding keepsE_def wpE_finally by (blast intro: wpE_mono)

lemma keepsE_if [keepsE_intros]: "(b \<Longrightarrow> keepsE I m) \<Longrightarrow> (\<not> b \<Longrightarrow> keepsE I n) \<Longrightarrow> keepsE I (if b then m else n)"
  by simp

lemma keepsE_fold [keepsE_intros]: "(\<And>x b. x \<in> set xs \<Longrightarrow> keepsE I (f x b)) \<Longrightarrow> keepsE I (foldE f xs b)"
  unfolding keepsE_def by (intro allI impI, rule wpE_fold[where I = "\<lambda>_. I"]) blast+

lemma keepsE_for [keepsE_intros]: "(\<And>x. x \<in> set xs \<Longrightarrow> keepsE I (f x)) \<Longrightarrow> keepsE I (forE f xs)"
  unfolding forE_def by (rule keepsE_fold)


section \<open>What an effect returns\<close>

text \<open>\<open>returnsE P m\<close>: whenever \<open>m\<close> returns, its value satisfies \<open>P\<close>.\<close>

definition returnsE :: "('a \<Rightarrow> bool) \<Rightarrow> ('s, 'e, 'a) eff \<Rightarrow> bool" where
  "returnsE P m \<longleftrightarrow> (\<forall>s. wpE m (\<lambda>a _. P a) (\<lambda>_ _. True) s)"

lemma returnsE_D: "returnsE P m \<Longrightarrow> m s = (Inr a, s') \<Longrightarrow> P a"
  unfolding returnsE_def wpE_def by (drule spec[of _ s]) simp

named_theorems returnsE_intros \<open>rules for what an effect returns\<close>

lemma returnsE_mono: "returnsE P m \<Longrightarrow> (\<And>a. P a \<Longrightarrow> Q a) \<Longrightarrow> returnsE Q m"
  unfolding returnsE_def by (blast intro: wpE_mono)

lemma returnsE_any: "returnsE (\<lambda>_. True) m"
  by (simp add: returnsE_def wpE_def split: prod.split sum.split)

lemma returnsE_ret [returnsE_intros]: "P a \<Longrightarrow> returnsE P (retE a)"
  and returnsE_throw [returnsE_intros]: "returnsE P (throwE e)"
  by (simp_all add: returnsE_def wpE_simps)

lemma returnsE_bind_with: "returnsE P m \<Longrightarrow> (\<And>a. P a \<Longrightarrow> returnsE Q (k a)) \<Longrightarrow> returnsE Q (bindE m k)"
  unfolding returnsE_def wpE_bind by (blast intro: wpE_mono)

lemma returnsE_bind [returnsE_intros]: "(\<And>a. returnsE Q (k a)) \<Longrightarrow> returnsE Q (bindE m k)"
  by (rule returnsE_bind_with[OF returnsE_any])

lemma returnsE_then [returnsE_intros]: "returnsE Q k \<Longrightarrow> returnsE Q (thenE m k)"
  unfolding thenE_def by (rule returnsE_bind)

lemma returnsE_catch [returnsE_intros]: "returnsE P m \<Longrightarrow> (\<And>e. returnsE P (h e)) \<Longrightarrow> returnsE P (catchE m h)"
  by (fastforce simp: returnsE_def wpE_def catchE_def split: prod.splits sum.splits)

lemma returnsE_finally [returnsE_intros]: "returnsE P m \<Longrightarrow> returnsE P (finallyE m f)"
  by (fastforce simp: returnsE_def wpE_def finallyE_def split: prod.splits sum.splits)

lemma returnsE_if [returnsE_intros]: "(b \<Longrightarrow> returnsE P m) \<Longrightarrow> (\<not> b \<Longrightarrow> returnsE P n) \<Longrightarrow> returnsE P (if b then m else n)"
  by simp

end
