(* ===== verification/SandboxWorld.thy ===== *)
theory SandboxWorld
  imports Effects Envelope Hundredths "HOL-Library.Word"
begin

text \<open>
  What the worker of the sandbox knows of the outside, the data of a job
  (\<open>sandbox/contract.ts\<close>), the arguments of Docker (\<open>sandbox-worker/docker-args.ts\<close>) and the reading of exit codes
  (\<open>sandbox-worker/classify.ts\<close>).

  The Docker command line, the file system, HTTP, the clock, random bytes, SHA-256, UTF-8 and the reading of URLs are
  parameters. Every call of Docker is kept in the log of the job with whether it returned 0, so that what a job
  does to the machine can be stated. \<open>js_leaked\<close> is the local list of containers that could not be removed,
  \<open>js_reported\<close> what the job gave to \<open>onLeak\<close>, \<open>js_containers\<close> the containers a measurement keeps to its end.
\<close>

type_synonym bytes = "8 word list"

section \<open>Jobs\<close>

datatype language = Cpp | Python

datatype file_ref =
    InlineRef utext
  | UrlRef string string nat
  | GenerateRef nat int int int

record program_file =
  pf_path :: string
  pf_ref :: file_ref

record program_spec =
  ps_files :: "program_file list"
  ps_driver :: "file_ref option"
  ps_entry :: "string option"

record job_limits =
  li_wallMsPerCase :: nat
  li_memoryMb :: nat
  li_pids :: nat
  li_outputBytes :: nat

datatype limit_hit = HitTime | HitMemory | HitOutput

section \<open>The outside\<close>

record docker_reply =
  dr_code :: int
  dr_stdout :: bytes
  dr_stderr :: utext
  dr_stdoutTruncated :: bool
  dr_wallTimedOut :: bool
  dr_ns :: nat

datatype fs_op = Mkdir string | Chmod string nat | WriteFile string bytes | RmRecursive string

record http_reply =
  hr_status :: nat
  hr_body :: "(bytes list \<times> string option) option"

record url_parts =
  up_protocol :: string
  up_host :: string
  up_hostname :: string

record 'w outside =
  ow_docker :: "string list \<Rightarrow> bytes option \<Rightarrow> nat \<Rightarrow> nat \<Rightarrow> 'w \<Rightarrow> (string + docker_reply) \<times> 'w"
  ow_fs :: "fs_op \<Rightarrow> 'w \<Rightarrow> (string + unit) \<times> 'w"
  ow_readdir :: "string \<Rightarrow> 'w \<Rightarrow> (string + string list) \<times> 'w"
  ow_mkdtemp :: "string \<Rightarrow> 'w \<Rightarrow> (string + string) \<times> 'w"
  ow_fetch :: "string \<Rightarrow> 'w \<Rightarrow> (string + http_reply) \<times> 'w"
  ow_now :: "'w \<Rightarrow> int \<times> 'w"
  ow_hex :: "nat \<Rightarrow> 'w \<Rightarrow> string \<times> 'w"
  ow_utf8 :: "utext \<Rightarrow> bytes"
  ow_text :: "bytes \<Rightarrow> utext"
  ow_sha256 :: "bytes \<Rightarrow> string"
  ow_url :: "string \<Rightarrow> url_parts option"

text \<open>What goes wrong without being the fault of the submission; \<open>ContainerGone\<close> is the one of its own class.\<close>

datatype infra_error =
    DockerUnavailable string | FsFailed string
  | InlineTooLong | BadUrl | NotHttps | HostNotAllowed string | DownloadFailed string | HttpStatus nat
  | BodyFailed string | TooManyBytes nat | HashMismatch
  | NoEntry string | NoEntryGiven
  | CompileSilent | CompileDocker utext | CaseSilent | CaseDocker utext
  | PsFailed utext | SlotDirty "string list" | StartFailed utext | InspectFailed utext | TopFailed utext
  | IpcFailed utext | IpcUnknown | SampleSilent | SampleDocker utext
  | ReferenceNotCompiled | ReferenceGone | ReferenceLeftovers | BadSlot
  | CheckerMissing string
  | ContainerGone

record docker_call =
  dc_args :: "string list"
  dc_stdin :: "bytes option"
  dc_ok :: bool

record 'w job_state =
  js_world :: 'w
  js_calls :: "docker_call list"
  js_leaked :: "string list"
  js_reported :: "string list"
  js_containers :: "string list"

type_synonym ('w, 'a) job = "('w job_state, infra_error, 'a) eff"

definition docker_run :: "'w outside \<Rightarrow> string list \<Rightarrow> bytes option \<Rightarrow> nat \<Rightarrow> nat \<Rightarrow> ('w, docker_reply) job" where
  "docker_run out args stdin maxStdout wallMs = (\<lambda>s.
     case ow_docker out args stdin maxStdout wallMs (js_world s) of (r, w) \<Rightarrow>
       let s' = s\<lparr>js_world := w,
            js_calls := js_calls s @ [\<lparr>dc_args = args, dc_stdin = stdin,
              dc_ok = (case r of Inr d \<Rightarrow> dr_code d = 0 | Inl _ \<Rightarrow> False)\<rparr>]\<rparr>
       in (case r of Inl e \<Rightarrow> Inl (DockerUnavailable e) | Inr d \<Rightarrow> Inr d, s'))"

text \<open>A call of the outside that is not Docker: its error is wrapped.\<close>

definition outside_call :: "('w \<Rightarrow> (string + 'a) \<times> 'w) \<Rightarrow> (string \<Rightarrow> infra_error) \<Rightarrow> ('w, 'a) job" where
  "outside_call f err = (\<lambda>s. case f (js_world s) of (r, w) \<Rightarrow>
     (case r of Inl e \<Rightarrow> Inl (err e) | Inr a \<Rightarrow> Inr a, s\<lparr>js_world := w\<rparr>))"

definition fs :: "'w outside \<Rightarrow> fs_op \<Rightarrow> ('w, unit) job" where
  "fs out op = outside_call (ow_fs out op) FsFailed"

definition outside_value :: "('w \<Rightarrow> 'a \<times> 'w) \<Rightarrow> ('w, 'a) job" where
  "outside_value f = (\<lambda>s. case f (js_world s) of (a, w) \<Rightarrow> (Inr a, s\<lparr>js_world := w\<rparr>))"

definition leak :: "string \<Rightarrow> ('w, unit) job" where
  "leak name = (\<lambda>s. (Inr (), s\<lparr>js_leaked := js_leaked s @ [name]\<rparr>))"

text \<open>The end of a job: the containers it could not remove are given to \<open>onLeak\<close>.\<close>

definition report_leaks :: "('w, unit) job" where
  "report_leaks = (\<lambda>s. (Inr (), s\<lparr>js_reported := js_reported s @ js_leaked s\<rparr>))"

definition start_state :: "'w \<Rightarrow> 'w job_state" where
  "start_state w = \<lparr>js_world = w, js_calls = [], js_leaked = [], js_reported = [], js_containers = []\<rparr>"

section \<open>The arguments of Docker\<close>

definition SANDBOX_UID :: nat where
  "SANDBOX_UID = 64000"

definition GUARD_UID :: nat where
  "GUARD_UID = 64001"

definition user_of :: "nat \<Rightarrow> string" where
  "user_of uid = show_nat uid @ '':'' @ show_nat uid"

record hardening =
  hd_runtime :: string
  hd_cpuset :: "string option"
  hd_cpus :: nat
  hd_memoryMb :: nat
  hd_pids :: nat
  hd_fsizeBytes :: nat
  hd_user :: "string option"
  hd_tmpfs :: "bool option"
  hd_ipcNone :: "bool option"
  hd_labels :: "(string \<times> string) list"

record mount =
  mt_source :: string
  mt_target :: string
  mt_readonly :: bool

definition hardenedFlags :: "hardening \<Rightarrow> string list" where
  "hardenedFlags h =
     [''--network'', ''none'',
      ''--read-only'',
      ''--cap-drop'', ''ALL'',
      ''--security-opt'', ''no-new-privileges'',
      ''--pids-limit'', show_nat (hd_pids h),
      ''--memory'', show_nat (hd_memoryMb h) @ ''m'',
      ''--memory-swap'', show_nat (hd_memoryMb h) @ ''m'',
      ''--cpus'', show_nat (hd_cpus h),
      ''--user'', (case hd_user h of Some u \<Rightarrow> u | None \<Rightarrow> user_of SANDBOX_UID)] @
     (if hd_tmpfs h \<noteq> Some False then [''--tmpfs'', ''/tmp:rw,nosuid,nodev,size=64m'', ''--workdir'', ''/tmp'']
      else [''--workdir'', ''/work'']) @
     (if hd_ipcNone h = Some True then [''--ipc'', ''none''] else []) @
     [''--ulimit'', ''fsize='' @ show_nat (hd_fsizeBytes h),
      ''--ulimit'', ''core=0'',
      ''--init'',
      ''--log-driver'', ''none'',
      ''--label'', ''cine.sandbox=1''] @
     concat (map (\<lambda>(k, v). [''--label'', k @ ''='' @ v]) (hd_labels h)) @
     (case hd_cpuset h of Some c \<Rightarrow> if c = [] then [] else [''--cpuset-cpus'', c] | None \<Rightarrow> []) @
     [''--runtime'', hd_runtime h]"

definition mount_value :: "mount \<Rightarrow> string" where
  "mount_value m = ''type=bind,source='' @ mt_source m @ '',target='' @ mt_target m @
     (if mt_readonly m then '',readonly'' else [])"

definition env_args :: "(string \<times> string) list \<Rightarrow> string list" where
  "env_args env = concat (map (\<lambda>(k, v). [''--env'', k @ ''='' @ v]) env)"

record run_spec =
  rs_name :: string
  rs_image :: string
  rs_hardening :: hardening
  rs_mounts :: "mount list"
  rs_env :: "(string \<times> string) list"
  rs_interactive :: bool
  rs_detach :: bool
  rs_command :: "string list"

definition runArgs :: "run_spec \<Rightarrow> string list" where
  "runArgs p =
     [''run''] @ (if rs_interactive p then [''-i''] else []) @ (if rs_detach p then [''-d''] else []) @
     [''--name'', rs_name p, ''--pull'', ''never''] @
     hardenedFlags (rs_hardening p) @
     concat (map (\<lambda>m. [''--mount'', mount_value m]) (rs_mounts p)) @
     env_args (rs_env p) @ [rs_image p] @ rs_command p"

definition execArgs :: "string \<Rightarrow> (string \<times> string) list \<Rightarrow> string option \<Rightarrow> string list \<Rightarrow> string list" where
  "execArgs container env user command =
     [''exec'', ''-i''] @ (case user of Some u \<Rightarrow> if u = [] then [] else [''--user'', u] | None \<Rightarrow> []) @
     env_args env @ [container] @ command"

text \<open>\<open>(ms / 1000).toFixed(3)\<close>: the three digits are those of the integer.\<close>

definition seconds_text :: "nat \<Rightarrow> string" where
  "seconds_text ms = show_nat (ms div 1000) @ ''.'' @
     show_nat (ms div 100 mod 10) @ show_nat (ms div 10 mod 10) @ show_nat (ms mod 10)"

definition timeoutCommand :: "nat \<Rightarrow> string list \<Rightarrow> string list" where
  "timeoutCommand ms command = [''timeout'', ''-k'', ''1'', seconds_text ms] @ command"

section \<open>Exit codes\<close>

definition RECURSION_EXIT_CODE :: int where
  "RECURSION_EXIT_CODE = 86"

text \<open>The outcome of a run is a case status other than \<open>Pass\<close> and \<open>Fail\<close>.\<close>

definition classifyExit :: "int \<Rightarrow> bool option \<Rightarrow> bool \<Rightarrow> language \<Rightarrow> nat \<Rightarrow> nat \<Rightarrow> case_status \<times> limit_hit list" where
  "classifyExit exitCode oomKilled outputTruncated lang elapsedMs wallMs =
     (if outputTruncated then (OutputLimit, [HitOutput])
      else if oomKilled = Some True then (RuntimeCrash, [HitMemory])
      else if exitCode = 0 then (Ran, [])
      else if exitCode = 124 then (Timeout, [HitTime])
      else if exitCode = 137 then
        (if wallMs \<le> elapsedMs then (Timeout, [HitTime])
         else (RuntimeCrash, if oomKilled = None then [HitMemory] else []))
      else if lang = Python \<and> exitCode = RECURSION_EXIT_CODE then (RecursionLimit, [])
      else (RuntimeCrash, []))"

text \<open>\<open>/^docker: |Error response from daemon|OCI runtime/m\<close>: the first alternative at the start of a line only.\<close>

definition is_line_end :: "nat \<Rightarrow> bool" where
  "is_line_end c \<longleftrightarrow> c = 10 \<or> c = 13 \<or> c = 8232 \<or> c = 8233"

fun docker_words :: "bool \<Rightarrow> utext \<Rightarrow> bool" where
  "docker_words start [] = False"
| "docker_words start (c # cs) =
     ((start \<and> starts_with (units ''docker: '') (c # cs)) \<or>
      starts_with (units ''Error response from daemon'') (c # cs) \<or>
      starts_with (units ''OCI runtime'') (c # cs) \<or>
      docker_words (is_line_end c) cs)"

definition isDockerFailure :: "int \<Rightarrow> utext \<Rightarrow> bool" where
  "isDockerFailure exitCode stderr = (if exitCode < 125 \<or> 127 < exitCode then False else docker_words True stderr)"

lemma classifyExit_outcome: "fst (classifyExit c oom t l e w) \<notin> {Pass, Fail}"
  by (simp add: classifyExit_def)

section \<open>What a job may do to Docker\<close>

text \<open>
  The command line as Docker reads it: \<open>docker run\<close>, its options with their values, the image, the command in the
  container. An option is a flag or takes the next word as its value, and the image is one that the worker is configured
  with (the name of an image is no option, so the options end where it stands).
\<close>

type_synonym docker_option = "string \<times> string option"

definition option_words :: "docker_option \<Rightarrow> string list" where
  "option_words o' = fst o' # (case snd o' of None \<Rightarrow> [] | Some v \<Rightarrow> [v])"

definition option_values :: "string \<Rightarrow> docker_option list \<Rightarrow> string list" where
  "option_values k opts = List.map_filter (\<lambda>o'. if fst o' = k then snd o' else None) opts"

definition FLAGS :: "string list" where
  "FLAGS = [''-i'', ''-d'', ''--read-only'', ''--init'']"

definition VALUE_OPTIONS :: "string list" where
  "VALUE_OPTIONS = [''--name'', ''--pull'', ''--network'', ''--cap-drop'', ''--security-opt'', ''--pids-limit'', ''--memory'',
     ''--memory-swap'', ''--cpus'', ''--user'', ''--tmpfs'', ''--workdir'', ''--ipc'', ''--ulimit'', ''--log-driver'', ''--label'',
     ''--cpuset-cpus'', ''--runtime'', ''--mount'', ''--env'']"

definition reads_as :: "(language \<Rightarrow> string) \<Rightarrow> string list \<Rightarrow> docker_option list \<Rightarrow> bool" where
  "reads_as images args opts \<longleftrightarrow>
     (\<exists>lang command. args = ''run'' # concat (map option_words opts) @ images lang # command) \<and>
     list_all (\<lambda>o'. if snd o' = None then fst o' \<in> set FLAGS else fst o' \<in> set VALUE_OPTIONS) opts"

text \<open>A mount of a directory right under \<open>dir\<close>: read-only, or the output of a compiler.\<close>

definition plain_name :: "string \<Rightarrow> bool" where
  "plain_name n \<longleftrightarrow> n \<noteq> [] \<and> CHR ''/'' \<notin> set n \<and> CHR '','' \<notin> set n \<and> n \<noteq> ''.'' \<and> n \<noteq> ''..''"

definition below :: "string \<Rightarrow> string \<Rightarrow> bool" where
  "below dir p \<longleftrightarrow> (\<exists>n. plain_name n \<and> p = dir @ ''/'' @ n)"

definition safe_mount :: "string \<Rightarrow> string \<Rightarrow> bool" where
  "safe_mount dir v \<longleftrightarrow> (\<exists>source target. below dir source \<and>
     (v = ''type=bind,source='' @ source @ '',target='' @ target @ '',readonly'' \<or>
      v = ''type=bind,source='' @ source @ '',target=/out''))"

text \<open>
  What a container that runs code of a student has to be: no network, a read-only root, no capabilities, no new
  privileges, limits, no swap beyond its memory, no core dumps, no log, the user of the sandbox, no directory of the host but those of its job. One
  that stays for a whole measurement (\<open>-d\<close>) belongs to the guard, and has no shared memory and no writable directory.
\<close>

definition hardened :: "string \<Rightarrow> docker_option list \<Rightarrow> bool" where
  "hardened dir opts \<longleftrightarrow>
     option_values ''--network'' opts = [''none''] \<and> (''--read-only'', None) \<in> set opts \<and>
     option_values ''--cap-drop'' opts = [''ALL''] \<and> option_values ''--security-opt'' opts = [''no-new-privileges''] \<and>
     length (option_values ''--pids-limit'' opts) = 1 \<and> length (option_values ''--memory'' opts) = 1 \<and>
     option_values ''--memory-swap'' opts = option_values ''--memory'' opts \<and> length (option_values ''--cpus'' opts) = 1 \<and>
     ''core=0'' \<in> set (option_values ''--ulimit'' opts) \<and> (''--init'', None) \<in> set opts \<and>
     option_values ''--pull'' opts = [''never''] \<and> option_values ''--log-driver'' opts = [''none''] \<and>
     ''cine.sandbox=1'' \<in> set (option_values ''--label'' opts) \<and>
     list_all (safe_mount dir) (option_values ''--mount'' opts) \<and>
     (if (''-d'', None) \<in> set opts
      then option_values ''--user'' opts = [''64001:64001''] \<and> option_values ''--ipc'' opts = [''none''] \<and>
        option_values ''--tmpfs'' opts = [] \<and> list_all (\<lambda>v. rev (take 9 (rev v)) = '',readonly'') (option_values ''--mount'' opts)
      else option_values ''--user'' opts = [''64000:64000''] \<and>
        option_values ''--tmpfs'' opts = [''/tmp:rw,nosuid,nodev,size=64m''])"

definition safe_run :: "(language \<Rightarrow> string) \<Rightarrow> string \<Rightarrow> string list \<Rightarrow> bool" where
  "safe_run images dir args \<longleftrightarrow> (\<exists>opts. reads_as images args opts \<and> hardened dir opts)"

text \<open>In a container that runs already: a probe, the look of the guard at shared memory, or a program as the user of the sandbox.\<close>

definition safe_exec :: "string list \<Rightarrow> bool" where
  "safe_exec args \<longleftrightarrow> (\<exists>container env command.
     args = [''exec'', container, ''true''] \<or>
     args = [''exec'', ''--user'', ''64001:64001'', container, ''/bin/sh'', ''-c'',
       ''cat /proc/sysvipc/shm /proc/sysvipc/msg /proc/sysvipc/sem || exit 3; echo @@; ls -A /dev/mqueue || exit 4''] \<or>
     args = [''exec'', ''-i'', ''--user'', ''64000:64000''] @ env_args env @ [container] @ command)"

text \<open>The other commands of the worker only look at containers or remove them.\<close>

definition safe_call :: "(language \<Rightarrow> string) \<Rightarrow> string \<Rightarrow> string list \<Rightarrow> bool" where
  "safe_call images dir args \<longleftrightarrow> args \<noteq> [] \<and>
     (hd args \<in> {''rm'', ''inspect'', ''kill'', ''ps'', ''top''} \<or> safe_exec args \<or> safe_run images dir args)"

section \<open>\<open>runArgs\<close> as options\<close>

definition harden_options :: "hardening \<Rightarrow> docker_option list" where
  "harden_options h =
     [(''--network'', Some ''none''), (''--read-only'', None), (''--cap-drop'', Some ''ALL''),
      (''--security-opt'', Some ''no-new-privileges''), (''--pids-limit'', Some (show_nat (hd_pids h))),
      (''--memory'', Some (show_nat (hd_memoryMb h) @ ''m'')), (''--memory-swap'', Some (show_nat (hd_memoryMb h) @ ''m'')),
      (''--cpus'', Some (show_nat (hd_cpus h))),
      (''--user'', Some (case hd_user h of Some u \<Rightarrow> u | None \<Rightarrow> user_of SANDBOX_UID))] @
     (if hd_tmpfs h \<noteq> Some False then [(''--tmpfs'', Some ''/tmp:rw,nosuid,nodev,size=64m''), (''--workdir'', Some ''/tmp'')]
      else [(''--workdir'', Some ''/work'')]) @
     (if hd_ipcNone h = Some True then [(''--ipc'', Some ''none'')] else []) @
     [(''--ulimit'', Some (''fsize='' @ show_nat (hd_fsizeBytes h))), (''--ulimit'', Some ''core=0''), (''--init'', None),
      (''--log-driver'', Some ''none''), (''--label'', Some ''cine.sandbox=1'')] @
     map (\<lambda>(k, v). (''--label'', Some (k @ ''='' @ v))) (hd_labels h) @
     (case hd_cpuset h of Some c \<Rightarrow> if c = [] then [] else [(''--cpuset-cpus'', Some c)] | None \<Rightarrow> []) @
     [(''--runtime'', Some (hd_runtime h))]"

definition run_options :: "run_spec \<Rightarrow> docker_option list" where
  "run_options p =
     (if rs_interactive p then [(''-i'', None)] else []) @ (if rs_detach p then [(''-d'', None)] else []) @
     [(''--name'', Some (rs_name p)), (''--pull'', Some ''never'')] @ harden_options (rs_hardening p) @
     map (\<lambda>m. (''--mount'', Some (mount_value m))) (rs_mounts p) @
     map (\<lambda>(k, v). (''--env'', Some (k @ ''='' @ v))) (rs_env p)"

lemma concat_words: "concat (map option_words (map (\<lambda>x. (k, Some (f x))) xs)) = concat (map (\<lambda>x. [k, f x]) xs)"
  by (induction xs) (simp_all add: option_words_def)

lemma map_pair_words: "map (\<lambda>(k, v). (c, Some (g k v))) xs = map (\<lambda>x. (c, Some (g (fst x) (snd x)))) xs"
  "map (\<lambda>(k, v). [c, g k v]) xs = map (\<lambda>x. [c, g (fst x) (snd x)]) xs"
  by auto

lemma harden_options_words: "concat (map option_words (harden_options h)) = hardenedFlags h"
  unfolding harden_options_def hardenedFlags_def map_append concat_append map_pair_words concat_words
  by (simp add: option_words_def split: option.split)

lemma runArgs_options: "runArgs p = ''run'' # concat (map option_words (run_options p)) @ rs_image p # rs_command p"
  unfolding run_options_def runArgs_def map_append concat_append harden_options_words env_args_def map_pair_words concat_words
  by (simp add: option_words_def)

lemma runArgs_reads: "rs_image p = images lang \<Longrightarrow> reads_as images (runArgs p) (run_options p)"
proof -
  have "list_all (\<lambda>o'. if snd o' = None then fst o' \<in> set FLAGS else fst o' \<in> set VALUE_OPTIONS) (run_options p)"
    unfolding run_options_def harden_options_def list_all_append map_pair_words
    by (auto simp: list_all_iff FLAGS_def VALUE_OPTIONS_def split: option.split)
  moreover assume "rs_image p = images lang"
  ultimately show ?thesis unfolding reads_as_def runArgs_options by auto
qed

lemma option_values_simps [simp]:
  "option_values k [] = []"
  "option_values k ((c, None) # opts) = option_values k opts"
  "option_values k ((c, Some v) # opts) = (if c = k then v # option_values k opts else option_values k opts)"
  "option_values k (xs @ ys) = option_values k xs @ option_values k ys"
  by (simp_all add: option_values_def List.map_filter_def)

lemma option_values_map [simp]: "option_values k (map (\<lambda>x. (c, Some (f x))) zs) = (if c = k then map f zs else [])"
  by (cases "c = k"; induction zs; simp)

lemma users: "user_of SANDBOX_UID = ''64000:64000''" "user_of GUARD_UID = ''64001:64001''"
proof -
  have "digit_char 6 = CHR ''6''" "digit_char 4 = CHR ''4''" "digit_char 0 = CHR ''0''" "digit_char 1 = CHR ''1''" by code_simp+
  then show "user_of SANDBOX_UID = ''64000:64000''" "user_of GUARD_UID = ''64001:64001''"
    by (simp_all add: user_of_def SANDBOX_UID_def GUARD_UID_def show_nat.simps)
qed

lemma safe_mount_readonly: "below dir source \<Longrightarrow> safe_mount dir (''type=bind,source='' @ source @ '',target='' @ target @ '',readonly'')"
  and safe_mount_out: "below dir source \<Longrightarrow> safe_mount dir (''type=bind,source='' @ source @ '',target=/out'')"
  unfolding safe_mount_def by blast+

text \<open>The options that matter do not depend on the rest.\<close>

definition cpuset_options :: "string option \<Rightarrow> docker_option list" where
  "cpuset_options c = (case c of Some c \<Rightarrow> if c = [] then [] else [(''--cpuset-cpus'', Some c)] | None \<Rightarrow> [])"

lemma cpuset_options_values: "k \<noteq> ''--cpuset-cpus'' \<Longrightarrow> option_values k (cpuset_options c) = []"
  "(f, None) \<notin> set (cpuset_options c)"
  by (auto simp: cpuset_options_def split: option.split)

lemma flag_map: "(f, None) \<notin> set (map (\<lambda>x. (c, Some (g x))) zs)"
  by auto

text \<open>A container for one run, and one for a measurement.\<close>

lemma safe_runI:
  assumes "rs_image p = images lang"
    and "hd_user (rs_hardening p) = None" "hd_tmpfs (rs_hardening p) = None" "hd_ipcNone (rs_hardening p) = None" "\<not> rs_detach p"
    and "list_all (safe_mount dir) (map mount_value (rs_mounts p))"
  shows "safe_run images dir (runArgs p)"
  unfolding safe_run_def
proof (intro exI conjI)
  show "reads_as images (runArgs p) (run_options p)" using assms(1) by (rule runArgs_reads)
  show "hardened dir (run_options p)"
    unfolding hardened_def run_options_def harden_options_def map_pair_words cpuset_options_def[symmetric]
    by (simp add: assms cpuset_options_values flag_map users del: set_map)
qed

lemma safe_run_detachedI:
  assumes "rs_image p = images lang"
    and "hd_user (rs_hardening p) = Some (user_of GUARD_UID)" "hd_tmpfs (rs_hardening p) = Some False"
    "hd_ipcNone (rs_hardening p) = Some True" "rs_detach p"
    and "list_all (safe_mount dir) (map mount_value (rs_mounts p))" "list_all mt_readonly (rs_mounts p)"
  shows "safe_run images dir (runArgs p)"
  unfolding safe_run_def
proof (intro exI conjI)
  show "reads_as images (runArgs p) (run_options p)" using assms(1) by (rule runArgs_reads)
  have "list_all (\<lambda>v. rev (take 9 (rev v)) = '',readonly'') (map mount_value (rs_mounts p))"
    using assms(7) by (simp add: mount_value_def list_all_iff)
  then show "hardened dir (run_options p)"
    unfolding hardened_def run_options_def harden_options_def map_pair_words cpuset_options_def[symmetric]
    by (simp add: assms cpuset_options_values flag_map users del: set_map)
qed

text \<open>
  The containers that may still exist after a log of calls: those named in a \<open>run\<close> and not yet removed by a
  \<open>docker rm -f\<close> that returned 0.
\<close>

fun run_name :: "string list \<Rightarrow> string option" where
  "run_name (a # b # args) = (if a = ''--name'' then Some b else run_name (b # args))"
| "run_name _ = None"

definition alive_step :: "docker_call \<Rightarrow> string list \<Rightarrow> string list" where
  "alive_step c names =
     (case dc_args c of
        cmd # args \<Rightarrow>
          if cmd = ''run'' then (case run_name args of Some n \<Rightarrow> names @ [n] | None \<Rightarrow> names)
          else if cmd = ''rm'' \<and> dc_ok c then filter (\<lambda>n. n \<notin> set (tl args)) names
          else names
      | [] \<Rightarrow> names)"

definition alive :: "docker_call list \<Rightarrow> string list" where
  "alive calls = fold alive_step calls []"

lemma alive_simps [simp]: "alive [] = []" "alive (cs @ [c]) = alive_step c (alive cs)"
  by (simp_all add: alive_def)

lemma run_name_runArgs: "run_name (tl (runArgs p)) = Some (rs_name p)"
  by (simp add: runArgs_def)

lemma alive_step_run: "alive_step \<lparr>dc_args = runArgs p, dc_stdin = i, dc_ok = b\<rparr> names = names @ [rs_name p]"
  using run_name_runArgs[of p] by (simp add: alive_step_def runArgs_def)

end
