(* ===== verification/FetchFiles.thy ===== *)
theory FetchFiles
  imports SandboxWorld JsNumber "HOL-Library.Word"
begin

text \<open>
  \<open>sandbox-worker/fetch-files.ts\<close>: the files of a job. The generator of inputs is \<open>xorshift32\<close> on 32-bit words
  and the doubles of \<open>JsNumber\<close>. Reading a URL, the response of a server, SHA-256 and the two directions of
  UTF-8 are parameters.
\<close>

unbundle bit_operations_syntax

section \<open>The generator\<close>

text \<open>\<open>seed >>> 0 || 1\<close>, and one step of the generator. The masks of the code keep 32 bits, as a word does.\<close>

definition rng_seed :: "int \<Rightarrow> 32 word" where
  "rng_seed seed = (let x = word_of_int seed in if x = 0 then 1 else x)"

definition rng_next :: "32 word \<Rightarrow> 32 word" where
  "rng_next x =
     (let x = x XOR push_bit 13 x;
          x = x XOR drop_bit 17 x
      in x XOR push_bit 5 x)"

text \<open>\<open>a % b\<close> on numbers that are not negative.\<close>

definition js_mod :: "rat \<Rightarrow> rat \<Rightarrow> rat" where
  "js_mod a b = a - b * of_int \<lfloor>a / b\<rfloor>"

definition span_of :: "int \<Rightarrow> int \<Rightarrow> rat" where
  "span_of lo hi = fl (fl (of_int (hi - lo)) + 1)"

text \<open>\<open>next() * 4294967296 + next()\<close>\<close>

definition draw :: "32 word \<Rightarrow> 32 word \<Rightarrow> rat" where
  "draw x y = fl (fl (of_int (uint x) * 4294967296) + of_int (uint y))"

definition array_value :: "int \<Rightarrow> int \<Rightarrow> rat \<Rightarrow> rat" where
  "array_value lo hi r = fl (of_int lo + js_mod r (span_of lo hi))"

fun array_values :: "nat \<Rightarrow> int \<Rightarrow> int \<Rightarrow> 32 word \<Rightarrow> rat list" where
  "array_values 0 lo hi x = []"
| "array_values (Suc n) lo hi x =
     (let y = rng_next x; z = rng_next y in array_value lo hi (draw y z) # array_values n lo hi z)"

definition show_int :: "int \<Rightarrow> string" where
  "show_int i = (if i < 0 then CHR ''-'' # show_nat (nat (- i)) else show_nat (nat i))"

definition generateIntArray :: "nat \<Rightarrow> int \<Rightarrow> int \<Rightarrow> int \<Rightarrow> utext" where
  "generateIntArray n lo hi seed =
     units (show_nat n) @ [10] @
     join_with [32] (map (\<lambda>v. units (show_int \<lfloor>v\<rfloor>)) (array_values n lo hi (rng_seed seed))) @ [10]"

section \<open>Doubles above 53 bits\<close>

lemma fl_of_int_big:
  assumes "2 ^ 53 \<le> n"
  shows "\<exists>k. fl (of_int n) = of_int (2 * k) \<and> 2 ^ 53 \<le> 2 * k"
proof -
  let ?x = "of_int n :: rat"
  have big: "of_int (2 ^ 53) \<le> ?x" using assms by (simp only: of_int_le_iff)
  then have pos: "0 < ?x" by simp
  have "1 < pow2 (dexp ?x)" using dexp_bounds(2)[OF pos] big by simp
  then have "\<not> dexp ?x \<le> 0" using pow2_mono[of "dexp ?x" 0] by (auto simp: pow2_def)
  then obtain m where m: "dexp ?x = int (Suc m)" by (metis gr0_implies_Suc not_le pos_int_cases)
  let ?k = "rne (?x / pow2 (dexp ?x)) * 2 ^ m"
  have f: "fl ?x = of_int (2 * ?k)" by (simp add: fl_pos_eq[OF pos] m pow2_nat del: of_nat_Suc)
  have "fl (of_int (2 ^ 53)) \<le> fl ?x" using big by (rule fl_mono)
  moreover have "fl (of_int (2 ^ 53)) = of_int (2 ^ 53)" by (rule fl_int) simp
  ultimately have "(of_int (2 ^ 53) :: rat) \<le> of_int (2 * ?k)" unfolding f by (simp only:)
  then have "2 ^ 53 \<le> 2 * ?k" by (simp only: of_int_le_iff)
  with f show ?thesis by blast
qed

lemma fl_of_int_Ints: "0 \<le> n \<Longrightarrow> \<exists>k. fl (of_int n) = of_int k \<and> 0 \<le> k"
proof (cases "n \<le> 2 ^ 53")
  case False
  then obtain k where "fl (of_int n) = of_int (2 * k)" "2 ^ 53 \<le> 2 * k" using fl_of_int_big[of n] by auto
  then show ?thesis by (intro exI[of _ "2 * k"]) simp
qed (use fl_int[of n] in auto)

text \<open>Between \<open>2\<^sup>5\<^sup>3\<close> and \<open>2\<^sup>5\<^sup>4\<close> the doubles are the even numbers.\<close>

lemma fl_of_int_54:
  assumes "2 ^ 53 \<le> n" and "n < 2 ^ 54"
  shows "fl (of_int n) = of_int (2 * rne (of_int n / 2))"
proof -
  let ?x = "of_int n :: rat"
  have big: "of_int (2 ^ 53) \<le> ?x" "?x < of_int (2 ^ 54)" using assms by (simp_all only: of_int_le_iff of_int_less_iff)
  then have pos: "0 < ?x" by simp
  have "1 < pow2 (dexp ?x)" "pow2 (dexp ?x) < 4" using dexp_bounds[OF pos] big by simp_all
  then have "\<not> dexp ?x \<le> 0" "\<not> 2 \<le> dexp ?x"
    using pow2_mono[of "dexp ?x" 0] pow2_mono[of 2 "dexp ?x"] by (auto simp: pow2_def)
  then have "dexp ?x = 1" by simp
  then show ?thesis by (simp add: fl_pos_eq[OF pos] pow2_def)
qed

lemma rne_half_even: "rne (of_int (2 * k) / 2) = k"
  using rne_of_int[of k] by (simp del: rne_of_int)

lemma rne_half_odd: "rne (of_int (2 * k + 1) / 2) = (if even k then k else k + 1)"
proof -
  have x: "of_int (2 * k + 1) / 2 = (of_int k :: rat) + 1 / 2" by (simp add: field_simps)
  have f: "\<lfloor>(of_int k :: rat) + 1 / 2\<rfloor> = k" by (simp add: floor_unique)
  show ?thesis unfolding x rne_def Let_def f by simp
qed

section \<open>The range of the generator\<close>

lemma js_mod_bounds:
  assumes "0 \<le> a" and "0 < b"
  shows "0 \<le> js_mod a b" and "js_mod a b < b"
proof -
  have "of_int \<lfloor>a / b\<rfloor> * b \<le> a" "a < (of_int \<lfloor>a / b\<rfloor> + 1) * b"
    using assms(2) floor_correct[of "a / b"] by (simp_all add: pos_le_divide_eq[symmetric] pos_divide_less_eq[symmetric])
  then show "0 \<le> js_mod a b" and "js_mod a b < b" by (simp_all add: js_mod_def algebra_simps)
qed

lemma js_mod_int: "0 < b \<Longrightarrow> js_mod (of_int a) (of_int b) = of_int (a mod b)"
  using floor_divide_of_int_eq[of a b, where ?'a = rat]
  by (simp add: js_mod_def minus_mult_div_eq_mod[symmetric] del: minus_mult_div_eq_mod)

text \<open>
  The width of the range is exact below \<open>2\<^sup>5\<^sup>3\<close>. Above, it may be rounded up by one, but only to an even number
  whose predecessor is odd, and a remainder of even numbers is even: the upper bound is kept.
\<close>

lemma span_cases:
  assumes "0 \<le> d" and "d < 2 ^ 54 - 1"
  shows "(d < 2 ^ 53 \<and> fl (fl (of_int d) + 1) = of_int (d + 1)) \<or>
    (2 ^ 53 \<le> d \<and> (\<exists>k. fl (fl (of_int d) + 1) = of_int (2 * k) \<and> 2 ^ 53 \<le> 2 * k \<and> 2 * k \<le> d + 2))"
proof (cases "d < 2 ^ 53")
  case True
  then have "fl (of_int d) = of_int d" using assms by (intro fl_int) simp
  moreover have "fl (of_int (d + 1)) = of_int (d + 1)" using True assms by (intro fl_int) simp
  ultimately show ?thesis using True by simp
next
  case False
  then have d: "2 ^ 53 \<le> d" by simp
  obtain j where "d = 2 * j \<or> d = 2 * j + 1" by (metis oddE evenE)
  then show ?thesis
  proof
    assume j: "d = 2 * j"
    have f: "fl (of_int d) = of_int (2 * j)" using fl_of_int_54[of d] rne_half_even[of j] d assms j by simp
    have "fl (of_int (2 * j) + 1) = fl (of_int (2 * j + 1))" by simp
    also have "\<dots> = of_int (2 * rne (of_int (2 * j + 1) / 2))" by (rule fl_of_int_54) (use d assms j in simp_all)
    also have "\<dots> = of_int (2 * (if even j then j else j + 1))" by (simp only: rne_half_odd)
    finally have "fl (fl (of_int d) + 1) = of_int (2 * (if even j then j else j + 1))" unfolding f .
    moreover have "2 ^ 53 \<le> 2 * (if even j then j else j + 1)" "2 * (if even j then j else j + 1) \<le> d + 2" using d j by auto
    ultimately show ?thesis using d by blast
  next
    assume j: "d = 2 * j + 1"
    define e where "e = (if even j then j else j + 1)"
    have f: "fl (of_int d) = of_int (2 * e)"
      using fl_of_int_54[of d] rne_half_odd[of j] d assms j unfolding e_def by simp
    have e: "even e" "2 ^ 53 \<le> 2 * e" "2 * e \<le> d + 1" using d j unfolding e_def by auto
    have "2 * e + 1 < 2 ^ 54"
      using e(3) assms j unfolding e_def by (auto split: if_splits)
    then have "fl (of_int (2 * e + 1)) = of_int (2 * rne (of_int (2 * e + 1) / 2))" using e by (intro fl_of_int_54) simp_all
    also have "\<dots> = of_int (2 * e)" using e(1) by (simp only: rne_half_odd if_True)
    finally have "fl (fl (of_int d) + 1) = of_int (2 * e)" unfolding f by simp
    then show ?thesis using d e by auto
  qed
qed


lemma array_value_range:
  assumes "lo \<le> hi" and "\<bar>lo\<bar> < 2 ^ 53" and "\<bar>hi\<bar> < 2 ^ 53" and r: "r = fl (of_int n)" and "0 \<le> n"
  shows "\<exists>i. array_value lo hi r = of_int i \<and> lo \<le> i \<and> i \<le> hi"
proof -
  let ?d = "hi - lo"
  obtain k where k: "r = of_int k" "0 \<le> k" using fl_of_int_Ints[OF \<open>0 \<le> n\<close>] r by auto
  have "\<exists>m. js_mod r (span_of lo hi) = of_int m \<and> 0 \<le> m \<and> m \<le> ?d"
  proof -
    have "0 \<le> ?d" "?d < 2 ^ 54 - 1" using assms by auto
    from span_cases[OF this] show ?thesis
    proof
      assume s: "?d < 2 ^ 53 \<and> fl (fl (of_int ?d) + 1) = of_int (?d + 1)"
      have "js_mod r (span_of lo hi) = of_int (k mod (?d + 1))"
        using js_mod_int[of "?d + 1" k] s k assms(1) unfolding span_of_def by (simp only:)
      moreover have "0 \<le> k mod (?d + 1)" "k mod (?d + 1) \<le> ?d"
        using pos_mod_sign[of "?d + 1" k] pos_mod_bound[of "?d + 1" k] assms(1) by linarith+
      ultimately show ?thesis by blast
    next
      assume "2 ^ 53 \<le> ?d \<and> (\<exists>j. fl (fl (of_int ?d) + 1) = of_int (2 * j) \<and> 2 ^ 53 \<le> 2 * j \<and> 2 * j \<le> ?d + 2)"
      then obtain j where s: "fl (fl (of_int ?d) + 1) = of_int (2 * j)" and j: "2 ^ 53 \<le> 2 * j" "2 * j \<le> ?d + 2" and d: "2 ^ 53 \<le> ?d" by blast
      have m: "js_mod r (span_of lo hi) = of_int (k mod (2 * j))"
        using js_mod_int[of "2 * j" k] k j unfolding span_of_def s by simp
      have b: "0 \<le> k mod (2 * j)" "k mod (2 * j) < 2 * j" using j by simp_all
      have "k mod (2 * j) \<le> ?d"
      proof (rule ccontr)
        assume above: "\<not> k mod (2 * j) \<le> ?d"
        then have e: "k mod (2 * j) = 2 * j - 1" using b(2) j(2) by linarith
        have "k mod (2 * j) \<le> k" by (rule zmod_le_nonneg_dividend) (rule k(2))
        then have kb: "2 ^ 53 \<le> k" using above d by linarith
        have "even k"
        proof (cases "2 ^ 53 \<le> n")
          case True
          then show ?thesis using fl_of_int_big[OF True] r k by (metis dvd_triv_left of_int_eq_iff)
        next
          case False
          then have "r = of_int n" using r \<open>0 \<le> n\<close> by (simp add: fl_int)
          then have "k = n" using k by simp
          then show ?thesis using kb False by simp
        qed
        then have "even (k mod (2 * j))" by (simp add: dvd_mod)
        with e show False by simp
      qed
      with m b show ?thesis by blast
    qed
  qed
  then obtain m where m: "js_mod r (span_of lo hi) = of_int m" "0 \<le> m" "m \<le> ?d" by blast
  have "array_value lo hi r = of_int (lo + m)"
    using fl_int[of "lo + m"] m assms by (simp add: array_value_def)
  then show ?thesis using m by (intro exI[of _ "lo + m"]) simp
qed


lemma draw_int: "\<exists>n. draw x y = fl (of_int n) \<and> 0 \<le> n"
proof -
  obtain k where k: "fl (of_int (uint x * 4294967296)) = of_int k" "0 \<le> k"
    using fl_of_int_Ints[of "uint x * 4294967296"] by auto
  have "draw x y = fl (of_int (k + uint y))" by (simp only: draw_def of_int_add) (simp add: k(1)[simplified])
  then show ?thesis using k(2) by (intro exI[of _ "k + uint y"]) simp
qed

lemma array_values_range:
  assumes "lo \<le> hi" and "\<bar>lo\<bar> < 2 ^ 53" and "\<bar>hi\<bar> < 2 ^ 53"
  shows "\<exists>is. array_values n lo hi x = map of_int is \<and> length is = n \<and> (\<forall>i \<in> set is. lo \<le> i \<and> i \<le> hi)"
proof (induction n arbitrary: x)
  case (Suc n)
  let ?y = "rng_next x"
  let ?z = "rng_next ?y"
  obtain m where m: "draw ?y ?z = fl (of_int m)" "0 \<le> m" using draw_int by blast
  obtain i where i: "array_value lo hi (draw ?y ?z) = of_int i" "lo \<le> i" "i \<le> hi"
    using array_value_range[OF assms m] by blast
  obtain rest where r: "array_values n lo hi ?z = map of_int rest" "length rest = n" "\<forall>i \<in> set rest. lo \<le> i \<and> i \<le> hi"
    using Suc.IH by blast
  show ?case using i r by (intro exI[of _ "i # rest"]) (simp add: Let_def)
qed simp

text \<open>
  C24. Within the bounds of the contract a generated input holds its length and then as many numbers, each within
  the range asked for, although the width of the range and the draws are rounded to doubles.
\<close>

theorem generated_in_range:
  assumes "lo \<le> hi" and "\<bar>lo\<bar> < 2 ^ 53" and "\<bar>hi\<bar> < 2 ^ 53"
  shows "\<exists>is. length is = n \<and> list_all (\<lambda>i. lo \<le> i \<and> i \<le> hi) is \<and>
    generateIntArray n lo hi seed = units (show_nat n) @ [10] @ join_with [32] (map (\<lambda>i. units (show_int i)) is) @ [10]"
proof -
  obtain vs where v: "array_values n lo hi (rng_seed seed) = map of_int vs" "length vs = n" "\<forall>i \<in> set vs. lo \<le> i \<and> i \<le> hi"
    using array_values_range[OF assms] by blast
  then show ?thesis by (intro exI[of _ vs]) (simp add: generateIntArray_def o_def list_all_iff)
qed

theorem generated_in_range_witness:
  "\<exists>is. length is = 3 \<and> list_all (\<lambda>i. - 5 \<le> i \<and> i \<le> 9007199254740991) is \<and>
    generateIntArray 3 (- 5) 9007199254740991 42 =
      units (show_nat 3) @ [10] @ join_with [32] (map (\<lambda>i. units (show_int i)) is) @ [10]"
  by (rule generated_in_range) simp_all

text \<open>The generator never sticks: a state that is not zero is followed by one that is not zero.\<close>

lemma xor_push_zero:
  fixes x :: "'a::len word"
  assumes "x XOR push_bit k x = 0" and "0 < k"
  shows "x = 0"
proof (rule bit_word_eqI)
  fix i assume "i < LENGTH('a)"
  have e: "bit x i = (k \<le> i \<and> i < LENGTH('a) \<and> bit x (i - k))" for i
  proof -
    have "bit (x XOR push_bit k x) i = bit (0 :: 'a word) i" using assms(1) by simp
    then show ?thesis by (simp add: bit_xor_iff bit_push_bit_iff) (metis bit_imp_le_length)
  qed
  have "\<not> bit x i" for i
    by (induction i rule: less_induct) (metis assms(2) diff_less e le_less_trans not_le zero_le)
  then show "bit x i = bit 0 i" by simp
qed

lemma xor_drop_zero:
  fixes x :: "'a::len word"
  assumes "x XOR drop_bit k x = 0" and "0 < k"
  shows "x = 0"
proof (rule bit_word_eqI)
  fix i assume "i < LENGTH('a)"
  have e: "bit x i = bit x (k + i)" for i
  proof -
    have "bit (x XOR drop_bit k x) i = bit (0 :: 'a word) i" using assms(1) by simp
    then show ?thesis by (simp add: bit_xor_iff bit_drop_bit_eq)
  qed
  have "bit x i = bit x (n * k + i)" for n
    by (induction n) (simp_all add: e[symmetric] add.assoc)
  then have "bit x i = bit x (LENGTH('a) * k + i)" by blast
  moreover have "LENGTH('a) \<le> LENGTH('a) * k + i" using assms(2) by (cases k) simp_all
  ultimately show "bit x i = bit 0 i" using bit_imp_le_length[of x] by fastforce
qed

lemma rng_next_nonzero:
  assumes "x \<noteq> 0"
  shows "rng_next x \<noteq> 0"
proof -
  define a where "a = x XOR push_bit 13 x"
  define b where "b = a XOR drop_bit 17 a"
  have "a \<noteq> 0" using assms xor_push_zero[of x 13] unfolding a_def by fastforce
  then have "b \<noteq> 0" using xor_drop_zero[of a 17] unfolding b_def by fastforce
  then have "b XOR push_bit 5 b \<noteq> 0" using xor_push_zero[of b 5] by fastforce
  then show ?thesis unfolding rng_next_def Let_def a_def b_def .
qed

lemma rng_seed_nonzero: "rng_seed seed \<noteq> 0"
  by (simp add: rng_seed_def Let_def)


section \<open>Files of a job\<close>

record fetch_policy =
  fp_allowedHosts :: "string list"
  fp_allowHttp :: bool
  fp_maxBytes :: nat

definition INLINE_MAX_CHARS :: nat where
  "INLINE_MAX_CHARS = 4194304"

text \<open>\<open>readCapped\<close>: the chunks of a body, then its end or the error that broke it.\<close>

fun read_chunks :: "nat \<Rightarrow> bytes list \<Rightarrow> string option \<Rightarrow> bytes \<Rightarrow> infra_error + bytes" where
  "read_chunks cap [] broken acc = (case broken of Some e \<Rightarrow> Inl (BodyFailed e) | None \<Rightarrow> Inr acc)"
| "read_chunks cap (c # cs) broken acc =
     (if cap < length acc + length c then Inl (TooManyBytes cap) else read_chunks cap cs broken (acc @ c))"

definition readCapped :: "http_reply \<Rightarrow> nat \<Rightarrow> infra_error + bytes" where
  "readCapped res cap = (case hr_body res of None \<Rightarrow> Inr [] | Some (chunks, broken) \<Rightarrow> read_chunks cap chunks broken [])"

definition materialize :: "'w outside \<Rightarrow> file_ref \<Rightarrow> fetch_policy \<Rightarrow> ('w, bytes) job" where
  "materialize out ref policy =
     (case ref of
        InlineRef content \<Rightarrow>
          thenE (requireE (length content \<le> INLINE_MAX_CHARS) InlineTooLong) (retE (ow_utf8 out content))
      | GenerateRef n lo hi seed \<Rightarrow> retE (ow_utf8 out (generateIntArray n lo hi seed))
      | UrlRef url sha256 declared \<Rightarrow>
          (case ow_url out url of
             None \<Rightarrow> throwE BadUrl
           | Some u \<Rightarrow>
               thenE (requireE (up_protocol u = ''https:'' \<or> (fp_allowHttp policy \<and> up_protocol u = ''http:'')) NotHttps)
              (thenE (requireE (up_host u \<in> set (fp_allowedHosts policy) \<or> up_hostname u \<in> set (fp_allowedHosts policy))
                        (HostNotAllowed (up_host u)))
              (bindE (outside_call (ow_fetch out url) DownloadFailed) (\<lambda>res.
               thenE (requireE (200 \<le> hr_status res \<and> hr_status res \<le> 299) (HttpStatus (hr_status res)))
              (case readCapped res (min (fp_maxBytes policy) declared) of
                 Inl e \<Rightarrow> throwE e
               | Inr b \<Rightarrow> thenE (requireE (ow_sha256 out b = sha256) HashMismatch) (retE b)))))))"

lemma read_chunks_le: "read_chunks cap cs broken acc = Inr b \<Longrightarrow> length acc \<le> cap \<Longrightarrow> length b \<le> cap"
  by (induction cs arbitrary: acc) (auto split: option.splits if_splits)

lemma readCapped_le: "readCapped res cap = Inr b \<Longrightarrow> length b \<le> cap"
  using read_chunks_le[where acc = "[]"] by (auto simp: readCapped_def split: option.splits prod.splits)

text \<open>
  A downloaded file has the digest the job named, is no larger than the job and the worker allow, and comes from
  an allowed host over https (or http where the worker allows it).
\<close>

theorem download_is_checked:
  "case materialize out (UrlRef url sha256 declared) policy s of
     (Inl e, s') \<Rightarrow> e \<noteq> ContainerGone
   | (Inr b, s') \<Rightarrow> ow_sha256 out b = sha256 \<and> length b \<le> min (fp_maxBytes policy) declared \<and>
       (\<exists>u. ow_url out url = Some u \<and> up_protocol u \<in> (if fp_allowHttp policy then {''https:'', ''http:''} else {''https:''}) \<and>
         {up_host u, up_hostname u} \<inter> set (fp_allowedHosts policy) \<noteq> {})"
proof -
  have err: "readCapped res m = Inl e \<Longrightarrow> e \<noteq> ContainerGone" for res m e
  proof -
    have "read_chunks m cs broken acc = Inl e \<Longrightarrow> e \<noteq> ContainerGone" for cs broken acc
      by (induction cs arbitrary: acc) (auto split: option.splits if_splits)
    then show "readCapped res m = Inl e \<Longrightarrow> e \<noteq> ContainerGone"
      by (auto simp: readCapped_def split: option.splits prod.splits)
  qed
  show ?thesis
    by (auto simp: materialize_def thenE_def bindE_def requireE_def retE_def throwE_def outside_call_def
        split: option.splits sum.splits prod.splits if_splits dest: err readCapped_le)
qed

lemma keeps_outside_call [keepsE_intros]: "(\<And>s w. I s \<Longrightarrow> I (s\<lparr>js_world := w\<rparr>)) \<Longrightarrow> keepsE I (outside_call f err)"
  by (auto simp: keepsE_def wpE_def outside_call_def split: prod.splits sum.splits)

end
