(* ===== verification/Comparators.thy ===== *)
theory Comparators
  imports Envelope Threshold "HOL-Library.Multiset" "HOL-Library.List_Lexorder"
begin

text \<open>
  \<open>sandbox-worker/comparators.ts\<close>: the output of a program against the expected output. A text is its list of
  UTF-16 units. A message of difference keeps what the code interpolates, with the texts already clipped;
  it is shorter than the 1024 units at which the code would cut it, so the cut has no effect.
\<close>

section \<open>Lines\<close>

datatype comparator = Exact | UnorderedLines | FloatTolerance rat | Checker string

text \<open>\<open>s.replace(/\r\n/g, '\n')\<close>\<close>

fun unix_lines :: "utext \<Rightarrow> utext" where
  "unix_lines (c # d # cs) = (if c = 13 \<and> d = 10 then 10 # unix_lines cs else c # unix_lines (d # cs))"
| "unix_lines cs = cs"

definition is_blank :: "nat \<Rightarrow> bool" where
  "is_blank c \<longleftrightarrow> c = 32 \<or> c = 9"

definition strip_right :: "('a \<Rightarrow> bool) \<Rightarrow> 'a list \<Rightarrow> 'a list" where
  "strip_right P s = rev (dropWhile P (rev s))"

definition normalizeLines :: "utext \<Rightarrow> utext list" where
  "normalizeLines s = strip_right (\<lambda>l. l = []) (map (strip_right is_blank) (split_on 10 (unix_lines s)))"

section \<open>Excerpts\<close>

text \<open>\<open>JSON.stringify\<close> of a text: quotes, backslashes, control characters and lone surrogates are escaped.\<close>

definition hex_digit :: "nat \<Rightarrow> nat" where
  "hex_digit d = (if d < 10 then 48 + d else 87 + d)"

definition unicode_escape :: "nat \<Rightarrow> utext" where
  "unicode_escape c = [92, 117, hex_digit (c div 4096 mod 16), hex_digit (c div 256 mod 16),
     hex_digit (c div 16 mod 16), hex_digit (c mod 16)]"

definition json_char :: "nat \<Rightarrow> utext" where
  "json_char c =
     (if c = 34 then [92, 34] else if c = 92 then [92, 92]
      else if c = 8 then [92, 98] else if c = 9 then [92, 116] else if c = 10 then [92, 110]
      else if c = 12 then [92, 102] else if c = 13 then [92, 114]
      else if c < 32 then unicode_escape c else [c])"

definition is_high :: "nat \<Rightarrow> bool" where
  "is_high c \<longleftrightarrow> 55296 \<le> c \<and> c < 56320"

definition is_low :: "nat \<Rightarrow> bool" where
  "is_low c \<longleftrightarrow> 56320 \<le> c \<and> c < 57344"

fun json_body :: "utext \<Rightarrow> utext" where
  "json_body [] = []"
| "json_body [c] = (if is_high c \<or> is_low c then unicode_escape c else json_char c)"
| "json_body (c # d # cs) =
     (if is_high c \<and> is_low d then c # d # json_body cs
      else if is_high c \<or> is_low c then unicode_escape c @ json_body (d # cs)
      else json_char c @ json_body (d # cs))"

definition json_text :: "utext \<Rightarrow> utext" where
  "json_text s = 34 # json_body s @ [34]"

text \<open>\<open>None\<close> is the words for a line that does not exist. \<open>8230\<close> is the sign of an ellipsis.\<close>

definition clip :: "utext option \<Rightarrow> utext option" where
  "clip s = map_option (\<lambda>s. take 300 (json_text (if 200 < length s then take 200 s @ [8230] else s))) s"

lemma length_clip: "clip s = Some t \<Longrightarrow> length t \<le> 300"
  by (auto simp: clip_def)

datatype difference =
    LineDiffers nat "utext option" "utext option"
  | LineSetsDiffer nat nat
  | TokenCount nat nat
  | TokenDiffers nat "utext option" "utext option"

definition line_at :: "'a list \<Rightarrow> nat \<Rightarrow> 'a option" where
  "line_at xs i = (if i < length xs then Some (xs ! i) else None)"

definition firstLineDiff :: "utext list \<Rightarrow> utext list \<Rightarrow> difference option" where
  "firstLineDiff expected got =
     map_option (\<lambda>i. LineDiffers (i + 1) (clip (line_at expected i)) (clip (line_at got i)))
       (find (\<lambda>i. line_at expected i \<noteq> line_at got i) [0..<max (length expected) (length got)])"

section \<open>Numbers\<close>

text \<open>\<open>Number(text)\<close> when it is finite. Every character of a number is ASCII.\<close>

definition token_number :: "utext \<Rightarrow> rat option" where
  "token_number t =
     (let u = trim_by is_ws t in
      if list_ex (\<lambda>c. 256 \<le> c) u then None
      else (case js_number (map char_of u) of
          Some x \<Rightarrow> if \<bar>x\<bar> < 2 ^ 1024 then Some x else None
        | None \<Rightarrow> None))"

definition numbersClose :: "utext \<Rightarrow> utext \<Rightarrow> rat \<Rightarrow> bool" where
  "numbersClose a b eps =
     (a = b \<or>
      (case (token_number a, token_number b) of
         (Some x, Some y) \<Rightarrow> trim_by is_ws a \<noteq> [] \<and> trim_by is_ws b \<noteq> [] \<and>
           \<bar>fl (x - y)\<bar> \<le> fl (eps * max 1 \<bar>x\<bar>)
       | _ \<Rightarrow> False))"

text \<open>\<open>s.split(/\s+/)\<close>\<close>

definition split_ws :: "utext \<Rightarrow> utext list" where
  "split_ws s = split_on 32 (squeeze s)"

section \<open>The comparison\<close>

record comparison =
  cmp_equal :: bool
  cmp_diff :: "difference option"

text \<open>\<open>Inl name\<close> is the error of a checker that is not installed.\<close>

definition compareOutput :: "utext \<Rightarrow> utext \<Rightarrow> comparator \<Rightarrow> string + comparison" where
  "compareOutput expected got c =
     (case c of
        Exact \<Rightarrow>
          (let diff = firstLineDiff (normalizeLines expected) (normalizeLines got)
           in Inr \<lparr>cmp_equal = (diff = None), cmp_diff = diff\<rparr>)
      | UnorderedLines \<Rightarrow>
          (let a = sort (normalizeLines expected); b = sort (normalizeLines got);
               equal = (firstLineDiff a b = None)
           in Inr \<lparr>cmp_equal = equal, cmp_diff = (if equal then None else Some (LineSetsDiffer (length a) (length b)))\<rparr>)
      | FloatTolerance eps \<Rightarrow>
          (if trim_by is_ws expected = [] \<and> trim_by is_ws got = [] then Inr \<lparr>cmp_equal = True, cmp_diff = None\<rparr>
           else let a = split_ws (trim_by is_ws expected); b = split_ws (trim_by is_ws got) in
             if length a \<noteq> length b then Inr \<lparr>cmp_equal = False, cmp_diff = Some (TokenCount (length a) (length b))\<rparr>
             else (case find (\<lambda>k. \<not> numbersClose (a ! k) (b ! k) eps) [0..<length a] of
                 None \<Rightarrow> Inr \<lparr>cmp_equal = True, cmp_diff = None\<rparr>
               | Some i \<Rightarrow> Inr \<lparr>cmp_equal = False,
                   cmp_diff = Some (TokenDiffers (i + 1) (clip (Some (a ! i))) (clip (Some (b ! i))))\<rparr>))
      | Checker name \<Rightarrow> Inl name)"

section \<open>What the comparison decides\<close>

lemma find_upt_None: "find P [0..<n] = None \<longleftrightarrow> (\<forall>i < n. \<not> P i)"
  by (auto simp: find_None_iff)

lemma find_upt_Some: "find P [0..<n] = Some i \<longleftrightarrow> i < n \<and> P i \<and> (\<forall>j < i. \<not> P j)"
  by (auto simp: find_Some_iff)

lemma line_at_simps [simp]:
  "line_at [] i = None" "line_at (x # xs) 0 = Some x" "line_at (x # xs) (Suc i) = line_at xs i"
  by (simp_all add: line_at_def)

lemma line_at_take: "(\<forall>j < i. line_at a j = line_at b j) \<longleftrightarrow> take i a = take i b"
proof (induction i arbitrary: a b)
  case (Suc i)
  then show ?case by (cases a; cases b) (simp_all add: All_less_Suc2)
qed simp

lemma firstLineDiff_None: "firstLineDiff a b = None \<longleftrightarrow> a = b"
  using line_at_take[of "max (length a) (length b)" a b] by (simp add: firstLineDiff_def find_upt_None)

lemma firstLineDiff_Some:
  assumes "firstLineDiff a b = Some d"
  shows "\<exists>i. d = LineDiffers (i + 1) (clip (line_at a i)) (clip (line_at b i)) \<and> line_at a i \<noteq> line_at b i \<and> take i a = take i b"
  using assms unfolding line_at_take[symmetric] by (auto simp: firstLineDiff_def find_upt_Some)

text \<open>Two texts are equal up to line ends, trailing blanks and trailing empty lines when their normal lines are.\<close>

definition agrees :: "utext \<Rightarrow> utext \<Rightarrow> comparator \<Rightarrow> bool" where
  "agrees e g c = (case c of
       Exact \<Rightarrow> normalizeLines e = normalizeLines g
     | UnorderedLines \<Rightarrow> mset (normalizeLines e) = mset (normalizeLines g)
     | FloatTolerance eps \<Rightarrow> (trim_by is_ws e = [] \<and> trim_by is_ws g = []) \<or>
         list_all2 (\<lambda>a b. numbersClose a b eps) (split_ws (trim_by is_ws e)) (split_ws (trim_by is_ws g))
     | Checker name \<Rightarrow> False)"

lemma sort_eq_iff: "sort xs = sort ys \<longleftrightarrow> mset xs = mset ys"
  by (metis mset_sort properties_for_sort sorted_sort)

theorem compareOutput_decides:
  "case compareOutput e g c of
     Inl name \<Rightarrow> c = Checker name
   | Inr r \<Rightarrow> (cmp_equal r \<longleftrightarrow> agrees e g c) \<and> (cmp_diff r = None \<longleftrightarrow> agrees e g c)"
proof (cases c)
  case Exact
  then show ?thesis by (auto simp: compareOutput_def agrees_def Let_def firstLineDiff_None)
next
  case UnorderedLines
  then show ?thesis by (auto simp: compareOutput_def agrees_def Let_def firstLineDiff_None sort_eq_iff)
next
  case (FloatTolerance eps)
  let ?a = "split_ws (trim_by is_ws e)" and ?b = "split_ws (trim_by is_ws g)"
  show ?thesis
  proof (cases "length ?a = length ?b \<and> find (\<lambda>k. \<not> numbersClose (?a ! k) (?b ! k) eps) [0..<length ?a] = None")
    case True
    then have "list_all2 (\<lambda>a b. numbersClose a b eps) ?a ?b"
      by (simp add: list_all2_conv_all_nth find_upt_None)
    then show ?thesis using True FloatTolerance by (auto simp: compareOutput_def agrees_def Let_def)
  next
    case False
    then have "\<not> list_all2 (\<lambda>a b. numbersClose a b eps) ?a ?b"
      by (auto simp: list_all2_conv_all_nth find_upt_None)
    then show ?thesis using False FloatTolerance
      by (auto simp: compareOutput_def agrees_def Let_def split: option.split)
  qed
qed (simp add: compareOutput_def)

text \<open>Under the exact comparison the first line that differs is named.\<close>

theorem compare_names_first_difference:
  assumes "compareOutput e g Exact = Inr r" and "\<not> cmp_equal r"
  shows "\<exists>i. cmp_diff r = Some (LineDiffers (i + 1) (clip (line_at (normalizeLines e) i)) (clip (line_at (normalizeLines g) i))) \<and>
    take i (normalizeLines e) = take i (normalizeLines g) \<and> line_at (normalizeLines e) i \<noteq> line_at (normalizeLines g) i"
proof -
  obtain d where "firstLineDiff (normalizeLines e) (normalizeLines g) = Some d" and r: "cmp_diff r = Some d"
    using assms by (auto simp: compareOutput_def Let_def)
  from firstLineDiff_Some[OF this(1)] r show ?thesis by auto
qed

theorem compare_names_first_difference_witness:
  "compareOutput [49, 10, 50] [49, 32, 13, 10, 51] Exact =
       Inr \<lparr>cmp_equal = False, cmp_diff = Some (LineDiffers 2 (Some [34, 50, 34]) (Some [34, 51, 34]))\<rparr> \<and>
     (\<exists>i. take i (normalizeLines [49, 10, 50]) = take i (normalizeLines [49, 32, 13, 10, 51]) \<and>
        line_at (normalizeLines [49, 10, 50]) i \<noteq> line_at (normalizeLines [49, 32, 13, 10, 51]) i)"
proof -
  have lines: "normalizeLines [49, 10, 50] = [[49], [50]]" "normalizeLines [49, 32, 13, 10, 51] = [[49], [51]]"
    by (simp_all add: normalizeLines_def strip_right_def is_blank_def)
  have clips: "clip (Some [50]) = Some [34, 50, 34]" "clip (Some [51]) = Some [34, 51, 34]"
    by (simp_all add: clip_def json_text_def json_char_def is_high_def is_low_def)
  have c: "compareOutput [49, 10, 50] [49, 32, 13, 10, 51] Exact =
       Inr \<lparr>cmp_equal = False, cmp_diff = Some (LineDiffers 2 (Some [34, 50, 34]) (Some [34, 51, 34]))\<rparr>"
    by (simp add: compareOutput_def lines firstLineDiff_def clips line_at_def numeral_2_eq_2)
  with compare_names_first_difference[OF c] show ?thesis by auto
qed

end
