(* ===== verification/Programs.thy ===== *)
theory Programs
  imports FetchFiles Comparators
begin

text \<open>
  \<open>sandbox-worker/programs.ts\<close>: writing a program to the disk, compiling it and running one case of it, each in a
  container of its own that is removed whatever happens. A container that cannot be removed is reported.

  The cap on the output of a case makes the code kill the container while the call of Docker goes on; the model
  places this call right after it, since its outcome is ignored.
\<close>

record runner_env =
  rn_runtime :: string
  rn_images :: "language \<Rightarrow> string"
  rn_policy :: fetch_policy

definition COMPILE_MS :: nat where
  "COMPILE_MS = 60000"

definition DOCKER_SLACK_MS :: nat where
  "DOCKER_SLACK_MS = 20000"

definition DRIVER_FILE :: "language \<Rightarrow> string" where
  "DRIVER_FILE lang = (case lang of Cpp \<Rightarrow> ''__cine_driver.cpp'' | Python \<Rightarrow> ''__cine_driver.py'')"

definition path_join :: "string \<Rightarrow> string list \<Rightarrow> string" where
  "path_join dir parts = join_with ''/'' (dir # parts)"

section \<open>Containers\<close>

definition containerName :: "'w outside \<Rightarrow> ('w, string) job" where
  "containerName out = bindE (outside_value (ow_hex out 6)) (\<lambda>h. retE (''cine-'' @ h))"

definition removeContainer :: "'w outside \<Rightarrow> string \<Rightarrow> ('w, unit) job" where
  "removeContainer out name =
     bindE (catchE (bindE (docker_run out [''rm'', ''-f'', name] None 1024 30000) (\<lambda>r. retE (Some r))) (\<lambda>_. retE None))
       (\<lambda>r. whenE (case r of Some d \<Rightarrow> dr_code d \<noteq> 0 | None \<Rightarrow> True) (leak name))"

text \<open>The lines of a listing: \<open>split('\n').map(trim).filter(Boolean)\<close>.\<close>

definition text_lines :: "utext \<Rightarrow> utext list" where
  "text_lines t = filter (\<lambda>l. l \<noteq> []) (map (trim_by is_ws) (split_on 10 t))"

text \<open>Ids and names are ASCII.\<close>

definition ascii :: "utext \<Rightarrow> string" where
  "ascii t = map char_of t"

datatype cleanup_log = CannotList utext | Cleaned nat nat | CannotRemove "string list"

definition is_job_dir :: "string \<Rightarrow> bool" where
  "is_job_dir name \<longleftrightarrow> starts_with ''exec-'' name \<or> starts_with ''measure-'' name"

text \<open>Here a container that stays is not a leak of a job: \<open>failed\<close> collects the names.\<close>

definition remove_or_fail :: "'w outside \<Rightarrow> string \<Rightarrow> string list \<Rightarrow> ('w, string list) job" where
  "remove_or_fail out name failed =
     bindE (catchE (bindE (docker_run out [''rm'', ''-f'', name] None 1024 30000) (\<lambda>r. retE (Some r))) (\<lambda>_. retE None))
       (\<lambda>r. retE (if (case r of Some d \<Rightarrow> dr_code d \<noteq> 0 | None \<Rightarrow> True) then failed @ [name] else failed))"

definition cleanupLeftovers :: "'w outside \<Rightarrow> string \<Rightarrow> ('w, cleanup_log list) job" where
  "cleanupLeftovers out workRoot =
     bindE (docker_run out [''ps'', ''-aq'', ''--filter'', ''label=cine.sandbox=1''] None 1048576 30000) (\<lambda>r.
     bindE (if dr_code r \<noteq> 0 then retE [CannotList (take 300 (dr_stderr r))]
            else let ids = map ascii (text_lines (ow_text out (dr_stdout r))) in
              bindE (foldE (remove_or_fail out) ids []) (\<lambda>failed.
              retE ((if ids \<noteq> [] then [Cleaned (length ids - length failed) (length ids)] else []) @
                    (if failed \<noteq> [] then [CannotRemove failed] else [])))) (\<lambda>lines.
     bindE (catchE (outside_call (ow_readdir out workRoot) FsFailed) (\<lambda>_. retE [])) (\<lambda>names.
     thenE (forE (\<lambda>n. fs out (RmRecursive (path_join workRoot [n]))) (filter is_job_dir names))
       (retE lines))))"

record container_state =
  cs_oomKilled :: bool
  cs_started :: bool
  cs_exitCode :: "rat option option"
  cs_error :: utext

text \<open>\<open>Some None\<close> is an exit code that is not a number.\<close>

definition inspectState :: "'w outside \<Rightarrow> string \<Rightarrow> ('w, container_state) job" where
  "inspectState out name =
     bindE (docker_run out [''inspect'', ''--format'',
         ''{{.State.OOMKilled}}|{{.State.StartedAt}}|{{.State.ExitCode}}|{{.State.Error}}'', name] None 4096 30000) (\<lambda>r.
     let parts = (if dr_code r = 0 then split_on 124 (trim_by is_ws (ow_text out (dr_stdout r))) else []);
         oom = (case line_at parts 0 of Some t \<Rightarrow> t | None \<Rightarrow> []);
         startedAt = (case line_at parts 1 of Some t \<Rightarrow> t | None \<Rightarrow> []);
         exitText = (case line_at parts 2 of Some t \<Rightarrow> t | None \<Rightarrow> [])
     in retE \<lparr>cs_oomKilled = (oom = units ''true''),
              cs_started = (startedAt \<noteq> [] \<and> \<not> starts_with (units ''0001-'') startedAt),
              cs_exitCode = (if exitText = [] then None else Some (token_number exitText)),
              cs_error = join_with [124] (drop 3 parts)\<rparr>)"

section \<open>Programs on the disk\<close>

text \<open>\<open>mkdir\<close> and \<open>chmod\<close> of each directory between \<open>dir\<close> and the file.\<close>

definition ensureDir :: "'w outside \<Rightarrow> string \<Rightarrow> string list \<Rightarrow> ('w, unit) job" where
  "ensureDir out dir parts =
     forE (\<lambda>n. let cur = path_join dir (take n parts) in thenE (fs out (Mkdir cur)) (fs out (Chmod cur 493)))
       [1..<length parts + 1]"

definition put_file :: "'w outside \<Rightarrow> string \<Rightarrow> bytes \<Rightarrow> ('w, unit) job" where
  "put_file out target b = thenE (fs out (WriteFile target b)) (fs out (Chmod target 420))"

text \<open>The value is the entry; \<open>493\<close> and \<open>420\<close> are the modes \<open>0o755\<close> and \<open>0o644\<close>.\<close>

definition writeProgram :: "'w outside \<Rightarrow> string \<Rightarrow> language \<Rightarrow> program_spec \<Rightarrow> fetch_policy \<Rightarrow> ('w, string) job" where
  "writeProgram out dir lang program policy =
     thenE (fs out (Mkdir dir))
    (thenE (fs out (Chmod dir 493))
    (thenE (forE (\<lambda>f. let parts = split_on CHR ''/'' (pf_path f) in
              thenE (ensureDir out dir (butlast parts))
                (bindE (materialize out (pf_ref f) policy) (put_file out (path_join dir parts)))) (ps_files program))
    (thenE (case ps_driver program of
              Some d \<Rightarrow> bindE (materialize out d policy) (put_file out (path_join dir [DRIVER_FILE lang]))
            | None \<Rightarrow> retE ())
    (if lang = Cpp then retE ''a.out''
     else if ps_driver program \<noteq> None then retE (DRIVER_FILE Python)
     else (case ps_entry program of
         None \<Rightarrow> throwE NoEntryGiven
       | Some entry \<Rightarrow>
           if entry \<in> set (map pf_path (ps_files program)) then retE entry else throwE (NoEntry entry))))))"

section \<open>Compiling\<close>

datatype compile_log = CompileTimedOut | CompileLog utext

record compiled =
  cp_ok :: bool
  cp_log :: compile_log
  cp_ms :: int

definition cppCompileFlags :: "bool \<Rightarrow> string list" where
  "cppCompileFlags sanitize = [''-std=c++17'', ''-O2''] @
     (if sanitize then [''-fsanitize=address,undefined'', ''-fno-sanitize-recover=all''] else [])"

definition compile_script :: "language \<Rightarrow> bool \<Rightarrow> string" where
  "compile_script lang sanitize = (case lang of
       Cpp \<Rightarrow> ''g++ '' @ join_with '' '' (cppCompileFlags sanitize) @
         '' -I/src -o /out/a.out $(find /src -name '*.cpp' | sort)''
     | Python \<Rightarrow> ''find /src -name '*.py' | sort | xargs -r python3 /opt/cine/check_syntax.py'')"

definition compile_spec ::
  "runner_env \<Rightarrow> language \<Rightarrow> string \<Rightarrow> string \<Rightarrow> bool \<Rightarrow> string option \<Rightarrow> (string \<times> string) list \<Rightarrow> string \<Rightarrow> run_spec" where
  "compile_spec env lang srcDir outDir sanitize cpuset labels name =
     \<lparr>rs_name = name, rs_image = rn_images env lang,
      rs_hardening = \<lparr>hd_runtime = rn_runtime env, hd_cpuset = cpuset, hd_cpus = 1, hd_memoryMb = 1536, hd_pids = 128,
        hd_fsizeBytes = 268435456, hd_user = None, hd_tmpfs = None, hd_ipcNone = None, hd_labels = labels\<rparr>,
      rs_mounts = [\<lparr>mt_source = srcDir, mt_target = ''/src'', mt_readonly = True\<rparr>] @
        (if lang = Cpp then [\<lparr>mt_source = outDir, mt_target = ''/out'', mt_readonly = False\<rparr>] else []),
      rs_env = [], rs_interactive = False, rs_detach = False,
      rs_command = timeoutCommand COMPILE_MS [''sh'', ''-c'', compile_script lang sanitize]\<rparr>"

definition compile ::
  "'w outside \<Rightarrow> runner_env \<Rightarrow> language \<Rightarrow> string \<Rightarrow> string \<Rightarrow> bool \<Rightarrow> string option \<Rightarrow> (string \<times> string) list \<Rightarrow>
   ('w, compiled) job" where
  "compile out env lang srcDir outDir sanitize cpuset labels =
     bindE (outside_value (ow_now out)) (\<lambda>started.
     bindE (containerName out) (\<lambda>name.
     thenE (whenE (lang = Cpp) (thenE (fs out (Mkdir outDir)) (fs out (Chmod outDir 511))))
       (finallyE
         (bindE (docker_run out (runArgs (compile_spec env lang srcDir outDir sanitize cpuset labels name)) None 65536
              (COMPILE_MS + DOCKER_SLACK_MS)) (\<lambda>r.
          thenE (requireE (\<not> dr_wallTimedOut r) CompileSilent)
         (thenE (requireE (\<not> isDockerFailure (dr_code r) (dr_stderr r)) (CompileDocker (take 300 (dr_stderr r))))
         (bindE (outside_value (ow_now out)) (\<lambda>ended.
          retE \<lparr>cp_ok = (dr_code r = 0),
                cp_log = (if dr_code r = 124 then CompileTimedOut
                          else CompileLog (take 16384 (ow_text out (dr_stdout r) @ dr_stderr r))),
                cp_ms = ended - started\<rparr>)))))
         (removeContainer out name))))"

section \<open>Running one case\<close>

record case_run =
  ru_status :: case_status
  ru_stdout :: bytes
  ru_ms :: nat
  ru_limitsHit :: "limit_hit list"

definition case_spec ::
  "runner_env \<Rightarrow> language \<Rightarrow> string \<Rightarrow> string \<Rightarrow> job_limits \<Rightarrow> bool \<Rightarrow> string option \<Rightarrow> string \<Rightarrow> run_spec" where
  "case_spec env lang workDir entry limits sanitize cpuset name =
     \<lparr>rs_name = name, rs_image = rn_images env lang,
      rs_hardening = \<lparr>hd_runtime = rn_runtime env, hd_cpuset = cpuset, hd_cpus = 1,
        hd_memoryMb = (if sanitize then min (li_memoryMb limits * 3) 2048 else li_memoryMb limits), hd_pids = li_pids limits,
        hd_fsizeBytes = 67108864, hd_user = None, hd_tmpfs = None, hd_ipcNone = None, hd_labels = []\<rparr>,
      rs_mounts = [\<lparr>mt_source = workDir, mt_target = ''/work'', mt_readonly = True\<rparr>],
      rs_env = [(''ASAN_OPTIONS'', ''detect_leaks=0''), (''UBSAN_OPTIONS'', ''print_stacktrace=0'')],
      rs_interactive = True, rs_detach = False,
      rs_command = timeoutCommand (li_wallMsPerCase limits)
        (case lang of Cpp \<Rightarrow> [''/work/a.out''] | Python \<Rightarrow> [''python3'', ''/opt/cine/cine_run.py'', ''/work/'' @ entry])\<rparr>"

definition by_submission :: "container_state \<Rightarrow> int \<Rightarrow> bool" where
  "by_submission st code \<longleftrightarrow> cs_started st \<and> cs_error st = [] \<and> cs_exitCode st = Some (Some (of_int code))"

definition runCase ::
  "'w outside \<Rightarrow> runner_env \<Rightarrow> language \<Rightarrow> string \<Rightarrow> string \<Rightarrow> bytes \<Rightarrow> job_limits \<Rightarrow> bool \<Rightarrow> string option \<Rightarrow>
   ('w, case_run) job" where
  "runCase out env lang workDir entry stdin limits sanitize cpuset =
     bindE (containerName out) (\<lambda>name.
     finallyE
       (bindE (docker_run out (runArgs (case_spec env lang workDir entry limits sanitize cpuset name)) (Some stdin)
            (li_outputBytes limits) (li_wallMsPerCase limits + DOCKER_SLACK_MS)) (\<lambda>r.
        thenE (whenE (dr_stdoutTruncated r)
            (catchE (thenE (docker_run out [''kill'', name] None 64 30000) (retE ())) (\<lambda>_. retE ())))
       (thenE (requireE (\<not> dr_wallTimedOut r) CaseSilent)
       (bindE (inspectState out name) (\<lambda>st.
        thenE (requireE (\<not> (isDockerFailure (dr_code r) (dr_stderr r) \<and> \<not> by_submission st (dr_code r)))
            (CaseDocker (take 300 (dr_stderr r))))
       (let ms = dr_ns r div 1000000;
            c = classifyExit (dr_code r) (Some (cs_oomKilled st)) (dr_stdoutTruncated r) lang ms (li_wallMsPerCase limits)
        in retE \<lparr>ru_status = fst c, ru_stdout = dr_stdout r, ru_ms = ms, ru_limitsHit = snd c\<rparr>))))))
       (removeContainer out name))"

section \<open>Every container is removed or reported\<close>

text \<open>The containers that may still exist are among those reported and those of \<open>ns\<close>, which are still to be removed.\<close>

definition tidy_but :: "string list \<Rightarrow> 'w job_state \<Rightarrow> bool" where
  "tidy_but ns s \<longleftrightarrow> set (alive (js_calls s)) \<subseteq> set (js_leaked s) \<union> set ns"

text \<open>And every call is safe.\<close>

definition only_safe :: "(language \<Rightarrow> string) \<Rightarrow> string \<Rightarrow> 'w job_state \<Rightarrow> bool" where
  "only_safe im dir s \<longleftrightarrow> (\<forall>c \<in> set (js_calls s). safe_call im dir (dc_args c))"

text \<open>
  A job that called Docker at all made a directory of its own with the given prefix and only made calls that are safe
  for that directory.
\<close>

definition contained :: "(language \<Rightarrow> string) \<Rightarrow> 'w outside \<Rightarrow> string \<Rightarrow> 'w job_state \<Rightarrow> bool" where
  "contained im out prefix_path s \<longleftrightarrow> js_calls s = [] \<or>
     (\<exists>dir v w. ow_mkdtemp out prefix_path v = (Inr dir, w) \<and> only_safe im dir s)"

lemma containedI: "ow_mkdtemp out q v = (Inr dir, w) \<Longrightarrow> only_safe im dir s \<Longrightarrow> contained im out q s"
  unfolding contained_def by blast

definition good :: "(language \<Rightarrow> string) \<Rightarrow> string \<Rightarrow> string list \<Rightarrow> 'w job_state \<Rightarrow> bool" where
  "good im dir ns s \<longleftrightarrow> only_safe im dir s \<and> tidy_but ns s"

lemma good_mono: "good im dir ns s \<Longrightarrow> set ns \<subseteq> set ms \<Longrightarrow> good im dir ms s"
  by (auto simp: good_def tidy_but_def)

lemma keeps_good_world [keepsE_intros]:
  "keepsE (good im dir ns) (outside_call f err)" "keepsE (good im dir ns) (outside_value g)" "keepsE (good im dir ns) (leak n)"
  by (auto simp: keepsE_def wpE_def outside_call_def outside_value_def leak_def good_def only_safe_def tidy_but_def
      split: prod.splits sum.splits)

lemma keeps_good_fs [keepsE_intros]: "keepsE (good im dir ns) (fs out op)"
  unfolding fs_def by (rule keepsE_intros)

text \<open>A call that is neither \<open>run\<close> nor \<open>rm\<close> changes nothing that matters.\<close>

lemma keeps_good_enter:
  assumes "safe_exec args"
  shows "keepsE (good im dir ns) (docker_run out args i m w)"
proof -
  have "args \<noteq> [] \<and> hd args = ''exec''" using assms by (auto simp: safe_exec_def)
  then obtain rest where "args = ''exec'' # rest" by (cases args) auto
  with assms show ?thesis
    by (auto simp: keepsE_def wpE_def docker_run_def good_def only_safe_def tidy_but_def safe_call_def alive_step_def
        split: prod.splits sum.splits)
qed

lemma keeps_good_look:
  assumes "cmd \<in> {''inspect'', ''kill'', ''ps'', ''top''}"
  shows "keepsE (good im dir ns) (docker_run out (cmd # args) i m w)"
  using assms
  by (auto simp: keepsE_def wpE_def docker_run_def good_def only_safe_def tidy_but_def safe_call_def alive_step_def
      split: prod.splits sum.splits)

lemma keeps_good_materialize [keepsE_intros]: "keepsE (good im dir ns) (materialize out ref policy)"
  unfolding materialize_def
  by (cases ref) (auto intro!: keepsE_intros split: option.split sum.split)

lemma keeps_good_name [keepsE_intros]: "keepsE (good im dir ns) (containerName out)"
  unfolding containerName_def by (intro keepsE_intros)

lemma keeps_good_write [keepsE_intros]: "keepsE (good im dir ns) (writeProgram out d lang p policy)"
  unfolding writeProgram_def ensureDir_def put_file_def Let_def
  by (intro keepsE_intros; auto intro!: keepsE_intros split: option.split)

lemma keeps_good_inspect [keepsE_intros]: "keepsE (good im dir ns) (inspectState out name)"
  unfolding inspectState_def Let_def by (intro keepsE_intros keeps_good_look) simp


lemma run_good:
  assumes "safe_run im dir (runArgs p)" and "good im dir ns s"
  shows "wpE (docker_run out (runArgs p) i m w) (\<lambda>_. good im dir (rs_name p # ns)) (\<lambda>_. good im dir (rs_name p # ns)) s"
proof -
  have "safe_call im dir (runArgs p)" using assms(1) by (auto simp: safe_call_def runArgs_def)
  then show ?thesis using assms(2)
    by (auto simp: wpE_def docker_run_def good_def only_safe_def tidy_but_def alive_step_run split: prod.splits sum.splits)
qed

lemma wpE_docker:
  assumes "ow_docker out args i m w (js_world s) = (r, w')"
    and "t = s\<lparr>js_world := w', js_calls := js_calls s @ [\<lparr>dc_args = args, dc_stdin = i,
           dc_ok = (case r of Inr d \<Rightarrow> dr_code d = 0 | Inl _ \<Rightarrow> False)\<rparr>]\<rparr>"
  shows "wpE (docker_run out args i m w) Q R s = (case r of Inl e \<Rightarrow> R (DockerUnavailable e) t | Inr d \<Rightarrow> Q d t)"
  using assms by (cases r) (simp_all add: wpE_def docker_run_def Let_def)

lemma alive_step_rm: "alive_step \<lparr>dc_args = [''rm'', ''-f'', n], dc_stdin = i, dc_ok = b\<rparr> names =
    (if b then filter (\<lambda>m. m \<noteq> n) names else names)"
  by (simp add: alive_step_def)

lemma safe_call_rm: "safe_call im dir [''rm'', ''-f'', n]"
  by (simp add: safe_call_def)

lemma remove_good:
  assumes "good im dir (n # ns) s"
  shows "wpE (removeContainer out n) (\<lambda>_. good im dir ns) (\<lambda>_ _. False) s"
proof -
  obtain r w where rw: "ow_docker out [''rm'', ''-f'', n] None 1024 30000 (js_world s) = (r, w)" by fastforce
  define b where "b \<longleftrightarrow> (case r of Inr d \<Rightarrow> dr_code d = 0 | Inl _ \<Rightarrow> False)"
  define t where "t = s\<lparr>js_world := w, js_calls := js_calls s @ [\<lparr>dc_args = [''rm'', ''-f'', n], dc_stdin = None, dc_ok = b\<rparr>]\<rparr>"
  have "only_safe im dir s" using assms by (simp add: good_def)
  then have safe: "only_safe im dir t" unfolding only_safe_def t_def by (simp add: safe_call_rm)
  have tidy: "tidy_but (n # ns) s" using assms by (simp add: good_def)
  have lk: "good im dir ns (t\<lparr>js_leaked := js_leaked t @ [n]\<rparr>)"
    using safe tidy by (auto simp: good_def only_safe_def tidy_but_def t_def alive_step_rm)
  have ok: "good im dir ns t" if b
    using safe tidy that by (auto simp: good_def tidy_but_def t_def alive_step_rm)
  have "wpE (leak n) (\<lambda>_. good im dir ns) (\<lambda>_ _. False) t" using lk by (simp add: wpE_def leak_def)
  then show ?thesis unfolding removeContainer_def wpE_simps wpE_docker[OF rw t_def[unfolded b_def]]
    by (cases r) (use ok b_def in \<open>simp_all add: wpE_simps\<close>)
qed

lemma keeps_good_remove [keepsE_intros]: "keepsE (good im dir ns) (removeContainer out n)"
  unfolding keepsE_def
  by (intro allI impI wpE_mono[OF remove_good]) (auto intro: good_mono)

text \<open>A container is started, something is done with it, and it is removed whatever happens.\<close>

lemma container_good:
  assumes "safe_run im dir (runArgs p)" and "\<And>r. keepsE (good im dir (rs_name p # ns)) (k r)"
  shows "keepsE (good im dir ns) (finallyE (bindE (docker_run out (runArgs p) i m w) k) (removeContainer out (rs_name p)))"
  unfolding keepsE_def wpE_finally wpE_bind
proof (intro allI impI)
  fix s :: "'a job_state"
  assume "good im dir ns s"
  have rm: "wpE (removeContainer out (rs_name p)) (\<lambda>_. good im dir ns) (\<lambda>_. good im dir ns) t" if "good im dir (rs_name p # ns) t" for t :: "'a job_state"
    by (rule wpE_mono[OF remove_good[OF that]]) simp_all
  show "wpE (docker_run out (runArgs p) i m w)
      (\<lambda>r. wpE (k r) (\<lambda>a. wpE (removeContainer out (rs_name p)) (\<lambda>_. good im dir ns) (\<lambda>_. good im dir ns))
         (\<lambda>e. wpE (removeContainer out (rs_name p)) (\<lambda>_. good im dir ns) (\<lambda>_. good im dir ns)))
      (\<lambda>e. wpE (removeContainer out (rs_name p)) (\<lambda>_. good im dir ns) (\<lambda>_. good im dir ns)) s"
    by (rule wpE_mono[OF run_good[OF assms(1) \<open>good im dir ns s\<close>]];
        (rule wpE_mono[OF keepsE_D[OF assms(2)]])?; (assumption | rule rm))
qed

lemma safe_compile:
  assumes "below dir srcDir" and "below dir outDir"
  shows "safe_run (rn_images env) dir (runArgs (compile_spec env lang srcDir outDir sanitize cpuset labels name))"
  by (rule safe_runI[where lang = lang]) (use assms in \<open>simp_all add: compile_spec_def mount_value_def 
    safe_mount_readonly[where target = "''/src''", simplified] safe_mount_out[simplified]\<close>)

lemma safe_case:
  assumes "below dir workDir"
  shows "safe_run (rn_images env) dir (runArgs (case_spec env lang workDir entry limits sanitize cpuset name))"
  by (rule safe_runI[where lang = lang]) (use assms in \<open>simp_all add: case_spec_def mount_value_def
    safe_mount_readonly[where target = "''/work''", simplified]\<close>)

lemma spec_names [simp]: "rs_name (compile_spec env lang srcDir outDir sanitize cpuset labels name) = name"
  "rs_name (case_spec env lang workDir entry limits sanitize cpuset name) = name"
  by (simp_all add: compile_spec_def case_spec_def)

lemma keeps_good_compile:
  assumes "below dir srcDir" and "below dir outDir"
  shows "keepsE (good (rn_images env) dir ns) (compile out env lang srcDir outDir sanitize cpuset labels)"
proof -
  have c: "keepsE (good (rn_images env) dir ns) (finallyE
      (bindE (docker_run out (runArgs (compile_spec env lang srcDir outDir sanitize cpuset labels name)) i m w) k)
      (removeContainer out name))" if "\<And>r. keepsE (good (rn_images env) dir (name # ns)) (k r)" for name i m w and k :: "docker_reply \<Rightarrow> ('a, compiled) job"
    using container_good[OF safe_compile[OF assms, of env lang sanitize cpuset labels name], of ns k out i m w] that by simp
  show ?thesis unfolding compile_def by (intro keepsE_intros c)
qed

lemma keeps_good_case:
  assumes "below dir workDir"
  shows "keepsE (good (rn_images env) dir ns) (runCase out env lang workDir entry stdin limits sanitize cpuset)"
proof -
  have c: "keepsE (good (rn_images env) dir ns) (finallyE
      (bindE (docker_run out (runArgs (case_spec env lang workDir entry limits sanitize cpuset name)) i m w) k)
      (removeContainer out name))" if "\<And>r. keepsE (good (rn_images env) dir (name # ns)) (k r)" for name i m w and k :: "docker_reply \<Rightarrow> ('a, case_run) job"
    using container_good[OF safe_case[OF assms, of env lang entry limits sanitize cpuset name], of ns k out i m w] that by simp
  show ?thesis unfolding runCase_def Let_def by (intro keepsE_intros c keeps_good_look) simp_all
qed

end
