(* ===== verification/HandleExec.thy ===== *)
theory HandleExec
  imports Programs
begin

text \<open>
  \<open>sandbox-worker/handle-exec.ts\<close>: a job that checks the cases of a submission. Whatever goes wrong without being
  proved to be the fault of the submission makes the result unavailable. The schema of the job is a parameter:
  the raw job is the text of its id, if it has one, with the error of the schema or the job it reads as.
\<close>

record exec_case =
  xc_name :: string
  xc_group :: "string option"
  xc_stdin :: file_ref
  xc_expected :: "file_ref option"

record exec_job =
  xj_jobId :: string
  xj_language :: language
  xj_program :: program_spec
  xj_sanitize :: bool
  xj_cases :: "exec_case list"
  xj_comparator :: comparator
  xj_limits :: job_limits
  xj_budgetMs :: int

record worker_case =
  wc_name :: string
  wc_group :: "string option"
  wc_status :: case_status
  wc_ms :: nat
  wc_stdout :: "utext option"
  wc_diff :: "difference option"
  wc_limitsHit :: "limit_hit list"

datatype unavailable_reason = BadSchema string | NoChecker string | Broken infra_error

record 'h exec_result =
  xr_jobId :: string
  xr_host :: 'h
  xr_compile :: "compiled option"
  xr_cases :: "worker_case list"
  xr_totalMs :: int
  xr_aborted :: bool
  xr_unavailable :: "unavailable_reason option"

section \<open>The id of a job\<close>

definition NIL_UUID :: string where
  "NIL_UUID = ''00000000-0000-0000-0000-000000000000''"

text \<open>\<open>/^[0-9a-f]{8}-[0-9a-f]{4}-[0-9a-f]{4}-[0-9a-f]{4}-[0-9a-f]{12}$/i\<close>\<close>

definition is_uuid :: "string \<Rightarrow> bool" where
  "is_uuid s \<longleftrightarrow> map length (split_on CHR ''-'' s) = [8, 4, 4, 4, 12] \<and>
     list_all (list_all (\<lambda>c. hex_val c \<noteq> None)) (split_on CHR ''-'' s)"

definition jobIdOf :: "string option \<Rightarrow> string" where
  "jobIdOf raw_id = (case raw_id of Some i \<Rightarrow> if is_uuid i then i else NIL_UUID | None \<Rightarrow> NIL_UUID)"

definition unavailableExec :: "string \<Rightarrow> unavailable_reason \<Rightarrow> 'h \<Rightarrow> 'h exec_result" where
  "unavailableExec i reason host = \<lparr>xr_jobId = i, xr_host = host, xr_compile = None, xr_cases = [], xr_totalMs = 0,
     xr_aborted = False, xr_unavailable = Some reason\<rparr>"

section \<open>The cases\<close>

text \<open>The worker: its outside, its runner and the directory of its jobs.\<close>

record ('w, 'h) worker_deps =
  wd_out :: "'w outside"
  wd_runner :: runner_env
  wd_host :: 'h
  wd_workRoot :: string

text \<open>What the result says of a run: the output is compared only after the program ran.\<close>

definition judge_case :: "('w, 'h) worker_deps \<Rightarrow> exec_job \<Rightarrow> exec_case \<Rightarrow> case_run \<Rightarrow> ('w, worker_case) job" where
  "judge_case d job c r =
     (let w = \<lparr>wc_name = xc_name c, wc_group = xc_group c, wc_status = ru_status r, wc_ms = ru_ms r, wc_stdout = None,
               wc_diff = None, wc_limitsHit = ru_limitsHit r\<rparr> in
      if ru_status r \<noteq> Ran then retE w
      else (case xc_expected c of
          None \<Rightarrow> retE (w\<lparr>wc_stdout := Some (take 65536 (ow_text (wd_out d) (ru_stdout r)))\<rparr>)
        | Some ref \<Rightarrow>
            bindE (materialize (wd_out d) ref (rn_policy (wd_runner d))) (\<lambda>b.
            (case compareOutput (ow_text (wd_out d) b) (ow_text (wd_out d) (ru_stdout r)) (xj_comparator job) of
               Inl name \<Rightarrow> throwE (CheckerMissing name)
             | Inr cmp \<Rightarrow> retE (w\<lparr>wc_status := if cmp_equal cmp then Pass else Fail, wc_diff := cmp_diff cmp\<rparr>)))))"

text \<open>The loop over the cases. The flag says that the budget was used up.\<close>

fun run_cases ::
  "('w, 'h) worker_deps \<Rightarrow> exec_job \<Rightarrow> string \<Rightarrow> string \<Rightarrow> string option \<Rightarrow> int \<Rightarrow> exec_case list \<Rightarrow> worker_case list \<Rightarrow>
   ('w, worker_case list \<times> bool) job" where
  "run_cases d job workDir entry cpuset started [] acc = retE (acc, False)"
| "run_cases d job workDir entry cpuset started (c # cs) acc =
     bindE (outside_value (ow_now (wd_out d))) (\<lambda>t.
     if xj_budgetMs job < t - started then retE (acc, True)
     else bindE (materialize (wd_out d) (xc_stdin c) (rn_policy (wd_runner d))) (\<lambda>stdin.
          bindE (runCase (wd_out d) (wd_runner d) (xj_language job) workDir entry stdin (xj_limits job)
              (xj_language job = Cpp \<and> xj_sanitize job) cpuset) (\<lambda>r.
          bindE (judge_case d job c r) (\<lambda>w.
          run_cases d job workDir entry cpuset started cs (acc @ [w])))))"

section \<open>The job\<close>

definition exec_body ::
  "('w, 'h) worker_deps \<Rightarrow> exec_job \<Rightarrow> string \<Rightarrow> string option \<Rightarrow> int \<Rightarrow> ('w, 'h exec_result) job" where
  "exec_body d job dir cpuset started =
     (let src = path_join dir [''src'']; bin = path_join dir [''bin''];
          finish = (\<lambda>info cases aborted.
            bindE (outside_value (ow_now (wd_out d))) (\<lambda>t.
            retE \<lparr>xr_jobId = xj_jobId job, xr_host = wd_host d, xr_compile = Some info, xr_cases = cases,
                  xr_totalMs = t - started, xr_aborted = aborted, xr_unavailable = None\<rparr>))
      in
      thenE (fs (wd_out d) (Chmod dir 493))
     (bindE (writeProgram (wd_out d) src (xj_language job) (xj_program job) (rn_policy (wd_runner d))) (\<lambda>entry.
      bindE (compile (wd_out d) (wd_runner d) (xj_language job) src bin (xj_language job = Cpp \<and> xj_sanitize job) cpuset [])
        (\<lambda>info.
      if \<not> cp_ok info then finish info [] False
      else bindE (run_cases d job (if xj_language job = Cpp then bin else src) entry cpuset started (xj_cases job) [])
        (\<lambda>(cases, aborted). finish info cases aborted)))))"

definition handleExec ::
  "('w, 'h) worker_deps \<Rightarrow> string option \<Rightarrow> string + exec_job \<Rightarrow> string option \<Rightarrow> ('w, 'h exec_result) job" where
  "handleExec d raw_id parsed cpuset =
     (case parsed of
        Inl message \<Rightarrow> retE (unavailableExec (jobIdOf raw_id) (BadSchema message) (wd_host d))
      | Inr job \<Rightarrow>
          (case xj_comparator job of
             Checker name \<Rightarrow> retE (unavailableExec (xj_jobId job) (NoChecker name) (wd_host d))
           | _ \<Rightarrow>
               bindE (outside_value (ow_now (wd_out d))) (\<lambda>started.
               bindE (outside_call (ow_mkdtemp (wd_out d) (path_join (wd_workRoot d) [''exec-''])) FsFailed) (\<lambda>dir.
               finallyE
                 (catchE (exec_body d job dir cpuset started)
                    (\<lambda>e. retE (unavailableExec (xj_jobId job) (Broken e) (wd_host d))))
                 (thenE (fs (wd_out d) (RmRecursive dir)) report_leaks)))))"

section \<open>What a job does to the machine\<close>

lemma below_path_join: "plain_name n \<Longrightarrow> below dir (path_join dir [n])"
  by (auto simp: path_join_def below_def)

lemma below_exec [simp]: "below dir (path_join dir [''src''])" "below dir (path_join dir [''bin''])"
  by (simp_all add: below_path_join plain_name_def)

lemma keeps_good_judge [keepsE_intros]: "keepsE (good im dir ns) (judge_case d job c r)"
  unfolding judge_case_def Let_def
  by (auto intro!: keepsE_intros split: option.split sum.split)

lemma keeps_good_run_cases:
  "below dir workDir \<Longrightarrow> keepsE (good (rn_images (wd_runner d)) dir ns) (run_cases d job workDir entry cpuset started cs acc)"
  by (induction cs arbitrary: acc) (auto intro!: keepsE_intros keeps_good_case)

lemma keeps_good_exec: "keepsE (good (rn_images (wd_runner d)) dir ns) (exec_body d job dir cpuset started)"
  unfolding exec_body_def Let_def
  by (intro keepsE_intros keeps_good_compile)
    (auto intro!: keepsE_intros keeps_good_run_cases split: prod.split)

lemma wpE_fs: "wpE (fs out op) Q R s = (case ow_fs out op (js_world s) of
     (Inl e, w) \<Rightarrow> R (FsFailed e) (s\<lparr>js_world := w\<rparr>) | (Inr _, w) \<Rightarrow> Q () (s\<lparr>js_world := w\<rparr>))"
  by (auto simp: wpE_def fs_def outside_call_def split: prod.split sum.split)

lemma wpE_value: "wpE (outside_value f) Q R s = (case f (js_world s) of (a, w) \<Rightarrow> Q a (s\<lparr>js_world := w\<rparr>))"
  by (auto simp: wpE_def outside_value_def split: prod.split)

lemma wpE_call: "wpE (outside_call f err) Q R s = (case f (js_world s) of
     (Inl e, w) \<Rightarrow> R (err e) (s\<lparr>js_world := w\<rparr>) | (Inr a, w) \<Rightarrow> Q a (s\<lparr>js_world := w\<rparr>))"
  by (auto simp: wpE_def outside_call_def split: prod.split sum.split)

lemma wpE_report: "wpE report_leaks Q R s = Q () (s\<lparr>js_reported := js_reported s @ js_leaked s\<rparr>)"
  by (simp add: wpE_def report_leaks_def)

text \<open>
  The end of every job: the work keeps the job tidy, the directory is removed, the leaks are reported. When the
  directory cannot be removed the report is skipped.
\<close>

lemma job_end:
  assumes "keepsE (good im dir []) m" and "good im dir [] s" and that: "\<And>e. keepsE (good im dir []) (h' e)"
  shows "wpE (finallyE (catchE m h') (thenE (fs out (RmRecursive dir)) report_leaks))
    (\<lambda>_ s'. only_safe im dir s' \<and> set (alive (js_calls s')) \<subseteq> set (js_reported s')) (\<lambda>_ s'. only_safe im dir s') s"
proof -
  have "wpE (catchE m h') (\<lambda>_. good im dir []) (\<lambda>_. good im dir []) s"
    using keepsE_catch[OF assms(1) that] assms(2) by (rule keepsE_D)
  then show ?thesis unfolding wpE_finally
    by (rule wpE_mono) (auto simp: wpE_simps wpE_fs wpE_report good_def only_safe_def tidy_but_def split: prod.splits sum.splits)
qed


lemma handleExec_end:
  fixes d :: "('w, 'h) worker_deps"
  defines "q \<equiv> path_join (wd_workRoot d) [''exec-'']"
  shows "wpE (handleExec d raw_id parsed cpuset)
     (\<lambda>_ s. contained (rn_images (wd_runner d)) (wd_out d) q s \<and> set (alive (js_calls s)) \<subseteq> set (js_reported s)) (\<lambda>_ s. contained (rn_images (wd_runner d)) (wd_out d) q s) (start_state w)"
proof -
  have start: "good im dir [] ((start_state w)\<lparr>js_world := v\<rparr>)" for im dir v
    by (simp add: good_def only_safe_def tidy_but_def start_state_def)
  have none: "contained (rn_images (wd_runner d)) (wd_out d) q ((start_state w)\<lparr>js_world := v\<rparr>)" "contained (rn_images (wd_runner d)) (wd_out d) q (start_state w)"
    "alive (js_calls (start_state w)) = []" for v
    by (simp_all add: contained_def start_state_def)
  have run: "wpE (finallyE (catchE (exec_body d job dir cpuset started) (\<lambda>e. retE (unavailableExec i (Broken e) (wd_host d))))
        (thenE (fs (wd_out d) (RmRecursive dir)) report_leaks))
      (\<lambda>_ s. contained (rn_images (wd_runner d)) (wd_out d) q s \<and> set (alive (js_calls s)) \<subseteq> set (js_reported s)) (\<lambda>_ s. contained (rn_images (wd_runner d)) (wd_out d) q s)
      ((start_state w)\<lparr>js_world := v\<rparr>)" if "ow_mkdtemp (wd_out d) q u = (Inr dir, u')" for job dir started i v u u'
    by (rule wpE_mono[OF job_end[OF keeps_good_exec start keepsE_ret]]) (auto intro: containedI[OF that])
  show ?thesis
  proof (cases parsed)
    case (Inl message)
    then show ?thesis using none by (auto simp: handleExec_def wpE_ret)
  next
    case (Inr job)
    then show ?thesis using none run unfolding q_def
      by (cases "xj_comparator job") (auto simp: handleExec_def wpE_ret wpE_bind wpE_value wpE_call split: prod.split sum.split)
  qed
qed

section \<open>What a result says\<close>

text \<open>
  One case of a result against the case of the job: passed or failed only with an expected output and after a run
  to the end, an output only without one, a difference exactly when it failed.
\<close>

definition case_matches :: "exec_case \<Rightarrow> worker_case \<Rightarrow> bool" where
  "case_matches c w \<longleftrightarrow> wc_name w = xc_name c \<and> wc_group w = xc_group c \<and>
     (wc_status w \<in> {Pass, Fail} \<longrightarrow> xc_expected c \<noteq> None) \<and> (wc_status w = Ran \<longrightarrow> xc_expected c = None) \<and>
     (wc_stdout w \<noteq> None \<longleftrightarrow> wc_status w = Ran) \<and> (wc_diff w \<noteq> None \<longleftrightarrow> wc_status w = Fail)"

definition exec_result_ok :: "exec_job \<Rightarrow> 'h exec_result \<Rightarrow> bool" where
  "exec_result_ok job r \<longleftrightarrow> xr_jobId r = xj_jobId job \<and>
     (case (xr_unavailable r, xr_compile r) of
        (Some _, info) \<Rightarrow> xr_cases r = [] \<and> info = None
      | (None, Some info) \<Rightarrow>
          if cp_ok info
          then list_all2 case_matches (take (length (xr_cases r)) (xj_cases job)) (xr_cases r) \<and>
            (xr_aborted r \<or> length (xr_cases r) = length (xj_cases job))
          else xr_cases r = [] \<and> \<not> xr_aborted r
      | (None, None) \<Rightarrow> False)"

lemma runCase_outcome: "returnsE (\<lambda>r. ru_status r \<notin> {Pass, Fail}) (runCase out env lang workDir entry stdin limits sanitize cpuset)"
  unfolding runCase_def Let_def by (intro returnsE_intros) (simp add: classifyExit_outcome[simplified])

lemma judge_case_matches:
  assumes "ru_status r \<notin> {Pass, Fail}"
  shows "returnsE (case_matches c) (judge_case d job c r)"
proof -
  have cmp: "case compareOutput e g k of Inl n \<Rightarrow> True | Inr x \<Rightarrow> (cmp_diff x \<noteq> None) = (\<not> cmp_equal x)" for e g k
    using compareOutput_decides[where e = e and g = g and c = k] by (auto split: sum.splits)
  show ?thesis
  proof (cases "ru_status r = Ran")
    case False
    then show ?thesis using assms by (auto simp: judge_case_def case_matches_def Let_def intro!: returnsE_intros)
  next
    case True
    show ?thesis
    proof (cases "xc_expected c")
      case None
      then show ?thesis using True by (auto simp: judge_case_def case_matches_def Let_def intro!: returnsE_intros)
    next
      case (Some ref)
      have H: "returnsE (case_matches c) (case compareOutput e g k of Inl name \<Rightarrow> throwE (CheckerMissing name)
          | Inr x \<Rightarrow> retE (w\<lparr>wc_status := if cmp_equal x then Pass else Fail, wc_diff := cmp_diff x\<rparr>))"
        if "wc_name w = xc_name c" "wc_group w = xc_group c" "wc_stdout w = None" for e g k and w :: worker_case
        using cmp[of e g k] that Some
        by (cases "compareOutput e g k") (auto simp: case_matches_def intro!: returnsE_intros)
      show ?thesis unfolding judge_case_def Let_def using True Some
        by (simp, intro returnsE_bind) (rule H; simp)
    qed
  qed
qed

text \<open>The first cases were judged, all of them unless the budget was used up.\<close>

definition judged :: "exec_case list \<Rightarrow> exec_case list \<Rightarrow> worker_case list \<times> bool \<Rightarrow> bool" where
  "judged before cs r \<longleftrightarrow>
     (\<exists>n. list_all2 case_matches (before @ take n cs) (fst r) \<and> (snd r \<or> length cs \<le> n))"

lemma judged_step: "judged (before @ [c]) cs r \<Longrightarrow> judged before (c # cs) r"
proof -
  assume "judged (before @ [c]) cs r"
  then obtain n where "list_all2 case_matches (before @ take (Suc n) (c # cs)) (fst r) \<and> (snd r \<or> length (c # cs) \<le> Suc n)"
    by (auto simp: judged_def)
  then show ?thesis unfolding judged_def by blast
qed

lemma judged_all: "judged [] cs (ws, over) \<Longrightarrow> list_all2 case_matches (take (length ws) cs) ws \<and> (over \<or> length ws = length cs)"
  unfolding judged_def by (auto dest: list_all2_lengthD simp: min_def split: if_splits)
    (metis take_all_iff list_all2_lengthD length_take min_def nle_le)+

lemma run_cases_result:
  assumes "list_all2 case_matches before acc"
  shows "returnsE (judged before cs) (run_cases d job workDir entry cpuset started cs acc)"
  using assms
proof (induction cs arbitrary: before acc)
  case Nil
  then show ?case by (auto simp: judged_def intro!: returnsE_intros)
next
  case (Cons c cs)
  have stop: "returnsE (judged before (c # cs)) (retE (acc, True))"
    using Cons.prems by (auto simp: judged_def intro!: returnsE_ret exI[of _ 0])
  have go: "returnsE (judged before (c # cs)) (run_cases d job workDir entry cpuset started cs (acc @ [w]))"
    if "case_matches c w" for w
  proof -
    have "list_all2 case_matches (before @ [c]) (acc @ [w])" using Cons.prems that by (simp add: list_all2_appendI)
    from Cons.IH[OF this] show ?thesis by (rule returnsE_mono) (rule judged_step)
  qed
  show ?case unfolding run_cases.simps
    by (intro returnsE_bind returnsE_if stop returnsE_bind_with[OF runCase_outcome] returnsE_bind_with[OF judge_case_matches] go)
qed

lemma exec_body_result:
  "returnsE (\<lambda>r. exec_result_ok job r \<and> xr_unavailable r = None) (exec_body d job dir cpuset started)"
proof -
  have cases: "returnsE (judged [] (xj_cases job)) (run_cases d job workDir entry cpuset started (xj_cases job) [])" for workDir entry
    by (rule run_cases_result) simp
  show ?thesis
    unfolding exec_body_def Let_def
    by (intro returnsE_then returnsE_bind returnsE_if returnsE_ret returnsE_bind_with[OF cases])
      (auto intro!: returnsE_intros dest!: judged_all simp: exec_result_ok_def split: prod.splits)
qed


text \<open>
  C16. A job only makes safe calls of Docker: every container it starts is hardened, read off the command line as Docker
  reads it, and mounts no directory of the host but those right under the one the job made for itself. When the job
  returns, every container that may still exist was given to \<open>onLeak\<close>, so that its slot is put aside.
\<close>

theorem exec_contained:
  "case handleExec d raw_id parsed cpuset (start_state w) of
     (Inl e, s) \<Rightarrow> contained (rn_images (wd_runner d)) (wd_out d) (path_join (wd_workRoot d) [''exec-'']) s
   | (Inr r, s) \<Rightarrow> contained (rn_images (wd_runner d)) (wd_out d) (path_join (wd_workRoot d) [''exec-'']) s \<and>
       set (alive (js_calls s)) \<subseteq> set (js_reported s)"
  using handleExec_end[of d raw_id parsed cpuset w] by (auto simp: wpE_def split: prod.splits sum.splits)

text \<open>
  C17. A result is either unavailable, and then says nothing about the submission, or holds the first cases of the job
  in their order, each judged as its case asks, and all of them unless the budget was used up.
\<close>

theorem exec_results:
  "case handleExec d raw_id parsed cpuset s of
     (Inl e, _) \<Rightarrow> \<exists>job. parsed = Inr job
   | (Inr r, _) \<Rightarrow>
       (case parsed of
          Inl message \<Rightarrow> r = unavailableExec (jobIdOf raw_id) (BadSchema message) (wd_host d)
        | Inr job \<Rightarrow> exec_result_ok job r)"
proof (cases parsed)
  case (Inl message)
  then show ?thesis by (simp add: handleExec_def retE_def)
next
  case (Inr job)
  have bad: "exec_result_ok job (unavailableExec (xj_jobId job) e (wd_host d))" for e
    by (simp add: unavailableExec_def exec_result_ok_def)
  have "returnsE (exec_result_ok job) (exec_body d job dir cpuset started)" for dir started
    by (rule returnsE_mono[OF exec_body_result]) simp
  then have "returnsE (exec_result_ok job) (handleExec d raw_id (Inr job) cpuset)"
    by (cases "xj_comparator job") (auto simp: handleExec_def intro!: returnsE_intros bad)
  from returnsE_D[OF this] Inr show ?thesis by (auto split: prod.split sum.split)
qed

section \<open>A leak that is not reported\<close>

text \<open>An outside in which Docker fails at everything and the directory of the job cannot be removed.\<close>

definition broken_outside :: "unit outside" where
  "broken_outside = \<lparr>
     ow_docker = (\<lambda>args i m wall w. (Inr \<lparr>dr_code = 1, dr_stdout = [], dr_stderr = [], dr_stdoutTruncated = False,
        dr_wallTimedOut = False, dr_ns = 0\<rparr>, w)),
     ow_fs = (\<lambda>op w. (case op of RmRecursive p \<Rightarrow> Inl ''EBUSY'' | _ \<Rightarrow> Inr (), w)),
     ow_readdir = (\<lambda>p w. (Inr [], w)),
     ow_mkdtemp = (\<lambda>p w. (Inr (p @ ''a1b2c3''), w)),
     ow_fetch = (\<lambda>u w. (Inl ''offline'', w)),
     ow_now = (\<lambda>w. (0, w)),
     ow_hex = (\<lambda>n w. (''0f0f0f0f0f0f'', w)),
     ow_utf8 = (\<lambda>t. map of_nat t),
     ow_text = (\<lambda>b. map unat b),
     ow_sha256 = (\<lambda>b. []),
     ow_url = (\<lambda>u. None)\<rparr>"

definition broken_deps :: "(unit, unit) worker_deps" where
  "broken_deps = \<lparr>wd_out = broken_outside,
     wd_runner = \<lparr>rn_runtime = ''runc'', rn_images = (\<lambda>_. ''image''),
       rn_policy = \<lparr>fp_allowedHosts = [], fp_allowHttp = False, fp_maxBytes = 0\<rparr>\<rparr>,
     wd_host = (), wd_workRoot = ''/tmp''\<rparr>"

definition small_job :: exec_job where
  "small_job = \<lparr>xj_jobId = NIL_UUID, xj_language = Python,
     xj_program = \<lparr>ps_files = [\<lparr>pf_path = ''a.py'', pf_ref = InlineRef []\<rparr>], ps_driver = None, ps_entry = Some ''a.py''\<rparr>,
     xj_sanitize = False, xj_cases = [\<lparr>xc_name = ''t1'', xc_group = None, xc_stdin = InlineRef [], xc_expected = None\<rparr>],
     xj_comparator = Exact,
     xj_limits = \<lparr>li_wallMsPerCase = 2000, li_memoryMb = 512, li_pids = 64, li_outputBytes = 1024\<rparr>, xj_budgetMs = 120000\<rparr>"

text \<open>
  C18. When the directory of a job cannot be removed, \<open>handleExec\<close> throws, although its comment says that every error
  becomes a result, and a container that is still there is not reported: its slot is not put aside.
\<close>

theorem leak_unreported:
  "case handleExec broken_deps None (Inr small_job) None (start_state ()) of
     (r, s) \<Rightarrow> r = Inl (FsFailed ''EBUSY'') \<and> alive (js_calls s) = [''cine-0f0f0f0f0f0f''] \<and> js_reported s = []"
proof -
  note steps = bindE_def thenE_def catchE_def finallyE_def retE_def throwE_def requireE_def whenE_def forE_def
    outside_value_def outside_call_def fs_def docker_run_def leak_def report_leaks_def
  have out: "ow_docker broken_outside args i m l v = (Inr \<lparr>dr_code = 1, dr_stdout = [], dr_stderr = [], dr_stdoutTruncated = False,
        dr_wallTimedOut = False, dr_ns = 0\<rparr>, v)"
    "ow_fs broken_outside op v = (case op of RmRecursive p \<Rightarrow> Inl ''EBUSY'' | _ \<Rightarrow> Inr (), v)"
    "ow_mkdtemp broken_outside p v = (Inr (p @ ''a1b2c3''), v)" "ow_now broken_outside v = (0, v)"
    "ow_hex broken_outside n v = (''0f0f0f0f0f0f'', v)" "ow_text broken_outside b = map unat b"
    for args i m l v op p n b
    by (simp_all add: broken_outside_def)
  have r: "removeContainer broken_outside n s = (Inr (), s\<lparr>js_calls := js_calls s @ [\<lparr>dc_args = [''rm'', ''-f'', n], dc_stdin = None, dc_ok = False\<rparr>],
      js_leaked := js_leaked s @ [n]\<rparr>)" for n and s :: "unit job_state"
    by (simp add: removeContainer_def steps out)
  have w: "writeProgram broken_outside d Python (xj_program small_job) p s = (Inr ''a.py'', s)" for d p and s :: "unit job_state"
    by (simp add: writeProgram_def steps out small_job_def put_file_def ensureDir_def materialize_def Let_def)
  have c: "compile broken_outside env Python a b False None [] s =
      (Inr \<lparr>cp_ok = False, cp_log = CompileLog [], cp_ms = 0\<rparr>,
       s\<lparr>js_calls := js_calls s @ [\<lparr>dc_args = runArgs (compile_spec env Python a b False None [] ''cine-0f0f0f0f0f0f''), dc_stdin = None, dc_ok = False\<rparr>,
           \<lparr>dc_args = [''rm'', ''-f'', ''cine-0f0f0f0f0f0f''], dc_stdin = None, dc_ok = False\<rparr>],
         js_leaked := js_leaked s @ [''cine-0f0f0f0f0f0f'']\<rparr>)" for env a b and s :: "unit job_state"
    unfolding compile_def
    by (simp add: steps r containerName_def out isDockerFailure_def)
  have job: "xj_language small_job = Python" "xj_comparator small_job = Exact" "xj_sanitize small_job = False"
    by (simp_all add: small_job_def)
  have run: "alive_step \<lparr>dc_args = runArgs (compile_spec env Python a b False None [] n), dc_stdin = None, dc_ok = False\<rparr> names =
      names @ [n]" for env a b n names
    by (simp add: alive_step_run)
  show ?thesis
    by (simp add: handleExec_def exec_body_def broken_deps_def Let_def job steps out w c start_state_def)
      (simp add: alive_def run alive_step_rm)
qed

end
