(* ===== verification/HandleMeasure.thy ===== *)
theory HandleMeasure
  imports HandleExec Slots
begin

text \<open>
  \<open>sandbox-worker/handle-measure.ts\<close>: a job that measures a submission beside a reference. Each program has one
  container for the whole job, so the job checks after every sample that the submission left nothing behind,
  and removes its containers at the end. The inputs are fetched one after the other, where the code fetches
  them together; times of the clock are kept as numbers.
\<close>

section \<open>Reading Docker\<close>

definition BASELINE_RUNS :: nat where
  "BASELINE_RUNS = 5"

definition EXPECTED_PROCESSES :: nat where
  "EXPECTED_PROCESSES = 2"

definition GUARD_USER :: string where
  "GUARD_USER = user_of GUARD_UID"

definition SANDBOX_USER :: string where
  "SANDBOX_USER = user_of SANDBOX_UID"

definition IPC_CHECK :: "string list" where
  "IPC_CHECK = [''/bin/sh'', ''-c'',
     ''cat /proc/sysvipc/shm /proc/sysvipc/msg /proc/sysvipc/sem || exit 3; echo @@; ls -A /dev/mqueue || exit 4'']"

datatype ipc_state = IpcClean | IpcDirty | IpcUnreadable

text \<open>\<open>/^key\s+(shmid|msqid|semid)\b/\<close>\<close>

definition is_word :: "nat \<Rightarrow> bool" where
  "is_word c \<longleftrightarrow> (48 \<le> c \<and> c \<le> 57) \<or> (65 \<le> c \<and> c \<le> 90) \<or> (97 \<le> c \<and> c \<le> 122) \<or> c = 95"

definition is_ipc_head :: "utext \<Rightarrow> bool" where
  "is_ipc_head l \<longleftrightarrow> starts_with (units ''key'') l \<and>
     (let rest = drop 3 l; word = dropWhile is_ws rest in
      rest \<noteq> word \<and> take 5 word \<in> {units ''shmid'', units ''msqid'', units ''semid''} \<and>
      (case drop 5 word of [] \<Rightarrow> True | c # _ \<Rightarrow> \<not> is_word c))"

text \<open>The text before the first \<open>@@\<close> and the text after it.\<close>

fun cut_at :: "utext \<Rightarrow> utext \<Rightarrow> (utext \<times> utext) option" where
  "cut_at acc [] = None"
| "cut_at acc (c # cs) = (if take 2 (c # cs) = [64, 64] then Some (rev acc, drop 1 cs) else cut_at (c # acc) cs)"

definition ipcState :: "utext \<Rightarrow> ipc_state" where
  "ipcState t =
     (case cut_at [] t of
        None \<Rightarrow> IpcUnreadable
      | Some (before, after) \<Rightarrow>
          (let sysv = text_lines before; heads = filter is_ipc_head sysv in
           if length heads \<noteq> 3 then IpcUnreadable
           else if length heads < length sysv \<or> text_lines after \<noteq> [] then IpcDirty else IpcClean))"

datatype who = Submission | Reference

record timing =
  tm_ns :: rat
  tm_checksum :: "utext option"

text \<open>One line against \<open>/^CINE_T (\S+) (\d+) (\S+)$/\<close>: the nonce, the digits and the checksum.\<close>

definition timing_line :: "utext \<Rightarrow> (utext \<times> utext \<times> utext) option" where
  "timing_line l =
     (case split_on 32 l of
        [tag, nonce, ds, check] \<Rightarrow>
          if tag = units ''CINE_T'' \<and> nonce \<noteq> [] \<and> list_all (\<lambda>c. \<not> is_ws c) nonce \<and>
             ds \<noteq> [] \<and> list_all (\<lambda>c. 48 \<le> c \<and> c \<le> 57) ds \<and> check \<noteq> [] \<and> list_all (\<lambda>c. \<not> is_ws c) check
          then Some (nonce, ds, check) else None
      | _ \<Rightarrow> None)"

text \<open>The lines that \<open>^\<close> and \<open>$\<close> see under the flag \<open>m\<close>.\<close>

fun regex_lines :: "utext \<Rightarrow> utext list" where
  "regex_lines [] = [[]]"
| "regex_lines (c # cs) =
     (if is_line_end c then [] # regex_lines cs
      else (case regex_lines cs of [] \<Rightarrow> [[c]] | l # ls \<Rightarrow> (c # l) # ls))"

definition parseTiming :: "utext \<Rightarrow> utext \<Rightarrow> timing option" where
  "parseTiming stderr nonce =
     fold (\<lambda>l found. case timing_line l of
         Some (n, ds, check) \<Rightarrow>
           if n = nonce then Some \<lparr>tm_ns = fl (of_nat (number_of_digits (ascii ds))),
             tm_checksum = (if check = units ''-'' then None else Some (take 64 check))\<rparr>
           else found
       | None \<Rightarrow> found) (regex_lines stderr) None"

datatype timing_mode = InProcess | WholeProcess

definition timedCommand :: "language \<Rightarrow> timing_mode \<Rightarrow> string option \<Rightarrow> string list" where
  "timedCommand lang mode entry =
     (let target = (case lang of
          Cpp \<Rightarrow> [case entry of Some e \<Rightarrow> ''/work/'' @ e
                  | None \<Rightarrow> if mode = InProcess then ''/opt/cine/empty-timed'' else ''/opt/cine/empty'']
        | Python \<Rightarrow> [''/usr/local/bin/python3'', ''/opt/cine/cine_run.py'', case entry of Some e \<Rightarrow> ''/work/'' @ e
                  | None \<Rightarrow> if mode = InProcess then ''/opt/cine/empty_timed.py'' else ''/opt/cine/empty.py''])
      in if mode = WholeProcess then ''/opt/cine/cine-time'' # target else target)"

section \<open>The job\<close>

record measure_job =
  mj_jobId :: string
  mj_language :: language
  mj_timingMode :: timing_mode
  mj_submission :: program_spec
  mj_reference :: "program_spec option"
  mj_points :: "(nat \<times> file_ref) list"
  mj_repeats :: nat
  mj_limits :: job_limits
  mj_budgetMs :: int

record running =
  rg_who :: who
  rg_container :: string
  rg_entry :: string

record measure_sample =
  sa_program :: who
  sa_n :: nat
  sa_repeat :: nat
  sa_status :: case_status
  sa_innerNs :: "rat option"
  sa_outerNs :: nat
  sa_checksum :: "utext option"

datatype measure_abort = Interference | CompileError | OverBudget

record baseline_run =
  bl_program :: who
  bl_innerNs :: "rat option"
  bl_outerNs :: nat

record 'h measure_result =
  mr_jobId :: string
  mr_host :: 'h
  mr_slot :: "string option"
  mr_timingMode :: timing_mode
  mr_compile :: "(compiled \<times> compiled option) option"
  mr_baseline :: "baseline_run list"
  mr_samples :: "measure_sample list"
  mr_aborted :: "measure_abort option"
  mr_startedAt :: int
  mr_finishedAt :: int
  mr_unavailable :: "unavailable_reason option"

definition slotLabel :: "string option \<Rightarrow> string" where
  "slotLabel slot = (case slot of Some s \<Rightarrow> s | None \<Rightarrow> ''unpinned'')"

definition list_slot :: "'w outside \<Rightarrow> string option \<Rightarrow> ('w, string list) job" where
  "list_slot out slot =
     bindE (docker_run out [''ps'', ''-aq'', ''--filter'', ''label=cine.slot='' @ slotLabel slot] None 65536 30000) (\<lambda>r.
     thenE (requireE (dr_code r = 0) (PsFailed (take 300 (dr_stderr r))))
       (retE (map ascii (text_lines (ow_text out (dr_stdout r))))))"

definition ensureSlotFree :: "'w outside \<Rightarrow> string option \<Rightarrow> ('w, unit) job" where
  "ensureSlotFree out slot =
     bindE (list_slot out slot) (\<lambda>stale.
     if stale = [] then retE ()
     else thenE (forE (removeContainer out) stale)
       (bindE (list_slot out slot) (\<lambda>still. requireE (still = []) (SlotDirty still))))"

definition measure_spec ::
  "runner_env \<Rightarrow> measure_job \<Rightarrow> string \<Rightarrow> string \<Rightarrow> string option \<Rightarrow> nat \<Rightarrow> run_spec" where
  "measure_spec env job name workDir slot cpus =
     \<lparr>rs_name = name, rs_image = rn_images env (mj_language job),
      rs_hardening = \<lparr>hd_runtime = rn_runtime env, hd_cpuset = slot, hd_cpus = cpus, hd_memoryMb = li_memoryMb (mj_limits job),
        hd_pids = li_pids (mj_limits job), hd_fsizeBytes = 67108864, hd_user = Some GUARD_USER, hd_tmpfs = Some False,
        hd_ipcNone = Some True, hd_labels = [(''cine.slot'', slotLabel slot)]\<rparr>,
      rs_mounts = [\<lparr>mt_source = workDir, mt_target = ''/work'', mt_readonly = True\<rparr>],
      rs_env = [], rs_interactive = False, rs_detach = True, rs_command = [''sleep'', ''infinity'']\<rparr>"

definition startContainer ::
  "'w outside \<Rightarrow> runner_env \<Rightarrow> measure_job \<Rightarrow> string \<Rightarrow> string \<Rightarrow> string option \<Rightarrow> ('w, unit) job" where
  "startContainer out env job name workDir slot =
     bindE (case slot of
              None \<Rightarrow> retE 1
            | Some s \<Rightarrow> if s = [] then retE 1 else (case cpusetSize s of Inl e \<Rightarrow> throwE BadSlot | Inr n \<Rightarrow> retE n)) (\<lambda>cpus.
     bindE (docker_run out (runArgs (measure_spec env job name workDir slot cpus)) None 4096 60000) (\<lambda>r.
     requireE (dr_code r = 0) (StartFailed (take 300 (dr_stderr r)))))"

text \<open>\<open>/No such (object|container)/i\<close>\<close>

fun no_such :: "utext \<Rightarrow> bool" where
  "no_such [] = False"
| "no_such (c # cs) = (scan_lit (units ''No such object'') (c # cs) \<noteq> None \<or>
     scan_lit (units ''No such container'') (c # cs) \<noteq> None \<or> no_such cs)"

definition isRunning :: "'w outside \<Rightarrow> string \<Rightarrow> ('w, bool) job" where
  "isRunning out container =
     bindE (docker_run out [''inspect'', ''--format'', ''{{.State.Running}}'', container] None 64 30000) (\<lambda>r.
     thenE (requireE (dr_code r = 0 \<or> no_such (dr_stderr r)) (InspectFailed (take 300 (dr_stderr r))))
       (retE (dr_code r = 0 \<and> trim_by is_ws (ow_text out (dr_stdout r)) = units ''true'')))"

definition isClean :: "'w outside \<Rightarrow> string \<Rightarrow> ('w, bool) job" where
  "isClean out container =
     bindE (docker_run out [''top'', container] None 65536 30000) (\<lambda>r.
     if dr_code r \<noteq> 0 then
       bindE (isRunning out container) (\<lambda>up. if up then throwE (TopFailed (take 300 (dr_stderr r))) else retE False)
     else
       let rows = filter (\<lambda>l. trim_by is_ws l \<noteq> []) (split_on 10 (ow_text out (dr_stdout r))) in
       if int EXPECTED_PROCESSES < int (length rows) - 1 then retE False
       else bindE (docker_run out ([''exec'', ''--user'', GUARD_USER, container] @ IPC_CHECK) None 65536 30000) (\<lambda>ipc.
         if dr_code ipc \<noteq> 0 then
           bindE (isRunning out container) (\<lambda>up. if \<not> up then retE False else throwE (IpcFailed (take 300 (dr_stderr ipc))))
         else (case ipcState (ow_text out (dr_stdout ipc)) of
             IpcUnreadable \<Rightarrow> throwE IpcUnknown
           | st \<Rightarrow> retE (st = IpcClean))))"

text \<open>The fields of a sample that its run gives: status, inner and outer time, checksum.\<close>

definition sample ::
  "'w outside \<Rightarrow> measure_job \<Rightarrow> running \<Rightarrow> bytes option \<Rightarrow>
   ('w, case_status \<times> rat option \<times> nat \<times> utext option) job" where
  "sample out job p stdin =
     bindE (outside_value (ow_hex out 8)) (\<lambda>nonce.
     let command = timeoutCommand (li_wallMsPerCase (mj_limits job))
           (timedCommand (mj_language job) (mj_timingMode job) (if stdin = None then None else Some (rg_entry p))) in
     bindE (docker_run out (execArgs (rg_container p) [(''CINE_TIMING_NONCE'', nonce)] (Some SANDBOX_USER) command) stdin 65536
         (li_wallMsPerCase (mj_limits job) + DOCKER_SLACK_MS)) (\<lambda>r.
     thenE (requireE (\<not> dr_wallTimedOut r) SampleSilent)
    (thenE (if isDockerFailure (dr_code r) (dr_stderr r)
            then bindE (isRunning out (rg_container p)) (\<lambda>up.
                 thenE (requireE up ContainerGone)
                   (bindE (docker_run out [''exec'', rg_container p, ''true''] None 1024 30000) (\<lambda>probe.
                    requireE (dr_code probe = 0) (SampleDocker (take 300 (dr_stderr r))))))
            else retE ())
    (let c = classifyExit (dr_code r) None (dr_stdoutTruncated r) (mj_language job) (dr_ns r div 1000000)
               (li_wallMsPerCase (mj_limits job));
         timing = (if fst c = Ran then parseTiming (dr_stderr r) (units nonce) else None);
         text = take 64 (trim_by is_ws (ow_text out (dr_stdout r)));
         stdoutChecksum = (if mj_timingMode job = WholeProcess \<and> text \<noteq> [] then Some text else None)
     in retE (fst c, map_option tm_ns timing, dr_ns r,
          case timing of Some t \<Rightarrow> (case tm_checksum t of Some k \<Rightarrow> Some k | None \<Rightarrow> stdoutChecksum)
          | None \<Rightarrow> stdoutChecksum)))))"

section \<open>The measurements\<close>

definition over_budget :: "'w outside \<Rightarrow> measure_job \<Rightarrow> int \<Rightarrow> ('w, bool) job" where
  "over_budget out job t0 = bindE (outside_value (ow_now out)) (\<lambda>t. retE (mj_budgetMs job < t - t0))"

text \<open>The empty program, \<open>BASELINE_RUNS\<close> times for each program.\<close>

definition warmup_schedule :: "running list \<Rightarrow> running list" where
  "warmup_schedule ps = concat (map (replicate BASELINE_RUNS) ps)"

fun warmup :: "'w outside \<Rightarrow> measure_job \<Rightarrow> int \<Rightarrow> running list \<Rightarrow> baseline_run list \<Rightarrow>
    ('w, baseline_run list \<times> measure_abort option) job" where
  "warmup out job t0 [] acc = retE (acc, None)"
| "warmup out job t0 (p # ps) acc =
     bindE (over_budget out job t0) (\<lambda>late.
     if late then retE (acc, Some OverBudget)
     else bindE (sample out job p None) (\<lambda>(status, inner, outer, checksum).
       warmup out job t0 ps (acc @ [\<lparr>bl_program = rg_who p, bl_innerNs = inner, bl_outerNs = outer\<rparr>])))"

text \<open>The order of the samples: in every second repeat the reference goes first.\<close>

definition sample_schedule :: "nat \<Rightarrow> 'p list \<Rightarrow> running list \<Rightarrow> (nat \<times> 'p \<times> running) list" where
  "sample_schedule repeats points ps =
     concat (map (\<lambda>r. concat (map (\<lambda>pt. map (\<lambda>p. (r, pt, p)) (if even r then ps else rev ps)) points)) [0..<repeats])"

text \<open>One sample; an error of a container that is gone is the fault of the program in it.\<close>

definition one_sample :: "'w outside \<Rightarrow> measure_job \<Rightarrow> running \<Rightarrow> bytes \<Rightarrow>
    ('w, (case_status \<times> rat option \<times> nat \<times> utext option) option) job" where
  "one_sample out job p input =
     catchE (bindE (sample out job p (Some input)) (\<lambda>s. retE (Some s)))
       (\<lambda>e. if e = ContainerGone \<and> rg_who p = Submission then retE None
            else throwE (if e = ContainerGone then ReferenceGone else e))"

fun measuring :: "'w outside \<Rightarrow> measure_job \<Rightarrow> int \<Rightarrow> (nat \<times> (nat \<times> bytes) \<times> running) list \<Rightarrow> measure_sample list \<Rightarrow>
    ('w, measure_sample list \<times> measure_abort option) job" where
  "measuring out job t0 [] acc = retE (acc, None)"
| "measuring out job t0 ((r, (n, input), p) # todo) acc =
     bindE (over_budget out job t0) (\<lambda>late.
     if late then retE (acc, Some OverBudget)
     else bindE (one_sample out job p input) (\<lambda>s.
       (case s of
          None \<Rightarrow> retE (acc, Some Interference)
        | Some (status, inner, outer, checksum) \<Rightarrow>
            (let acc' = acc @ [\<lparr>sa_program = rg_who p, sa_n = n, sa_repeat = r, sa_status = status, sa_innerNs = inner,
                               sa_outerNs = outer, sa_checksum = checksum\<rparr>] in
             bindE (isClean out (rg_container p)) (\<lambda>clean.
             if clean then measuring out job t0 todo acc'
             else if rg_who p = Reference then throwE ReferenceLeftovers
             else retE (acc', Some Interference))))))"

section \<open>The programs\<close>

definition keep_container :: "string \<Rightarrow> ('w, unit) job" where
  "keep_container name = (\<lambda>s. (Inr (), s\<lparr>js_containers := js_containers s @ [name]\<rparr>))"

text \<open>
  The loop over the programs: the compilations and the containers so far, or \<open>Inl\<close> the compilation of a
  submission that failed.
\<close>

fun prepare :: "('w, 'h) worker_deps \<Rightarrow> measure_job \<Rightarrow> string \<Rightarrow> string option \<Rightarrow> (who \<times> program_spec) list \<Rightarrow>
    (who \<times> compiled) list \<Rightarrow> running list \<Rightarrow> ('w, compiled + (who \<times> compiled) list \<times> running list) job" where
  "prepare d job dir slot [] infos ps = retE (Inr (infos, ps))"
| "prepare d job dir slot ((who, spec) # todo) infos ps =
     (let name = (if who = Submission then ''submission'' else ''reference'');
          src = path_join dir [name @ ''-src'']; bin = path_join dir [name @ ''-bin''] in
      bindE (writeProgram (wd_out d) src (mj_language job) spec (rn_policy (wd_runner d))) (\<lambda>entry.
      bindE (compile (wd_out d) (wd_runner d) (mj_language job) src bin False slot [(''cine.slot'', slotLabel slot)]) (\<lambda>info.
      if \<not> cp_ok info then (if who = Reference then throwE ReferenceNotCompiled else retE (Inl info))
      else bindE (containerName (wd_out d)) (\<lambda>container.
        thenE (keep_container container)
       (thenE (startContainer (wd_out d) (wd_runner d) job container (if mj_language job = Cpp then bin else src) slot)
         (prepare d job dir slot todo (infos @ [(who, info)])
            (ps @ [\<lparr>rg_who = who, rg_container = container, rg_entry = entry\<rparr>])))))))"

definition measure_programs :: "measure_job \<Rightarrow> (who \<times> program_spec) list" where
  "measure_programs job = (Submission, mj_submission job) #
     (case mj_reference job of Some r \<Rightarrow> [(Reference, r)] | None \<Rightarrow> [])"

fun fetch_inputs :: "('w, 'h) worker_deps \<Rightarrow> (nat \<times> file_ref) list \<Rightarrow> ('w, (nat \<times> bytes) list) job" where
  "fetch_inputs d [] = retE []"
| "fetch_inputs d ((n, ref) # pts) =
     bindE (materialize (wd_out d) ref (rn_policy (wd_runner d))) (\<lambda>b.
     bindE (fetch_inputs d pts) (\<lambda>rest. retE ((n, b) # rest)))"

definition measure_result_of ::
  "('w, 'h) worker_deps \<Rightarrow> measure_job \<Rightarrow> string option \<Rightarrow> int \<Rightarrow> compiled \<times> compiled option \<Rightarrow> baseline_run list \<Rightarrow>
   measure_sample list \<Rightarrow> measure_abort option \<Rightarrow> ('w, 'h measure_result) job" where
  "measure_result_of d job slot startedAt info baseline samples aborted =
     bindE (outside_value (ow_now (wd_out d))) (\<lambda>t.
     retE \<lparr>mr_jobId = mj_jobId job, mr_host = wd_host d, mr_slot = slot, mr_timingMode = mj_timingMode job,
           mr_compile = Some info, mr_baseline = baseline, mr_samples = samples, mr_aborted = aborted,
           mr_startedAt = startedAt, mr_finishedAt = t, mr_unavailable = None\<rparr>)"

definition measure_body ::
  "('w, 'h) worker_deps \<Rightarrow> measure_job \<Rightarrow> string \<Rightarrow> string option \<Rightarrow> int \<Rightarrow> int \<Rightarrow> ('w, 'h measure_result) job" where
  "measure_body d job dir slot t0 startedAt =
     thenE (fs (wd_out d) (Chmod dir 493))
    (thenE (ensureSlotFree (wd_out d) slot)
    (bindE (prepare d job dir slot (measure_programs job) [] []) (\<lambda>prepared.
     case prepared of
       Inl info \<Rightarrow> measure_result_of d job slot startedAt (info, None) [] [] (Some CompileError)
     | Inr (infos, ps) \<Rightarrow>
         bindE (fetch_inputs d (mj_points job)) (\<lambda>points.
         bindE (warmup (wd_out d) job t0 (warmup_schedule ps) []) (\<lambda>(baseline, stopped).
         bindE (if stopped = None then measuring (wd_out d) job t0 (sample_schedule (mj_repeats job) points ps) []
                else retE ([], stopped)) (\<lambda>(samples, aborted).
         measure_result_of d job slot startedAt (snd (hd infos), map_option snd (find (\<lambda>i. fst i = Reference) infos))
           baseline samples aborted))))))"

definition unavailableMeasure :: "string \<Rightarrow> unavailable_reason \<Rightarrow> 'h \<Rightarrow> int \<Rightarrow> 'h measure_result" where
  "unavailableMeasure i reason host t = \<lparr>mr_jobId = i, mr_host = host, mr_slot = None, mr_timingMode = InProcess,
     mr_compile = None, mr_baseline = [], mr_samples = [], mr_aborted = None, mr_startedAt = t, mr_finishedAt = t,
     mr_unavailable = Some reason\<rparr>"

text \<open>\<open>for (const c of containers) await removeContainer(runner, c)\<close>\<close>

definition remove_kept :: "'w outside \<Rightarrow> ('w, unit) job" where
  "remove_kept out = (\<lambda>s. forE (removeContainer out) (js_containers s) s)"

definition handleMeasure ::
  "('w, 'h) worker_deps \<Rightarrow> string option \<Rightarrow> string + measure_job \<Rightarrow> string option \<Rightarrow> ('w, 'h measure_result) job" where
  "handleMeasure d raw_id parsed slot =
     (case parsed of
        Inl message \<Rightarrow> bindE (outside_value (ow_now (wd_out d))) (\<lambda>t.
          retE (unavailableMeasure (jobIdOf raw_id) (BadSchema message) (wd_host d) t))
      | Inr job \<Rightarrow>
          bindE (outside_value (ow_now (wd_out d))) (\<lambda>t0.
          bindE (outside_value (ow_now (wd_out d))) (\<lambda>startedAt.
          bindE (outside_call (ow_mkdtemp (wd_out d) (path_join (wd_workRoot d) [''measure-''])) FsFailed) (\<lambda>dir.
          finallyE
            (catchE (measure_body d job dir slot t0 startedAt)
               (\<lambda>e. bindE (outside_value (ow_now (wd_out d))) (\<lambda>t.
                  retE ((unavailableMeasure (mj_jobId job) (Broken e) (wd_host d) t)
                    \<lparr>mr_slot := slot, mr_timingMode := mj_timingMode job, mr_startedAt := startedAt\<rparr>))))
            (thenE (remove_kept (wd_out d)) (thenE (fs (wd_out d) (RmRecursive dir)) report_leaks))))))"

end
