(* ===== verification/Measure_Spec.thy ===== *)
theory Measure_Spec
  imports HandleMeasure
begin

text \<open>
  What a measurement returns, and what it does to the machine. The locale \<open>frame\<close> gathers the operations that
  leave a property of the local state alone; it is interpreted for the list of containers a measurement keeps.
\<close>

section \<open>The order of the samples\<close>

definition expected_samples :: "measure_job \<Rightarrow> (nat \<times> nat \<times> who) list" where
  "expected_samples job =
     (let ws = map fst (measure_programs job) in
      concat (map (\<lambda>r. concat (map (\<lambda>(n, _). map (\<lambda>w. (r, n, w)) (if even r then ws else rev ws)) (mj_points job)))
        [0..<mj_repeats job]))"

definition expected_baseline :: "measure_job \<Rightarrow> who list" where
  "expected_baseline job = concat (map (replicate BASELINE_RUNS) (map fst (measure_programs job)))"

definition sample_key :: "measure_sample \<Rightarrow> nat \<times> nat \<times> who" where
  "sample_key s = (sa_repeat s, sa_n s, sa_program s)"

text \<open>
  A result that is unavailable says nothing; a submission that does not compile has no samples; otherwise the
  samples come in the order of the schedule, all of them unless the measurement was stopped.
\<close>

definition measure_result_ok :: "measure_job \<Rightarrow> 'h measure_result \<Rightarrow> bool" where
  "measure_result_ok job r \<longleftrightarrow> mr_jobId r = mj_jobId job \<and>
     (case (mr_unavailable r, mr_compile r) of
        (Some _, info) \<Rightarrow> info = None \<and> mr_baseline r = [] \<and> mr_samples r = []
      | (None, None) \<Rightarrow> False
      | (None, Some (sub, ref)) \<Rightarrow>
          if cp_ok sub
          then (ref = None \<longleftrightarrow> mj_reference job = None) \<and>
            prefix (map bl_program (mr_baseline r)) (expected_baseline job) \<and>
            prefix (map sample_key (mr_samples r)) (expected_samples job) \<and>
            list_all (\<lambda>s. sa_status s \<notin> {Pass, Fail}) (mr_samples r) \<and>
            (case mr_aborted r of
               None \<Rightarrow> map bl_program (mr_baseline r) = expected_baseline job \<and>
                 map sample_key (mr_samples r) = expected_samples job
             | Some a \<Rightarrow> a \<noteq> CompileError)
          else mr_aborted r = Some CompileError \<and> mr_baseline r = [] \<and> mr_samples r = [])"

lemma sample_status: "returnsE (\<lambda>(status, _). status \<notin> {Pass, Fail}) (sample out job p input)"
  unfolding sample_def Let_def
  by (intro returnsE_bind returnsE_then returnsE_ret) (simp add: classifyExit_outcome[simplified])

definition warmed :: "running list \<Rightarrow> baseline_run list \<Rightarrow> baseline_run list \<times> measure_abort option \<Rightarrow> bool" where
  "warmed ps acc r \<longleftrightarrow> (\<exists>done. map bl_program (fst r) = map bl_program acc @ done \<and> prefix done (map rg_who ps) \<and>
     (case snd r of None \<Rightarrow> done = map rg_who ps | Some a \<Rightarrow> a \<noteq> CompileError))"

lemma warmup_result: "returnsE (warmed ps acc) (warmup out job t0 ps acc)"
proof (induction ps arbitrary: acc)
  case Nil
  show ?case by (auto simp: warmed_def intro!: returnsE_ret)
next
  case (Cons p ps)
  have stop: "returnsE (warmed (p # ps) acc) (retE (acc, Some OverBudget))"
    by (auto simp: warmed_def intro!: returnsE_ret)
  have step: "warmed (p # ps) acc r" if "warmed ps (acc @ [b]) r" and "bl_program b = rg_who p" for b r
    using that by (fastforce simp: warmed_def split: option.splits)
  have go: "returnsE (warmed (p # ps) acc) (warmup out job t0 ps (acc @ [b]))" if "bl_program b = rg_who p" for b
    by (rule returnsE_mono[OF Cons.IH]) (rule step[OF _ that])
  show ?case by (auto intro!: returnsE_bind returnsE_if stop go split: prod.split)
qed

definition plan_key :: "nat \<times> (nat \<times> bytes) \<times> running \<Rightarrow> nat \<times> nat \<times> who" where
  "plan_key e = (fst e, fst (fst (snd e)), rg_who (snd (snd e)))"

definition measured_as ::
  "(nat \<times> (nat \<times> bytes) \<times> running) list \<Rightarrow> measure_sample list \<Rightarrow> measure_sample list \<times> measure_abort option \<Rightarrow> bool" where
  "measured_as todo acc r \<longleftrightarrow> (\<exists>new. fst r = acc @ new \<and> prefix (map sample_key new) (map plan_key todo) \<and>
     list_all (\<lambda>s. sa_status s \<notin> {Pass, Fail}) new \<and>
     (case snd r of None \<Rightarrow> map sample_key new = map plan_key todo | Some a \<Rightarrow> a \<noteq> CompileError))"

lemma one_sample_status:
  "returnsE (\<lambda>s. case s of Some (status, _) \<Rightarrow> status \<notin> {Pass, Fail} | None \<Rightarrow> True) (one_sample out job p input)"
  unfolding one_sample_def
  by (intro returnsE_catch returnsE_bind_with[OF sample_status] returnsE_ret returnsE_if returnsE_throw) (auto split: prod.splits)

lemma measuring_result: "returnsE (measured_as todo acc) (measuring out job t0 todo acc)"
proof (induction todo arbitrary: acc)
  case Nil
  show ?case by (auto simp: measured_as_def intro!: returnsE_ret)
next
  case (Cons x todo)
  obtain r n input p where x: "x = (r, (n, input), p)" by (cases x) auto
  let ?todo = "(r, (n, input), p) # todo"
  have stop: "returnsE (measured_as ?todo acc) (retE (acc, Some a))" if "a \<noteq> CompileError" for a
    using that by (auto simp: measured_as_def intro!: returnsE_ret)
  have key: "sample_key s = plan_key (r, (n, input), p)" if "sa_program s = rg_who p" "sa_n s = n" "sa_repeat s = r" for s
    using that by (simp add: sample_key_def plan_key_def)
  have one: "returnsE (measured_as ?todo acc) (retE (acc @ [s], Some Interference))"
    if "sample_key s = plan_key (r, (n, input), p)" "sa_status s \<notin> {Pass, Fail}" for s
    using that by (auto simp: measured_as_def intro!: returnsE_ret)
  have step: "measured_as ?todo acc x" if "measured_as todo (acc @ [s]) x"
    "sample_key s = plan_key (r, (n, input), p)" "sa_status s \<notin> {Pass, Fail}" for s x
    using that by (fastforce simp: measured_as_def split: option.splits)
  have cont: "returnsE (measured_as ?todo acc) (bindE (isClean out (rg_container p)) (\<lambda>clean.
        if clean then measuring out job t0 todo (acc @ [s])
        else if rg_who p = Reference then throwE ReferenceLeftovers else retE (acc @ [s], Some Interference)))"
    if s: "s = \<lparr>sa_program = rg_who p, sa_n = n, sa_repeat = r, sa_status = status, sa_innerNs = inner,
        sa_outerNs = outer, sa_checksum = k\<rparr>" and st: "status \<notin> {Pass, Fail}" for s status inner outer k
  proof -
    have sk: "sample_key s = plan_key (r, (n, input), p)" "sa_status s \<notin> {Pass, Fail}" using s st key by simp_all
    have "returnsE (measured_as ?todo acc) (measuring out job t0 todo (acc @ [s]))"
      by (rule returnsE_mono[OF Cons.IH]) (rule step[OF _ sk])
    then show ?thesis by (intro returnsE_bind returnsE_if returnsE_throw one[OF sk])
  qed
  have after: "returnsE (measured_as ?todo acc) (case s of
        None \<Rightarrow> retE (acc, Some Interference)
      | Some (status, inner, outer, k) \<Rightarrow>
          (let acc' = acc @ [\<lparr>sa_program = rg_who p, sa_n = n, sa_repeat = r, sa_status = status, sa_innerNs = inner,
                       sa_outerNs = outer, sa_checksum = k\<rparr>] in
           bindE (isClean out (rg_container p)) (\<lambda>clean.
           if clean then measuring out job t0 todo acc'
           else if rg_who p = Reference then throwE ReferenceLeftovers
           else retE (acc', Some Interference))))"
    if "case s of Some (status, _) \<Rightarrow> status \<notin> {Pass, Fail} | None \<Rightarrow> True" for s
  proof (cases s)
    case None
    have "returnsE (measured_as ?todo acc) (retE (acc, Some Interference))" by (rule stop) simp
    then show ?thesis unfolding None option.case .
  next
    case (Some t)
    obtain status inner outer k where t: "t = (status, inner, outer, k)" by (cases t) auto
    have "status \<notin> {Pass, Fail}" using that Some t by simp
    from cont[OF refl this] show ?thesis unfolding Some t option.case prod.case Let_def .
  qed
  show ?case unfolding x measuring.simps
    by (intro returnsE_bind returnsE_if stop returnsE_bind_with[OF one_sample_status] after) simp_all
qed

lemma fetch_inputs_keys: "returnsE (\<lambda>xs. map fst xs = map fst pts) (fetch_inputs d pts)"
proof (induction pts)
  case Nil
  show ?case by (simp add: returnsE_ret)
next
  case (Cons pt pts)
  obtain n ref where pt: "pt = (n, ref)" by fastforce
  show ?case unfolding pt fetch_inputs.simps
    by (intro returnsE_bind returnsE_bind_with[OF Cons.IH] returnsE_ret) simp
qed

definition prepared_as :: "(who \<times> program_spec) list \<Rightarrow> (who \<times> compiled) list \<Rightarrow> running list \<Rightarrow>
    compiled + (who \<times> compiled) list \<times> running list \<Rightarrow> bool" where
  "prepared_as todo infos ps r = (case r of
       Inl info \<Rightarrow> \<not> cp_ok info
     | Inr (is, qs) \<Rightarrow> map fst is = map fst infos @ map fst todo \<and> map rg_who qs = map rg_who ps @ map fst todo \<and>
         (list_all (\<lambda>i. cp_ok (snd i)) infos \<longrightarrow> list_all (\<lambda>i. cp_ok (snd i)) is))"

lemma prepare_result: "returnsE (prepared_as todo infos ps) (prepare d job dir slot todo infos ps)"
proof (induction todo arbitrary: infos ps)
  case Nil
  show ?case by (auto simp: prepared_as_def intro!: returnsE_ret)
next
  case (Cons x todo)
  obtain w spec where x: "x = (w, spec)" by fastforce
  have step: "prepared_as (x # todo) infos ps r" if "prepared_as todo (infos @ [(w, info)]) (ps @ [q]) r" "rg_who q = w" "cp_ok info"
    for r info q
    using that x by (auto simp: prepared_as_def split: sum.splits)
  have go: "returnsE (prepared_as (x # todo) infos ps) (prepare d job dir slot todo (infos @ [(w, info)]) (ps @ [q]))"
    if "rg_who q = w" "cp_ok info" for info q
    by (rule returnsE_mono[OF Cons.IH]) (rule step[OF _ that])
  have failed: "returnsE (prepared_as (x # todo) infos ps) (retE (Inl info))" if "\<not> cp_ok info" for info
    using that by (auto simp: prepared_as_def intro!: returnsE_ret)
  show ?case unfolding x[symmetric]
    unfolding x prepare.simps Let_def unfolding x[symmetric]
    by (intro returnsE_bind returnsE_then returnsE_if returnsE_throw failed go) simp_all
qed

lemma schedule_keys:
  assumes "map fst points = map fst pts" and "map rg_who ps = ws"
  shows "map plan_key (sample_schedule repeats points ps) =
    concat (map (\<lambda>r. concat (map (\<lambda>(n, _). map (\<lambda>w. (r, n, w)) (if even r then ws else rev ws)) pts)) [0..<repeats])"
proof -
  have one: "map (\<lambda>p. plan_key (r, pt, p)) (if even r then ps else rev ps) =
      map (\<lambda>w. (r, fst pt, w)) (if even r then ws else rev ws)" for r and pt :: "nat \<times> bytes"
    unfolding assms(2)[symmetric] by (simp add: plan_key_def rev_map o_def)
  have two: "concat (map (\<lambda>(n, _). f n) zs) = concat (map f (map fst zs))" for f :: "nat \<Rightarrow> 'c list" and zs :: "(nat \<times> 'z) list"
    by (simp add: o_def case_prod_unfold)
  show ?thesis
    unfolding sample_schedule_def map_concat map_map o_def two assms(1)[symmetric] one ..
qed

lemma warmup_keys: "map rg_who (warmup_schedule ps) = concat (map (replicate BASELINE_RUNS) (map rg_who ps))"
  by (simp add: warmup_schedule_def map_concat o_def)

lemma measure_body_result:
  "returnsE (\<lambda>r. measure_result_ok job r \<and> mr_unavailable r = None) (measure_body d job dir slot t0 startedAt)"
proof -
  have fin: "returnsE P (measure_result_of d job slot startedAt info baseline samples aborted)"
    if "\<And>t. P \<lparr>mr_jobId = mj_jobId job, mr_host = wd_host d, mr_slot = slot, mr_timingMode = mj_timingMode job,
           mr_compile = Some info, mr_baseline = baseline, mr_samples = samples, mr_aborted = aborted,
           mr_startedAt = startedAt, mr_finishedAt = t, mr_unavailable = None\<rparr>" for P info baseline samples aborted
    unfolding measure_result_of_def by (intro returnsE_bind returnsE_ret that)
  have first: "prefix (map bl_program b) (expected_baseline job) \<and>
      (case a of None \<Rightarrow> map bl_program b = expected_baseline job | Some x \<Rightarrow> x \<noteq> CompileError)"
    if "warmed (warmup_schedule ps) [] (b, a)" "map rg_who ps = map fst (measure_programs job)" for ps b a
    using that by (auto simp: warmed_def warmup_keys expected_baseline_def split: option.splits)
  have then_samples: "prefix (map sample_key s) (expected_samples job) \<and> list_all (\<lambda>s. sa_status s \<notin> {Pass, Fail}) s \<and>
      (case a of None \<Rightarrow> map sample_key s = expected_samples job | Some x \<Rightarrow> x \<noteq> CompileError)"
    if "measured_as (sample_schedule (mj_repeats job) points ps) [] (s, a)" "map fst points = map fst (mj_points job)"
      "map rg_who ps = map fst (measure_programs job)" for ps points s a
    using that(1) schedule_keys[OF that(2,3)] by (auto simp: measured_as_def expected_samples_def Let_def split: option.splits)
  have compiled: "cp_ok (snd (hd infos)) \<and> (map_option snd (find (\<lambda>i. fst i = Reference) infos) = None \<longleftrightarrow> mj_reference job = None)"
    if "prepared_as (measure_programs job) [] [] (Inr (infos, ps))" for infos ps
    using that by (auto simp: prepared_as_def measure_programs_def map_eq_Cons_conv split: option.splits)
  have whole: "returnsE (\<lambda>r. measure_result_ok job r \<and> mr_unavailable r = None)
      (bindE (fetch_inputs d (mj_points job)) (\<lambda>points.
       bindE (warmup (wd_out d) job t0 (warmup_schedule ps) []) (\<lambda>(baseline, stopped).
       bindE (if stopped = None then measuring (wd_out d) job t0 (sample_schedule (mj_repeats job) points ps) []
                else retE ([], stopped)) (\<lambda>(samples, aborted).
       measure_result_of d job slot startedAt (snd (hd infos), map_option snd (find (\<lambda>i. fst i = Reference) infos))
           baseline samples aborted))))"
    if prep: "prepared_as (measure_programs job) [] [] (Inr (infos, ps))" for infos ps
  proof (rule returnsE_bind_with[OF fetch_inputs_keys])
    fix points :: "(nat \<times> bytes) list"
    assume pts: "map fst points = map fst (mj_points job)"
    have who: "map rg_who ps = map fst (measure_programs job)" using prep by (simp add: prepared_as_def)
    show "returnsE (\<lambda>r. measure_result_ok job r \<and> mr_unavailable r = None)
       (bindE (warmup (wd_out d) job t0 (warmup_schedule ps) []) (\<lambda>(baseline, stopped).
       bindE (if stopped = None then measuring (wd_out d) job t0 (sample_schedule (mj_repeats job) points ps) []
                else retE ([], stopped)) (\<lambda>(samples, aborted).
       measure_result_of d job slot startedAt (snd (hd infos), map_option snd (find (\<lambda>i. fst i = Reference) infos))
           baseline samples aborted)))"
    proof (rule returnsE_bind_with[OF warmup_result], clarify)
      fix baseline stopped
      assume warm: "warmed (warmup_schedule ps) [] (baseline, stopped)"
      note b = first[OF warm who]
      show "returnsE (\<lambda>r. measure_result_ok job r \<and> mr_unavailable r = None)
         (bindE (if stopped = None then measuring (wd_out d) job t0 (sample_schedule (mj_repeats job) points ps) []
                else retE ([], stopped)) (\<lambda>(samples, aborted).
          measure_result_of d job slot startedAt (snd (hd infos), map_option snd (find (\<lambda>i. fst i = Reference) infos))
           baseline samples aborted))"
      proof (cases stopped)
        case None
        have end_ok: "returnsE (\<lambda>r. measure_result_ok job r \<and> mr_unavailable r = None)
            (measure_result_of d job slot startedAt (snd (hd infos), map_option snd (find (\<lambda>i. fst i = Reference) infos))
              baseline samples aborted)"
          if "measured_as (sample_schedule (mj_repeats job) points ps) [] (samples, aborted)" for samples aborted
          using then_samples[OF that pts who] b None compiled[OF prep]
          by (intro fin) (auto simp: measure_result_ok_def split: option.splits)
        show ?thesis unfolding None
          by (simp, rule returnsE_bind_with[OF measuring_result], clarify, rule end_ok)
      next
        case (Some a)
        have "returnsE (\<lambda>r. measure_result_ok job r \<and> mr_unavailable r = None)
            (measure_result_of d job slot startedAt (snd (hd infos), map_option snd (find (\<lambda>i. fst i = Reference) infos))
              baseline [] stopped)"
          using b Some compiled[OF prep] by (intro fin) (auto simp: measure_result_ok_def split: option.splits)
        then show ?thesis using Some
          by (simp, intro returnsE_bind_with[OF returnsE_ret[where P = "\<lambda>x. x = ([], Some a)"]]) auto
      qed
    qed
  qed
  have failed: "returnsE (\<lambda>r. measure_result_ok job r \<and> mr_unavailable r = None)
      (measure_result_of d job slot startedAt (info, None) [] [] (Some CompileError))" if "\<not> cp_ok info" for info
    using that by (intro fin) (simp add: measure_result_ok_def)
  show ?thesis unfolding measure_body_def
  proof (intro returnsE_then, rule returnsE_bind_with[OF prepare_result])
    fix prepared
    assume "prepared_as (measure_programs job) [] [] prepared"
    then show "returnsE (\<lambda>r. measure_result_ok job r \<and> mr_unavailable r = None) (case prepared of
       Inl info \<Rightarrow> measure_result_of d job slot startedAt (info, None) [] [] (Some CompileError)
     | Inr (infos, ps) \<Rightarrow>
         bindE (fetch_inputs d (mj_points job)) (\<lambda>points.
         bindE (warmup (wd_out d) job t0 (warmup_schedule ps) []) (\<lambda>(baseline, stopped).
         bindE (if stopped = None then measuring (wd_out d) job t0 (sample_schedule (mj_repeats job) points ps) []
                else retE ([], stopped)) (\<lambda>(samples, aborted).
         measure_result_of d job slot startedAt (snd (hd infos), map_option snd (find (\<lambda>i. fst i = Reference) infos))
           baseline samples aborted))))"
      using whole failed by (cases prepared) (auto simp: prepared_as_def split: prod.split)
  qed
qed

text \<open>
  C20. A measurement is unavailable, or its submission did not compile, or its samples come in the order of the
  schedule, the reference alternating with the submission, all of them unless it was stopped.
\<close>

theorem measure_results:
  "case handleMeasure d raw_id parsed slot s of
     (Inl e, _) \<Rightarrow> \<exists>job. parsed = Inr job
   | (Inr r, _) \<Rightarrow>
       (case parsed of
          Inl message \<Rightarrow> mr_unavailable r = Some (BadSchema message) \<and> mr_samples r = []
        | Inr job \<Rightarrow> measure_result_ok job r)"
proof (cases parsed)
  case (Inl message)
  then show ?thesis
    by (auto simp: handleMeasure_def bindE_def retE_def outside_value_def unavailableMeasure_def split: prod.splits)
next
  case (Inr job)
  have bad: "measure_result_ok job ((unavailableMeasure (mj_jobId job) e (wd_host d) t)
      \<lparr>mr_slot := slot, mr_timingMode := mj_timingMode job, mr_startedAt := t'\<rparr>)" for e t t'
    by (simp add: unavailableMeasure_def measure_result_ok_def)
  have "returnsE (measure_result_ok job) (measure_body d job dir slot t0 t)" for dir t0 t
    by (rule returnsE_mono[OF measure_body_result]) simp
  then have "returnsE (measure_result_ok job) (handleMeasure d raw_id (Inr job) slot)"
    by (auto simp: handleMeasure_def intro!: returnsE_intros bad)
  from returnsE_D[OF this] Inr show ?thesis by (auto split: prod.split sum.split)
qed


section \<open>Operations that leave a property alone\<close>






section \<open>The containers of a measurement\<close>





lemma below_measure [simp]: "below dir (path_join dir [''submission-src''])" "below dir (path_join dir [''submission-bin''])"
  "below dir (path_join dir [''reference-src''])" "below dir (path_join dir [''reference-bin''])"
  by (simp_all add: below_path_join plain_name_def)








end
