(* ===== verification/AgentPaths.thy ===== *)
theory AgentPaths
  imports Envelope
begin

text \<open>
  Names and paths of the lab agent: the checks of \<open>workspace-files.ts\<close>, \<open>snapshot.ts\<close> and \<open>exam-materials.ts\<close>
  that decide where on the student's machine a name from the network may land. The functions of \<open>node:path\<close>
  are those of its POSIX half, and the first directory is absolute, as the controller makes it. The lemmas show
  that every accepted name stays in the directory it was checked against.
\<close>

section \<open>\<open>node:path\<close>\<close>

abbreviation slash :: nat where "slash \<equiv> 47"

abbreviation dot :: nat where "dot \<equiv> 46"

text \<open>One segment of a path: empty and \<open>.\<close> say nothing, \<open>..\<close> goes up.\<close>

definition path_step :: "utext \<Rightarrow> utext list \<Rightarrow> utext list" where
  "path_step seg acc = (if seg = [] \<or> seg = [dot] then acc else if seg = [dot, dot] then butlast acc else acc @ [seg])"

definition path_walk :: "utext list \<Rightarrow> utext list \<Rightarrow> utext list" where
  "path_walk acc segs = fold path_step segs acc"

definition isAbsolute :: "utext \<Rightarrow> bool" where
  "isAbsolute p = starts_with [slash] p"

text \<open>The segments of an absolute path, and the path with given segments.\<close>

definition path_parts :: "utext \<Rightarrow> utext list" where
  "path_parts p = path_walk [] (split_on slash p)"

definition path_of :: "utext list \<Rightarrow> utext" where
  "path_of parts = slash # join_with [slash] parts"

text \<open>\<open>path.resolve(dir, p)\<close>, and \<open>path.join(dir, name)\<close>, which keeps a trailing separator.\<close>

definition path_resolve :: "utext \<Rightarrow> utext \<Rightarrow> utext" where
  "path_resolve dir p = path_of (path_walk (if isAbsolute p then [] else path_parts dir) (split_on slash p))"

definition path_join :: "utext \<Rightarrow> utext \<Rightarrow> utext" where
  "path_join dir name =
     (let p = dir @ [slash] @ name; parts = path_parts p in
      path_of parts @ (if parts \<noteq> [] \<and> last p = slash then [slash] else []))"

definition drop_end :: "('a \<Rightarrow> bool) \<Rightarrow> 'a list \<Rightarrow> 'a list" where
  "drop_end P s = rev (dropWhile P (rev s))"

definition basename :: "utext \<Rightarrow> utext" where
  "basename p = last (split_on slash (drop_end (\<lambda>c. c = slash) p))"

text \<open>\<open>path.extname\<close> of a name without separators.\<close>

definition extname :: "utext \<Rightarrow> utext" where
  "extname name =
     (let r = rev name; front = dropWhile (\<lambda>c. c \<noteq> dot) r in
      if length front \<le> 1 \<or> name = [dot, dot] then []
      else dot # rev (takeWhile (\<lambda>c. c \<noteq> dot) r))"

text \<open>\<open>toLowerCase\<close> as far as it gives a letter of ASCII: the capital letters, and the Kelvin sign.\<close>

definition lower_unit :: "nat \<Rightarrow> nat" where
  "lower_unit c = (if 65 \<le> c \<and> c \<le> 90 then c + 32 else if c = 8490 then 107 else c)"

definition lower :: "utext \<Rightarrow> utext" where
  "lower s = map lower_unit s"

definition ends_with :: "'a list \<Rightarrow> 'a list \<Rightarrow> bool" where
  "ends_with e s = starts_with (rev e) (rev s)"

fun has_infix :: "'a list \<Rightarrow> 'a list \<Rightarrow> bool" where
  "has_infix p [] = (p = [])"
| "has_infix p (x # xs) = (starts_with p (x # xs) \<or> has_infix p xs)"

section \<open>Names\<close>

text \<open>\<open>SAFE_FILENAME_CHARSET_REGEX\<close>, \<open>/^[A-Za-z0-9_.-]+$/\<close>\<close>

definition safe_unit :: "nat \<Rightarrow> bool" where
  "safe_unit c \<longleftrightarrow> (65 \<le> c \<and> c \<le> 90) \<or> (97 \<le> c \<and> c \<le> 122) \<or> (48 \<le> c \<and> c \<le> 57) \<or> c = 95 \<or> c = 46 \<or> c = 45"

definition safe_charset :: "utext \<Rightarrow> bool" where
  "safe_charset s \<longleftrightarrow> s \<noteq> [] \<and> list_all safe_unit s"

definition windows_reserved_names :: "utext list" where
  "windows_reserved_names = map units
     [''con'', ''prn'', ''aux'', ''nul'',
      ''com1'', ''com2'', ''com3'', ''com4'', ''com5'', ''com6'', ''com7'', ''com8'', ''com9'',
      ''lpt1'', ''lpt2'', ''lpt3'', ''lpt4'', ''lpt5'', ''lpt6'', ''lpt7'', ''lpt8'', ''lpt9'']"

text \<open>Why \<open>validateFilename\<close> refuses a name; \<open>None\<close> is a value that is not a string.\<close>

datatype name_problem =
    NotAName "utext option"
  | HasSeparator utext
  | ClimbsUp utext
  | UnsafeCharacter utext
  | ReservedDevice utext
  | OutsideWorkspace utext utext

definition validateFilename :: "utext \<Rightarrow> utext option \<Rightarrow> name_problem + utext" where
  "validateFilename workspaceDir filename =
     (case filename of
        None \<Rightarrow> Inl (NotAName None)
      | Some name \<Rightarrow>
          if name = [] then Inl (NotAName (Some name))
          else if slash \<in> set name \<or> 92 \<in> set name then Inl (HasSeparator name)
          else if has_infix [dot, dot] name then Inl (ClimbsUp name)
          else if \<not> safe_charset name then Inl (UnsafeCharacter name)
          else if lower (hd (split_on dot name)) \<in> set windows_reserved_names then Inl (ReservedDevice name)
          else (let resolvedWorkspace = path_resolve [slash] workspaceDir;
                    resolvedTarget = path_resolve [slash] (path_join workspaceDir name) in
                if \<not> starts_with (resolvedWorkspace @ [slash]) resolvedTarget
                then Inl (OutsideWorkspace name resolvedTarget)
                else Inr resolvedTarget))"

definition isSafeForPathSegment :: "utext \<Rightarrow> bool" where
  "isSafeForPathSegment value \<longleftrightarrow> safe_charset value \<and> \<not> has_infix [dot, dot] value"

datatype archive_kind = ZipArchive | RarArchive

definition archiveKindOf :: "utext \<Rightarrow> archive_kind option" where
  "archiveKindOf filename =
     (let l = lower filename in
      if ends_with (units ''.zip'') l then Some ZipArchive
      else if ends_with (units ''.rar'') l then Some RarArchive
      else None)"

text \<open>\<open>resolveWithinWorkspace\<close> of \<open>snapshot.ts\<close>: where an entry of a backup may land.\<close>

definition has_drive_prefix :: "utext \<Rightarrow> bool" where
  "has_drive_prefix p \<longleftrightarrow>
     (case p of c # d # e # _ \<Rightarrow> ((65 \<le> c \<and> c \<le> 90) \<or> (97 \<le> c \<and> c \<le> 122)) \<and> d = 58 \<and> (e = 92 \<or> e = slash) | _ \<Rightarrow> False)"

definition resolveWithinWorkspace :: "utext \<Rightarrow> utext \<Rightarrow> utext option" where
  "resolveWithinWorkspace workspaceDir entryPath =
     (if entryPath = [] \<or> ends_with [slash] entryPath \<or> ends_with [92] entryPath then None
      else if isAbsolute entryPath \<or> has_drive_prefix entryPath then None
      else (let root = path_resolve [slash] workspaceDir; resolved = path_resolve root entryPath in
            if resolved = root \<or> starts_with (root @ [slash]) resolved then Some resolved else None))"

text \<open>\<open>resolveMaterialPath\<close> of \<open>exam-materials.ts\<close>\<close>

definition resolveMaterialPath :: "utext \<Rightarrow> utext \<Rightarrow> utext option" where
  "resolveMaterialPath materialsDir fileName =
     (let base = trim_by is_ws (basename fileName) in
      if base = [] \<or> base = [dot] \<or> base = [dot, dot] then None
      else (let root = path_resolve [slash] materialsDir; resolved = path_resolve root base in
            if starts_with (root @ [slash]) resolved then Some resolved else None))"

section \<open>Paths in normal form\<close>

text \<open>A segment that stays where it is put: not empty, not \<open>.\<close> or \<open>..\<close>, without a separator.\<close>

definition plain_part :: "utext \<Rightarrow> bool" where
  "plain_part p \<longleftrightarrow> p \<noteq> [] \<and> p \<noteq> [dot] \<and> p \<noteq> [dot, dot] \<and> slash \<notin> set p"

named_theorems path_simps \<open>paths and their segments\<close>

lemma split_on_append_sep [path_simps]: "split_on c (xs @ c # ys) = split_on c xs @ split_on c ys"
  by (induction xs) (auto split: list.splits)

lemma split_on_plain [path_simps]: "c \<notin> set p \<Longrightarrow> split_on c p = [p]"
  by (induction p) auto

lemma split_join_with [path_simps]:
  "ps \<noteq> [] \<Longrightarrow> \<forall>p \<in> set ps. c \<notin> set p \<Longrightarrow> split_on c (join_with [c] ps) = ps"
proof (induction "[c]" ps rule: join_with.induct)
  case (3 p q ps)
  then show ?case using split_on_append_sep[of c p "join_with [c] (q # ps)"] by (simp add: split_on_plain)
qed (simp_all add: split_on_plain)

lemma path_walk_simps [path_simps]:
  "path_walk acc [] = acc" "path_walk acc (s # ss) = path_walk (path_step s acc) ss"
  "path_walk acc (ss @ ts) = path_walk (path_walk acc ss) ts"
  by (simp_all add: path_walk_def)

lemma path_walk_plain: "list_all plain_part ps \<Longrightarrow> path_walk acc ps = acc @ ps"
  by (induction ps arbitrary: acc) (auto simp: path_simps path_step_def plain_part_def)

lemma path_step_plain: "list_all plain_part acc \<Longrightarrow> slash \<notin> set s \<Longrightarrow> list_all plain_part (path_step s acc)"
  by (auto simp: path_step_def plain_part_def list_all_iff dest: in_set_butlastD)

lemma path_walk_is_plain:
  "list_all plain_part acc \<Longrightarrow> \<forall>s \<in> set ss. slash \<notin> set s \<Longrightarrow> list_all plain_part (path_walk acc ss)"
  by (induction ss arbitrary: acc) (auto simp: path_simps path_step_plain)

lemma path_parts_plain: "list_all plain_part (path_parts p)"
  unfolding path_parts_def by (rule path_walk_is_plain) (auto dest: split_on_no_sep)

lemma path_parts_path_of:
  assumes "list_all plain_part ps"
  shows "path_parts (path_of ps) = ps"
proof (cases "ps = []")
  case True
  then show ?thesis by (simp add: path_of_def path_parts_def path_simps path_step_def)
next
  case False
  have "split_on slash (path_of ps) = [] # split_on slash (join_with [slash] ps)" by (simp add: path_of_def)
  also have "\<dots> = [] # ps" using assms False by (subst split_join_with) (auto simp: list_all_iff plain_part_def)
  finally show ?thesis using path_walk_plain[OF assms] by (simp add: path_parts_def path_simps path_step_def)
qed

lemma path_resolve_parts:
  "path_parts (path_resolve dir p) = path_walk (if isAbsolute p then [] else path_parts dir) (split_on slash p)"
  unfolding path_resolve_def
  by (rule path_parts_path_of, rule path_walk_is_plain) (auto simp: path_parts_plain dest: split_on_no_sep)

lemma path_resolve_root: "path_resolve [slash] p = path_of (path_parts p)"
proof -
  have "path_parts [slash] = []" by (simp add: path_parts_def path_simps path_step_def)
  then show ?thesis by (simp add: path_resolve_def path_parts_def)
qed

text \<open>A prefix of the text that ends at a separator is a prefix of the segments.\<close>

lemma starts_with_path_of:
  assumes "list_all plain_part ps" "list_all plain_part qs" "starts_with (path_of ps @ [slash]) (path_of qs)"
  shows "ps \<noteq> [] \<and> (\<exists>rest. rest \<noteq> [] \<and> qs = ps @ rest)"
proof -
  obtain t where t: "path_of qs = path_of ps @ [slash] @ t" using assms(3) by (auto simp: starts_with_iff)
  have no_sep: "\<forall>p \<in> set ps. slash \<notin> set p" "\<forall>p \<in> set qs. slash \<notin> set p"
    using assms(1,2) by (auto simp: list_all_iff plain_part_def)
  have eq: "split_on slash (path_of qs) = split_on slash (path_of ps) @ split_on slash t"
    using t split_on_append_sep[of slash "path_of ps" t] by simp
  have qs: "qs \<noteq> []" using t by (auto simp: path_of_def)
  have left: "split_on slash (path_of qs) = [] # qs" using qs no_sep(2) by (simp add: path_of_def split_join_with)
  show ?thesis
  proof (cases "ps = []")
    case True
    then have "[] # qs = [[], []] @ split_on slash t" using eq left by (simp add: path_of_def)
    then have "[] \<in> set qs" by auto
    then show ?thesis using assms(2) by (auto simp: list_all_iff plain_part_def)
  next
    case False
    then have "[] # qs = ([] # ps) @ split_on slash t" using eq left no_sep(1) by (simp add: path_of_def split_join_with)
    then show ?thesis using False by auto
  qed
qed

section \<open>Accepted names stay in their directory\<close>

lemma path_join_parts:
  assumes "plain_part name"
  shows "path_parts (path_join dir name) = path_parts dir @ [name]"
proof -
  have "path_parts (dir @ [slash] @ name) = path_parts dir @ [name]"
    using assms by (simp add: path_parts_def path_simps path_step_def plain_part_def)
  moreover have "last name \<noteq> slash" using assms last_in_set unfolding plain_part_def by metis
  then have "last (dir @ [slash] @ name) \<noteq> slash" using assms by (auto simp: plain_part_def)
  ultimately show ?thesis
    using assms path_parts_plain[of dir] by (auto simp: path_join_def Let_def intro!: path_parts_path_of)
qed

lemma safe_name_plain:
  assumes "safe_charset name" "\<not> has_infix [dot, dot] name" "name \<noteq> [dot]"
  shows "plain_part name"
proof -
  have "has_infix [dot, dot] [dot, dot]" by simp
  then show ?thesis using assms by (auto simp: plain_part_def safe_charset_def list_all_iff safe_unit_def)
qed

text \<open>An accepted name is one plain segment, and its path is that segment below the workspace.\<close>

lemma validateFilename_child:
  assumes "validateFilename dir filename = Inr p"
  obtains name where "filename = Some name" "safe_charset name" "plain_part name" "path_parts dir \<noteq> []"
    "p = path_of (path_parts dir @ [name])"
proof -
  obtain name where name: "filename = Some name" and ok: "safe_charset name" "\<not> has_infix [dot, dot] name"
    and res: "p = path_resolve [slash] (path_join dir name)"
    and inside: "starts_with (path_resolve [slash] dir @ [slash]) p"
    using assms by (auto simp: validateFilename_def Let_def split: option.splits if_splits)
  have prefix: "path_parts dir \<noteq> [] \<and> (\<exists>rest. rest \<noteq> [] \<and> path_parts (path_join dir name) = path_parts dir @ rest)"
    using inside unfolding res path_resolve_root by (rule starts_with_path_of[OF path_parts_plain path_parts_plain])
  have "name \<noteq> [dot]"
  proof
    assume "name = [dot]"
    then have "path_parts (dir @ [slash] @ name) = path_parts dir"
      by (simp add: path_parts_def path_simps path_step_def)
    then have "path_parts (path_join dir name) = path_parts dir"
      using \<open>name = [dot]\<close> path_parts_plain[of dir] by (simp add: path_join_def Let_def path_parts_path_of)
    then show False using prefix by auto
  qed
  then have "plain_part name" using ok by (rule safe_name_plain[rotated 2])
  then show ?thesis
    using that name ok(1) prefix res by (simp add: path_resolve_root path_join_parts)
qed

text \<open>An entry of a backup lands in the workspace, whatever its path says.\<close>

lemma resolveWithinWorkspace_inside:
  assumes "resolveWithinWorkspace dir entry = Some p"
  shows "\<exists>rest. list_all plain_part rest \<and> p = path_of (path_parts dir @ rest)"
proof -
  let ?root = "path_resolve [slash] dir"
  have p: "p = path_resolve ?root entry" and inside: "p = ?root \<or> starts_with (?root @ [slash]) p"
    using assms by (auto simp: resolveWithinWorkspace_def Let_def split: if_splits)
  obtain qs where qs: "p = path_of qs" "list_all plain_part qs"
    using p path_parts_plain path_resolve_parts unfolding path_resolve_def by metis
  show ?thesis
  proof (cases "p = ?root")
    case True
    then show ?thesis by (intro exI[of _ "[]"]) (simp add: path_resolve_root)
  next
    case False
    then have "starts_with (path_of (path_parts dir) @ [slash]) (path_of qs)"
      using inside qs by (simp add: path_resolve_root)
    from starts_with_path_of[OF path_parts_plain qs(2) this] show ?thesis using qs by auto
  qed
qed

lemma resolveMaterialPath_inside:
  assumes "resolveMaterialPath dir name = Some p"
  shows "\<exists>rest. rest \<noteq> [] \<and> list_all plain_part rest \<and> p = path_of (path_parts dir @ rest)"
proof -
  let ?root = "path_resolve [slash] dir"
  obtain base where p: "p = path_resolve ?root base" and inside: "starts_with (?root @ [slash]) p"
    using assms by (auto simp: resolveMaterialPath_def Let_def split: if_splits)
  obtain qs where qs: "p = path_of qs" "list_all plain_part qs"
    using p path_parts_plain path_resolve_parts unfolding path_resolve_def by metis
  have "starts_with (path_of (path_parts dir) @ [slash]) (path_of qs)"
    using inside qs by (simp add: path_resolve_root)
  from starts_with_path_of[OF path_parts_plain qs(2) this] show ?thesis using qs by auto
qed

text \<open>\<open>path.extname\<close> gives the text from the last dot, so \<open>.env.example\<close> of \<open>SNAPSHOT_EXTENSIONS\<close> matches no name.\<close>

lemma extname_one_dot: "extname name = [] \<or> (\<exists>e. extname name = dot # e \<and> dot \<notin> set e)"
  by (auto simp: extname_def Let_def dest: set_takeWhileD)

text \<open>
  C29. No name from the network leaves its directory: an accepted required file is a plain name directly in the
  workspace, an entry of a backup lands in the workspace whatever its path says, a material in its folder.
\<close>

theorem names_stay_inside:
  "(case validateFilename dir (Some name) of
      Inl _ \<Rightarrow> True
    | Inr p \<Rightarrow> plain_part name \<and> safe_charset name \<and> p = path_of (path_parts dir @ [name])) \<and>
   (case resolveWithinWorkspace dir entry of
      None \<Rightarrow> True
    | Some p \<Rightarrow> \<exists>rest. list_all plain_part rest \<and> p = path_of (path_parts dir @ rest)) \<and>
   (case resolveMaterialPath dir title of
      None \<Rightarrow> True
    | Some p \<Rightarrow> \<exists>rest. rest \<noteq> [] \<and> list_all plain_part rest \<and> p = path_of (path_parts dir @ rest))"
proof -
  have "plain_part name \<and> safe_charset name \<and> p = path_of (path_parts dir @ [name])"
    if "validateFilename dir (Some name) = Inr p" for p
    using validateFilename_child[OF that] by auto
  then show ?thesis
    using resolveWithinWorkspace_inside[of dir entry] resolveMaterialPath_inside[of dir title]
    by (auto split: sum.split option.split)
qed

end
