(* ===== verification/AgentDisk.thy ===== *)
theory AgentDisk
  imports AgentPaths Effects
begin

text \<open>
  What the lab agent does to the student's disk: the required files (\<open>workspace-files.ts\<close>), the snapshot and the
  restore (\<open>snapshot.ts\<close>, \<open>backup.ts\<close>), the exam materials and the instructions (\<open>exam-materials.ts\<close>). A disk maps
  the segments of a path to a file or a folder; links occur in the listing that a snapshot walks only. The disk
  may refuse any operation (\<open>ds_refuses\<close>), and removing a folder may fail and leave some of it (\<open>ds_keeps\<close>). The
  check of an entry of a backup and its write are operations of their own, since the code waits between them. An
  unpacked archive or a download is an argument. The lemmas show which file with content each operation may change.
\<close>

type_synonym bytes = "nat list"

datatype node = File bytes | Folder

type_synonym disk = "utext list \<Rightarrow> node option"

datatype disk_error = EEXIST | ENOENT | EACCES | EISDIR

record disk_system =
  ds_refuses :: "disk \<Rightarrow> utext list \<Rightarrow> bool"
  ds_folderSize :: nat
  ds_keeps :: "disk \<Rightarrow> utext list \<Rightarrow> (disk_error \<times> (utext list \<Rightarrow> bool)) option"

type_synonym 'a disk_op = "(disk, disk_error, 'a) eff"

section \<open>Calls of \<open>node:fs\<close>\<close>

definition fs_put :: "utext list \<Rightarrow> node \<Rightarrow> unit disk_op" where
  "fs_put p n = (\<lambda>d. (Inr (), d(p \<mapsto> n)))"

definition readE :: "('s \<Rightarrow> 'a) \<Rightarrow> ('s, 'e, 'a) eff" where
  "readE f = (\<lambda>s. (Inr (f s), s))"

text \<open>One directory of \<open>mkdir(p, { recursive: true })\<close>, then all of them from the root.\<close>

definition make_folder :: "disk_system \<Rightarrow> utext list \<Rightarrow> unit disk_op" where
  "make_folder S p = bindE (readE (\<lambda>d. (d p, ds_refuses S d p))) (\<lambda>(n, refused).
     case n of
       Some Folder \<Rightarrow> retE ()
     | Some (File _) \<Rightarrow> throwE EEXIST
     | None \<Rightarrow> if refused then throwE EACCES else fs_put p Folder)"

definition make_folders :: "disk_system \<Rightarrow> utext list \<Rightarrow> unit disk_op" where
  "make_folders S p = forE (\<lambda>k. make_folder S (take k p)) [1..<Suc (length p)]"

definition is_folder :: "disk \<Rightarrow> utext list \<Rightarrow> bool" where
  "is_folder d p \<longleftrightarrow> p = [] \<or> d p = Some Folder"

text \<open>\<open>writeFile(p, content)\<close>, with \<open>{ flag: 'wx' }\<close> when \<open>only_new\<close>.\<close>

definition write_file :: "disk_system \<Rightarrow> bool \<Rightarrow> utext list \<Rightarrow> bytes \<Rightarrow> unit disk_op" where
  "write_file S only_new p content =
     bindE (readE (\<lambda>d. (d p, is_folder d (butlast p), ds_refuses S d p))) (\<lambda>(n, parent, refused).
       if n \<noteq> None \<and> only_new then throwE EEXIST
       else if n = Some Folder then throwE EISDIR
       else if \<not> parent then throwE ENOENT
       else if refused then throwE EACCES
       else fs_put p (File content))"

definition read_file_at :: "disk_system \<Rightarrow> utext list \<Rightarrow> bytes disk_op" where
  "read_file_at S p = bindE (readE (\<lambda>d. (d p, ds_refuses S d p))) (\<lambda>(n, refused).
     case n of
       None \<Rightarrow> throwE ENOENT
     | Some Folder \<Rightarrow> throwE EISDIR
     | Some (File content) \<Rightarrow> if refused then throwE EACCES else retE content)"

text \<open>\<open>rmSync(p, { recursive: true, force: true })\<close>\<close>

definition remove_folder :: "disk_system \<Rightarrow> utext list \<Rightarrow> unit disk_op" where
  "remove_folder S p = (\<lambda>d.
     case ds_keeps S d p of
       None \<Rightarrow> (Inr (), \<lambda>q. if starts_with p q then None else d q)
     | Some (e, left) \<Rightarrow> (Inl e, \<lambda>q. if starts_with p q \<and> \<not> left q then None else d q))"

definition stat_size :: "disk_system \<Rightarrow> disk \<Rightarrow> utext list \<Rightarrow> nat option" where
  "stat_size S d p = (case d p of None \<Rightarrow> None | Some Folder \<Rightarrow> Some (ds_folderSize S) | Some (File c) \<Rightarrow> Some (length c))"

section \<open>Required files\<close>

definition EMPTY_ZIP_EOCD :: bytes where
  "EMPTY_ZIP_EOCD = [80, 75, 5, 6] @ replicate 18 0"

record file_status =
  fs_filename :: "utext option"
  fs_created :: bool
  fs_note :: bool

record created_files =
  cf_createdCount :: nat
  cf_files :: "file_status list"

definition created_status :: "utext option \<Rightarrow> bool \<Rightarrow> file_status" where
  "created_status filename created = \<lparr>fs_filename = filename, fs_created = created, fs_note = False\<rparr>"

text \<open>One round of the loop: the entry of the checklist; \<open>fs_filename\<close> is \<open>None\<close> for a value that is no string.\<close>

definition create_one :: "disk_system \<Rightarrow> utext \<Rightarrow> utext option \<Rightarrow> file_status disk_op" where
  "create_one S workspaceDir filename =
     (case (filename, validateFilename workspaceDir filename) of
        (Some name, Inr p) \<Rightarrow>
          (let at_path = path_parts p in
           if archiveKindOf name = Some RarArchive
           then bindE (readE (\<lambda>d. d at_path \<noteq> None)) (\<lambda>already.
             retE \<lparr>fs_filename = Some name, fs_created = already, fs_note = \<not> already\<rparr>)
           else catchE
             (thenE (write_file S True at_path (if archiveKindOf name = Some ZipArchive then EMPTY_ZIP_EOCD else []))
                (retE (created_status (Some name) True)))
             (\<lambda>e. retE (created_status (Some name) (e = EEXIST))))
      | _ \<Rightarrow> retE (created_status filename False))"

definition createSubmissionFiles :: "disk_system \<Rightarrow> utext \<Rightarrow> utext option list option \<Rightarrow> created_files disk_op" where
  "createSubmissionFiles S workspaceDir requiredFiles =
     thenE (make_folders S (path_parts workspaceDir))
       (case requiredFiles of
          None \<Rightarrow> retE \<lparr>cf_createdCount = 0, cf_files = []\<rparr>
        | Some names \<Rightarrow>
            foldE (\<lambda>filename acc. bindE (create_one S workspaceDir filename) (\<lambda>st.
                retE \<lparr>cf_createdCount = cf_createdCount acc + (if fs_created st then 1 else 0), cf_files = cf_files acc @ [st]\<rparr>))
              names \<lparr>cf_createdCount = 0, cf_files = []\<rparr>)"

text \<open>\<open>makeWorkspaceReader\<close>: the bytes of a deliverable, \<open>None\<close> when the file is not there.\<close>

datatype read_error = UnsafeName name_problem | ReadError disk_error

definition read_deliverable :: "disk_system \<Rightarrow> utext \<Rightarrow> utext \<Rightarrow> (disk, read_error, bytes option) eff" where
  "read_deliverable S workspaceDir requiredFilename =
     (case validateFilename workspaceDir (Some requiredFilename) of
        Inl problem \<Rightarrow> throwE (UnsafeName problem)
      | Inr p \<Rightarrow> catchE (bindE (read_file_at S (path_parts p)) (\<lambda>c. retE (Some c)))
          (\<lambda>e. if e = ENOENT then retE None else throwE (ReadError e)))"

section \<open>Snapshot\<close>

text \<open>The listing that \<open>readdirSync\<close> gives; \<open>None\<close> for a call that fails.\<close>

datatype dir_entry =
    DirFile utext "nat option"
  | DirFolder utext "dir_entry list option"
  | DirLink utext
  | DirOther utext

definition IGNORED_DIRECTORIES :: "utext list" where
  "IGNORED_DIRECTORIES = map units
     [''node_modules'', ''.git'', ''dist'', ''build'', ''__pycache__'', ''.venv'', ''venv'', ''target'', ''obj'',
      ''.next'', ''.idea'', ''.vscode'']"

definition SNAPSHOT_EXTENSIONS :: "utext list" where
  "SNAPSHOT_EXTENSIONS = map units
     [''.txt'', ''.md'', ''.rtf'', ''.csv'', ''.json'', ''.xml'', ''.yml'', ''.yaml'',
      ''.doc'', ''.docx'', ''.xls'', ''.xlsx'', ''.ppt'', ''.pptx'', ''.pdf'', ''.odt'',
      ''.png'', ''.jpg'', ''.jpeg'', ''.gif'', ''.bmp'', ''.webp'', ''.heic'',
      ''.py'', ''.js'', ''.mjs'', ''.cjs'', ''.ts'', ''.tsx'', ''.jsx'', ''.java'', ''.kt'',
      ''.c'', ''.h'', ''.cpp'', ''.hpp'', ''.cc'', ''.cs'', ''.go'', ''.rs'', ''.rb'', ''.php'',
      ''.swift'', ''.m'', ''.r'', ''.scala'', ''.pl'', ''.lua'', ''.dart'',
      ''.html'', ''.htm'', ''.css'', ''.scss'', ''.sql'', ''.sh'', ''.bat'', ''.ps1'',
      ''.ipynb'', ''.env.example'']"

definition MAX_FILE_BYTES :: nat where "MAX_FILE_BYTES = 10 * 1024 * 1024"

definition MAX_TOTAL_BYTES :: nat where "MAX_TOTAL_BYTES = 50 * 1024 * 1024"

record snapshot_file =
  sf_relative :: "utext list"
  sf_size :: nat

record snapshot =
  sn_total :: nat
  sn_files :: "snapshot_file list"

definition snapshot_add :: "utext list \<Rightarrow> nat \<Rightarrow> snapshot \<Rightarrow> snapshot" where
  "snapshot_add relative sz acc =
     (if sz > MAX_FILE_BYTES \<or> sn_total acc + sz > MAX_TOTAL_BYTES then acc
      else \<lparr>sn_total = sn_total acc + sz, sn_files = sn_files acc @ [\<lparr>sf_relative = relative, sf_size = sz\<rparr>]\<rparr>)"

fun walk_entry :: "utext list \<Rightarrow> dir_entry \<Rightarrow> snapshot \<Rightarrow> snapshot"
  and walk_entries :: "utext list \<Rightarrow> dir_entry list \<Rightarrow> snapshot \<Rightarrow> snapshot" where
  "walk_entry folders (DirLink name) acc = acc"
| "walk_entry folders (DirOther name) acc = acc"
| "walk_entry folders (DirFolder name None) acc = acc"
| "walk_entry folders (DirFolder name (Some entries)) acc =
     (if name \<in> set IGNORED_DIRECTORIES then acc else walk_entries (folders @ [name]) entries acc)"
| "walk_entry folders (DirFile name found) acc =
     (if lower (extname name) \<notin> set SNAPSHOT_EXTENSIONS then acc
      else (case found of None \<Rightarrow> acc | Some sz \<Rightarrow> snapshot_add (folders @ [name]) sz acc))"
| "walk_entries folders [] acc = acc"
| "walk_entries folders (entry # entries) acc = walk_entries folders entries (walk_entry folders entry acc)"

definition collectSnapshotFiles :: "dir_entry list option \<Rightarrow> snapshot_file list" where
  "collectSnapshotFiles listing =
     (case listing of None \<Rightarrow> [] | Some entries \<Rightarrow> sn_files (walk_entries [] entries \<lparr>sn_total = 0, sn_files = []\<rparr>))"

section \<open>Restore\<close>

definition shouldRestoreOver :: "disk_system \<Rightarrow> disk \<Rightarrow> utext list \<Rightarrow> bool" where
  "shouldRestoreOver S d p = (case stat_size S d p of None \<Rightarrow> True | Some n \<Rightarrow> n = 0)"

text \<open>An entry of the archive; its content is \<open>None\<close> when it cannot be unpacked.\<close>

record zip_entry =
  ze_name :: utext
  ze_dir :: bool
  ze_content :: "bytes option"

text \<open>
  What the loop of \<open>restoreBackup\<close> does without waiting: it passes the entries that it skips, up to the next one that
  it writes. The counters are restored and skipped.
\<close>

datatype restore_turn =
    RestoreOver "nat \<times> nat"
  | RestoreWrite utext "bytes option" "zip_entry list" "nat \<times> nat"

fun restore_scan :: "disk_system \<Rightarrow> disk \<Rightarrow> utext \<Rightarrow> zip_entry list \<Rightarrow> nat \<times> nat \<Rightarrow> restore_turn" where
  "restore_scan S d workspaceDir [] counts = RestoreOver counts"
| "restore_scan S d workspaceDir (entry # entries) counts =
     (if ze_dir entry then restore_scan S d workspaceDir entries counts
      else (case resolveWithinWorkspace workspaceDir (ze_name entry) of
        None \<Rightarrow> restore_scan S d workspaceDir entries counts
      | Some target \<Rightarrow>
          if \<not> shouldRestoreOver S d (path_parts target)
          then restore_scan S d workspaceDir entries (fst counts, Suc (snd counts))
          else RestoreWrite target (ze_content entry) entries counts))"

text \<open>The \<open>try\<close> of the loop, which begins with an \<open>await\<close>: the folder, the content and the write, with no check.\<close>

definition restore_store :: "disk_system \<Rightarrow> utext \<Rightarrow> bytes option \<Rightarrow> nat \<times> nat \<Rightarrow> (nat \<times> nat) disk_op" where
  "restore_store S target unpacked counts =
     catchE
       (thenE (make_folders S (butlast (path_parts target)))
         (case unpacked of
            None \<Rightarrow> throwE EACCES
          | Some content \<Rightarrow> thenE (write_file S False (path_parts target) content) (retE (Suc (fst counts), snd counts))))
       (\<lambda>_. retE counts)"

section \<open>Materials and instructions\<close>

definition MATERIALS_DIRNAME :: utext where "MATERIALS_DIRNAME = units ''de-thi''"

definition INSTRUCTIONS_FILENAME :: utext where "INSTRUCTIONS_FILENAME = units ''INSTRUCTIONS.txt''"

definition writeInstructions :: "disk_system \<Rightarrow> utext \<Rightarrow> bytes \<Rightarrow> unit disk_op" where
  "writeInstructions S workspaceDir sheet =
     catchE (write_file S False (path_parts (path_join workspaceDir INSTRUCTIONS_FILENAME)) sheet) (\<lambda>_. retE ())"

section \<open>What the student wrote stays\<close>

definition has_file :: "utext list \<Rightarrow> bytes \<Rightarrow> disk \<Rightarrow> bool" where
  "has_file p content d \<longleftrightarrow> d p = Some (File content)"

lemma wpE_read [wpE_simps]: "wpE (readE f) Q R s = Q (f s) s"
  by (simp add: wpE_def readE_def)

lemma wpE_put [wpE_simps]: "wpE (fs_put p n) Q R d = Q () (d(p \<mapsto> n))"
  by (simp add: wpE_def fs_put_def)

lemma keepsE_read [keepsE_intros]: "keepsE I (readE f)"
  by (simp add: keepsE_def wpE_simps)

lemma make_folders_keep [keepsE_intros]: "keepsE (has_file p c) (make_folders S q)"
  unfolding make_folders_def
  by (rule keepsE_for) (auto simp: make_folder_def keepsE_def wpE_simps has_file_def split: option.split node.split)

lemma write_new_keeps [keepsE_intros]: "keepsE (has_file p c) (write_file S True q content)"
  by (auto simp: write_file_def keepsE_def wpE_simps has_file_def)

lemma write_other_keeps: "p \<noteq> q \<Longrightarrow> keepsE (has_file p c) (write_file S False q content)"
  by (auto simp: write_file_def keepsE_def wpE_simps has_file_def)

lemma create_one_keeps [keepsE_intros]: "keepsE (has_file p c) (create_one S dir filename)"
  unfolding create_one_def Let_def
  by (cases filename; cases "validateFilename dir filename"; simp; intro keepsE_intros impI conjI)

lemma createSubmissionFiles_keeps [keepsE_intros]: "keepsE (has_file p c) (createSubmissionFiles S dir names)"
  unfolding createSubmissionFiles_def by (cases names; simp; intro keepsE_intros keepsE_fold)

lemma restore_store_keeps:
  "p \<noteq> path_parts target \<Longrightarrow> keepsE (has_file p c) (restore_store S target unpacked counts)"
  unfolding restore_store_def by (cases unpacked; simp only: option.case; intro keepsE_intros write_other_keeps)

text \<open>A file with content is never chosen for a write.\<close>

definition free_at :: "disk \<Rightarrow> utext list \<Rightarrow> bool" where
  "free_at d p = (case d p of Some (File content) \<Rightarrow> content = [] | _ \<Rightarrow> True)"

lemma restore_scan_free:
  "restore_scan S d dir entries counts = RestoreWrite target unpacked rest counts' \<Longrightarrow> free_at d (path_parts target)"
  by (induction entries arbitrary: counts)
    (auto simp: free_at_def shouldRestoreOver_def stat_size_def split: if_splits option.splits node.splits)

lemma writeInstructions_keeps:
  "p \<noteq> path_parts (path_join dir INSTRUCTIONS_FILENAME) \<Longrightarrow> keepsE (has_file p c) (writeInstructions S dir sheet)"
  unfolding writeInstructions_def by (intro keepsE_catch write_other_keeps keepsE_ret)

section \<open>The checklist and the limits\<close>

text \<open>The checklist lists the required files in order, counts what is there, and says so truly.\<close>

definition checklist_true :: "utext \<Rightarrow> disk \<Rightarrow> file_status \<Rightarrow> bool" where
  "checklist_true dir d st \<longleftrightarrow>
     (case fs_filename st of None \<Rightarrow> \<not> fs_created st | Some name \<Rightarrow> fs_created st \<longrightarrow> d (path_parts dir @ [name]) \<noteq> None)"

definition grows :: "disk \<Rightarrow> disk \<Rightarrow> bool" where
  "grows d d' \<longleftrightarrow> dom d \<subseteq> dom d'"

lemma checklist_true_grows: "checklist_true dir d st \<Longrightarrow> grows d d' \<Longrightarrow> checklist_true dir d' st"
  by (auto simp: checklist_true_def grows_def split: option.splits)

lemma create_one_status:
  "wpE (create_one S dir filename) (\<lambda>st d'. fs_filename st = filename \<and> checklist_true dir d' st \<and> grows d d') (\<lambda>_ _. False) d"
proof (cases "validateFilename dir filename")
  case (Inl problem)
  then show ?thesis
    by (auto simp: create_one_def wpE_simps created_status_def checklist_true_def grows_def split: option.split)
next
  case (Inr p)
  then obtain name where name: "filename = Some name" "plain_part name" "p = path_of (path_parts dir @ [name])"
    by (rule validateFilename_child)
  have "path_parts p = path_parts dir @ [name]"
    using name path_parts_plain[of dir] by (simp add: path_parts_path_of)
  then show ?thesis using Inr name(1)
    by (auto simp: create_one_def write_file_def wpE_simps created_status_def checklist_true_def grows_def Let_def)
qed

lemma create_files_checklist:
  "wpE (foldE (\<lambda>filename acc. bindE (create_one S dir filename) (\<lambda>st.
        retE \<lparr>cf_createdCount = cf_createdCount acc + (if fs_created st then 1 else 0), cf_files = cf_files acc @ [st]\<rparr>))
      names acc)
    (\<lambda>r d'. map fs_filename (cf_files r) = map fs_filename (cf_files acc) @ names \<and>
       list_all (checklist_true dir d') (cf_files r) \<and>
       cf_createdCount r = length (filter fs_created (cf_files r)))
    (\<lambda>_ _. False) d"
  if "list_all (checklist_true dir d) (cf_files acc)" "cf_createdCount acc = length (filter fs_created (cf_files acc))"
  for acc d
  using that
proof (induction names arbitrary: acc d)
  case Nil
  then show ?case by (simp add: wpE_simps)
next
  case (Cons filename names)
  show ?case unfolding foldE.simps wpE_simps
  proof (rule wpE_mono[OF create_one_status[of S dir filename d]], goal_cases)
    case (1 st d')
    let ?acc = "\<lparr>cf_createdCount = cf_createdCount acc + (if fs_created st then 1 else 0), cf_files = cf_files acc @ [st]\<rparr>"
    have all: "list_all (checklist_true dir d') (cf_files ?acc)"
      using 1 Cons.prems(1) by (auto simp: list_all_iff intro: checklist_true_grows)
    have count: "cf_createdCount ?acc = length (filter fs_created (cf_files ?acc))"
      using Cons.prems(2) by simp
    show ?case
      by (rule wpE_mono[OF Cons.IH[OF all count]]) (use 1 in auto)
  qed simp
qed

lemma createSubmissionFiles_checklist:
  "case createSubmissionFiles S dir (Some names) d of
     (Inl _, _) \<Rightarrow> True
   | (Inr r, d') \<Rightarrow> map fs_filename (cf_files r) = names \<and> list_all (checklist_true dir d') (cf_files r) \<and>
       cf_createdCount r = length (filter fs_created (cf_files r))"
proof -
  have "wpE (createSubmissionFiles S dir (Some names))
     (\<lambda>r d'. map fs_filename (cf_files r) = names \<and> list_all (checklist_true dir d') (cf_files r) \<and>
       cf_createdCount r = length (filter fs_created (cf_files r))) (\<lambda>_ _. True) d"
    unfolding createSubmissionFiles_def wpE_simps
  proof (rule wpE_mono[of _ "\<lambda>_ _. True" "\<lambda>_ _. True"], goal_cases)
    case (2 a d')
    let ?none = "\<lparr>cf_createdCount = 0, cf_files = []\<rparr>"
    show ?case unfolding option.case
      by (rule wpE_mono[OF create_files_checklist[of dir d' ?none]]) auto
  qed (auto simp: wpE_def split: prod.split sum.split)
  then show ?thesis by (auto simp: wpE_def split: prod.split sum.split)
qed

text \<open>A snapshot keeps within its limits and never holds a file of an ignored directory.\<close>

definition snapshot_ok :: "snapshot \<Rightarrow> bool" where
  "snapshot_ok s \<longleftrightarrow> sn_total s = sum_list (map sf_size (sn_files s)) \<and> sn_total s \<le> MAX_TOTAL_BYTES \<and>
     list_all (\<lambda>f. sf_size f \<le> MAX_FILE_BYTES \<and> list_all (\<lambda>part. part \<notin> set IGNORED_DIRECTORIES) (butlast (sf_relative f)) \<and>
       sf_relative f \<noteq> [] \<and> lower (extname (last (sf_relative f))) \<in> set SNAPSHOT_EXTENSIONS) (sn_files s)"

lemma walk_snapshot_ok:
  "list_all (\<lambda>part. part \<notin> set IGNORED_DIRECTORIES) folders \<Longrightarrow> snapshot_ok acc \<Longrightarrow> snapshot_ok (walk_entry folders entry acc)"
  "list_all (\<lambda>part. part \<notin> set IGNORED_DIRECTORIES) folders \<Longrightarrow> snapshot_ok acc \<Longrightarrow> snapshot_ok (walk_entries folders entries acc)"
proof (induction folders entry acc and folders entries acc rule: walk_entry_walk_entries.induct)
  case (5 folders name found acc)
  then show ?case by (auto simp: snapshot_ok_def snapshot_add_def split: option.split)
qed auto

lemma collectSnapshotFiles_ok:
  "let files = collectSnapshotFiles listing in
   sum_list (map sf_size files) \<le> MAX_TOTAL_BYTES \<and>
   list_all (\<lambda>f. sf_size f \<le> MAX_FILE_BYTES \<and> list_all (\<lambda>part. part \<notin> set IGNORED_DIRECTORIES) (butlast (sf_relative f))) files"
proof -
  have ok: "snapshot_ok (walk_entries [] entries \<lparr>sn_total = 0, sn_files = []\<rparr>)" for entries
    by (rule walk_snapshot_ok) (simp_all add: snapshot_ok_def)
  show ?thesis
  proof (cases listing)
    case (Some entries)
    then show ?thesis
      using ok[of entries] by (simp add: collectSnapshotFiles_def snapshot_ok_def list_all_iff Let_def)
  qed (simp add: collectSnapshotFiles_def)
qed

end
