(* ===== verification/AgentUpload.thy ===== *)
theory AgentUpload
  imports AgentDisk
begin

text \<open>
  The collection of the deliverables: \<open>submission-uploader.ts\<close>. The server and the storage are the functions of
  \<open>agent_net\<close> over a world \<open>'w\<close>; what an emitted event is answered is a \<open>raw_ack\<close>, whose shape
  \<open>emitWithAck\<close> checks as the code does. A line of the progress log is a value of \<open>upload_line\<close>.
\<close>

record deliverable =
  dl_id :: utext
  dl_requiredFilename :: utext
  dl_entries :: "utext list"

datatype upload_event = RequestUploadUrl | ConfirmSubmission

text \<open>What comes back for an event: nothing before the timeout, a value that is no object or has no boolean
  \<open>ok\<close>, a refusal with its code and message, or the answer.\<close>

datatype 'a raw_ack = NoReply | NotAnObject | NoOkField | Refused utext utext | Granted 'a

datatype upload_error =
    Unreadable read_error
  | FileMissing
  | AckTimeout upload_event
  | AckNotObject upload_event
  | AckWithoutOk upload_event
  | ServerRefused upload_event utext utext
  | PutStatus int
  | PutFailed utext

record upload_grant =
  ug_uploadUrl :: utext
  ug_storageKey :: utext

record confirmation =
  co_deliverableId :: utext
  co_storageKey :: utext
  co_checksum :: utext
  co_fileSize :: nat

text \<open>\<open>fetch\<close> rejects (\<open>Inl\<close>) or returns a status.\<close>

record 'w agent_net =
  an_requestUrl :: "utext \<Rightarrow> utext \<Rightarrow> utext \<Rightarrow> 'w \<Rightarrow> upload_grant raw_ack \<times> 'w"
  an_put :: "utext \<Rightarrow> bytes \<Rightarrow> 'w \<Rightarrow> (utext + int) \<times> 'w"
  an_confirm :: "utext \<Rightarrow> utext \<Rightarrow> confirmation \<Rightarrow> 'w \<Rightarrow> unit raw_ack \<times> 'w"
  an_sha256 :: "bytes \<Rightarrow> utext"
  an_now :: "'w \<Rightarrow> nat \<times> 'w"

datatype upload_outcome = OutUploaded | OutMissing | OutFailed

record deliverable_result =
  dr_deliverable :: deliverable
  dr_outcome :: upload_outcome
  dr_byteLength :: "nat option"
  dr_reason :: "upload_error option"

record upload_summary =
  us_results :: "deliverable_result list"
  us_uploaded :: nat
  us_missing :: nat
  us_failed :: nat
  us_total :: nat
  us_elapsedMs :: int

section \<open>One deliverable\<close>

type_synonym ('w, 'a) upload_step = "(disk \<times> 'w, upload_error, 'a) eff"

definition callE :: "('w \<Rightarrow> 'a \<times> 'w) \<Rightarrow> ('w, 'a) upload_step" where
  "callE f = (\<lambda>(d, w). case f w of (a, w') \<Rightarrow> (Inr a, (d, w')))"

text \<open>\<open>emitWithAck\<close>, then the branch \<open>!ack.ok\<close> of its callers.\<close>

definition emitWithAck :: "upload_event \<Rightarrow> ('w \<Rightarrow> 'a raw_ack \<times> 'w) \<Rightarrow> ('w, 'a) upload_step" where
  "emitWithAck ev f = bindE (callE f) (\<lambda>ack.
     case ack of
       NoReply \<Rightarrow> throwE (AckTimeout ev)
     | NotAnObject \<Rightarrow> throwE (AckNotObject ev)
     | NoOkField \<Rightarrow> throwE (AckWithoutOk ev)
     | Refused code message \<Rightarrow> throwE (ServerRefused ev code message)
     | Granted a \<Rightarrow> retE a)"

definition result_ok :: "int \<Rightarrow> bool" where
  "result_ok status \<longleftrightarrow> 200 \<le> status \<and> status \<le> 299"

definition put_content :: "'w agent_net \<Rightarrow> utext \<Rightarrow> bytes \<Rightarrow> ('w, unit) upload_step" where
  "put_content N url content = bindE (callE (an_put N url content)) (\<lambda>answer.
     case answer of
       Inl err \<Rightarrow> throwE (PutFailed err)
     | Inr status \<Rightarrow> requireE (result_ok status) (PutStatus status))"

definition send_content ::
  "'w agent_net \<Rightarrow> utext \<Rightarrow> utext \<Rightarrow> deliverable \<Rightarrow> bytes \<Rightarrow> ('w, unit) upload_step" where
  "send_content N examSessionId studentId dl content =
     (let checksum = an_sha256 N content in
      bindE (emitWithAck RequestUploadUrl (an_requestUrl N examSessionId studentId (dl_id dl))) (\<lambda>grant.
      thenE (put_content N (ug_uploadUrl grant) content)
        (emitWithAck ConfirmSubmission (an_confirm N examSessionId studentId
           \<lparr>co_deliverableId = dl_id dl, co_storageKey = ug_storageKey grant, co_checksum = checksum,
            co_fileSize = length content\<rparr>))))"

definition failed_result :: "deliverable \<Rightarrow> upload_error \<Rightarrow> deliverable_result" where
  "failed_result dl e = \<lparr>dr_deliverable = dl, dr_outcome = OutFailed, dr_byteLength = None, dr_reason = Some e\<rparr>"

definition uploadOne ::
  "'w agent_net \<Rightarrow> disk_system \<Rightarrow> utext \<Rightarrow> utext \<Rightarrow> utext \<Rightarrow> deliverable \<Rightarrow> disk \<times> 'w \<Rightarrow> deliverable_result \<times> (disk \<times> 'w)" where
  "uploadOne N S workspaceDir examSessionId studentId dl = (\<lambda>(d, w).
     case fst (read_deliverable S workspaceDir (dl_requiredFilename dl) d) of
       Inl e \<Rightarrow> (failed_result dl (Unreadable e), (d, w))
     | Inr None \<Rightarrow>
         (\<lparr>dr_deliverable = dl, dr_outcome = OutMissing, dr_byteLength = None, dr_reason = Some FileMissing\<rparr>, (d, w))
     | Inr (Some content) \<Rightarrow>
         (case send_content N examSessionId studentId dl content (d, w) of
            (Inl e, s) \<Rightarrow> (failed_result dl e, s)
          | (Inr _, s) \<Rightarrow>
              (\<lparr>dr_deliverable = dl, dr_outcome = OutUploaded, dr_byteLength = Some (length content), dr_reason = None\<rparr>, s)))"

section \<open>All of them\<close>

fun uploadEach ::
  "'w agent_net \<Rightarrow> disk_system \<Rightarrow> utext \<Rightarrow> utext \<Rightarrow> utext \<Rightarrow> deliverable list \<Rightarrow> disk \<times> 'w \<Rightarrow> deliverable_result list \<times> (disk \<times> 'w)" where
  "uploadEach N S workspaceDir examSessionId studentId [] s = ([], s)"
| "uploadEach N S workspaceDir examSessionId studentId (dl # dls) s =
     (case uploadOne N S workspaceDir examSessionId studentId dl s of
        (r, s') \<Rightarrow> (case uploadEach N S workspaceDir examSessionId studentId dls s' of (rs, s'') \<Rightarrow> (r # rs, s'')))"

definition count_outcome :: "upload_outcome \<Rightarrow> deliverable_result list \<Rightarrow> nat" where
  "count_outcome oc results = length (filter (\<lambda>r. dr_outcome r = oc) results)"

definition summarise :: "deliverable list \<Rightarrow> deliverable_result list \<Rightarrow> int \<Rightarrow> upload_summary" where
  "summarise deliverables results elapsed =
     \<lparr>us_results = results, us_uploaded = count_outcome OutUploaded results, us_missing = count_outcome OutMissing results,
      us_failed = count_outcome OutFailed results, us_total = length deliverables, us_elapsedMs = elapsed\<rparr>"

definition uploadAllDeliverables ::
  "'w agent_net \<Rightarrow> disk_system \<Rightarrow> utext \<Rightarrow> utext \<Rightarrow> utext \<Rightarrow> deliverable list \<Rightarrow> disk \<times> 'w \<Rightarrow> upload_summary \<times> (disk \<times> 'w)" where
  "uploadAllDeliverables N S workspaceDir examSessionId studentId deliverables = (\<lambda>(d, w).
     case an_now N w of (startedAt, w1) \<Rightarrow>
     (case uploadEach N S workspaceDir examSessionId studentId deliverables (d, w1) of (results, (d2, w2)) \<Rightarrow>
     (case an_now N w2 of (now, w3) \<Rightarrow>
        (summarise deliverables results (int now - int startedAt), (d2, w3)))))"

section \<open>What a collection reports\<close>

lemma uploadOne_deliverable: "dr_deliverable (fst (uploadOne N S dir sid uid dl s)) = dl"
  by (cases s) (auto simp: uploadOne_def failed_result_def split: sum.split option.split prod.split)

lemma uploadEach_deliverables: "map dr_deliverable (fst (uploadEach N S dir sid uid dls s)) = dls"
proof (induction dls arbitrary: s)
  case (Cons dl dls)
  then show ?case
    using uploadOne_deliverable[of N S dir sid uid dl s]
    by (auto split: prod.split) (metis fst_conv)
qed simp

lemma counts_add_up: "count_outcome OutUploaded rs + count_outcome OutMissing rs + count_outcome OutFailed rs = length rs"
proof (induction rs)
  case (Cons r rs)
  then show ?case by (cases "dr_outcome r") (simp_all add: count_outcome_def)
qed (simp add: count_outcome_def)

text \<open>One result for every deliverable, in order, whatever happened to the others; the counts add up.\<close>

lemma uploadAll_reports_each:
  "let summary = fst (uploadAllDeliverables N S dir sid uid dls s) in
   map dr_deliverable (us_results summary) = dls \<and>
   us_uploaded summary + us_missing summary + us_failed summary = us_total summary \<and> us_total summary = length dls"
proof -
  obtain d w where s: "s = (d, w)" by (cases s)
  obtain t w1 where now: "an_now N w = (t, w1)" by (cases "an_now N w")
  obtain rs d2 w2 where each: "uploadEach N S dir sid uid dls (d, w1) = (rs, (d2, w2))"
    by (cases "uploadEach N S dir sid uid dls (d, w1)") auto
  have "map dr_deliverable rs = dls"
    using uploadEach_deliverables[of N S dir sid uid dls "(d, w1)"] each by simp
  moreover from this have "length rs = length dls" by (metis length_map)
  ultimately show ?thesis
    using counts_add_up[of rs] s now each
    by (simp add: uploadAllDeliverables_def summarise_def split: prod.split)
qed

text \<open>\<open>send_content\<close> succeeds only if the storage took exactly the bytes and the server confirmed their checksum
  and size under the key it gave.\<close>

definition confirmed_by_server ::
  "'w agent_net \<Rightarrow> utext \<Rightarrow> utext \<Rightarrow> deliverable \<Rightarrow> bytes \<Rightarrow> 'w \<Rightarrow> bool" where
  "confirmed_by_server N sid uid dl content w =
     (case an_requestUrl N sid uid (dl_id dl) w of
        (Granted grant, w1) \<Rightarrow>
          (case an_put N (ug_uploadUrl grant) content w1 of
             (Inr status, w2) \<Rightarrow> 200 \<le> status \<and> status \<le> 299 \<and>
               fst (an_confirm N sid uid
                 \<lparr>co_deliverableId = dl_id dl, co_storageKey = ug_storageKey grant, co_checksum = an_sha256 N content,
                  co_fileSize = length content\<rparr> w2) = Granted ()
           | _ \<Rightarrow> False)
      | _ \<Rightarrow> False)"

lemma send_content_confirmed:
  "(\<exists>s'. send_content N sid uid dl content (d, w) = (Inr (), s')) \<longleftrightarrow> confirmed_by_server N sid uid dl content w"
  by (auto simp: send_content_def put_content_def emitWithAck_def callE_def bindE_def thenE_def throwE_def retE_def
      requireE_def result_ok_def confirmed_by_server_def Let_def split: prod.splits raw_ack.splits sum.splits if_splits)

text \<open>Reported as uploaded exactly when the bytes that were on the disk are confirmed by the server.\<close>

lemma uploadOne_uploaded_iff:
  "dr_outcome (fst (uploadOne N S dir sid uid dl (d, w))) = OutUploaded \<longleftrightarrow>
   (case fst (read_deliverable S dir (dl_requiredFilename dl) d) of
      Inr (Some content) \<Rightarrow> confirmed_by_server N sid uid dl content w
    | _ \<Rightarrow> False)"
proof (cases "fst (read_deliverable S dir (dl_requiredFilename dl) d)")
  case (Inr found)
  then show ?thesis
  proof (cases found)
    case (Some content)
    obtain r s' where send: "send_content N sid uid dl content (d, w) = (r, s')"
      by (cases "send_content N sid uid dl content (d, w)")
    then have "(r = Inr ()) = confirmed_by_server N sid uid dl content w"
      using send_content_confirmed[of N sid uid dl content d w] by auto
    then show ?thesis using Inr Some send by (cases r) (simp_all add: uploadOne_def failed_result_def)
  qed (simp add: uploadOne_def)
qed (simp add: uploadOne_def failed_result_def)

text \<open>A collection never writes to the disk.\<close>

lemma callE_disk: "fst (snd (callE f s)) = fst s"
  by (cases s) (simp add: callE_def split: prod.split)

lemma send_content_disk: "fst (snd (send_content N sid uid dl content s)) = fst s"
proof -
  have "keepsE (\<lambda>t. fst t = fst s) (callE f)" for f :: "'a \<Rightarrow> 'b \<times> 'a"
    unfolding keepsE_def wpE_def by (auto simp: callE_def split: prod.split)
  then have "keepsE (\<lambda>t. fst t = fst s) (emitWithAck ev f)" for ev and f :: "'a \<Rightarrow> 'c raw_ack \<times> 'a"
    unfolding emitWithAck_def
    by (intro keepsE_bind) (auto simp: keepsE_def wpE_def callE_def throwE_def retE_def split: prod.split raw_ack.split)
  then have "keepsE (\<lambda>t. fst t = fst s) (send_content N sid uid dl content)"
    unfolding send_content_def put_content_def Let_def
    by (auto simp: keepsE_def wpE_def callE_def throwE_def requireE_def retE_def emitWithAck_def bindE_def thenE_def
        split: prod.splits sum.splits raw_ack.splits)
  then show ?thesis by (rule keepsE_end) simp
qed

lemma uploadOne_disk: "fst (snd (uploadOne N S dir sid uid dl s)) = fst s"
proof (cases s)
  case (Pair d w)
  show ?thesis
  proof (cases "fst (read_deliverable S dir (dl_requiredFilename dl) d)")
    case (Inr found)
    then show ?thesis
      using send_content_disk[of N sid uid dl "the found" s] Pair
      by (cases found) (auto simp: uploadOne_def split: prod.splits sum.splits)
  qed (simp add: uploadOne_def Pair)
qed

end
