(* ===== verification/AgentSync.thy ===== *)
theory AgentSync
  imports AgentUpload
begin

text \<open>
  What the agent fetches and stores over the network: \<open>backup.ts\<close> and \<open>exam-materials.ts\<close>. The server, the
  storage, the archive format and the encoding of the instructions are functions of \<open>agent_env\<close>, which
  extends the network of a collection. A download of the materials is one step, the restore one
  step per entry that is written.
\<close>

datatype backup_code = BackupNotJoined | NoBackup | StorageUnavailable

text \<open>The answers to \<open>backup:request-...-url\<close> and \<open>agent:request-materials\<close>.\<close>

datatype backup_ack = BackupError backup_code | BackupUrls "utext option" "utext option"

record exam_material =
  em_fileName :: utext
  em_downloadUrl :: "utext option"

datatype materials_ack = MaterialsError | NotYetReleased "utext option" | Materials "exam_material list"

datatype backup_request = AskUpload | AskDownload

record instructions_input =
  ii_sessionName :: "utext option"
  ii_studentName :: "utext option"
  ii_studentId :: utext
  ii_endTime :: "utext option"
  ii_deliverables :: "(utext \<times> utext list) list"
  ii_materials :: "utext list"

datatype sheet_line =
    SheetTitle "utext option"
  | SheetStudent "utext option" utext
  | SheetEnds "utext option"
  | SheetFilesHeader
  | SheetFile utext
  | SheetRarHint
  | SheetInside
  | SheetEntry utext
  | SheetKeepNames
  | SheetMaterialsHeader
  | SheetMaterial utext
  | SheetEnding

record 'w agent_env = "'w agent_net" +
  ae_system :: disk_system
  ae_askBackup :: "backup_request \<Rightarrow> 'w \<Rightarrow> backup_ack option \<times> 'w"
  ae_askMaterials :: "'w \<Rightarrow> materials_ack option \<times> 'w"
  ae_fetch :: "utext \<Rightarrow> 'w \<Rightarrow> (utext + int \<times> bytes) \<times> 'w"
  ae_listing :: "disk \<Rightarrow> utext \<Rightarrow> dir_entry list option"
  ae_zip :: "disk \<Rightarrow> utext \<Rightarrow> snapshot_file list \<Rightarrow> bytes option"
  ae_unzip :: "bytes \<Rightarrow> zip_entry list option"
  ae_encode :: "sheet_line list \<Rightarrow> bytes"

type_synonym ('w, 'a) sync_step = "(disk \<times> 'w, disk_error, 'a) eff"

text \<open>A call of the outside, and an operation on the disk.\<close>

definition outsideE :: "('w \<Rightarrow> 'a \<times> 'w) \<Rightarrow> ('w, 'a) sync_step" where
  "outsideE f = (\<lambda>(d, w). case f w of (a, w') \<Rightarrow> (Inr a, (d, w')))"

definition diskE :: "'a disk_op \<Rightarrow> ('w, 'a) sync_step" where
  "diskE m = (\<lambda>(d, w). case m d of (r, d') \<Rightarrow> (r, (d', w)))"

text \<open>\<open>fetch\<close>, then the check of \<open>response.ok\<close>; \<open>None\<close> when it rejects or the status is no success.\<close>

definition fetch_body :: "'w agent_env \<Rightarrow> utext \<Rightarrow> ('w, bytes option) sync_step" where
  "fetch_body A url = bindE (outsideE (ae_fetch A url)) (\<lambda>answer.
     retE (case answer of Inr (status, body) \<Rightarrow> (if result_ok status then Some body else None) | Inl _ \<Rightarrow> None))"

section \<open>Snapshot and restore\<close>

text \<open>\<open>ask\<close>: silence until the timeout is an error of the storage.\<close>

definition ask_backup :: "'w agent_env \<Rightarrow> backup_request \<Rightarrow> ('w, backup_ack) sync_step" where
  "ask_backup A request = bindE (outsideE (ae_askBackup A request)) (\<lambda>reply.
     retE (case reply of None \<Rightarrow> BackupError StorageUnavailable | Some ack \<Rightarrow> ack))"

datatype snapshot_result = SnapUploaded | SnapEmpty | SnapFailed

definition uploadSnapshot :: "'w agent_env \<Rightarrow> utext \<Rightarrow> ('w, snapshot_result) sync_step" where
  "uploadSnapshot A workspaceDir =
     bindE (readE (\<lambda>(d, w). (collectSnapshotFiles (ae_listing A d workspaceDir),
                             ae_zip A d workspaceDir (collectSnapshotFiles (ae_listing A d workspaceDir))))) (\<lambda>(files, zipped).
       if files = [] then retE SnapEmpty
       else (case zipped of
         None \<Rightarrow> retE SnapFailed
       | Some body \<Rightarrow> bindE (ask_backup A AskUpload) (\<lambda>ack.
           case ack of
             BackupUrls (Some url) _ \<Rightarrow> bindE (outsideE (an_put A url body)) (\<lambda>answer.
               retE (case answer of Inr status \<Rightarrow> (if result_ok status then SnapUploaded else SnapFailed) | Inl _ \<Rightarrow> SnapFailed))
           | _ \<Rightarrow> retE SnapFailed)))"

datatype restore_status = Restored | NothingToRestore | RestoreFailed

text \<open>The first half of \<open>restoreBackup\<close>: the entries of the archive, or how the restore ends without one.\<close>

definition open_backup :: "'w agent_env \<Rightarrow> ('w, restore_status + zip_entry list) sync_step" where
  "open_backup A = bindE (ask_backup A AskDownload) (\<lambda>ack.
     case ack of
       BackupError code \<Rightarrow> retE (Inl (if code = NoBackup then NothingToRestore else RestoreFailed))
     | BackupUrls _ None \<Rightarrow> retE (Inl RestoreFailed)
     | BackupUrls _ (Some url) \<Rightarrow> bindE (fetch_body A url) (\<lambda>body.
         retE (case body of
           None \<Rightarrow> Inl RestoreFailed
         | Some content \<Rightarrow> (case ae_unzip A content of None \<Rightarrow> Inl RestoreFailed | Some entries \<Rightarrow> Inr entries))))"

section \<open>Materials\<close>

datatype materials_status = MatDownloaded | MatNotYet | MatNone | MatFailed

record materials_outcome =
  mo_status :: materials_status
  mo_downloaded :: nat
  mo_fileNames :: "utext list"
  mo_releaseAt :: "utext option"

definition materials_end :: "materials_status \<Rightarrow> utext option \<Rightarrow> materials_outcome" where
  "materials_end st releaseAt = \<lparr>mo_status = st, mo_downloaded = 0, mo_fileNames = [], mo_releaseAt = releaseAt\<rparr>"

text \<open>One round of the loop; the accumulator counts the downloads and lists the names.\<close>

definition fetch_material ::
  "'w agent_env \<Rightarrow> utext \<Rightarrow> exam_material \<Rightarrow> nat \<times> utext list \<Rightarrow> ('w, nat \<times> utext list) sync_step" where
  "fetch_material A materialsDir material acc =
     (case (em_downloadUrl material, resolveMaterialPath materialsDir (em_fileName material)) of
        (Some url, Some target) \<Rightarrow>
          bindE (readE (\<lambda>(d, w). d (path_parts target) \<noteq> None)) (\<lambda>present.
            if present then retE (fst acc, snd acc @ [basename target])
            else bindE (fetch_body A url) (\<lambda>body.
              case body of
                None \<Rightarrow> retE acc
              | Some content \<Rightarrow> catchE
                  (thenE (diskE (write_file (ae_system A) True (path_parts target) content))
                     (retE (Suc (fst acc), snd acc @ [basename target])))
                  (\<lambda>_. retE acc)))
      | _ \<Rightarrow> retE acc)"

definition downloadMaterials :: "'w agent_env \<Rightarrow> utext \<Rightarrow> ('w, materials_outcome) sync_step" where
  "downloadMaterials A workspaceDir = bindE (outsideE (ae_askMaterials A)) (\<lambda>reply.
     case reply of
       None \<Rightarrow> retE (materials_end MatFailed None)
     | Some MaterialsError \<Rightarrow> retE (materials_end MatFailed None)
     | Some (NotYetReleased releaseAt) \<Rightarrow> retE (materials_end MatNotYet releaseAt)
     | Some (Materials []) \<Rightarrow> retE (materials_end MatNone None)
     | Some (Materials (m # ms)) \<Rightarrow>
         (let materialsDir = path_join workspaceDir MATERIALS_DIRNAME in
          thenE (diskE (make_folders (ae_system A) (path_parts materialsDir)))
            (bindE (foldE (fetch_material A materialsDir) (m # ms) (0, [])) (\<lambda>(downloaded, names).
               retE \<lparr>mo_status = MatDownloaded, mo_downloaded = downloaded, mo_fileNames = names, mo_releaseAt = None\<rparr>))))"

section \<open>Instructions\<close>

definition sheet_file :: "utext \<times> utext list \<Rightarrow> sheet_line list" where
  "sheet_file = (\<lambda>(filename, entries).
     [SheetFile filename] @ (if archiveKindOf filename = Some RarArchive then [SheetRarHint] else []) @
     (if entries \<noteq> [] then SheetInside # map SheetEntry entries else []))"

definition renderInstructions :: "instructions_input \<Rightarrow> sheet_line list" where
  "renderInstructions input =
     [SheetTitle (ii_sessionName input), SheetStudent (ii_studentName input) (ii_studentId input),
      SheetEnds (ii_endTime input), SheetFilesHeader] @
     concat (map sheet_file (ii_deliverables input)) @ [SheetKeepNames] @
     (if ii_materials input \<noteq> [] then SheetMaterialsHeader # map SheetMaterial (ii_materials input) else []) @
     [SheetEnding]"

section \<open>What the student wrote stays\<close>

definition on_disk :: "(disk \<Rightarrow> bool) \<Rightarrow> disk \<times> 'w \<Rightarrow> bool" where
  "on_disk I s = I (fst s)"

lemma keepsE_outside [keepsE_intros]: "keepsE (on_disk I) (outsideE f)"
  by (auto simp: keepsE_def wpE_def outsideE_def on_disk_def split: prod.split)

lemma keepsE_disk [keepsE_intros]: "keepsE I m \<Longrightarrow> keepsE (on_disk I) (diskE m)"
  by (fastforce simp: keepsE_def wpE_def diskE_def on_disk_def split: prod.splits sum.splits)

lemma fetch_body_keeps [keepsE_intros]: "keepsE (on_disk I) (fetch_body A url)"
  and ask_backup_keeps [keepsE_intros]: "keepsE (on_disk I) (ask_backup A request)"
  unfolding fetch_body_def ask_backup_def by (intro keepsE_intros)+

lemma open_backup_keeps: "keepsE (on_disk I) (open_backup A)"
  unfolding open_backup_def
  by (rule keepsE_bind[OF ask_backup_keeps]) (auto split: backup_ack.split option.split intro!: keepsE_bind fetch_body_keeps keepsE_ret)

lemma uploadSnapshot_keeps: "keepsE (on_disk I) (uploadSnapshot A dir)"
proof -
  have put: "keepsE (on_disk I) (case ack of BackupUrls (Some url) x \<Rightarrow> bindE (outsideE (an_put A url body)) (\<lambda>answer.
      retE (case answer of Inr status \<Rightarrow> (if result_ok status then SnapUploaded else SnapFailed) | Inl _ \<Rightarrow> SnapFailed))
    | _ \<Rightarrow> retE SnapFailed)" for ack body
    by (auto split: backup_ack.split option.split intro!: keepsE_bind keepsE_outside keepsE_ret)
  show ?thesis
    unfolding uploadSnapshot_def
    by (rule keepsE_bind[OF keepsE_read])
      (auto split: option.split intro!: keepsE_ret keepsE_bind[OF ask_backup_keeps] put)
qed

lemma fetch_material_keeps: "keepsE (on_disk (has_file p c)) (fetch_material A dir m acc)"
proof (cases "em_downloadUrl m"; cases "resolveMaterialPath dir (em_fileName m)")
  fix url target
  assume found: "em_downloadUrl m = Some url" "resolveMaterialPath dir (em_fileName m) = Some target"
  have "keepsE (on_disk (has_file p c)) (case body of None \<Rightarrow> retE acc
    | Some content \<Rightarrow> catchE (thenE (diskE (write_file (ae_system A) True (path_parts target) content))
        (retE (Suc (fst acc), snd acc @ [basename target]))) (\<lambda>_. retE acc))" for body
    by (cases body; simp only: option.case; intro keepsE_intros)
  then show ?thesis
    using found by (auto simp: fetch_material_def intro!: keepsE_bind keepsE_read keepsE_if keepsE_ret fetch_body_keeps)
qed (simp_all add: fetch_material_def keepsE_ret)

lemma downloadMaterials_keeps: "keepsE (on_disk (has_file p c)) (downloadMaterials A dir)"
proof -
  have loop: "keepsE (on_disk (has_file p c)) (thenE (diskE (make_folders (ae_system A) q))
      (bindE (foldE (fetch_material A mdir) ms acc) (\<lambda>(downloaded, names).
         retE \<lparr>mo_status = MatDownloaded, mo_downloaded = downloaded, mo_fileNames = names, mo_releaseAt = None\<rparr>)))"
    for q mdir ms acc
    by (intro keepsE_then keepsE_disk make_folders_keep keepsE_bind keepsE_fold fetch_material_keeps) (auto simp: keepsE_ret)
  show ?thesis
    unfolding downloadMaterials_def
    by (rule keepsE_bind[OF keepsE_outside])
      (auto simp: Let_def keepsE_ret simp del: foldE.simps split: option.split materials_ack.split list.split intro!: loop)
qed

end
