(* ===== verification/SessionController.thy ===== *)
theory SessionController
  imports AgentSync
begin

text \<open>
  The core of the lab agent, \<open>session-controller.ts\<close>, and \<open>access-request.ts\<close>. The controller is a state that events
  change: commands of the window, messages of the socket, timers. A handler runs to its first \<open>await\<close>; the rest of
  it is a task in \<open>ct_tasks\<close>, which the event \<open>EResume\<close> continues, so every interleaving of the handlers is a list of
  events. What the controller emits is the list \<open>ct_out\<close>, newest first (each \<open>patch\<close> also sends the new state to
  the window, which is not listed). The disk is part of the state, and \<open>EDisk\<close> is what anybody else does to it.
\<close>

section \<open>State\<close>

datatype connection = Idle | Connecting | Connected | Disconnected | ConnectFailed

datatype join_phase =
    PForm | PJoining | PJoined | PError | PRateLimited | PNotActive | PAccessForm | PAccessPending | PConnectError

datatype ui_error_code =
    CodeNotFound | CodeNotActive | CodeInvalidInput | CodeNotEnrolled | CodeRateLimited | CodeUnknown utext
  | CodeAccessDenied | CodeAccessRequestFailed

datatype toast =
    ToastConnectionLost utext
  | ToastConfirmed "utext option"
  | ToastRestoreFailed
  | ToastMaterials nat
  | ToastMaterialsFailed
  | ToastAccessGranted
  | ToastExamOver bool
  | ToastRecollect
  | ToastSubmitted upload_summary
  | ToastStragglers "deliverable_result list"

datatype agent_text =
    MUnsafeStudentId
  | MNoConnection
  | MAccessSent
  | MAlreadyEnrolled
  | MAccessRefused utext utext
  | MAccessTimeout
  | MReconnectedAfterEnd
  | MCannotConnect utext
  | MBadAck
  | MBadError
  | MBadFinalize
  | MAccessDenied "utext option"
  | MAfterJoin disk_error
  | MReconnected
  | MRestored nat nat
  | MCreated nat utext
  | MNotReleased "utext option"
  | MMaterialsError disk_error
  | MNewMaterialsError disk_error
  | MErrorAfterEnd ui_error_code
  | MFromServer "utext option"
  | MBusyRecollect
  | MBusyFinalize
  | MNothingToCollect
  | MUploaded deliverable_result
  | MRemoved utext
  | MNotRemoved disk_error
  | MToast toast

record join_error_state =
  je_code :: ui_error_code
  je_message :: agent_text
  je_retryUntil :: "int option"

datatype backup_status = BkIdle | BkRestoring | BkRestored | BkNothing | BkFailed

record backup_state =
  bk_available :: bool
  bk_status :: backup_status
  bk_restored :: nat
  bk_skipped :: nat
  bk_lastAt :: "nat option"
  bk_lastFailed :: bool

datatype material_status = MtIdle | MtPending | MtDownloaded | MtNotYet | MtNone | MtFailed

record materials_state =
  mt_count :: int
  mt_releaseAt :: "utext option"
  mt_status :: material_status
  mt_names :: "utext list"

record submission_state =
  sb_finalizing :: bool
  sb_summary :: "upload_summary option"

record agent_state =
  as_connection :: connection
  as_joinPhase :: join_phase
  as_joinError :: "join_error_state option"
  as_studentId :: "utext option"
  as_sessionCode :: "utext option"
  as_studentName :: "utext option"
  as_sessionName :: "utext option"
  as_endTime :: "utext option"
  as_confirmedAt :: "nat option"
  as_requiredFiles :: "file_status list"
  as_backup :: backup_state
  as_materials :: materials_state
  as_submission :: submission_state
  as_log :: "(nat \<times> agent_text) list"
  as_examEnded :: bool

definition MAX_LOG_ENTRIES :: nat where "MAX_LOG_ENTRIES = 200"

definition initialState :: agent_state where
  "initialState =
     \<lparr>as_connection = Idle, as_joinPhase = PForm, as_joinError = None, as_studentId = None, as_sessionCode = None,
      as_studentName = None, as_sessionName = None, as_endTime = None, as_confirmedAt = None, as_requiredFiles = [],
      as_backup = \<lparr>bk_available = False, bk_status = BkIdle, bk_restored = 0, bk_skipped = 0, bk_lastAt = None,
        bk_lastFailed = False\<rparr>,
      as_materials = \<lparr>mt_count = 0, mt_releaseAt = None, mt_status = MtIdle, mt_names = []\<rparr>,
      as_submission = \<lparr>sb_finalizing = False, sb_summary = None\<rparr>, as_log = [], as_examEnded = False\<rparr>"

text \<open>\<open>AgentJoinAck\<close> after the checks of \<open>typeof\<close>: a field is \<open>None\<close> where it has not the type the code asks for.\<close>

record join_ack =
  ja_examSessionId :: "utext option"
  ja_deliverables :: "deliverable list"
  ja_requiredFiles :: "utext option list option"
  ja_studentName :: "utext option"
  ja_sessionName :: "utext option"
  ja_endTime :: "utext option"
  ja_materialCount :: int
  ja_releaseAt :: utext
  ja_backupAvailable :: bool

record join_error =
  jr_code :: ui_error_code
  jr_message :: "utext option"
  jr_retryAfterMs :: int

datatype access_ack = AccessTimeout | AccessBadShape | AccessSent | AccessRefused utext utext

datatype materials_caller = FromJoin utext | FromTimer | FromUpdate

text \<open>What waits at an \<open>await\<close>; \<open>TStore\<close> is the write of an entry of the backup that the loop has decided on.\<close>

datatype task =
    TOpenBackup join_ack utext utext
  | TStore join_ack utext utext utext "bytes option" "zip_entry list" "nat \<times> nat"
  | TMaterials materials_caller utext
  | TSheet materials_caller utext instructions_input
  | TUpload utext utext utext "deliverable list" "deliverable list" "deliverable_result list" nat
  | TAccess
  | TSnapshot utext

datatype trigger = Finalize | Recollect

datatype agent_out =
    OConnect
  | OJoin utext utext
  | OAccessRequest utext utext utext utext
  | OAckRecollect
  | ONotify toast
  | OOpenWorkspace utext
  | OStartSnapshots utext
  | ORemoveWorkspace utext

record 'w controller =
  ct_state :: agent_state
  ct_socket :: "bool option"
  ct_listening :: bool
  ct_hasJoinedOnce :: bool
  ct_shuttingDown :: bool
  ct_finalizing :: bool
  ct_snapshots :: "utext option"
  ct_releaseTimer :: "int option"
  ct_payload :: "(utext \<times> utext) option"
  ct_examSessionId :: "utext option"
  ct_deliverables :: "deliverable list"
  ct_workspaceDir :: "utext option"
  ct_tasks :: "(nat \<times> task) list"
  ct_nextTask :: nat
  ct_out :: "agent_out list"
  ct_disk :: disk
  ct_world :: 'w

text \<open>\<open>new SessionController(options)\<close>. The socket is \<open>Some\<close> whether it is connected; \<open>ct_snapshots\<close> is the folder of
  the running interval, \<open>ct_releaseTimer\<close> when the pending timer fires.\<close>

definition new_controller :: "disk \<Rightarrow> 'w \<Rightarrow> 'w controller" where
  "new_controller d w =
     \<lparr>ct_state = initialState, ct_socket = None, ct_listening = False, ct_hasJoinedOnce = False, ct_shuttingDown = False,
      ct_finalizing = False, ct_snapshots = None, ct_releaseTimer = None, ct_payload = None, ct_examSessionId = None,
      ct_deliverables = [], ct_workspaceDir = None, ct_tasks = [], ct_nextTask = 0, ct_out = [], ct_disk = d, ct_world = w\<rparr>"

record 'w controller_env = "'w agent_env" +
  ce_workspaceRoot :: utext
  ce_parseDate :: "utext \<Rightarrow> int option"
  ce_askAccess :: "'w \<Rightarrow> access_ack \<times> 'w"

type_synonym 'w change = "'w controller \<Rightarrow> 'w controller"

section \<open>Plumbing\<close>

definition patch :: "(agent_state \<Rightarrow> agent_state) \<Rightarrow> 'w change" where
  "patch f c = c\<lparr>ct_state := f (ct_state c)\<rparr>"

definition emit :: "agent_out \<Rightarrow> 'w change" where
  "emit o' c = c\<lparr>ct_out := o' # ct_out c\<rparr>"

definition spawn :: "task \<Rightarrow> 'w change" where
  "spawn t c = c\<lparr>ct_tasks := ct_tasks c @ [(ct_nextTask c, t)], ct_nextTask := Suc (ct_nextTask c)\<rparr>"

text \<open>\<open>Date.now()\<close>\<close>

definition clock :: "'w controller_env \<Rightarrow> (nat \<Rightarrow> 'w change) \<Rightarrow> 'w change" where
  "clock A k c = (case an_now A (ct_world c) of (t, w) \<Rightarrow> k t (c\<lparr>ct_world := w\<rparr>))"

text \<open>\<open>xs.slice(-n)\<close>\<close>

definition take_last :: "nat \<Rightarrow> 'a list \<Rightarrow> 'a list" where
  "take_last n xs = drop (length xs - n) xs"

definition agent_log :: "'w controller_env \<Rightarrow> agent_text \<Rightarrow> 'w change" where
  "agent_log A m = clock A (\<lambda>t. patch (\<lambda>s. s\<lparr>as_log := take_last MAX_LOG_ENTRIES (as_log s @ [(t, m)])\<rparr>))"

definition notify :: "'w controller_env \<Rightarrow> toast \<Rightarrow> 'w change" where
  "notify A m c = agent_log A (MToast m) (emit (ONotify m) c)"

definition setJoinPhase :: "join_phase \<Rightarrow> 'w change" where
  "setJoinPhase p = patch (\<lambda>s. s\<lparr>as_joinPhase := p\<rparr>)"

definition setJoinError :: "ui_error_code \<Rightarrow> agent_text \<Rightarrow> int option \<Rightarrow> 'w change" where
  "setJoinError code message retryUntil =
     patch (\<lambda>s. s\<lparr>as_joinPhase := (if code = CodeRateLimited then PRateLimited else PError),
       as_joinError := Some \<lparr>je_code = code, je_message = message, je_retryUntil = retryUntil\<rparr>\<rparr>)"

definition emitJoin :: "'w change" where
  "emitJoin c =
     (case (ct_payload c, ct_socket c) of
        (Some (student, code), Some _) \<Rightarrow> emit (OJoin student code) (setJoinPhase PJoining c)
      | _ \<Rightarrow> c)"

definition patch_backup :: "(backup_state \<Rightarrow> backup_state) \<Rightarrow> 'w change" where
  "patch_backup f = patch (\<lambda>s. s\<lparr>as_backup := f (as_backup s)\<rparr>)"

definition patch_materials :: "(materials_state \<Rightarrow> materials_state) \<Rightarrow> 'w change" where
  "patch_materials f = patch (\<lambda>s. s\<lparr>as_materials := f (as_materials s)\<rparr>)"

text \<open>An effect on the disk and the world, then its outcome; \<open>?? ''\<close>; and a value that is \<open>null\<close> or empty.\<close>

definition run_sync :: "(disk \<times> 'w \<Rightarrow> 'r \<times> (disk \<times> 'w)) \<Rightarrow> ('r \<Rightarrow> 'w change) \<Rightarrow> 'w change" where
  "run_sync m k c = (case m (ct_disk c, ct_world c) of (r, (d, w)) \<Rightarrow> k r (c\<lparr>ct_disk := d, ct_world := w\<rparr>))"

definition or_empty :: "utext option \<Rightarrow> utext" where
  "or_empty x = (case x of None \<Rightarrow> [] | Some t \<Rightarrow> t)"

definition falsy :: "utext option \<Rightarrow> bool" where
  "falsy x \<longleftrightarrow> or_empty x = []"

section \<open>Commands\<close>

definition WORKSPACE_DIRNAME :: utext where "WORKSPACE_DIRNAME = units ''exam-workspace''"

definition workspace_of :: "'w controller_env \<Rightarrow> utext \<Rightarrow> utext" where
  "workspace_of A studentId = path_resolve (path_resolve (ce_workspaceRoot A) WORKSPACE_DIRNAME) studentId"

definition connectSocket :: "'w change" where
  "connectSocket c = emit OConnect ((patch (\<lambda>s. s\<lparr>as_connection := Connecting\<rparr>) c)\<lparr>ct_socket := Some False, ct_listening := True\<rparr>)"

definition join :: "'w controller_env \<Rightarrow> utext \<Rightarrow> utext \<Rightarrow> 'w change" where
  "join A studentId sessionCode c =
     (if \<not> isSafeForPathSegment studentId then setJoinError CodeInvalidInput MUnsafeStudentId None c
      else let c1 = patch (\<lambda>s. s\<lparr>as_studentId := Some studentId, as_sessionCode := Some sessionCode, as_joinError := None\<rparr>)
                      (c\<lparr>ct_payload := Some (studentId, sessionCode), ct_workspaceDir := Some (workspace_of A studentId)\<rparr>)
           in (case ct_socket c1 of
                 None \<Rightarrow> connectSocket c1
               | Some True \<Rightarrow> emitJoin c1
               | Some False \<Rightarrow> emit OConnect c1))"

definition sendAccessRequest :: "utext \<Rightarrow> utext \<Rightarrow> 'w change" where
  "sendAccessRequest fullName reason c =
     (if ct_socket c = None \<or> falsy (as_studentId (ct_state c)) \<or> falsy (as_sessionCode (ct_state c))
      then setJoinError CodeAccessRequestFailed MNoConnection None c
      else spawn TAccess
        (emit (OAccessRequest (or_empty (as_sessionCode (ct_state c))) (or_empty (as_studentId (ct_state c))) fullName reason)
          (setJoinPhase PAccessPending c)))"

definition access_answered :: "'w controller_env \<Rightarrow> access_ack \<Rightarrow> 'w change" where
  "access_answered A ack =
     (case ack of
        AccessSent \<Rightarrow> agent_log A MAccessSent
      | AccessRefused code message \<Rightarrow>
          if code = units ''ALREADY_ENROLLED''
          then (\<lambda>c. emitJoin (setJoinPhase PJoining (agent_log A MAlreadyEnrolled c)))
          else setJoinError CodeAccessRequestFailed (MAccessRefused code message) None
      | _ \<Rightarrow> setJoinError CodeAccessRequestFailed MAccessTimeout None)"

definition clearMaterialsRelease :: "'w change" where
  "clearMaterialsRelease c = c\<lparr>ct_releaseTimer := None\<rparr>"

definition quit :: "'w change" where
  "quit c =
     (if ct_shuttingDown c then c
      else clearMaterialsRelease (c\<lparr>ct_shuttingDown := True, ct_snapshots := None, ct_listening := False,
        ct_socket := map_option (\<lambda>_. False) (ct_socket c)\<rparr>))"

section \<open>Materials\<close>

definition armMaterialsRelease :: "'w controller_env \<Rightarrow> utext \<Rightarrow> 'w change" where
  "armMaterialsRelease A releaseAtIso c0 =
     (let c = clearMaterialsRelease c0 in
      if ct_shuttingDown c \<or> as_examEnded (ct_state c) \<or> ct_workspaceDir c = None \<or> ct_socket c = None then c
      else (case ce_parseDate A releaseAtIso of
        None \<Rightarrow> c
      | Some due \<Rightarrow> clock A (\<lambda>t c'. c'\<lparr>ct_releaseTimer :=
          Some (int t + (if due - int t > 0 then due - int t else 1000))\<rparr>) c))"

definition instructionsDeliverables :: "deliverable list \<Rightarrow> (utext \<times> utext list) list" where
  "instructionsDeliverables = map (\<lambda>d. (dl_requiredFilename d, dl_entries d))"

text \<open>The call of \<open>writeInstructions\<close>: its text is made now, the file is written when the task goes on.\<close>

definition start_sheet :: "materials_caller \<Rightarrow> utext \<Rightarrow> utext list \<Rightarrow> 'w change" where
  "start_sheet caller workspaceDir names c =
     spawn (TSheet caller workspaceDir
       \<lparr>ii_sessionName = as_sessionName (ct_state c), ii_studentName = as_studentName (ct_state c),
        ii_studentId = (case caller of FromJoin student \<Rightarrow> student | _ \<Rightarrow> or_empty (as_studentId (ct_state c))),
        ii_endTime = as_endTime (ct_state c), ii_deliverables = instructionsDeliverables (ct_deliverables c),
        ii_materials = names\<rparr>) c"

text \<open>\<open>syncMaterials\<close> after its download\<close>

definition materials_synced :: "'w controller_env \<Rightarrow> materials_outcome \<Rightarrow> 'w change" where
  "materials_synced A oc c =
     (case mo_status oc of
        MatDownloaded \<Rightarrow>
          (let c1 = patch_materials (\<lambda>m. m\<lparr>mt_count := max (mt_count m) (int (length (mo_fileNames oc))),
                      mt_status := MtDownloaded, mt_names := mo_fileNames oc\<rparr>) (clearMaterialsRelease c)
           in if mo_downloaded oc > 0 then notify A (ToastMaterials (mo_downloaded oc)) c1 else c1)
      | MatNotYet \<Rightarrow>
          (let c1 = agent_log A (MNotReleased (mo_releaseAt oc))
                      (patch_materials (\<lambda>m. m\<lparr>mt_status := MtNotYet, mt_releaseAt := mo_releaseAt oc\<rparr>) c)
           in (case mo_releaseAt oc of
                 Some releaseAt \<Rightarrow> if releaseAt \<noteq> [] then armMaterialsRelease A releaseAt c1 else c1
               | None \<Rightarrow> c1))
      | MatNone \<Rightarrow> patch_materials (\<lambda>m. m\<lparr>mt_count := 0, mt_status := MtNone\<rparr>) (clearMaterialsRelease c)
      | MatFailed \<Rightarrow> notify A ToastMaterialsFailed (patch_materials (\<lambda>m. m\<lparr>mt_status := MtFailed\<rparr>) c))"

definition materials_done ::
  "'w controller_env \<Rightarrow> materials_caller \<Rightarrow> utext \<Rightarrow> disk_error + materials_outcome \<Rightarrow> 'w change" where
  "materials_done A caller workspaceDir r =
     (case r of
        Inl e \<Rightarrow> agent_log A (case caller of FromJoin _ \<Rightarrow> MAfterJoin e | FromTimer \<Rightarrow> MMaterialsError e | FromUpdate \<Rightarrow> MNewMaterialsError e)
      | Inr oc \<Rightarrow> (\<lambda>c. let c1 = materials_synced A oc c in
          if caller = FromTimer \<and> (ct_shuttingDown c1 \<or> as_examEnded (ct_state c1)) then c1
          else start_sheet caller workspaceDir (mo_fileNames oc) c1))"

text \<open>\<open>pullMaterialsWhenOpen\<close> and \<open>handleMaterialsUpdated\<close> up to their request\<close>

definition pullMaterialsWhenOpen :: "'w change" where
  "pullMaterialsWhenOpen c =
     (case ct_workspaceDir c of
        Some dir \<Rightarrow>
          if ct_shuttingDown c \<or> as_examEnded (ct_state c) \<or> as_joinPhase (ct_state c) \<noteq> PJoined \<or> ct_socket c = None then c
          else spawn (TMaterials FromTimer dir) c
      | None \<Rightarrow> c)"

definition handleMaterialsUpdated :: "'w change" where
  "handleMaterialsUpdated c =
     (case ct_workspaceDir c of
        Some dir \<Rightarrow>
          if as_joinPhase (ct_state c) \<noteq> PJoined \<or> ct_socket c = None then c else spawn (TMaterials FromUpdate dir) c
      | None \<Rightarrow> c)"

section \<open>The acknowledged join\<close>

text \<open>From \<open>clearMaterialsRelease\<close> on. The joining itself needs a socket, which only \<open>join\<close> makes, so the folder is set.\<close>

definition after_files :: "'w controller_env \<Rightarrow> join_ack \<Rightarrow> utext \<Rightarrow> utext \<Rightarrow> 'w change" where
  "after_files A ack workspaceDir studentId c0 =
     (let c = clearMaterialsRelease c0 in
      if ja_materialCount ack > 0
      then spawn (TMaterials (FromJoin studentId) workspaceDir)
        (patch_materials (\<lambda>m. m\<lparr>mt_count := ja_materialCount ack, mt_status := MtPending\<rparr>) c)
      else (case ce_parseDate A (ja_releaseAt ack) of
        None \<Rightarrow> start_sheet (FromJoin studentId) workspaceDir [] c
      | Some due \<Rightarrow> clock A (\<lambda>t c1.
          start_sheet (FromJoin studentId) workspaceDir []
            (if due > int t
             then armMaterialsRelease A (ja_releaseAt ack) (agent_log A (MNotReleased (Some (ja_releaseAt ack)))
               (patch_materials (\<lambda>m. m\<lparr>mt_count := 0, mt_status := MtNotYet, mt_releaseAt := Some (ja_releaseAt ack)\<rparr>) c1))
             else c1)) c))"

text \<open>The required files of a first join, then the folder is opened.\<close>

definition create_files :: "'w controller_env \<Rightarrow> join_ack \<Rightarrow> utext \<Rightarrow> utext \<Rightarrow> 'w change" where
  "create_files A ack workspaceDir studentId =
     run_sync (diskE (createSubmissionFiles (ae_system A) workspaceDir (ja_requiredFiles ack))) (\<lambda>r c.
       case r of
         Inl e \<Rightarrow> agent_log A (MAfterJoin e) c
       | Inr created \<Rightarrow> after_files A ack workspaceDir studentId
           (emit (OOpenWorkspace workspaceDir)
             (agent_log A (MCreated (cf_createdCount created) workspaceDir)
               (patch (\<lambda>s. s\<lparr>as_requiredFiles := cf_files created\<rparr>) c))))"

definition restore_done ::
  "'w controller_env \<Rightarrow> join_ack \<Rightarrow> utext \<Rightarrow> utext \<Rightarrow> restore_status \<Rightarrow> nat \<times> nat \<Rightarrow> 'w change" where
  "restore_done A ack workspaceDir studentId st counts c =
     create_files A ack workspaceDir studentId
       (case st of
          Restored \<Rightarrow> agent_log A (MRestored (fst counts) (snd counts))
            (patch_backup (\<lambda>b. b\<lparr>bk_status := BkRestored, bk_restored := fst counts, bk_skipped := snd counts\<rparr>) c)
        | RestoreFailed \<Rightarrow> notify A ToastRestoreFailed (patch_backup (\<lambda>b. b\<lparr>bk_status := BkFailed\<rparr>) c)
        | NothingToRestore \<Rightarrow> patch_backup (\<lambda>b. b\<lparr>bk_status := BkNothing\<rparr>) c)"

text \<open>The loop of \<open>restoreBackup\<close> up to its next \<open>await\<close>, or its end.\<close>

definition restore_next ::
  "'w controller_env \<Rightarrow> join_ack \<Rightarrow> utext \<Rightarrow> utext \<Rightarrow> zip_entry list \<Rightarrow> nat \<times> nat \<Rightarrow> 'w change" where
  "restore_next A ack workspaceDir studentId entries counts c =
     (case restore_scan (ae_system A) (ct_disk c) workspaceDir entries counts of
        RestoreOver counts' \<Rightarrow> restore_done A ack workspaceDir studentId Restored counts' c
      | RestoreWrite target unpacked rest counts' \<Rightarrow>
          spawn (TStore ack workspaceDir studentId target unpacked rest counts') c)"

definition doHandleJoinAck :: "'w controller_env \<Rightarrow> join_ack \<Rightarrow> 'w change" where
  "doHandleJoinAck A ack c =
     (let isFirstJoin = \<not> ct_hasJoinedOnce c;
          studentId = or_empty (as_studentId (ct_state c));
          workspaceDir = or_empty (ct_workspaceDir c);
          c1 = c\<lparr>ct_hasJoinedOnce := True, ct_examSessionId := ja_examSessionId ack, ct_deliverables := ja_deliverables ack\<rparr>;
          c2 = clock A (\<lambda>t. patch (\<lambda>s. s\<lparr>as_joinPhase := PJoined, as_joinError := None, as_connection := Connected,
                  as_studentName := ja_studentName ack, as_sessionName := ja_sessionName ack, as_endTime := ja_endTime ack,
                  as_confirmedAt := Some t, as_backup := (as_backup s)\<lparr>bk_available := ja_backupAvailable ack\<rparr>\<rparr>)) c1;
          c3 = notify A (ToastConfirmed (ja_studentName ack)) c2
      in if \<not> isFirstJoin then after_files A ack workspaceDir studentId (agent_log A MReconnected c3)
         else if ja_backupAvailable ack
         then spawn (TOpenBackup ack workspaceDir studentId) (patch_backup (\<lambda>b. b\<lparr>bk_status := BkRestoring\<rparr>) c3)
         else create_files A ack workspaceDir studentId c3)"

text \<open>After the instructions: a join starts the snapshots unless they run.\<close>

definition sheet_done :: "materials_caller \<Rightarrow> utext \<Rightarrow> 'w change" where
  "sheet_done caller workspaceDir c =
     (case caller of
        FromJoin _ \<Rightarrow>
          if ct_snapshots c = None then emit (OStartSnapshots workspaceDir) (c\<lparr>ct_snapshots := Some workspaceDir\<rparr>) else c
      | _ \<Rightarrow> c)"

definition snapshot_done :: "'w controller_env \<Rightarrow> disk_error + snapshot_result \<Rightarrow> 'w change" where
  "snapshot_done A r =
     (case r of
        Inr SnapFailed \<Rightarrow> patch_backup (\<lambda>b. b\<lparr>bk_lastFailed := True\<rparr>)
      | Inr SnapUploaded \<Rightarrow> clock A (\<lambda>t. patch_backup (\<lambda>b. b\<lparr>bk_lastAt := Some t, bk_lastFailed := False\<rparr>))
      | _ \<Rightarrow> id)"

definition handleJoinError :: "'w controller_env \<Rightarrow> join_error \<Rightarrow> 'w change" where
  "handleJoinError A err c =
     (if as_examEnded (ct_state c) then agent_log A (MErrorAfterEnd (jr_code err)) c
      else (case jr_code err of
        CodeNotEnrolled \<Rightarrow> setJoinPhase PAccessForm c
      | CodeRateLimited \<Rightarrow>
          clock A (\<lambda>t. setJoinError CodeRateLimited (MFromServer (jr_message err)) (Some (int t + jr_retryAfterMs err))) c
      | CodeNotActive \<Rightarrow> patch (\<lambda>s. s\<lparr>as_joinPhase := PNotActive,
          as_joinError := Some \<lparr>je_code = CodeNotActive, je_message = MFromServer (jr_message err), je_retryUntil = None\<rparr>\<rparr>) c
      | code \<Rightarrow> setJoinError code (MFromServer (jr_message err)) None c))"

section \<open>Collection\<close>

definition removeWorkspaceAfterCollection :: "'w controller_env \<Rightarrow> 'w change" where
  "removeWorkspaceAfterCollection A c =
     (case ct_workspaceDir c of
        None \<Rightarrow> c
      | Some dir \<Rightarrow> run_sync (diskE (remove_folder (ae_system A) (path_parts dir))) (\<lambda>r c1.
          agent_log A (case r of Inl e \<Rightarrow> MNotRemoved e | Inr _ \<Rightarrow> MRemoved dir) (emit (ORemoveWorkspace dir) c1)) c)"

definition collectAll :: "'w controller_env \<Rightarrow> trigger \<Rightarrow> toast \<Rightarrow> 'w change" where
  "collectAll A trigger announcement c =
     (if ct_finalizing c then agent_log A (if trigger = Recollect then MBusyRecollect else MBusyFinalize) c
      else if ct_deliverables c = [] \<or> falsy (ct_examSessionId c) \<or> falsy (as_studentId (ct_state c))
      then agent_log A MNothingToCollect c
      else let c1 = notify A announcement
                      (patch (\<lambda>s. s\<lparr>as_submission := (as_submission s)\<lparr>sb_finalizing := True\<rparr>\<rparr>)
                        (c\<lparr>ct_finalizing := True, ct_snapshots := None\<rparr>))
           in clock A (\<lambda>startedAt c2. spawn
                (TUpload (or_empty (ct_workspaceDir c)) (or_empty (ct_examSessionId c)) (or_empty (as_studentId (ct_state c)))
                  (ct_deliverables c) (ct_deliverables c) [] startedAt) c2) c1)"

text \<open>After \<open>uploadAllDeliverables\<close>\<close>

definition collected :: "'w controller_env \<Rightarrow> upload_summary \<Rightarrow> 'w change" where
  "collected A summary c =
     (let c1 = notify A (ToastSubmitted summary)
                 (patch (\<lambda>s. s\<lparr>as_submission := \<lparr>sb_finalizing = False, sb_summary = Some summary\<rparr>\<rparr>) c);
          c2 = (if us_missing summary > 0 \<or> us_failed summary > 0
                then notify A (ToastStragglers (filter (\<lambda>r. dr_outcome r \<noteq> OutUploaded) (us_results summary))) c1
                else removeWorkspaceAfterCollection A c1)
      in c2\<lparr>ct_finalizing := False\<rparr>)"

text \<open>One round of the loop of \<open>uploadAllDeliverables\<close>, and its end after the last one.\<close>

definition upload_round ::
  "'w controller_env \<Rightarrow> utext \<Rightarrow> utext \<Rightarrow> utext \<Rightarrow> deliverable list \<Rightarrow> deliverable list \<Rightarrow> deliverable_result list \<Rightarrow> nat \<Rightarrow> 'w change" where
  "upload_round A dir sid uid deliverables rest results startedAt =
     (case rest of
        [] \<Rightarrow> clock A (\<lambda>t. collected A (summarise deliverables results (int t - int startedAt)))
      | dl # rest' \<Rightarrow> run_sync (uploadOne (agent_net.truncate A) (ae_system A) dir sid uid dl) (\<lambda>r c.
          let c1 = agent_log A (MUploaded r) c in
          if rest' = [] then clock A (\<lambda>t. collected A (summarise deliverables (results @ [r]) (int t - int startedAt))) c1
          else spawn (TUpload dir sid uid deliverables rest' (results @ [r]) startedAt) c1))"

definition handleFinalize :: "'w controller_env \<Rightarrow> bool \<Rightarrow> 'w change" where
  "handleFinalize A manual c =
     collectAll A Finalize (ToastExamOver manual)
       (if as_examEnded (ct_state c) then c
        else patch (\<lambda>s. s\<lparr>as_examEnded := True\<rparr>) (clearMaterialsRelease c))"

definition handleRecollect :: "'w controller_env \<Rightarrow> 'w change" where
  "handleRecollect A c = collectAll A Recollect ToastRecollect (emit OAckRecollect c)"

section \<open>Events\<close>

datatype socket_event =
    SConnect
  | SConnectError utext
  | SDisconnect utext
  | SJoinAck "join_ack option"
  | SJoinError "join_error option"
  | SFinalize "bool option"
  | SRecollect
  | SMaterialsUpdated
  | SAccessGranted
  | SAccessDenied "utext option"

datatype 'w event =
    EJoin utext utext
  | EAccess utext utext
  | EQuit
  | ESocket socket_event
  | EReleaseTimer
  | ESnapshotTimer
  | EResume nat
  | EDisk disk
  | EWorld 'w

definition on_connect :: "'w controller_env \<Rightarrow> 'w change" where
  "on_connect A c0 =
     (let c = (patch (\<lambda>s. s\<lparr>as_connection := Connected\<rparr>) c0)\<lparr>ct_socket := Some True\<rparr> in
      if as_examEnded (ct_state c) then agent_log A MReconnectedAfterEnd c else emitJoin c)"

definition on_connect_error :: "'w controller_env \<Rightarrow> utext \<Rightarrow> 'w change" where
  "on_connect_error A message c0 =
     (let c = (patch (\<lambda>s. s\<lparr>as_connection := ConnectFailed\<rparr>) c0)\<lparr>ct_socket := Some False\<rparr> in
      agent_log A (MCannotConnect message) (if \<not> ct_hasJoinedOnce c then setJoinPhase PConnectError c else c))"

definition on_disconnect :: "'w controller_env \<Rightarrow> utext \<Rightarrow> 'w change" where
  "on_disconnect A reason c0 =
     (let c = (patch (\<lambda>s. s\<lparr>as_connection := Disconnected\<rparr>) c0)\<lparr>ct_socket := Some False\<rparr> in
      if \<not> ct_shuttingDown c \<and> ct_hasJoinedOnce c \<and> \<not> as_examEnded (ct_state c)
      then notify A (ToastConnectionLost reason) c else c)"

definition on_socket :: "'w controller_env \<Rightarrow> socket_event \<Rightarrow> 'w change" where
  "on_socket A ev =
     (case ev of
        SConnect \<Rightarrow> on_connect A
      | SConnectError message \<Rightarrow> on_connect_error A message
      | SDisconnect reason \<Rightarrow> on_disconnect A reason
      | SJoinAck None \<Rightarrow> agent_log A MBadAck
      | SJoinAck (Some ack) \<Rightarrow> doHandleJoinAck A ack
      | SJoinError None \<Rightarrow> setJoinError CodeInvalidInput MBadError None
      | SJoinError (Some err) \<Rightarrow> handleJoinError A err
      | SFinalize None \<Rightarrow> agent_log A MBadFinalize
      | SFinalize (Some manual) \<Rightarrow> handleFinalize A manual
      | SRecollect \<Rightarrow> handleRecollect A
      | SMaterialsUpdated \<Rightarrow> handleMaterialsUpdated
      | SAccessGranted \<Rightarrow> (\<lambda>c. emitJoin (setJoinPhase PJoining (notify A ToastAccessGranted c)))
      | SAccessDenied message \<Rightarrow> setJoinError CodeAccessDenied (MAccessDenied message) None)"

text \<open>What a resumed task does.\<close>

definition run_task :: "'w controller_env \<Rightarrow> task \<Rightarrow> 'w change" where
  "run_task A t =
     (case t of
        TOpenBackup ack dir student \<Rightarrow> run_sync (open_backup (agent_env.truncate A)) (\<lambda>r.
          case r of
            Inr (Inr entries) \<Rightarrow> restore_next A ack dir student entries (0, 0)
          | Inr (Inl st) \<Rightarrow> restore_done A ack dir student st (0, 0)
          | Inl e \<Rightarrow> agent_log A (MAfterJoin e))
      | TStore ack dir student target unpacked entries counts \<Rightarrow>
          run_sync (diskE (restore_store (ae_system A) target unpacked counts)) (\<lambda>r.
            case r of
              Inl e \<Rightarrow> agent_log A (MAfterJoin e)
            | Inr counts' \<Rightarrow> restore_next A ack dir student entries counts')
      | TMaterials caller dir \<Rightarrow> run_sync (downloadMaterials (agent_env.truncate A) dir) (materials_done A caller dir)
      | TSheet caller dir input \<Rightarrow>
          run_sync (diskE (writeInstructions (ae_system A) dir (ae_encode A (renderInstructions input)))) (\<lambda>_. sheet_done caller dir)
      | TUpload dir sid uid deliverables rest results startedAt \<Rightarrow> upload_round A dir sid uid deliverables rest results startedAt
      | TAccess \<Rightarrow> run_sync (\<lambda>(d, w). case ce_askAccess A w of (ack, w') \<Rightarrow> (ack, (d, w'))) (access_answered A)
      | TSnapshot dir \<Rightarrow> run_sync (uploadSnapshot (agent_env.truncate A) dir) (snapshot_done A))"

definition resume :: "'w controller_env \<Rightarrow> nat \<Rightarrow> 'w change" where
  "resume A n c =
     (case map_of (ct_tasks c) n of
        None \<Rightarrow> c
      | Some t \<Rightarrow> run_task A t (c\<lparr>ct_tasks := filter (\<lambda>(i, _). i \<noteq> n) (ct_tasks c)\<rparr>))"

definition step :: "'w controller_env \<Rightarrow> 'w event \<Rightarrow> 'w change" where
  "step A ev c =
     (case ev of
        EJoin studentId sessionCode \<Rightarrow> join A studentId sessionCode c
      | EAccess fullName reason \<Rightarrow> sendAccessRequest fullName reason c
      | EQuit \<Rightarrow> quit c
      | ESocket sev \<Rightarrow> if ct_listening c then on_socket A sev c else c
      | EReleaseTimer \<Rightarrow>
          if ct_releaseTimer c \<noteq> None then pullMaterialsWhenOpen (c\<lparr>ct_releaseTimer := None\<rparr>) else c
      | ESnapshotTimer \<Rightarrow> (case ct_snapshots c of Some dir \<Rightarrow> spawn (TSnapshot dir) c | None \<Rightarrow> c)
      | EResume n \<Rightarrow> resume A n c
      | EDisk d \<Rightarrow> c\<lparr>ct_disk := d\<rparr>
      | EWorld w \<Rightarrow> c\<lparr>ct_world := w\<rparr>)"

end
