(* ===== verification/SessionController_Spec.thy ===== *)
theory SessionController_Spec
  imports SessionController Transactions
begin

text \<open>
  What holds of the controller of the lab agent after every history of events. Most handlers are \<open>quiet\<close>: they
  change neither the disk nor what the invariant speaks of. The rest, the acknowledged join and the collection,
  are the subject of the lemmas in the middle; the end states what a student may rely on.
\<close>

section \<open>Views of the state\<close>

fun is_upload :: "task \<Rightarrow> bool" where
  "is_upload (TUpload _ _ _ _ _ _ _) = True"
| "is_upload _ = False"

fun is_restore :: "task \<Rightarrow> bool" where
  "is_restore (TOpenBackup _ _ _) = True"
| "is_restore (TStore _ _ _ _ _ _ _) = True"
| "is_restore _ = False"

definition tasks_of :: "(task \<Rightarrow> bool) \<Rightarrow> 'w controller \<Rightarrow> task list" where
  "tasks_of P c = filter P (map snd (ct_tasks c))"

fun opens :: "agent_out \<Rightarrow> bool" where
  "opens (OOpenWorkspace _) = True"
| "opens _ = False"

definition opened :: "'w controller \<Rightarrow> nat" where
  "opened c = length (filter opens (ct_out c))"

definition exam_ended :: "'w controller \<Rightarrow> bool" where
  "exam_ended c = as_examEnded (ct_state c)"

text \<open>The log is bounded and the tasks have names of their own.\<close>

definition orderly :: "'w controller \<Rightarrow> bool" where
  "orderly c \<longleftrightarrow> length (as_log (ct_state c)) \<le> MAX_LOG_ENTRIES \<and> distinct (map fst (ct_tasks c)) \<and>
     list_all (\<lambda>(i, _). i < ct_nextTask c) (ct_tasks c)"

definition quiet :: "'w controller \<Rightarrow> 'w controller \<Rightarrow> bool" where
  "quiet c c' \<longleftrightarrow> tasks_of is_upload c' = tasks_of is_upload c \<and> tasks_of is_restore c' = tasks_of is_restore c \<and>
     opened c' = opened c \<and> ct_finalizing c' = ct_finalizing c \<and> ct_hasJoinedOnce c' = ct_hasJoinedOnce c \<and>
     exam_ended c' = exam_ended c \<and> ct_disk c' = ct_disk c \<and> (orderly c \<longrightarrow> orderly c')"

named_theorems quiet_intros \<open>handlers that are quiet\<close>

lemma quiet_refl [quiet_intros]: "quiet c c"
  by (simp add: quiet_def)

lemma quiet_trans: "quiet c x \<Longrightarrow> quiet x y \<Longrightarrow> quiet c y"
  by (simp add: quiet_def)

lemmas view_defs = tasks_of_def opened_def exam_ended_def orderly_def

lemma quiet_fields [quiet_intros]:
  assumes "quiet c x"
  shows "quiet c (x\<lparr>ct_payload := a1\<rparr>)" "quiet c (x\<lparr>ct_workspaceDir := a2\<rparr>)" "quiet c (x\<lparr>ct_socket := a3\<rparr>)"
    "quiet c (x\<lparr>ct_listening := a4\<rparr>)" "quiet c (x\<lparr>ct_shuttingDown := a5\<rparr>)" "quiet c (x\<lparr>ct_snapshots := a6\<rparr>)"
    "quiet c (x\<lparr>ct_releaseTimer := a7\<rparr>)" "quiet c (x\<lparr>ct_world := a8\<rparr>)" "quiet c (x\<lparr>ct_examSessionId := a9\<rparr>)"
    "quiet c (x\<lparr>ct_deliverables := b1\<rparr>)"
  using assms by (simp_all add: quiet_def view_defs)

lemma quiet_patch [quiet_intros]:
  assumes "quiet c x" "\<And>s. as_examEnded (f s) = as_examEnded s \<and> as_log (f s) = as_log s"
  shows "quiet c (patch f x)"
  using assms by (simp add: quiet_def view_defs patch_def)

lemma length_take_last [simp]: "length (take_last n xs) \<le> n"
  by (simp add: take_last_def)

lemma quiet_clock [quiet_intros]:
  "quiet c x \<Longrightarrow> (\<And>t y. quiet c y \<Longrightarrow> quiet c (k t y)) \<Longrightarrow> quiet c (clock A k x)"
  by (auto simp: clock_def intro!: quiet_fields split: prod.split)

lemma quiet_log [quiet_intros]: "quiet c x \<Longrightarrow> quiet c (agent_log A m x)"
  unfolding agent_log_def
  by (rule quiet_clock) (simp_all add: quiet_def view_defs patch_def)

lemma quiet_emit [quiet_intros]: "quiet c x \<Longrightarrow> \<not> opens out \<Longrightarrow> quiet c (emit out x)"
  by (simp add: quiet_def view_defs emit_def)

lemma orderly_spawn: "orderly c \<Longrightarrow> orderly (spawn t c)"
  unfolding orderly_def spawn_def list_all_iff by fastforce

lemma quiet_spawn [quiet_intros]: "quiet c x \<Longrightarrow> \<not> is_upload t \<Longrightarrow> \<not> is_restore t \<Longrightarrow> quiet c (spawn t x)"
  using orderly_spawn[of x t] by (simp add: quiet_def tasks_of_def opened_def exam_ended_def spawn_def)

lemma quiet_notify [quiet_intros]: "quiet c x \<Longrightarrow> quiet c (notify A m x)"
  unfolding notify_def by (intro quiet_log quiet_emit) auto

lemma quiet_setJoinPhase [quiet_intros]: "quiet c x \<Longrightarrow> quiet c (setJoinPhase p x)"
  and quiet_setJoinError [quiet_intros]: "quiet c x \<Longrightarrow> quiet c (setJoinError code m r x)"
  and quiet_patch_backup [quiet_intros]: "quiet c x \<Longrightarrow> quiet c (patch_backup f x)"
  and quiet_patch_materials [quiet_intros]: "quiet c x \<Longrightarrow> quiet c (patch_materials g x)"
  unfolding setJoinPhase_def setJoinError_def patch_backup_def patch_materials_def
  by (auto intro!: quiet_patch)

section \<open>Quiet handlers\<close>

lemma quiet_emitJoin [quiet_intros]: "quiet c x \<Longrightarrow> quiet c (emitJoin x)"
  unfolding emitJoin_def by (auto split: option.split intro!: quiet_intros)

lemma quiet_connectSocket [quiet_intros]: "quiet c x \<Longrightarrow> quiet c (connectSocket x)"
  unfolding connectSocket_def by (auto intro!: quiet_intros)

lemma quiet_join: "quiet c (join A student code c)"
  unfolding join_def Let_def by (auto split: option.split bool.split intro!: quiet_intros)

lemma quiet_sendAccessRequest: "quiet c (sendAccessRequest fullName reason c)"
  unfolding sendAccessRequest_def by (auto intro!: quiet_intros)

lemma quiet_access_answered: "quiet c (access_answered A ack c)"
  unfolding access_answered_def by (auto split: access_ack.split intro!: quiet_intros)

lemma quiet_clearMaterialsRelease [quiet_intros]: "quiet c x \<Longrightarrow> quiet c (clearMaterialsRelease x)"
  unfolding clearMaterialsRelease_def by (rule quiet_fields)

lemma quiet_quit: "quiet c (quit c)"
  unfolding quit_def clearMaterialsRelease_def by (simp add: quiet_def view_defs)

lemma quiet_armMaterialsRelease [quiet_intros]: "quiet c x \<Longrightarrow> quiet c (armMaterialsRelease A due x)"
  unfolding armMaterialsRelease_def Let_def by (auto split: option.split intro!: quiet_intros)

lemma quiet_start_sheet [quiet_intros]: "quiet c x \<Longrightarrow> quiet c (start_sheet caller dir names x)"
  unfolding start_sheet_def by (rule quiet_spawn) auto

lemma quiet_materials_synced [quiet_intros]: "quiet c x \<Longrightarrow> quiet c (materials_synced A oc x)"
  unfolding materials_synced_def Let_def
  by (auto split: materials_status.split option.split intro!: quiet_intros)

lemma quiet_materials_done: "quiet c (materials_done A caller dir r c)"
  unfolding materials_done_def Let_def by (auto split: sum.split intro!: quiet_intros)

lemma quiet_pullMaterialsWhenOpen [quiet_intros]: "quiet c x \<Longrightarrow> quiet c (pullMaterialsWhenOpen x)"
  unfolding pullMaterialsWhenOpen_def by (auto split: option.split intro!: quiet_intros)

lemma quiet_handleMaterialsUpdated: "quiet c (handleMaterialsUpdated c)"
  unfolding handleMaterialsUpdated_def by (auto split: option.split intro!: quiet_intros)

lemma quiet_after_files [quiet_intros]: "quiet c x \<Longrightarrow> quiet c (after_files A ack dir student x)"
  unfolding after_files_def Let_def by (auto split: option.split intro!: quiet_intros)

lemma quiet_sheet_done: "quiet c (sheet_done caller dir c)"
  unfolding sheet_done_def by (auto split: materials_caller.split intro!: quiet_intros)

lemma quiet_snapshot_done: "quiet c (snapshot_done A r c)"
  unfolding snapshot_done_def by (auto split: sum.split snapshot_result.split intro!: quiet_intros)

lemma quiet_handleJoinError: "quiet c (handleJoinError A err c)"
  unfolding handleJoinError_def by (auto split: ui_error_code.split intro!: quiet_intros)

lemma quiet_connection:
  "quiet c (on_connect A c)" "quiet c (on_connect_error A m c)" "quiet c (on_disconnect A r c)"
  unfolding on_connect_def on_connect_error_def on_disconnect_def Let_def by (auto intro!: quiet_intros)

section \<open>The acknowledged join\<close>

text \<open>Like \<open>quiet\<close>, but the disk may change and the folder may be opened.\<close>

definition same_work :: "'w controller \<Rightarrow> 'w controller \<Rightarrow> bool" where
  "same_work c c' \<longleftrightarrow> tasks_of is_upload c' = tasks_of is_upload c \<and> tasks_of is_restore c' = tasks_of is_restore c \<and>
     ct_finalizing c' = ct_finalizing c \<and> ct_hasJoinedOnce c' = ct_hasJoinedOnce c \<and> exam_ended c' = exam_ended c \<and>
     (orderly c \<longrightarrow> orderly c')"

lemma same_work_trans: "same_work c x \<Longrightarrow> same_work x y \<Longrightarrow> same_work c y"
  by (simp add: same_work_def)

lemma quiet_same_work: "quiet c x \<Longrightarrow> same_work c x"
  by (simp add: quiet_def same_work_def)

lemma same_work_disk: "same_work c (c\<lparr>ct_disk := d, ct_world := w\<rparr>)"
  and same_work_emit: "same_work c (emit out c)"
  by (simp_all add: same_work_def view_defs emit_def)

lemma run_sync_split:
  "(\<And>r d w. m (ct_disk c, ct_world c) = (r, (d, w)) \<Longrightarrow> P (k r (c\<lparr>ct_disk := d, ct_world := w\<rparr>))) \<Longrightarrow> P (run_sync m k c)"
  by (auto simp: run_sync_def split: prod.split)

lemma sync_keeps: "keepsE (on_disk I) m \<Longrightarrow> m (d, w) = (r, (d', w')) \<Longrightarrow> I d \<Longrightarrow> I d'"
  using keepsE_end[of "on_disk I" m "(d, w)"] by (simp add: on_disk_def)

lemma quiet_opened: "quiet c x \<Longrightarrow> opened x = opened c"
  by (simp add: quiet_def)

text \<open>The files with content stay as they are, but for those at the paths of \<open>P\<close>.\<close>

definition kept_but :: "(utext list \<Rightarrow> bool) \<Rightarrow> 'w controller \<Rightarrow> 'w controller \<Rightarrow> bool" where
  "kept_but P c c' \<longleftrightarrow> (\<forall>p content. content \<noteq> [] \<longrightarrow> \<not> P p \<longrightarrow>
     has_file p content (ct_disk c) \<longrightarrow> has_file p content (ct_disk c'))"

abbreviation saves :: "'w controller \<Rightarrow> 'w controller \<Rightarrow> bool" where
  "saves \<equiv> kept_but (\<lambda>_. False)"

lemma kept_mono: "kept_but P c c' \<Longrightarrow> (\<And>p. P p \<Longrightarrow> Q p) \<Longrightarrow> kept_but Q c c'"
  unfolding kept_but_def by blast

lemma saves_kept: "saves c c' \<Longrightarrow> kept_but P c c'"
  by (erule kept_mono) simp

lemma kept_trans: "kept_but P c x \<Longrightarrow> kept_but P x y \<Longrightarrow> kept_but P c y"
  by (simp add: kept_but_def)

lemma same_disk_kept: "ct_disk c' = ct_disk c \<Longrightarrow> kept_but P c c'"
  by (simp add: kept_but_def)

lemma quiet_kept: "quiet c x \<Longrightarrow> kept_but P c x"
  by (simp add: quiet_def kept_but_def)

lemma kept_sync:
  assumes "m (ct_disk c, ct_world c) = (r, (d, w))"
    and "\<And>p content. content \<noteq> [] \<Longrightarrow> \<not> P p \<Longrightarrow> keepsE (on_disk (has_file p content)) m"
  shows "kept_but P c (c\<lparr>ct_disk := d, ct_world := w\<rparr>)"
  unfolding kept_but_def using sync_keeps[OF assms(2) assms(1)] by simp

lemma create_files_frame:
  "same_work c (create_files A ack dir student c) \<and> opened (create_files A ack dir student c) \<le> opened c + 1 \<and>
   saves c (create_files A ack dir student c)"
  unfolding create_files_def
proof (rule run_sync_split, goal_cases)
  case (1 r d w)
  let ?c = "c\<lparr>ct_disk := d, ct_world := w\<rparr>"
  have base: "same_work c ?c" "opened ?c = opened c" by (simp_all add: same_work_disk opened_def)
  have saved: "saves c ?c" using 1 by (rule kept_sync) (intro keepsE_disk createSubmissionFiles_keeps)
  show ?case
  proof (cases r)
    case (Inl e)
    have "quiet ?c (agent_log A (MAfterJoin e) ?c)" by (intro quiet_intros)
    then show ?thesis
      using same_work_trans[OF base(1) quiet_same_work] kept_trans[OF saved quiet_kept] base(2) quiet_opened
      unfolding Inl sum.case by fastforce
  next
    case (Inr created)
    let ?x = "agent_log A (MCreated (cf_createdCount created) dir) (patch (\<lambda>s. s\<lparr>as_requiredFiles := cf_files created\<rparr>) ?c)"
    let ?y = "emit (OOpenWorkspace dir) ?x"
    have x: "quiet ?c ?x" by (intro quiet_intros) auto
    have y: "same_work ?x ?y" "opened ?y = Suc (opened ?x)" "saves ?x ?y"
      by (rule same_work_emit, simp_all add: opened_def kept_but_def emit_def)
    have z: "quiet ?y (after_files A ack dir student ?y)" by (intro quiet_intros)
    have "opened ?x = opened ?c" "opened (after_files A ack dir student ?y) = opened ?y" using x z by (simp_all add: quiet_def)
    moreover have "same_work c (after_files A ack dir student ?y)"
      by (rule same_work_trans[OF base(1) same_work_trans[OF quiet_same_work[OF x]
            same_work_trans[OF y(1) quiet_same_work[OF z]]]])
    moreover have "saves c (after_files A ack dir student ?y)"
      by (rule kept_trans[OF saved kept_trans[OF quiet_kept[OF x] kept_trans[OF y(3) quiet_kept[OF z]]]])
    ultimately show ?thesis using base(2) y(2) unfolding Inr sum.case by simp
  qed
qed

lemma restore_done_frame:
  "same_work c (restore_done A ack dir student st counts c) \<and> opened (restore_done A ack dir student st counts c) \<le> opened c + 1 \<and>
   saves c (restore_done A ack dir student st counts c)"
proof -
  define x where "x = (case st of
      Restored \<Rightarrow> agent_log A (MRestored (fst counts) (snd counts))
        (patch_backup (\<lambda>b. b\<lparr>bk_status := BkRestored, bk_restored := fst counts, bk_skipped := snd counts\<rparr>) c)
    | RestoreFailed \<Rightarrow> notify A ToastRestoreFailed (patch_backup (\<lambda>b. b\<lparr>bk_status := BkFailed\<rparr>) c)
    | NothingToRestore \<Rightarrow> patch_backup (\<lambda>b. b\<lparr>bk_status := BkNothing\<rparr>) c)"
  have x: "quiet c x" unfolding x_def by (auto split: restore_status.split intro!: quiet_intros)
  then have "opened x = opened c" by (simp add: quiet_def)
  with create_files_frame[of x A ack dir student] x show ?thesis
    unfolding restore_done_def x_def[symmetric] by (auto intro: same_work_trans quiet_same_work kept_trans quiet_kept)
qed

section \<open>The invariant\<close>

fun upload_ok :: "task \<Rightarrow> bool" where
  "upload_ok (TUpload _ _ _ deliverables rest results _) \<longleftrightarrow> rest \<noteq> [] \<and> map dr_deliverable results @ rest = deliverables"
| "upload_ok _ = True"

text \<open>\<open>finalizing\<close> says whether a collection is under way, of which there is never more than one. The folder is opened
  at most once, counting a restore that still has to open it.\<close>

definition controller_ok :: "'w controller \<Rightarrow> bool" where
  "controller_ok c \<longleftrightarrow> orderly c \<and> length (tasks_of is_upload c) = (if ct_finalizing c then 1 else 0) \<and>
     list_all upload_ok (tasks_of is_upload c) \<and>
     opened c + length (tasks_of is_restore c) \<le> (if ct_hasJoinedOnce c then 1 else 0)"

lemma quiet_ok: "quiet c c' \<Longrightarrow> controller_ok c \<Longrightarrow> controller_ok c'"
  by (simp add: quiet_def controller_ok_def)

lemma same_work_ok:
  "same_work c c' \<Longrightarrow> opened c' \<le> opened c + 1 \<Longrightarrow> controller_ok c \<Longrightarrow> ct_hasJoinedOnce c \<Longrightarrow>
   opened c + length (tasks_of is_restore c) = 0 \<Longrightarrow> controller_ok c'"
  by (simp add: same_work_def controller_ok_def)

lemma new_controller_ok: "controller_ok (new_controller d w)"
  by (simp add: controller_ok_def view_defs new_controller_def initialState_def)

text \<open>An acknowledged join counts from the controller that has joined.\<close>

lemma doHandleJoinAck_frame:
  fixes c :: "'w controller"
  defines "c0 \<equiv> c\<lparr>ct_hasJoinedOnce := True\<rparr>"
  shows "quiet c0 (doHandleJoinAck A ack c) \<or>
    (\<not> ct_hasJoinedOnce c \<and> same_work c0 (doHandleJoinAck A ack c) \<and> opened (doHandleJoinAck A ack c) \<le> opened c0 + 1 \<and>
       saves c0 (doHandleJoinAck A ack c)) \<or>
    (\<not> ct_hasJoinedOnce c \<and> (\<exists>x dir student. quiet c0 x \<and> doHandleJoinAck A ack c = spawn (TOpenBackup ack dir student) x))"
proof -
  define c1 where "c1 = c\<lparr>ct_hasJoinedOnce := True, ct_examSessionId := ja_examSessionId ack, ct_deliverables := ja_deliverables ack\<rparr>"
  define c3 where "c3 = notify A (ToastConfirmed (ja_studentName ack))
    (clock A (\<lambda>t. patch (\<lambda>s. s\<lparr>as_joinPhase := PJoined, as_joinError := None, as_connection := Connected,
        as_studentName := ja_studentName ack, as_sessionName := ja_sessionName ack, as_endTime := ja_endTime ack,
        as_confirmedAt := Some t, as_backup := (as_backup s)\<lparr>bk_available := ja_backupAvailable ack\<rparr>\<rparr>)) c1)"
  let ?dir = "or_empty (ct_workspaceDir c)" and ?student = "or_empty (as_studentId (ct_state c))"
  have "quiet c0 c1" by (simp add: quiet_def view_defs c0_def c1_def)
  then have c3: "quiet c0 c3" unfolding c3_def by (intro quiet_intros) auto
  have def: "doHandleJoinAck A ack c =
    (if ct_hasJoinedOnce c then after_files A ack ?dir ?student (agent_log A MReconnected c3)
     else if ja_backupAvailable ack then spawn (TOpenBackup ack ?dir ?student) (patch_backup (\<lambda>b. b\<lparr>bk_status := BkRestoring\<rparr>) c3)
     else create_files A ack ?dir ?student c3)"
    by (simp add: doHandleJoinAck_def Let_def c1_def c3_def)
  consider "ct_hasJoinedOnce c" | "\<not> ct_hasJoinedOnce c" "ja_backupAvailable ack" | "\<not> ct_hasJoinedOnce c" "\<not> ja_backupAvailable ack"
    by blast
  then show ?thesis
  proof cases
    case 1
    then show ?thesis using c3 by (auto simp: def intro!: quiet_intros)
  next
    case 2
    have "quiet c0 (patch_backup (\<lambda>b. b\<lparr>bk_status := BkRestoring\<rparr>) c3)" using c3 by (intro quiet_intros)
    then show ?thesis using 2 by (auto simp: def)
  next
    case 3
    have "opened c3 = opened c0" using c3 by (simp add: quiet_def)
    with 3 show ?thesis
      using create_files_frame[of c3 A ack ?dir ?student] c3
      by (auto simp: def intro: same_work_trans quiet_same_work kept_trans quiet_kept)
  qed
qed

lemma restore_tasks_spawn: "tasks_of P (spawn t c) = tasks_of P c @ (if P t then [t] else [])"
  by (simp add: tasks_of_def spawn_def)

lemma spawn_same: "opened (spawn t c) = opened c" "ct_finalizing (spawn t c) = ct_finalizing c"
  "ct_hasJoinedOnce (spawn t c) = ct_hasJoinedOnce c" "exam_ended (spawn t c) = exam_ended c" "ct_disk (spawn t c) = ct_disk c"
  by (simp_all add: spawn_def opened_def exam_ended_def)

lemma doHandleJoinAck_ok:
  assumes "controller_ok c"
  shows "controller_ok (doHandleJoinAck A ack c)"
proof -
  let ?c0 = "c\<lparr>ct_hasJoinedOnce := True\<rparr>"
  have c0: "controller_ok ?c0" using assms by (auto simp: controller_ok_def view_defs split: if_splits)
  have none: "\<not> ct_hasJoinedOnce c \<Longrightarrow> opened ?c0 + length (tasks_of is_restore ?c0) = 0"
    using assms by (simp add: controller_ok_def view_defs)
  from doHandleJoinAck_frame[of c A ack] show ?thesis
  proof (elim disjE conjE exE)
    fix x dir student
    assume first: "\<not> ct_hasJoinedOnce c" and x: "quiet ?c0 x"
      and res: "doHandleJoinAck A ack c = spawn (TOpenBackup ack dir student) x"
    have "controller_ok x" using x c0 by (rule quiet_ok)
    moreover have "opened x + length (tasks_of is_restore x) = 0" "ct_hasJoinedOnce x"
      using x none[OF first] by (simp_all add: quiet_def)
    ultimately show ?thesis
      using orderly_spawn[of x] unfolding res by (simp add: controller_ok_def restore_tasks_spawn spawn_same)
  qed (use c0 none in \<open>auto intro: quiet_ok same_work_ok\<close>)
qed

section \<open>Resumed tasks\<close>

definition without_task :: "nat \<Rightarrow> 'w controller \<Rightarrow> 'w controller" where
  "without_task n c = c\<lparr>ct_tasks := filter (\<lambda>(i, _). i \<noteq> n) (ct_tasks c)\<rparr>"

lemma without_task_same: "opened (without_task n c) = opened c" "ct_finalizing (without_task n c) = ct_finalizing c"
  "ct_hasJoinedOnce (without_task n c) = ct_hasJoinedOnce c" "exam_ended (without_task n c) = exam_ended c"
  "ct_disk (without_task n c) = ct_disk c"
  by (simp_all add: without_task_def opened_def exam_ended_def)

lemma orderly_without_task: "orderly c \<Longrightarrow> orderly (without_task n c)"
  by (auto simp: orderly_def without_task_def list_all_iff distinct_map intro: inj_on_subset)

lemma tasks_without:
  assumes "orderly c" "map_of (ct_tasks c) n = Some t"
  shows "\<exists>ts us. tasks_of P c = ts @ (if P t then [t] else []) @ us \<and> tasks_of P (without_task n c) = ts @ us"
proof -
  obtain ts us where split: "ct_tasks c = ts @ (n, t) # us" using map_of_SomeD[OF assms(2)] by (auto dest: split_list)
  have "\<forall>q \<in> set ts \<union> set us. fst q \<noteq> n" using assms(1) split by (force simp: orderly_def)
  then have "filter (\<lambda>(i, _). i \<noteq> n) ts = ts" "filter (\<lambda>(i, _). i \<noteq> n) us = us" by (force simp: filter_id_conv)+
  then have "tasks_of P (without_task n c) = filter P (map snd ts) @ filter P (map snd us)"
    by (simp add: tasks_of_def without_task_def split)
  then show ?thesis by (intro exI[of _ "filter P (map snd ts)"] exI[of _ "filter P (map snd us)"]) (simp add: tasks_of_def split)
qed

text \<open>Where a task may write over a file with content.\<close>

definition writes_at :: "task \<Rightarrow> utext list \<Rightarrow> bool" where
  "writes_at t p =
     (case t of
        TStore _ _ _ target _ _ _ \<Rightarrow> p = path_parts target
      | TSheet _ dir _ \<Rightarrow> p = path_parts (path_join dir INSTRUCTIONS_FILENAME)
      | _ \<Rightarrow> False)"

text \<open>A task that is neither a collection nor a restore is quiet after its effect on the disk.\<close>

lemma run_task_quiet:
  assumes "\<not> is_upload t" "\<not> is_restore t"
  shows "\<exists>d w. quiet (c\<lparr>ct_disk := d, ct_world := w\<rparr>) (run_task A t c) \<and> kept_but (writes_at t) c (c\<lparr>ct_disk := d, ct_world := w\<rparr>)"
proof (cases t)
  case (TMaterials caller dir)
  show ?thesis unfolding TMaterials run_task_def task.case
    by (rule run_sync_split) (blast intro: quiet_materials_done kept_sync downloadMaterials_keeps)
next
  case (TSheet caller dir input)
  have keeps: "keepsE (on_disk (has_file p content)) (diskE (writeInstructions (ae_system A) dir sheet))"
    if "\<not> writes_at (TSheet caller dir input) p" for p content sheet
    using that by (intro keepsE_disk writeInstructions_keeps) (simp add: writes_at_def)
  show ?thesis unfolding TSheet run_task_def task.case
    by (rule run_sync_split) (blast intro: quiet_sheet_done kept_sync keeps)
next
  case TAccess
  obtain ack w' where ack: "ce_askAccess A (ct_world c) = (ack, w')" by (cases "ce_askAccess A (ct_world c)")
  have run: "run_task A t c = access_answered A ack (c\<lparr>ct_disk := ct_disk c, ct_world := w'\<rparr>)"
    using ack by (simp add: TAccess run_task_def run_sync_def)
  have "kept_but (writes_at t) c (c\<lparr>ct_disk := ct_disk c, ct_world := w'\<rparr>)" by (simp add: kept_but_def)
  then show ?thesis unfolding run using quiet_access_answered by blast
next
  case (TSnapshot dir)
  show ?thesis unfolding TSnapshot run_task_def task.case
    by (rule run_sync_split) (blast intro: quiet_snapshot_done kept_sync uploadSnapshot_keeps)
qed (use assms in simp_all)

text \<open>The writes that wait, and the queue after new writes over nothing or an empty file are added to it.\<close>

fun is_store :: "task \<Rightarrow> bool" where
  "is_store (TStore _ _ _ _ _ _ _) = True"
| "is_store _ = False"

definition store_free :: "disk \<Rightarrow> task \<Rightarrow> bool" where
  "store_free d t = (case t of TStore _ _ _ target _ _ _ \<Rightarrow> free_at d (path_parts target) | _ \<Rightarrow> True)"

definition queues_free :: "task list \<Rightarrow> 'w controller \<Rightarrow> bool" where
  "queues_free waiting c' \<longleftrightarrow> take (length waiting) (tasks_of is_store c') = waiting \<and>
     list_all (store_free (ct_disk c')) (drop (length waiting) (tasks_of is_store c'))"

lemma stores_of_restores: "tasks_of is_store c = filter is_store (tasks_of is_restore c)"
proof -
  have "is_store t \<longleftrightarrow> is_restore t \<and> is_store t" for t by (cases t) simp_all
  then show ?thesis unfolding tasks_of_def filter_filter by (intro filter_cong) auto
qed

lemma same_stores: "tasks_of is_restore c' = tasks_of is_restore c \<Longrightarrow> tasks_of is_store c' = tasks_of is_store c"
  by (simp add: stores_of_restores)

lemma queues_none: "tasks_of is_store c' = waiting \<Longrightarrow> queues_free waiting c'"
  by (simp add: queues_free_def)

text \<open>A restore that goes on or ends.\<close>

definition restores_on :: "(utext list \<Rightarrow> bool) \<Rightarrow> 'w controller \<Rightarrow> 'w controller \<Rightarrow> bool" where
  "restores_on P c c' \<longleftrightarrow> tasks_of is_upload c' = tasks_of is_upload c \<and> ct_finalizing c' = ct_finalizing c \<and>
     ct_hasJoinedOnce c' = ct_hasJoinedOnce c \<and> exam_ended c' = exam_ended c \<and> (orderly c \<longrightarrow> orderly c') \<and>
     opened c' + length (tasks_of is_restore c') \<le> opened c + length (tasks_of is_restore c) + 1 \<and> kept_but P c c' \<and>
     queues_free (tasks_of is_store c) c'"

lemma quiet_stores: "quiet c c' \<Longrightarrow> tasks_of is_store c' = tasks_of is_store c"
  by (rule same_stores) (simp add: quiet_def)

lemma restores_on_quiet: "quiet c c' \<Longrightarrow> restores_on P c c'"
  using quiet_stores[of c c'] by (simp add: restores_on_def quiet_def kept_but_def queues_none)

lemma restores_on_done: "restores_on P c (restore_done A ack dir student st counts c)"
  using restore_done_frame[of c A ack dir student st counts]
    same_stores[of "restore_done A ack dir student st counts c" c]
  by (auto simp: restores_on_def same_work_def saves_kept queues_none)

lemma restores_on_next: "restores_on P c (restore_next A ack dir student entries counts c)"
proof (cases "restore_scan (ae_system A) (ct_disk c) dir entries counts")
  case (RestoreOver counts')
  then show ?thesis by (simp add: restore_next_def restores_on_done)
next
  case (RestoreWrite target unpacked rest counts')
  then show ?thesis
    using orderly_spawn[of c] restore_scan_free[OF RestoreWrite]
    by (simp add: restore_next_def restores_on_def restore_tasks_spawn spawn_same kept_but_def queues_free_def store_free_def)
qed

lemma restores_on_disk:
  assumes "kept_but P c (c\<lparr>ct_disk := d, ct_world := w\<rparr>)" "restores_on P (c\<lparr>ct_disk := d, ct_world := w\<rparr>) c'"
  shows "restores_on P c c'"
  using assms by (auto simp: restores_on_def view_defs intro: kept_trans)

lemma run_task_restore:
  assumes "is_restore t"
  shows "restores_on (writes_at t) c (run_task A t c)"
proof -
  have log: "restores_on P x (agent_log A m x)" for P x m by (intro restores_on_quiet quiet_intros)
  show ?thesis
  proof (cases t)
    case (TOpenBackup ack dir student)
    show ?thesis unfolding TOpenBackup run_task_def task.case
      by (rule run_sync_split, rule restores_on_disk, erule kept_sync, rule open_backup_keeps)
        (auto split: sum.split intro: log restores_on_next restores_on_done)
  next
    case (TStore ack dir student target unpacked entries counts)
    have keeps: "keepsE (on_disk (has_file p content)) (diskE (restore_store (ae_system A) target unpacked counts))"
      if "\<not> writes_at t p" for p content
      using that by (intro keepsE_disk restore_store_keeps) (simp add: writes_at_def TStore)
    show ?thesis unfolding TStore run_task_def task.case
      by (rule run_sync_split, rule restores_on_disk, erule kept_sync, erule keeps[unfolded TStore])
        (auto split: sum.split intro: log restores_on_next)
  qed (use assms in simp_all)
qed

section \<open>Collection\<close>

lemma submission_same [simp]:
  "as_submission (ct_state (agent_log A m c)) = as_submission (ct_state c)"
  "as_submission (ct_state (notify A toast c)) = as_submission (ct_state c)"
  "as_submission (ct_state (removeWorkspaceAfterCollection A c)) = as_submission (ct_state c)"
proof -
  show log: "as_submission (ct_state (agent_log A m c)) = as_submission (ct_state c)" for m and c :: "'a controller"
    by (simp add: agent_log_def clock_def patch_def split: prod.split)
  then show "as_submission (ct_state (notify A toast c)) = as_submission (ct_state c)"
    by (simp add: notify_def emit_def)
  show "as_submission (ct_state (removeWorkspaceAfterCollection A c)) = as_submission (ct_state c)"
    by (simp add: removeWorkspaceAfterCollection_def run_sync_def log emit_def split: option.split prod.split)
qed

lemma workspaceDir_same [simp]:
  "ct_workspaceDir (agent_log A m c) = ct_workspaceDir c" "ct_workspaceDir (notify A toast c) = ct_workspaceDir c"
  "ct_workspaceDir (patch f c) = ct_workspaceDir c"
  by (simp_all add: notify_def agent_log_def clock_def patch_def emit_def split: prod.split)

definition in_workspace :: "'w controller \<Rightarrow> utext list \<Rightarrow> bool" where
  "in_workspace c p = (case ct_workspaceDir c of None \<Rightarrow> False | Some dir \<Rightarrow> starts_with (path_parts dir) p)"

lemma remove_folder_keeps: "\<not> starts_with q p \<Longrightarrow> keepsE (has_file p content) (remove_folder S q)"
  by (auto simp: remove_folder_def keepsE_def wpE_def has_file_def split: option.split prod.split)

lemma removeWorkspace_frame:
  "same_work c (removeWorkspaceAfterCollection A c) \<and> opened (removeWorkspaceAfterCollection A c) = opened c \<and>
   kept_but (in_workspace c) c (removeWorkspaceAfterCollection A c)"
proof (cases "ct_workspaceDir c")
  case (Some dir)
  show ?thesis unfolding removeWorkspaceAfterCollection_def Some option.case
  proof (rule run_sync_split, goal_cases)
    case (1 r d w)
    let ?c = "c\<lparr>ct_disk := d, ct_world := w\<rparr>"
    have gone: "kept_but (in_workspace c) c ?c"
      using 1 by (rule kept_sync) (intro keepsE_disk remove_folder_keeps, simp add: in_workspace_def Some)
    have "quiet ?c (agent_log A (case r of Inl e \<Rightarrow> MNotRemoved e | Inr _ \<Rightarrow> MRemoved dir) (emit (ORemoveWorkspace dir) ?c))"
      by (intro quiet_intros) simp
    then show ?case
      using same_work_trans[OF same_work_disk quiet_same_work] quiet_opened[of ?c] kept_trans[OF gone quiet_kept]
      by (auto simp: opened_def)
  qed
qed (simp add: removeWorkspaceAfterCollection_def same_work_def kept_but_def)

text \<open>What a collection leaves: no collection under way, its summary, and the files, unless everything was confirmed.\<close>

definition clean :: "upload_summary \<Rightarrow> bool" where
  "clean summary \<longleftrightarrow> us_missing summary = 0 \<and> us_failed summary = 0"

lemma collected_frame:
  "same_work (c\<lparr>ct_finalizing := False\<rparr>) (collected A summary c) \<and> opened (collected A summary c) = opened c \<and>
   as_submission (ct_state (collected A summary c)) = \<lparr>sb_finalizing = False, sb_summary = Some summary\<rparr> \<and>
   kept_but (\<lambda>p. clean summary \<and> in_workspace c p) c (collected A summary c)"
proof -
  define c1 where "c1 = notify A (ToastSubmitted summary)
    (patch (\<lambda>s. s\<lparr>as_submission := \<lparr>sb_finalizing = False, sb_summary = Some summary\<rparr>\<rparr>) c)"
  define c2 where "c2 = (if us_missing summary > 0 \<or> us_failed summary > 0
    then notify A (ToastStragglers (filter (\<lambda>r. dr_outcome r \<noteq> OutUploaded) (us_results summary))) c1
    else removeWorkspaceAfterCollection A c1)"
  have def: "collected A summary c = c2\<lparr>ct_finalizing := False\<rparr>"
    by (simp add: collected_def Let_def c1_def c2_def)
  have c1: "quiet c c1" unfolding c1_def by (intro quiet_intros) auto
  have sub: "as_submission (ct_state c2) = \<lparr>sb_finalizing = False, sb_summary = Some summary\<rparr>"
    by (simp add: c2_def c1_def patch_def)
  have dir: "in_workspace c1 = in_workspace c" by (simp add: fun_eq_iff in_workspace_def c1_def)
  have c2: "same_work c c2 \<and> opened c2 = opened c \<and> kept_but (\<lambda>p. clean summary \<and> in_workspace c p) c c2"
  proof (cases "clean summary")
    case True
    then show ?thesis
      using removeWorkspace_frame[of c1 A] same_work_trans[OF quiet_same_work[OF c1]] quiet_opened[OF c1]
        kept_trans[OF quiet_kept[OF c1], of "in_workspace c" c2] dir
      by (simp add: c2_def clean_def)
  next
    case False
    then have "quiet c c2" using c1 by (auto simp: c2_def clean_def intro: quiet_intros)
    then show ?thesis by (simp add: quiet_same_work quiet_opened quiet_kept)
  qed
  then show ?thesis using sub unfolding def by (simp add: same_work_def view_defs kept_but_def)
qed

text \<open>One round: the next task of the collection, or its end. Uploading changes nothing on the disk.\<close>

lemma same_work_fin: "same_work c c' \<Longrightarrow> same_work (c\<lparr>ct_finalizing := b\<rparr>) (c'\<lparr>ct_finalizing := b\<rparr>)"
  by (simp add: same_work_def view_defs)

lemma upload_round_frame:
  assumes "rest = dl # rest'"
  shows "\<exists>r. dr_deliverable r = dl \<and>
    (if rest' = []
     then same_work (c\<lparr>ct_finalizing := False\<rparr>) (upload_round A dir sid uid dls rest results st c) \<and>
       opened (upload_round A dir sid uid dls rest results st c) = opened c \<and>
       (\<exists>elapsed. as_submission (ct_state (upload_round A dir sid uid dls rest results st c)) =
           \<lparr>sb_finalizing = False, sb_summary = Some (summarise dls (results @ [r]) elapsed)\<rparr> \<and>
         kept_but (\<lambda>p. clean (summarise dls (results @ [r]) elapsed) \<and> in_workspace c p) c
           (upload_round A dir sid uid dls rest results st c))
     else (\<exists>x. quiet c x \<and> upload_round A dir sid uid dls rest results st c = spawn (TUpload dir sid uid dls rest' (results @ [r]) st) x))"
proof -
  obtain r d w where up: "uploadOne (agent_net.truncate A) (ae_system A) dir sid uid dl (ct_disk c, ct_world c) = (r, (d, w))"
    by (metis surj_pair)
  have r: "dr_deliverable r = dl" and d: "d = ct_disk c"
    using uploadOne_deliverable[of "agent_net.truncate A" "ae_system A" dir sid uid dl "(ct_disk c, ct_world c)"]
      uploadOne_disk[of "agent_net.truncate A" "ae_system A" dir sid uid dl "(ct_disk c, ct_world c)"] by (simp_all add: up)
  define x where "x = agent_log A (MUploaded r) (c\<lparr>ct_disk := d, ct_world := w\<rparr>)"
  have "quiet c (c\<lparr>ct_disk := d, ct_world := w\<rparr>)" by (simp add: quiet_def view_defs d)
  then have x: "quiet c x" unfolding x_def by (rule quiet_log)
  show ?thesis
  proof (cases "rest' = []")
    case False
    then show ?thesis using r x by (auto simp: upload_round_def assms run_sync_def up x_def Let_def)
  next
    case True
    obtain t w' where now: "an_now A (ct_world x) = (t, w')" by (metis surj_pair)
    let ?y = "x\<lparr>ct_world := w'\<rparr>"
    let ?s = "summarise dls (results @ [r]) (int t - int st)"
    have y: "quiet c ?y" using x by (rule quiet_fields)
    have res: "upload_round A dir sid uid dls rest results st c = collected A ?s ?y"
      using True now by (simp add: upload_round_def assms run_sync_def up x_def Let_def clock_def)
    have "same_work (c\<lparr>ct_finalizing := False\<rparr>) (collected A ?s ?y)"
      using collected_frame[of ?y A ?s] same_work_fin[OF quiet_same_work[OF y], of False] by (auto intro: same_work_trans)
    moreover have "opened (collected A ?s ?y) = opened c" using collected_frame[of ?y A ?s] quiet_opened[OF y] by simp
    moreover have "in_workspace ?y = in_workspace c" by (simp add: fun_eq_iff in_workspace_def x_def)
    then have "kept_but (\<lambda>p. clean ?s \<and> in_workspace c p) c (collected A ?s ?y)"
      using collected_frame[of ?y A ?s] kept_trans[OF quiet_kept[OF y]] by simp
    ultimately show ?thesis
      using True r collected_frame[of ?y A ?s] unfolding res by auto
  qed
qed

section \<open>Every event keeps the invariant\<close>

lemma finalizing_views:
  "tasks_of P (c\<lparr>ct_finalizing := b\<rparr>) = tasks_of P c" "opened (c\<lparr>ct_finalizing := b\<rparr>) = opened c"
  "exam_ended (c\<lparr>ct_finalizing := b\<rparr>) = exam_ended c" "orderly (c\<lparr>ct_finalizing := b\<rparr>) = orderly c"
  by (simp_all add: view_defs)

lemma restores_on_ok:
  assumes "restores_on P c c'" "controller_ok c" "opened c + length (tasks_of is_restore c) + 1 \<le> 1" "ct_hasJoinedOnce c"
  shows "controller_ok c'"
  using assms by (auto simp: restores_on_def controller_ok_def)

lemma resume_ok:
  assumes ok: "controller_ok c"
  shows "controller_ok (resume A n c)"
proof (cases "map_of (ct_tasks c) n")
  case None
  then show ?thesis using ok by (simp add: resume_def)
next
  case (Some t)
  let ?c = "without_task n c"
  have orderly: "orderly c" "orderly ?c" using ok by (simp_all add: controller_ok_def orderly_without_task)
  have res: "resume A n c = run_task A t ?c" by (simp add: resume_def Some without_task_def)
  note split = tasks_without[OF orderly(1) Some]
  consider "is_upload t" | "is_restore t" | "\<not> is_upload t" "\<not> is_restore t" by blast
  then show ?thesis
  proof cases
    case 3
    have "tasks_of is_upload ?c = tasks_of is_upload c" "tasks_of is_restore ?c = tasks_of is_restore c"
      using split[of is_upload] split[of is_restore] 3 by auto
    then have "controller_ok ?c" using ok orderly(2) by (simp add: controller_ok_def without_task_same)
    then have "controller_ok (?c\<lparr>ct_disk := d, ct_world := w\<rparr>)" for d w by (simp add: controller_ok_def view_defs)
    then show ?thesis unfolding res using run_task_quiet[OF 3, of ?c A] by (blast intro: quiet_ok)
  next
    case 2
    then have "\<not> is_upload t" by (cases t) auto
    then have up: "tasks_of is_upload ?c = tasks_of is_upload c" using split[of is_upload] by auto
    have one: "length (tasks_of is_restore c) = Suc (length (tasks_of is_restore ?c))" using split[of is_restore] 2 by auto
    then have "ct_hasJoinedOnce ?c" "opened ?c + length (tasks_of is_restore ?c) + 1 \<le> 1"
      using ok by (auto simp: controller_ok_def without_task_same split: if_splits)
    moreover have "controller_ok ?c" using ok orderly(2) up one by (auto simp: controller_ok_def without_task_same split: if_splits)
    ultimately show ?thesis unfolding res using run_task_restore[OF 2, of ?c A] by (blast intro: restores_on_ok)
  next
    case 1
    then have "\<not> is_restore t" by (cases t) auto
    then have restore: "tasks_of is_restore ?c = tasks_of is_restore c" using split[of is_restore] by auto
    obtain ts us where tasks: "tasks_of is_upload c = ts @ [t] @ us" "tasks_of is_upload ?c = ts @ us"
      using split[of is_upload] 1 by auto
    then have fin: "ct_finalizing c" "ts = []" "us = []" and t_ok: "upload_ok t"
      using ok by (auto simp: controller_ok_def split: if_splits)
    obtain dir sid uid dls rest results st where t: "t = TUpload dir sid uid dls rest results st" using 1 by (cases t) auto
    obtain dl rest' where rest: "rest = dl # rest'" using t_ok t by (cases rest) auto
    have run: "run_task A t ?c = upload_round A dir sid uid dls rest results st ?c" by (simp add: run_task_def t)
    note round = upload_round_frame[OF rest, of ?c A dir sid uid dls results st, folded run]
    show ?thesis
    proof (cases "rest' = []")
      case True
      then have "same_work (?c\<lparr>ct_finalizing := False\<rparr>) (run_task A t ?c)" "opened (run_task A t ?c) = opened ?c"
        using round by auto
      then show ?thesis using ok orderly(2) tasks fin restore unfolding res
        by (simp add: same_work_def controller_ok_def finalizing_views without_task_same)
    next
      case False
      then obtain r x where r: "dr_deliverable r = dl" and x: "quiet ?c x"
        "run_task A t ?c = spawn (TUpload dir sid uid dls rest' (results @ [r]) st) x"
        using round by auto
      moreover have "map dr_deliverable results @ dl # rest' = dls" using t_ok t rest by simp
      ultimately show ?thesis
        using False ok orderly(2) tasks fin restore r orderly_spawn[of x] unfolding res
        by (simp add: quiet_def controller_ok_def restore_tasks_spawn spawn_same without_task_same)
    qed
  qed
qed

lemma collectAll_ok:
  assumes ok: "controller_ok c"
  shows "controller_ok (collectAll A trig toast c)"
proof (cases "ct_finalizing c \<or> ct_deliverables c = [] \<or> falsy (ct_examSessionId c) \<or> falsy (as_studentId (ct_state c))")
  case True
  have "quiet c (collectAll A trig toast c)"
    using True unfolding collectAll_def by (auto intro!: quiet_intros)
  then show ?thesis using ok by (rule quiet_ok)
next
  case False
  define x where "x = notify A toast (patch (\<lambda>s. s\<lparr>as_submission := (as_submission s)\<lparr>sb_finalizing := True\<rparr>\<rparr>)
    (c\<lparr>ct_finalizing := True, ct_snapshots := None\<rparr>))"
  have "quiet (c\<lparr>ct_finalizing := True\<rparr>) (c\<lparr>ct_finalizing := True, ct_snapshots := None\<rparr>)"
    by (simp add: quiet_def view_defs)
  then have x: "quiet (c\<lparr>ct_finalizing := True\<rparr>) x" unfolding x_def by (intro quiet_intros) auto
  obtain t w where now: "an_now A (ct_world x) = (t, w)" by (metis surj_pair)
  define y where "y = x\<lparr>ct_world := w\<rparr>"
  have y: "quiet (c\<lparr>ct_finalizing := True\<rparr>) y" unfolding y_def using x by (rule quiet_fields)
  have "collectAll A trig toast c = spawn (TUpload (or_empty (ct_workspaceDir c)) (or_empty (ct_examSessionId c))
      (or_empty (as_studentId (ct_state c))) (ct_deliverables c) (ct_deliverables c) [] t) y"
    using False now by (simp add: collectAll_def Let_def clock_def x_def y_def)
  moreover have "tasks_of is_upload c = []" using ok False by (simp add: controller_ok_def)
  ultimately show ?thesis
    using ok False y orderly_spawn[of y] by (simp add: quiet_def controller_ok_def restore_tasks_spawn spawn_same finalizing_views)
qed

lemma handleFinalize_ok:
  assumes "controller_ok c"
  shows "controller_ok (handleFinalize A manual c)"
proof -
  have "controller_ok (patch (\<lambda>s. s\<lparr>as_examEnded := True\<rparr>) (clearMaterialsRelease c))"
    using assms by (simp add: controller_ok_def view_defs patch_def clearMaterialsRelease_def)
  then show ?thesis using assms unfolding handleFinalize_def by (auto intro: collectAll_ok)
qed

lemma on_socket_ok:
  assumes "controller_ok c"
  shows "controller_ok (on_socket A ev c)"
proof -
  note quietly = quiet_ok[OF _ assms]
  have granted: "quiet c (emitJoin (setJoinPhase PJoining (notify A ToastAccessGranted c)))" by (intro quiet_intros)
  have again: "controller_ok (emit OAckRecollect c)" using assms by (simp add: controller_ok_def view_defs emit_def)
  show ?thesis
    unfolding on_socket_def
    using assms again
    by (auto split: socket_event.split option.split simp: handleRecollect_def
        intro: quietly quiet_connection quiet_handleMaterialsUpdated quiet_handleJoinError granted quiet_intros
          doHandleJoinAck_ok handleFinalize_ok collectAll_ok)
qed

lemma step_ok:
  assumes "controller_ok c"
  shows "controller_ok (step A ev c)"
proof (cases ev)
  case EReleaseTimer
  have "quiet c (pullMaterialsWhenOpen (c\<lparr>ct_releaseTimer := None\<rparr>))" by (intro quiet_intros)
  then show ?thesis using assms by (auto simp: step_def EReleaseTimer intro: quiet_ok)
next
  case ESnapshotTimer
  have "quiet c (spawn (TSnapshot dir) c)" for dir by (intro quiet_intros) simp_all
  then show ?thesis using assms by (auto simp: step_def ESnapshotTimer intro: quiet_ok split: option.split)
next
  case (EDisk d)
  then show ?thesis using assms by (simp add: step_def controller_ok_def view_defs)
next
  case (EWorld w)
  then show ?thesis using assms by (simp add: step_def controller_ok_def view_defs)
qed (use assms in \<open>auto simp: step_def intro: quiet_ok[OF _ assms] quiet_join quiet_sendAccessRequest quiet_quit quiet_intros
       on_socket_ok resume_ok split: option.split\<close>)

interpretation agent: transition_system "step A" controller_ok for A
  by unfold_locales (rule step_ok)

definition after :: "'w controller_env \<Rightarrow> 'w event list \<Rightarrow> disk \<Rightarrow> 'w \<Rightarrow> 'w controller" where
  "after A evs d w = fold (step A) evs (new_controller d w)"

lemma after_ok: "controller_ok (after A evs d w)"
  unfolding after_def by (rule agent.history_invariant[OF new_controller_ok])

section \<open>What a student may rely on\<close>

lemma collectAll_disk: "ct_disk (collectAll A trig toast c) = ct_disk c"
  by (simp add: collectAll_def Let_def clock_def notify_def agent_log_def patch_def emit_def spawn_def split: prod.split)

lemma collectAll_exam: "exam_ended (collectAll A trig toast c) = exam_ended c"
  by (simp add: collectAll_def Let_def clock_def notify_def agent_log_def patch_def emit_def spawn_def exam_ended_def split: prod.split)

text \<open>A resumed task keeps the files of the student, unless it ended a collection whose every file is confirmed.\<close>

definition all_confirmed :: "'w controller \<Rightarrow> bool" where
  "all_confirmed c \<longleftrightarrow>
     (case sb_summary (as_submission (ct_state c)) of
        None \<Rightarrow> False
      | Some summary \<Rightarrow> us_results summary \<noteq> [] \<and> list_all (\<lambda>r. dr_outcome r = OutUploaded) (us_results summary))"

lemma clean_all_uploaded: "clean (summarise dls rs elapsed) \<Longrightarrow> list_all (\<lambda>r. dr_outcome r = OutUploaded) rs"
  unfolding clean_def summarise_def count_outcome_def list_all_iff
  by (auto simp: filter_empty_conv) (metis upload_outcome.exhaust)

text \<open>What a resumed task may change: where it writes, or the folder when it ends a collection that is all confirmed.\<close>

definition may_change :: "'w controller \<Rightarrow> 'w controller \<Rightarrow> task \<Rightarrow> utext list \<Rightarrow> bool" where
  "may_change c c' t p \<longleftrightarrow>
     writes_at t p \<or> (is_upload t \<and> ct_finalizing c \<and> \<not> ct_finalizing c' \<and> all_confirmed c' \<and> in_workspace c p)"

definition resumed_well :: "'w controller \<Rightarrow> 'w controller \<Rightarrow> nat \<Rightarrow> bool" where
  "resumed_well c c' n \<longleftrightarrow>
     (case map_of (ct_tasks c) n of
        None \<Rightarrow> c' = c
      | Some t \<Rightarrow> kept_but (may_change c c' t) c c' \<and> queues_free (tasks_of is_store (without_task n c)) c')"

lemma without_kept: "kept_but P (without_task n c) c' = kept_but P c c'"
  by (simp add: kept_but_def without_task_same)

lemma resume_upload:
  assumes ok: "controller_ok c" and found: "map_of (ct_tasks c) n = Some t" and up: "is_upload t"
  shows "exam_ended (resume A n c) = exam_ended c \<and> resumed_well c (resume A n c) n"
proof -
  let ?c = "without_task n c"
  obtain dir sid uid dls rest results st where t: "t = TUpload dir sid uid dls rest results st" using up by (cases t) auto
  have "t \<in> set (tasks_of is_upload c)" using map_of_SomeD[OF found] up by (force simp: tasks_of_def)
  then have "rest \<noteq> []" and fin: "ct_finalizing c" using ok t by (auto simp: controller_ok_def list_all_iff split: if_splits)
  then obtain dl rest' where rest: "rest = dl # rest'" by (cases rest) auto
  have res: "resume A n c = upload_round A dir sid uid dls rest results st ?c"
    by (simp add: resume_def found without_task_def run_task_def t)
  note round = upload_round_frame[OF rest, of ?c A dir sid uid dls results st, folded res]
  show ?thesis
  proof (cases "rest' = []")
    case True
    then obtain r elapsed where work: "same_work (?c\<lparr>ct_finalizing := False\<rparr>) (resume A n c)"
      and sub: "as_submission (ct_state (resume A n c)) =
        \<lparr>sb_finalizing = False, sb_summary = Some (summarise dls (results @ [r]) elapsed)\<rparr>"
      and kept: "kept_but (\<lambda>p. clean (summarise dls (results @ [r]) elapsed) \<and> in_workspace ?c p) ?c (resume A n c)"
      using round by auto
    have "all_confirmed (resume A n c)" if "clean (summarise dls (results @ [r]) elapsed)"
      using clean_all_uploaded[OF that] sub by (simp add: all_confirmed_def summarise_def)
    then have "kept_but (may_change c (resume A n c) t) c (resume A n c)"
      using kept work fin up unfolding without_kept
      by (elim kept_mono) (auto simp: may_change_def same_work_def in_workspace_def without_task_def)
    moreover have "tasks_of is_store (resume A n c) = tasks_of is_store ?c"
      using work same_stores[of "resume A n c" ?c] by (simp add: same_work_def finalizing_views)
    ultimately show ?thesis
      using work by (simp add: resumed_well_def found queues_none same_work_def finalizing_views without_task_same)
  next
    case False
    then obtain r x where x: "quiet ?c x" and res2: "resume A n c = spawn (TUpload dir sid uid dls rest' (results @ [r]) st) x"
      using round by auto
    have "saves ?c (resume A n c)" using x by (simp add: res2 quiet_def spawn_same kept_but_def)
    moreover have "tasks_of is_store (resume A n c) = tasks_of is_store ?c"
      using quiet_stores[OF x] by (simp add: res2 restore_tasks_spawn)
    ultimately show ?thesis
      using x by (simp add: resumed_well_def found queues_none without_kept saves_kept)
        (simp add: res2 quiet_def spawn_same without_task_same)
  qed
qed

lemma resume_frame:
  assumes ok: "controller_ok c"
  shows "exam_ended (resume A n c) = exam_ended c \<and> resumed_well c (resume A n c) n"
proof (cases "map_of (ct_tasks c) n")
  case None
  then show ?thesis by (simp add: resume_def resumed_well_def)
next
  case (Some t)
  let ?c = "without_task n c"
  have res: "resume A n c = run_task A t ?c" by (simp add: resume_def Some without_task_def)
  have may: "kept_but (writes_at t) ?c c' \<Longrightarrow> kept_but (may_change c c' t) c c'" for c'
    unfolding without_kept by (erule kept_mono) (simp add: may_change_def)
  consider "is_upload t" | "is_restore t" | "\<not> is_upload t" "\<not> is_restore t" by blast
  then show ?thesis
  proof cases
    case 1
    with ok Some show ?thesis by (rule resume_upload)
  next
    case 2
    then show ?thesis using run_task_restore[OF 2, of ?c A] may
      unfolding res restores_on_def resumed_well_def Some by (simp add: without_task_same)
  next
    case 3
    obtain d w where q: "quiet (?c\<lparr>ct_disk := d, ct_world := w\<rparr>) (run_task A t ?c)"
      and k: "kept_but (writes_at t) ?c (?c\<lparr>ct_disk := d, ct_world := w\<rparr>)"
      using run_task_quiet[OF 3, of ?c A] by auto
    have "kept_but (may_change c (run_task A t ?c) t) c (run_task A t ?c)"
      using kept_trans[OF k quiet_kept[OF q]] by (rule may)
    moreover have "tasks_of is_store (run_task A t ?c) = tasks_of is_store ?c"
      "exam_ended (run_task A t ?c) = exam_ended ?c"
      using quiet_stores[OF q] q by (simp_all add: quiet_def view_defs)
    ultimately show ?thesis unfolding res by (simp add: resumed_well_def Some queues_none without_task_same)
  qed
qed

text \<open>The other events change nothing that the student wrote, and decide on no write.\<close>

definition undisturbed :: "'w controller \<Rightarrow> 'w controller \<Rightarrow> bool" where
  "undisturbed c c' \<longleftrightarrow> saves c c' \<and> tasks_of is_store c' = tasks_of is_store c"

lemma quiet_undisturbed: "quiet c x \<Longrightarrow> undisturbed c x \<and> exam_ended x = exam_ended c"
  using quiet_stores[of c x] by (simp add: quiet_def undisturbed_def kept_but_def)

lemma collectAll_stores: "tasks_of is_store (collectAll A trig toast c) = tasks_of is_store c"
  by (simp add: collectAll_def Let_def clock_def notify_def agent_log_def patch_def emit_def spawn_def tasks_of_def
      split: prod.split)

lemma handleFinalize_frame: "undisturbed c (handleFinalize A manual c) \<and> exam_ended (handleFinalize A manual c)"
  by (simp add: handleFinalize_def undisturbed_def kept_but_def collectAll_disk collectAll_exam collectAll_stores)
    (simp add: exam_ended_def patch_def clearMaterialsRelease_def tasks_of_def)

lemma doHandleJoinAck_undisturbed:
  "undisturbed c (doHandleJoinAck A ack c) \<and> exam_ended (doHandleJoinAck A ack c) = exam_ended c"
proof -
  let ?c0 = "c\<lparr>ct_hasJoinedOnce := True\<rparr>"
  have st: "tasks_of is_store ?c0 = tasks_of is_store c" by (simp add: tasks_of_def)
  have c0: "undisturbed ?c0 x = undisturbed c x" "exam_ended ?c0 = exam_ended c" for x
    by (simp_all add: undisturbed_def kept_but_def view_defs)
  have joined: "undisturbed c x \<and> exam_ended x = exam_ended c" if "same_work ?c0 x" "saves ?c0 x" for x
    using that same_stores[of x ?c0] by (simp add: undisturbed_def same_work_def c0(2) kept_but_def st)
  from doHandleJoinAck_frame[of c A ack] show ?thesis
  proof (elim disjE conjE exE)
    fix x dir student
    assume "quiet ?c0 x" "doHandleJoinAck A ack c = spawn (TOpenBackup ack dir student) x"
    then show ?thesis
      using quiet_undisturbed[of ?c0 x] by (simp add: c0 undisturbed_def restore_tasks_spawn spawn_same kept_but_def st)
  qed (use quiet_undisturbed[of ?c0] c0 joined in blast)+
qed

lemma on_socket_frame:
  "undisturbed c (on_socket A sev c) \<and>
   (case sev of SFinalize (Some _) \<Rightarrow> exam_ended (on_socket A sev c) | _ \<Rightarrow> exam_ended (on_socket A sev c) = exam_ended c)"
proof -
  note frame = quiet_undisturbed[of c]
  have granted: "quiet c (emitJoin (setJoinPhase PJoining (notify A ToastAccessGranted c)))" by (intro quiet_intros)
  show ?thesis
  proof (cases sev)
    case (SJoinAck a)
    then show ?thesis
      using frame[OF quiet_log[OF quiet_refl]] doHandleJoinAck_undisturbed[of c A] by (cases a) (simp_all add: on_socket_def)
  next
    case (SFinalize m)
    then show ?thesis
      using frame[OF quiet_log[OF quiet_refl]] handleFinalize_frame by (cases m) (simp_all add: on_socket_def)
  next
    case SRecollect
    have "quiet c (emit OAckRecollect c)" by (intro quiet_intros) simp
    then show ?thesis using frame[of "emit OAckRecollect c"]
      by (simp add: SRecollect on_socket_def handleRecollect_def undisturbed_def kept_but_def collectAll_disk collectAll_exam
          collectAll_stores)
  qed (auto simp: on_socket_def intro!: frame quiet_connection quiet_handleMaterialsUpdated quiet_handleJoinError granted
      quiet_intros split: option.split)
qed

lemma step_frame:
  assumes "controller_ok c"
  shows "(case ev of EDisk _ \<Rightarrow> True | EResume n \<Rightarrow> resumed_well c (step A ev c) n | _ \<Rightarrow> undisturbed c (step A ev c)) \<and>
    (exam_ended c \<longrightarrow> exam_ended (step A ev c))"
proof -
  note frame = quiet_undisturbed[of c]
  have timer: "quiet c (pullMaterialsWhenOpen (c\<lparr>ct_releaseTimer := None\<rparr>))" by (intro quiet_intros)
  have snap: "quiet c (spawn (TSnapshot dir) c)" for dir by (intro quiet_intros) simp_all
  show ?thesis
  proof (cases ev)
    case (ESocket sev)
    then show ?thesis using on_socket_frame[of c A sev] frame[OF quiet_refl]
      by (auto simp: step_def split: socket_event.splits option.splits)
  next
    case (EResume n)
    then show ?thesis using resume_frame[OF assms] by (simp add: step_def)
  next
    case (EJoin student code)
    show ?thesis using frame[OF quiet_join] by (simp add: step_def EJoin)
  next
    case (EAccess fullName reason)
    show ?thesis using frame[OF quiet_sendAccessRequest] by (simp add: step_def EAccess)
  next
    case EQuit
    show ?thesis using frame[OF quiet_quit] by (simp add: step_def EQuit)
  next
    case EReleaseTimer
    show ?thesis using frame[OF timer] frame[OF quiet_refl] by (simp add: step_def EReleaseTimer)
  next
    case ESnapshotTimer
    show ?thesis using frame[OF snap] frame[OF quiet_refl] by (auto simp: step_def ESnapshotTimer split: option.split)
  qed (simp_all add: step_def undisturbed_def kept_but_def exam_ended_def tasks_of_def)
qed

text \<open>
  C26. After every history: one collection at a time, and \<open>finalizing\<close> says whether there is one; the folder of the
  student is opened at most once; the log keeps its limit.
\<close>

theorem controller_bounds:
  "let c = after A evs d w in
   length (tasks_of is_upload c) = (if ct_finalizing c then 1 else 0) \<and> opened c \<le> 1 \<and>
   length (as_log (ct_state c)) \<le> MAX_LOG_ENTRIES"
  using after_ok[of A evs d w] by (auto simp: controller_ok_def orderly_def Let_def split: if_splits)

text \<open>
  C25. After every history, an event of the agent leaves every file with content as it is, but for three: the write
  of one entry of the backup may replace the file at its own path, the instructions replace \<open>INSTRUCTIONS.txt\<close>, and
  the round that ends a collection in which the server confirmed every file may remove the folder of the last join.
  A write of the backup is decided on only while there is no file with content at its path; what is saved there
  before the write goes on is lost.
\<close>

theorem student_work_kept:
  "let c = after A evs d w; c' = step A ev c in
   case ev of
     EDisk _ \<Rightarrow> True
   | EResume n \<Rightarrow>
       (case map_of (ct_tasks c) n of
          None \<Rightarrow> c' = c
        | Some t \<Rightarrow> kept_but (may_change c c' t) c c' \<and> queues_free (tasks_of is_store (without_task n c)) c')
   | _ \<Rightarrow> saves c c' \<and> tasks_of is_store c' = tasks_of is_store c"
  using step_frame[OF after_ok, of A evs d w A ev]
  by (auto simp: Let_def resumed_well_def undisturbed_def split: event.splits)

definition joins :: "'w controller \<Rightarrow> agent_out list" where
  "joins c = filter (\<lambda>out. case out of OJoin _ _ \<Rightarrow> True | _ \<Rightarrow> False) (ct_out c)"

text \<open>
  C28. Once the server has closed the exam it stays closed for the agent, a reconnection sends no further request to
  join, and a refused join no longer changes the screen.
\<close>

theorem exam_end_is_final:
  "let c = after A evs d w in
   if exam_ended c
   then exam_ended (step A ev c) \<and> joins (step A (ESocket SConnect) c) = joins c \<and>
     as_joinPhase (ct_state (step A (ESocket (SJoinError (Some err))) c)) = as_joinPhase (ct_state c)
   else True"
  using step_frame[OF after_ok, of A evs d w A ev]
  by (simp add: Let_def step_def on_socket_def on_connect_def handleJoinError_def exam_ended_def joins_def agent_log_def
      clock_def patch_def split: prod.split)

section \<open>A collection ends\<close>

text \<open>The collection under way is resumed \<open>k\<close> times.\<close>

definition collection_task :: "'w controller \<Rightarrow> nat option" where
  "collection_task c = (case filter (\<lambda>p. is_upload (snd p)) (ct_tasks c) of [] \<Rightarrow> None | p # _ \<Rightarrow> Some (fst p))"

fun finish :: "'w controller_env \<Rightarrow> nat \<Rightarrow> 'w controller \<Rightarrow> 'w controller" where
  "finish A 0 c = c"
| "finish A (Suc k) c = (case collection_task c of None \<Rightarrow> c | Some n \<Rightarrow> finish A k (resume A n c))"

definition collection_reported :: "deliverable list \<Rightarrow> 'w controller \<Rightarrow> bool" where
  "collection_reported dls c \<longleftrightarrow>
     \<not> ct_finalizing c \<and> \<not> sb_finalizing (as_submission (ct_state c)) \<and>
     (case sb_summary (as_submission (ct_state c)) of
        None \<Rightarrow> False
      | Some summary \<Rightarrow> map dr_deliverable (us_results summary) = dls \<and> us_total summary = length dls)"

lemma collection_task_unique:
  assumes "controller_ok c" "tasks_of is_upload c = [t]"
  shows "\<exists>n. collection_task c = Some n \<and> map_of (ct_tasks c) n = Some t"
proof -
  have "map snd (filter (\<lambda>p. is_upload (snd p)) (ct_tasks c)) = [t]"
    using assms(2) by (simp add: tasks_of_def filter_map comp_def)
  then obtain n where n: "filter (\<lambda>p. is_upload (snd p)) (ct_tasks c) = [(n, t)]" by auto
  then have "(n, t) \<in> set (filter (\<lambda>p. is_upload (snd p)) (ct_tasks c))" by simp
  then have "(n, t) \<in> set (ct_tasks c)" by simp
  then have "map_of (ct_tasks c) n = Some t" using assms(1) by (simp add: controller_ok_def orderly_def)
  then show ?thesis using n by (simp add: collection_task_def)
qed

lemma finish_reports:
  "controller_ok c \<Longrightarrow> tasks_of is_upload c = [TUpload dir sid uid dls rest results st] \<Longrightarrow>
   collection_reported dls (finish A (length rest) c)"
proof (induction rest arbitrary: c results)
  case Nil
  then show ?case by (simp add: controller_ok_def)
next
  case (Cons dl rest')
  let ?t = "TUpload dir sid uid dls (dl # rest') results st"
  obtain n where n: "collection_task c = Some n" "map_of (ct_tasks c) n = Some ?t"
    using collection_task_unique[OF Cons.prems] by blast
  let ?c = "without_task n c"
  have res: "resume A n c = upload_round A dir sid uid dls (dl # rest') results st ?c"
    by (simp add: resume_def n(2) without_task_def run_task_def)
  have "controller_ok (resume A n c)" using Cons.prems(1) by (rule resume_ok)
  moreover have "orderly c" using Cons.prems(1) by (simp add: controller_ok_def)
  then have none: "tasks_of is_upload ?c = []"
    using tasks_without[OF _ n(2), of is_upload] Cons.prems(2) by (auto simp: Cons_eq_append_conv)
  note round = upload_round_frame[OF refl, of dl rest' ?c A dir sid uid dls results st, folded res]
  have all: "map dr_deliverable results @ dl # rest' = dls" using Cons.prems by (simp add: controller_ok_def)
  show ?case
  proof (cases "rest' = []")
    case True
    then obtain r elapsed where "dr_deliverable r = dl" "same_work (?c\<lparr>ct_finalizing := False\<rparr>) (resume A n c)"
      "as_submission (ct_state (resume A n c)) =
        \<lparr>sb_finalizing = False, sb_summary = Some (summarise dls (results @ [r]) elapsed)\<rparr>"
      using round by auto
    then show ?thesis using True n all
      by (simp add: collection_reported_def same_work_def summarise_def)
  next
    case False
    then obtain r x where "quiet ?c x" "resume A n c = spawn (TUpload dir sid uid dls rest' (results @ [r]) st) x"
      using round by auto
    then have "tasks_of is_upload (resume A n c) = [TUpload dir sid uid dls rest' (results @ [r]) st]"
      using none by (simp add: quiet_def restore_tasks_spawn)
    then show ?thesis using Cons.IH[OF resume_ok[OF Cons.prems(1)]] n by simp
  qed
qed

text \<open>The files that the collection under way was started for, and those it still has to send.\<close>

definition under_collection :: "'w controller \<Rightarrow> (deliverable list \<times> deliverable list) option" where
  "under_collection c =
     (case tasks_of is_upload c of
        TUpload _ _ _ dls rest _ _ # _ \<Rightarrow> Some (dls, rest)
      | _ \<Rightarrow> None)"

text \<open>
  C27. A collection that is under way ends after as many rounds as it has files left, with one result for each file
  that was required when it started, and then another can start.
\<close>

theorem collection_ends:
  "let c = after A evs d w in
   case under_collection c of
     None \<Rightarrow> \<not> ct_finalizing c
   | Some (dls, rest) \<Rightarrow> ct_finalizing c \<and> length rest \<le> length dls \<and> collection_reported dls (finish A (length rest) c)"
proof -
  let ?c = "after A evs d w"
  have ok: "controller_ok ?c" by (rule after_ok)
  show ?thesis
  proof (cases "ct_finalizing ?c")
    case False
    then have "tasks_of is_upload ?c = []" using ok by (simp add: controller_ok_def)
    then show ?thesis using False by (simp add: under_collection_def)
  next
    case True
    then obtain t where t: "tasks_of is_upload ?c = [t]" using ok by (auto simp: controller_ok_def length_Suc_conv)
    then have "is_upload t" by (metis filter_eq_Cons_iff tasks_of_def)
    then obtain dir sid uid dls rest results st where up: "t = TUpload dir sid uid dls rest results st" by (cases t) auto
    have "map dr_deliverable results @ rest = dls" using ok t up by (simp add: controller_ok_def)
    then have "length rest \<le> length dls" by auto
    then show ?thesis
      using finish_reports[OF ok t[unfolded up]] True by (simp add: under_collection_def t up)
  qed
qed

end
