(* ===== verification/AgentHistories.thy ===== *)
theory AgentHistories
  imports SessionController_Spec
begin

text \<open>
  Two histories of the lab agent in which an event arrives while another handler waits: what its handlers do not
  check when they go on.
\<close>

text \<open>A server that grants everything and has no backup and no materials, and a disk without refusals.\<close>

definition lab :: "unit controller_env" where
  "lab =
     \<lparr>an_requestUrl = (\<lambda>_ _ _ w. (Granted \<lparr>ug_uploadUrl = [117], ug_storageKey = [107]\<rparr>, w)),
      an_put = (\<lambda>_ _ w. (Inr 200, w)), an_confirm = (\<lambda>_ _ _ w. (Granted (), w)), an_sha256 = (\<lambda>c. c),
      an_now = (\<lambda>w. (0, w)),
      ae_system = \<lparr>ds_refuses = (\<lambda>_ _. False), ds_folderSize = 4096, ds_keeps = (\<lambda>_ _. None)\<rparr>,
      ae_askBackup = (\<lambda>_ w. (Some (BackupError NoBackup), w)), ae_askMaterials = (\<lambda>w. (Some (Materials []), w)),
      ae_fetch = (\<lambda>_ w. (Inl [], w)), ae_listing = (\<lambda>_ _. None), ae_zip = (\<lambda>_ _ _. None), ae_unzip = (\<lambda>_. None),
      ae_encode = (\<lambda>_. [32]), ce_workspaceRoot = [47], ce_parseDate = (\<lambda>_. None),
      ce_askAccess = (\<lambda>w. (AccessSent, w))\<rparr>"

definition lab_ack :: "bool \<Rightarrow> join_ack" where
  "lab_ack backup =
     \<lparr>ja_examSessionId = Some [101], ja_deliverables = [\<lparr>dl_id = [100], dl_requiredFilename = [97], dl_entries = []\<rparr>],
      ja_requiredFiles = Some [Some [97]], ja_studentName = Some [78], ja_sessionName = Some [84], ja_endTime = Some [69],
      ja_materialCount = 0, ja_releaseAt = [], ja_backupAvailable = backup\<rparr>"

definition no_disk :: disk where
  "no_disk = (\<lambda>_. None)"

lemmas agent_defs = after_def new_controller_def initialState_def step_def join_def on_socket_def on_connect_def
  doHandleJoinAck_def handleFinalize_def collectAll_def resume_def run_task_def upload_round_def collected_def
  create_files_def restore_done_def after_files_def start_sheet_def sheet_done_def removeWorkspaceAfterCollection_def
  armMaterialsRelease_def clearMaterialsRelease_def connectSocket_def emitJoin_def notify_def agent_log_def clock_def
  patch_def emit_def spawn_def run_sync_def setJoinPhase_def setJoinError_def patch_backup_def patch_materials_def
  or_empty_def falsy_def workspace_of_def take_last_def MAX_LOG_ENTRIES_def summarise_def count_outcome_def

lemmas effect_defs = bindE_def thenE_def retE_def throwE_def catchE_def forE_def readE_def fs_put_def diskE_def outsideE_def
  callE_def requireE_def

lemmas disk_defs = createSubmissionFiles_def create_one_def make_folders_def make_folder_def write_file_def is_folder_def
  read_file_at_def read_deliverable_def uploadOne_def send_content_def put_content_def emitWithAck_def result_ok_def
  open_backup_def ask_backup_def writeInstructions_def remove_folder_def created_status_def failed_result_def

lemmas name_defs = isSafeForPathSegment_def safe_charset_def safe_unit_def validateFilename_def archiveKindOf_def
  ends_with_def lower_def lower_unit_def path_resolve_def path_join_def path_parts_def path_walk_def path_step_def
  path_of_def isAbsolute_def windows_reserved_names_def units_def WORKSPACE_DIRNAME_def INSTRUCTIONS_FILENAME_def

lemmas lab_defs = lab_def lab_ack_def no_disk_def exam_ended_def has_file_def instructionsDeliverables_def
  agent_env.truncate_def agent_net.truncate_def

section \<open>An exam that ends while the files are restored\<close>

text \<open>The student joins, the exam ends before the answer about the backup, the collection ends, then the join goes on.\<close>

definition late_history :: "unit event list" where
  "late_history =
     [EJoin [49] [88], ESocket SConnect, ESocket (SJoinAck (Some (lab_ack True))), ESocket (SFinalize (Some True)),
      EResume 1, EResume 0, EResume 2]"

text \<open>
  The snapshots are stopped when a collection starts, but a join that was waiting then starts them again: they run
  although the exam has ended and the collection is over.
\<close>

theorem snapshots_run_after_end:
  "let c = after lab late_history no_disk () in exam_ended c \<and> \<not> ct_finalizing c \<and> ct_snapshots c \<noteq> None"
  by (simp add: agent_defs effect_defs disk_defs name_defs lab_defs late_history_def Let_def upt_rec)

section \<open>A join while the files are collected\<close>

definition two_students :: disk where
  "two_students = [[WORKSPACE_DIRNAME, [49], [97]] \<mapsto> File [1], [WORKSPACE_DIRNAME, [50], [98]] \<mapsto> File [2]]"

text \<open>Student \<open>1\<close> joins and writes the required file, the exam ends, and student \<open>2\<close> joins before the upload is answered.\<close>

definition switch_history :: "unit event list" where
  "switch_history =
     [EJoin [49] [88], ESocket SConnect, ESocket (SJoinAck (Some (lab_ack False))), EResume 0, EDisk two_students,
      ESocket (SFinalize (Some True)), EJoin [50] [88]]"

text \<open>
  The folder that is removed after a collection is the one of the last join, not the one that was collected: the
  file of student \<open>2\<close>, which nobody collected, is gone, and the collected file of student \<open>1\<close> stays.
\<close>

theorem other_folder_removed:
  "let c = after lab switch_history no_disk (); c' = step lab (EResume 1) c in
   has_file [WORKSPACE_DIRNAME, [50], [98]] [2] (ct_disk c) \<and> \<not> has_file [WORKSPACE_DIRNAME, [50], [98]] [2] (ct_disk c') \<and>
   has_file [WORKSPACE_DIRNAME, [49], [97]] [1] (ct_disk c') \<and> all_confirmed c'"
  by (simp add: agent_defs effect_defs disk_defs name_defs lab_defs switch_history_def two_students_def all_confirmed_def
      confirmed_by_server_def Let_def upt_rec)

end
