(* ===== verification/Spec2Isabelle.thy ===== *)
theory Spec2Isabelle
  imports ScoreCore BundleView TierChain Investigation_Spec Challenge_Spec ReviewGroups AuditSampling Ledger_Publish AuditLog WorkerConfig Measure_Spec AgentHistories
begin

text \<open>
  A model of the automatic grading of CINE, and the theorems that make it correct.

  \<^bold>\<open>The program.\<close> A submission is investigated by a language model that may only use four tools
  (\<open>apps/api/src/grading/investigator/\<close>), its verdict is challenged by four lenses, and a pure function
  decides the case from what was measured (\<open>grading/decision/\<close>, \<open>grading/scoring/\<close>). The principle of the
  code is that the model never scores: it names rules of an error table with evidence, and scores, flags and
  confidence are computed. What a case becomes afterwards, grading runs, review by the teacher, blind audits,
  breakers and publication, is a set of services that write one database. The tests of a case run in containers
  that the worker of the sandbox starts (\<open>sandbox-worker/\<close>). The submissions come from the machines of a
  laboratory, where an agent creates the files of an exam, backs them up and collects them (\<open>apps/agent/src/\<close>).

  \<^bold>\<open>Theories and sources\<close> (paths below \<open>apps/api/src/\<close>).
  \<^item> \<open>Prelude\<close>: JavaScript idioms (maps with insertion order, sorting, strings, first occurrences) and the
    lemma collections. \<open>JsNumber\<close>: doubles as rationals with a rounding function \<open>fl\<close>; the locale \<open>rounding\<close>
    states the laws the proofs use and \<open>double\<close> interprets it with round-to-nearest-even on 53 bits.
  \<^item> \<open>Investigation_Types\<close>: \<open>investigator/types.ts\<close>, \<open>coverage.ts\<close>, results of \<open>sandbox/contract.ts\<close>.
  \<^item> \<open>Hundredths\<close>, \<open>Deduction\<close>: \<open>scoring/hundredths.ts\<close>, \<open>current-score.ts\<close>, \<open>deduction-score.ts\<close>.
  \<^item> \<open>Predicates\<close>, \<open>Diagnose\<close>, \<open>Confidence\<close>, \<open>Threshold\<close>, \<open>Decide\<close>: \<open>decision/*.ts\<close>. \<open>Decision_Spec\<close> states when
    a case is automatic without the code's loops and proves that \<open>decide\<close> computes it.
  \<^item> \<open>ScoreCore\<close>: \<open>scoring/score-core.ts\<close>, the computation with the teacher's exceptions. \<open>BundleView\<close>:
    \<open>scoring/test-bundle-view.ts\<close>.
  \<^item> \<open>Dedup\<close>, \<open>Envelope\<close>, \<open>TextBounds\<close>, \<open>Workspace\<close>, \<open>VerdictReader\<close>, \<open>Usage\<close>: the parts the loop of the agent
    is built from. \<open>Dedup\<close> states what a loop may expect of the guard against repeated calls as the locale
    \<open>request_guard\<close>; both loops (of the agent and of a lens) rest on its interpretation.
  \<^item> \<open>Providers\<close>, \<open>ModelPool\<close>, \<open>TierChain\<close>: failures of a provider, one question to a list of tiers, and the
    circuit breaker, the last also as a step relation over concurrent jobs.
  \<^item> \<open>Tools\<close>, \<open>Protocol\<close>, \<open>Investigate\<close>: the tools, the replies, and \<open>investigate\<close> itself;
    \<open>Investigation_Spec\<close> its invariant and what follows.
  \<^item> \<open>Lens\<close>, \<open>Challenge\<close>, \<open>Challenge_Spec\<close>: the loop of a lens, the four lenses, the phase, and what it can do
    to a decision.
  \<^item> \<open>ReviewGroups\<close>: \<open>review-group/review-group.ts\<close>, the grouping of cases that wait for the teacher.
    \<open>AuditSampling\<close>: \<open>audit-sampling.ts\<close> and \<open>audit-blind.ts\<close>, which cases are audited and what is hidden.
    \<open>BulkRules\<close>: \<open>bulk-rules.ts\<close> and the totals of a review by criteria. \<open>BreakerVerdict\<close>:
    \<open>auto-breaker/breaker-verdict.ts\<close>.
  \<^item> \<open>Lifecycle\<close>: the states of a result and of a grading run. \<open>Transactions\<close>: database transactions as a state
    monad with errors and its weakest preconditions, and the locale \<open>transition_system\<close> of invariants.
  \<^item> \<open>Ledger\<close>: the services that write results, reviews, exceptions, audits, breakers and publications
    (\<open>scoring/score.service.ts\<close>, \<open>grading-run.service.ts\<close>, \<open>grading.processor.ts\<close>, \<open>teacher-review.service.ts\<close>,
    \<open>review/\<close>, \<open>audit/\<close>, \<open>auto-breaker/\<close>) as transactions on the tables of one grading scope. \<open>Ledger_Spec\<close> has the
    invariant of the tables, that every operation keeps it, and \<open>Ledger_Publish\<close> what a published score says
    about the log of who gave it.
  \<^item> \<open>AuditLog\<close>: the log of user actions and its pages.
  \<^item> \<open>Effects\<close>: calls of the outside that may throw, which keep what was done before the error, with weakest
    preconditions and rules for properties that an effect keeps. \<open>Slots\<close>: \<open>sandbox-worker/slots.ts\<close>, the pool of
    slots with its queue, and the processors of a slot. \<open>WorkerConfig\<close>: \<open>config.ts\<close>. \<open>Comparators\<close>: \<open>comparators.ts\<close>.
    \<open>SandboxWorld\<close>: the calls of Docker, \<open>docker-args.ts\<close>, \<open>classify.ts\<close>, how Docker reads a command line, which
    lines are safe, and which containers live. \<open>FetchFiles\<close>: \<open>fetch-files.ts\<close>, with the generator of inputs on 32-bit words. \<open>Programs\<close>: \<open>programs.ts\<close>.
    \<open>HandleExec\<close> and \<open>HandleMeasure\<close>: the two jobs; \<open>Measure_Spec\<close> states as the locales \<open>quiet\<close> and \<open>frame\<close> what a
    part of a measurement must leave alone, and proves it of the parts by interpretation.
  \<^item> \<open>AgentPaths\<close>, \<open>AgentDisk\<close>, \<open>AgentUpload\<close>, \<open>AgentSync\<close> (\<open>apps/agent/src/workspace-files.ts\<close>, \<open>snapshot.ts\<close>,
    \<open>submission-uploader.ts\<close>, \<open>backup.ts\<close>, \<open>exam-materials.ts\<close>): which paths a name may reach, what the agent does to
    the disk, the collection, and what it exchanges with the server. \<open>SessionController\<close>: \<open>session-controller.ts\<close> and
    \<open>access-request.ts\<close> as a system of events. \<open>SessionController_Spec\<close> has its invariant, by interpretation of
    \<open>transition_system\<close>, and what follows for the student; \<open>AgentHistories\<close> two histories in which handlers meet.

  \<^bold>\<open>How the code is modelled.\<close> Objects are records, unions datatypes, exceptions \<open>Inl\<close> values, a mutated
  local state a record passed along. The outside (clock, provider, sandbox, random numbers, \<open>JSON.parse\<close>,
  \<open>safeParse\<close> of a job, SHA-256, UTF-8 length) is a parameter: a function over a world state \<open>'w\<close>, so every
  theorem holds for all of its behaviours. Integers of the code are \<open>int\<close> or \<open>nat\<close> where they are exact and
  rationals rounded by \<open>fl\<close> where they are doubles. A message in words is a value of a datatype that keeps
  the data it interpolates.

  \<^bold>\<open>Concurrency.\<close> The operations of \<open>Ledger\<close> that take the advisory lock of the scope are atomic events. A review
  by criteria takes no lock, so the event of a review carries the state that the service read before, which may
  be older than the table. The interleavings inside a bulk review are outside the model. The circuit
  breaker of \<open>TierChain\<close> is stepped by concurrent jobs. A handler of the agent runs to its first \<open>await\<close> and leaves
  the rest as a task, so a list of events is an interleaving of the handlers; one deliverable, one download of the
  materials and the write of one entry of a backup are single steps, and other events fall between the check of an
  entry and its write. A job of the sandbox is sequential: its inputs are
  fetched one after the other, and a program that outlives its time is killed after the run.

  \<^bold>\<open>Termination.\<close> No fuel is used: the loops \<open>inv_loop\<close>, \<open>lens_loop\<close> and \<open>tier_loop\<close> end because each turn
  that goes on uses up a round or a retry, which is their measure.

  \<^bold>\<open>What is not modelled.\<close> Prompt texts and rendered summaries; SQL (reads of rule and price tables are
  parameters of \<open>Ledger\<close>), and the constraints and triggers of the database, which may refuse a write that
  the model performs; queues, sockets and HTTP; the process that \<open>docker-cli.ts\<close> starts and \<open>main.ts\<close> of the worker;
  the zod schema of a sandbox job; the tokens of a challenge phase (each lens's own are); symbolic links and
  Windows paths on the disk of the agent, its window and its exchange of machine data in the laboratory; exam
  sessions, the web application and the remaining services, which are input and output around the database.
\<close>

end
